(* ===== verification/Prelude.thy ===== *)
theory Prelude
  imports
    Main
    "HOL-Library.AList"
    "HOL-Library.Char_ord"
    "HOL-Library.List_Lexorder"
    "HOL-Library.Multiset"
    "HOL-Library.Sublist"
begin

text \<open>
  Shared vocabulary of the development: Go maps as association lists with distinct
  keys, the functions of Go's \<^verbatim>\<open>strings\<close>, \<^verbatim>\<open>strconv\<close>, \<^verbatim>\<open>slices\<close> and \<^verbatim>\<open>sort\<close> packages that the
  sources call, the strict weak orders that comparison callbacks have to be, and the
  generic lemmas on them.

  A Go map has no iteration order. A \<open>gomap\<close> lists the entries in the order in which
  one \<^verbatim>\<open>range\<close> loop visits them; theorems about loops over maps hold for every such
  list, hence for every order the runtime may choose.
\<close>

named_theorems go_simps \<open>evaluation of the Go library functions\<close>

section \<open>Maps\<close>

type_synonym ('k, 'v) gomap = "('k \<times> 'v) list"

abbreviation gomap_get :: "('k, 'v) gomap \<Rightarrow> 'k \<Rightarrow> 'v option" where
  "gomap_get m k \<equiv> map_of m k"

abbreviation gomap_set :: "('k, 'v) gomap \<Rightarrow> 'k \<Rightarrow> 'v \<Rightarrow> ('k, 'v) gomap" where
  "gomap_set m k v \<equiv> AList.update k v m"

abbreviation gomap_del :: "('k, 'v) gomap \<Rightarrow> 'k \<Rightarrow> ('k, 'v) gomap" where
  "gomap_del m k \<equiv> AList.delete k m"

abbreviation gomap_keys :: "('k, 'v) gomap \<Rightarrow> 'k list" where
  "gomap_keys m \<equiv> map fst m"

abbreviation gomap_ok :: "('k, 'v) gomap \<Rightarrow> bool" where
  "gomap_ok m \<equiv> distinct (map fst m)"

text \<open>\<open>m[k]\<close> as an expression: the zero value of the element type when the key is missing.\<close>

definition gomap_get0 :: "'v \<Rightarrow> ('k, 'v) gomap \<Rightarrow> 'k \<Rightarrow> 'v" where
  "gomap_get0 z m k = (case map_of m k of None \<Rightarrow> z | Some v \<Rightarrow> v)"

section \<open>Strings\<close>

text \<open>\<^verbatim>\<open>strings.Split\<close> for a separator of one byte, and \<^verbatim>\<open>strings.Join\<close>.\<close>

fun split_by :: "(char \<Rightarrow> bool) \<Rightarrow> string \<Rightarrow> string list" where
  "split_by P [] = [[]]"
| "split_by P (x # xs) =
     (if P x then [] # split_by P xs
      else case split_by P xs of [] \<Rightarrow> [[x]] | p # ps \<Rightarrow> (x # p) # ps)"

definition split_on :: "char \<Rightarrow> string \<Rightarrow> string list" where
  "split_on c = split_by (\<lambda>x. x = c)"

fun join_with :: "string \<Rightarrow> string list \<Rightarrow> string" where
  "join_with sep [] = []"
| "join_with sep [p] = p"
| "join_with sep (p # q # ps) = p @ sep @ join_with sep (q # ps)"

abbreviation has_prefix :: "string \<Rightarrow> string \<Rightarrow> bool" where
  "has_prefix s p \<equiv> prefix p s"

abbreviation has_suffix :: "string \<Rightarrow> string \<Rightarrow> bool" where
  "has_suffix s p \<equiv> suffix p s"

text \<open>\<^verbatim>\<open>strings.CutPrefix\<close>: the rest of the string when the prefix is there.\<close>

definition cut_prefix :: "string \<Rightarrow> string \<Rightarrow> string option" where
  "cut_prefix s p = (if has_prefix s p then Some (drop (length p) s) else None)"

text \<open>\<^verbatim>\<open>strings.ReplaceAll\<close> for a non-empty pattern: leftmost, non-overlapping occurrences.\<close>

function replace_all :: "string \<Rightarrow> string \<Rightarrow> string \<Rightarrow> string" where
  "replace_all s pat new =
     (if pat = [] then s
      else case s of [] \<Rightarrow> []
        | c # cs \<Rightarrow>
            if has_prefix s pat then new @ replace_all (drop (length pat) s) pat new
            else c # replace_all cs pat new)"
  by pat_completeness auto
termination by (relation "measure (\<lambda>(s, _, _). length s)") auto

text \<open>\<^verbatim>\<open>strings.TrimSpace\<close> and \<^verbatim>\<open>strings.Fields\<close> on ASCII white space.\<close>

definition is_space :: "char \<Rightarrow> bool" where
  "is_space c \<longleftrightarrow> c \<in> {CHR '' '', CHR 0x09, CHR 0x0A, CHR 0x0B, CHR 0x0C, CHR 0x0D}"

definition trim_space :: "string \<Rightarrow> string" where
  "trim_space s = rev (dropWhile is_space (rev (dropWhile is_space s)))"

definition fields :: "string \<Rightarrow> string list" where
  "fields s = filter (\<lambda>p. p \<noteq> []) (split_by is_space s)"

text \<open>\<^verbatim>\<open>strings.TrimPrefix\<close> and \<^verbatim>\<open>strings.TrimSuffix\<close>.\<close>

definition trim_prefix :: "string \<Rightarrow> string \<Rightarrow> string" where
  "trim_prefix p s = (if has_prefix s p then drop (length p) s else s)"

definition trim_suffix :: "string \<Rightarrow> string \<Rightarrow> string" where
  "trim_suffix p s = (if has_suffix s p then take (length s - length p) s else s)"

text \<open>\<^verbatim>\<open>strings.ToLower\<close> and \<^verbatim>\<open>strings.ToUpper\<close> on ASCII.\<close>

definition lower_char :: "char \<Rightarrow> char" where
  "lower_char c = (let n = of_char c :: nat in if 65 \<le> n \<and> n \<le> 90 then char_of (n + 32) else c)"

definition upper_char :: "char \<Rightarrow> char" where
  "upper_char c = (let n = of_char c :: nat in if 97 \<le> n \<and> n \<le> 122 then char_of (n - 32) else c)"

abbreviation to_lower :: "string \<Rightarrow> string" where
  "to_lower s \<equiv> map lower_char s"

abbreviation to_upper :: "string \<Rightarrow> string" where
  "to_upper s \<equiv> map upper_char s"

text \<open>
  \<^verbatim>\<open>strings.Cut\<close> for a separator of one byte: what stands before it and after it, and whether it is
  there. \<^verbatim>\<open>strings.LastIndex\<close> splits at the last one.
\<close>

definition cut_at :: "char \<Rightarrow> string \<Rightarrow> string \<times> string \<times> bool" where
  "cut_at c s =
     (if c \<in> set s then (takeWhile (\<lambda>x. x \<noteq> c) s, tl (dropWhile (\<lambda>x. x \<noteq> c) s), True) else (s, [], False))"

definition cut_last :: "char \<Rightarrow> string \<Rightarrow> (string \<times> string) option" where
  "cut_last c s =
     (if c \<in> set s
      then Some (rev (tl (dropWhile (\<lambda>x. x \<noteq> c) (rev s))), rev (takeWhile (\<lambda>x. x \<noteq> c) (rev s)))
      else None)"

text \<open>The value of a hexadecimal digit.\<close>

definition hex_digit :: "char \<Rightarrow> nat option" where
  "hex_digit c =
     (let n = of_char c :: nat
      in if 48 \<le> n \<and> n \<le> 57 then Some (n - 48)
         else if 97 \<le> n \<and> n \<le> 102 then Some (n - 87)
         else if 65 \<le> n \<and> n \<le> 70 then Some (n - 55) else None)"

section \<open>Decimal integers\<close>

text \<open>\<^verbatim>\<open>fmt.Sprintf("%d")\<close> and \<^verbatim>\<open>strconv.ParseInt(s, 10, 64)\<close>, which \<^verbatim>\<open>strconv.Atoi\<close> is on 64 bit platforms.\<close>

definition digit_char :: "nat \<Rightarrow> char" where
  "digit_char d = char_of (48 + d)"

definition char_digit :: "char \<Rightarrow> nat option" where
  "char_digit c = (let n = of_char c :: nat in if 48 \<le> n \<and> n \<le> 57 then Some (n - 48) else None)"

function show_nat :: "nat \<Rightarrow> string" where
  "show_nat n = (if n < 10 then [digit_char n] else show_nat (n div 10) @ [digit_char (n mod 10)])"
  by pat_completeness auto
termination by (relation "measure id") auto

definition show_int :: "int \<Rightarrow> string" where
  "show_int i = (if i < 0 then CHR ''-'' # show_nat (nat (- i)) else show_nat (nat i))"

fun read_digits :: "nat \<Rightarrow> string \<Rightarrow> nat option" where
  "read_digits acc [] = Some acc"
| "read_digits acc (c # cs) =
     (case char_digit c of None \<Rightarrow> None | Some d \<Rightarrow> read_digits (10 * acc + d) cs)"

definition read_nat :: "string \<Rightarrow> nat option" where
  "read_nat s = (if s = [] then None else read_digits 0 s)"

definition in_int64 :: "int \<Rightarrow> bool" where
  "in_int64 i \<longleftrightarrow> - (2 ^ 63) \<le> i \<and> i < 2 ^ 63"

definition parse_int :: "string \<Rightarrow> int option" where
  "parse_int s =
     (let r = (case s of [] \<Rightarrow> None
        | c # cs \<Rightarrow> (if c = CHR ''-'' then map_option (\<lambda>n. - int n) (read_nat cs)
                    else if c = CHR ''+'' then map_option int (read_nat cs)
                    else map_option int (read_nat s)))
      in case r of None \<Rightarrow> None | Some i \<Rightarrow> (if in_int64 i then Some i else None))"

section \<open>Binary search\<close>

text \<open>
  The loop of \<^verbatim>\<open>slices.BinarySearchFunc\<close>: \<open>before x\<close> stands for \<^verbatim>\<open>cmp(x, target) < 0\<close>.
\<close>

function bsearch_loop :: "('a \<Rightarrow> bool) \<Rightarrow> 'a list \<Rightarrow> nat \<Rightarrow> nat \<Rightarrow> nat" where
  "bsearch_loop before xs i j =
     (if i < j then
        (let h = (i + j) div 2
         in if before (xs ! h) then bsearch_loop before xs (Suc h) j
            else bsearch_loop before xs i h)
      else i)"
  by pat_completeness auto
termination by (relation "measure (\<lambda>(_, _, i, j). j - i)") auto

definition bsearch :: "('a \<Rightarrow> bool) \<Rightarrow> 'a list \<Rightarrow> nat" where
  "bsearch before xs = bsearch_loop before xs 0 (length xs)"

text \<open>\<^verbatim>\<open>slices.BinarySearchFunc\<close> itself: the position and whether the element there matches.\<close>

definition go_index :: "'a list \<Rightarrow> int \<Rightarrow> 'a option" where
  \<comment> \<open>\<^verbatim>\<open>xs[i]\<close>: \<open>None\<close> where Go panics\<close>
  "go_index xs i = (if 0 \<le> i \<and> i < int (length xs) then Some (xs ! nat i) else None)"

definition binarySearchFunc :: "('a \<Rightarrow> int) \<Rightarrow> 'a list \<Rightarrow> nat \<times> bool" where
  "binarySearchFunc cmp xs =
     (let i = bsearch (\<lambda>x. cmp x < 0) xs in (i, i < length xs \<and> cmp (xs ! i) = 0))"


declare replace_all.simps [simp del]
declare show_nat.simps [simp del]
declare bsearch_loop.simps [simp del]

section \<open>Lemmas: maps\<close>

lemma gomap_set_get [simp]: "map_of (AList.update k v m) = (map_of m)(k \<mapsto> v)"
  by (rule update_conv')

lemma gomap_del_get [simp]: "map_of (AList.delete k m) = (map_of m)(k := None)"
  by (rule delete_conv')

lemma gomap_set_ok [simp]: "gomap_ok m \<Longrightarrow> gomap_ok (AList.update k v m)"
  by (rule distinct_update)

lemma gomap_del_ok [simp]: "gomap_ok m \<Longrightarrow> gomap_ok (AList.delete k m)"
  by (rule distinct_delete)

lemma gomap_get_in_keys: "map_of m k = Some v \<Longrightarrow> k \<in> set (gomap_keys m)"
  by (force dest: map_of_SomeD)

lemma gomap_keys_dom: "set (gomap_keys m) = dom (map_of m)"
  by (simp add: dom_map_of_conv_image_fst)

lemma gomap_get0_set [simp]:
  "gomap_get0 z (AList.update k v m) k' = (if k' = k then v else gomap_get0 z m k')"
  by (simp add: gomap_get0_def)

lemma gomap_get0_range: "gomap_get0 z m k = z \<or> gomap_get0 z m k \<in> snd ` set m"
  by (force simp: gomap_get0_def split: option.splits dest: map_of_SomeD)

text \<open>Two iteration orders of the same map: a permutation of the entries.\<close>

lemma gomap_perm_get:
  assumes "mset m = mset m'" and "gomap_ok m"
  shows "map_of m = map_of m'"
proof -
  from assms(1) have keys: "mset (gomap_keys m) = mset (gomap_keys m')" by simp
  have "gomap_ok m'" using assms(2) keys by (metis mset_eq_imp_distinct_iff)
  moreover have "set m = set m'" using assms(1) by (metis set_mset_mset)
  ultimately show ?thesis using assms(2) by (metis map_of_inject_set)
qed

text \<open>\<open>last_entry P xs\<close>: the last element that satisfies \<open>P\<close>, the one a loop of writes leaves.\<close>

definition last_entry :: "('a \<Rightarrow> bool) \<Rightarrow> 'a list \<Rightarrow> 'a option" where
  "last_entry P xs = List.find P (rev xs)"

lemma find_append:
  "List.find P (xs @ ys) = (case List.find P xs of None \<Rightarrow> List.find P ys | Some x \<Rightarrow> Some x)"
  by (induction xs) auto

lemma last_entry_snoc: "last_entry P (xs @ [x]) = (if P x then Some x else last_entry P xs)"
  by (simp add: last_entry_def)

lemma last_entry_Nil [simp]: "last_entry P [] = None"
  by (simp add: last_entry_def)

lemma last_entry_None: "last_entry P xs = None \<longleftrightarrow> (\<forall>x\<in>set xs. \<not> P x)"
  by (auto simp: last_entry_def find_None_iff)

lemma last_entry_Some: "last_entry P xs = Some x \<Longrightarrow> x \<in> set xs \<and> P x"
  by (induction xs rule: rev_induct) (auto simp: last_entry_snoc split: if_splits)

text \<open>A loop that writes \<open>m[f x] = g x\<close> leaves the last write for each key.\<close>

lemma map_of_foldl_set:
  "map_of (foldl (\<lambda>m x. gomap_set m (f x) (g x)) m0 xs) k =
     (case last_entry (\<lambda>x. f x = k) xs of Some x \<Rightarrow> Some (g x) | None \<Rightarrow> map_of m0 k)"
  by (induction xs rule: rev_induct) (auto simp: last_entry_snoc)

section \<open>Lemmas: strings\<close>

lemma split_by_not_Nil [simp]: "split_by P s \<noteq> []"
  by (induction s) (auto split: list.splits)

lemma split_on_not_Nil [simp]: "split_on c s \<noteq> []"
  by (simp add: split_on_def)

lemma split_on_simps [simp, go_simps]:
  "split_on c [] = [[]]"
  "split_on c (x # xs) =
     (if x = c then [] # split_on c xs
      else (x # hd (split_on c xs)) # tl (split_on c xs))"
  by (auto simp: split_on_def split: list.splits)

lemma split_on_none: "c \<notin> set s \<Longrightarrow> split_on c s = [s]"
  by (induction s) auto

lemma split_on_cons: "c \<notin> set a \<Longrightarrow> split_on c (a @ c # b) = a # split_on c b"
  by (induction a) auto

lemma length_split_on: "length (split_on c s) = Suc (count_list s c)"
proof (induction s)
  case (Cons x s)
  then show ?case
    using split_on_not_Nil [of c s] by (auto simp: neq_Nil_conv)
qed simp

lemma join_split_on: "join_with [c] (split_on c s) = s"
proof (induction s)
  case (Cons x s)
  show ?case
  proof (cases "split_on c s")
    case Nil
    then show ?thesis by simp
  next
    case (Cons p ps)
    with Cons.IH show ?thesis by (cases ps) auto
  qed
qed simp

lemma split_on_parts: "p \<in> set (split_on c s) \<Longrightarrow> c \<notin> set p"
proof (induction s arbitrary: p)
  case (Cons x s)
  then show ?case
    by (cases "split_on c s") (auto split: if_splits)
qed simp

lemma suffix_decide [go_simps]: "suffix p s \<longleftrightarrow> prefix (rev p) (rev s)"
  by (rule suffix_to_prefix)

section \<open>Lemmas: decimal integers\<close>

lemma char_digit_digit_char [simp]: "d < 10 \<Longrightarrow> char_digit (digit_char d) = Some d"
  by (simp add: char_digit_def digit_char_def)

lemma read_digits_append:
  "read_digits acc (s @ t) = Option.bind (read_digits acc s) (\<lambda>a. read_digits a t)"
  by (induction s arbitrary: acc) (auto split: option.splits)

lemma show_nat_not_Nil [simp]: "show_nat n \<noteq> []"
  by (subst show_nat.simps) simp

lemma read_digits_show_nat: "read_digits 0 (show_nat n) = Some n"
proof (induction n rule: show_nat.induct)
  case (1 n)
  show ?case
  proof (cases "n < 10")
    case True
    then show ?thesis by (subst show_nat.simps) simp
  next
    case False
    with "1.IH" show ?thesis
      by (subst show_nat.simps) (simp add: read_digits_append)
  qed
qed

lemma read_nat_show_nat [simp]: "read_nat (show_nat n) = Some n"
  by (simp add: read_nat_def read_digits_show_nat)

lemma show_nat_digits: "c \<in> set (show_nat n) \<Longrightarrow> char_digit c \<noteq> None"
proof (induction n rule: show_nat.induct)
  case (1 n)
  then show ?case
    by (subst (asm) show_nat.simps) (auto split: if_splits)
qed

lemma char_digit_separators [simp]:
  "char_digit (CHR ''-'') = None" "char_digit (CHR ''+'') = None" "char_digit (CHR '' '') = None"
  by (simp_all add: char_digit_def)

lemma show_nat_hd: "hd (show_nat n) \<noteq> CHR ''-'' \<and> hd (show_nat n) \<noteq> CHR ''+''"
  using show_nat_digits [of "hd (show_nat n)" n] by auto

lemma parse_int_show_int: "in_int64 i \<Longrightarrow> parse_int (show_int i) = Some i"
proof (cases "i < 0")
  case False
  moreover assume "in_int64 i"
  moreover obtain c cs where "show_nat (nat i) = c # cs"
    by (meson neq_Nil_conv show_nat_not_Nil)
  ultimately show ?thesis
    using show_nat_hd [of "nat i"] read_nat_show_nat [of "nat i"]
    by (simp add: parse_int_def show_int_def)
qed (simp add: parse_int_def show_int_def)

lemma show_int_no_space: "CHR '' '' \<notin> set (show_int i)"
  by (auto simp: show_int_def dest: show_nat_digits)

lemma parse_int_range: "parse_int s = Some i \<Longrightarrow> in_int64 i"
  by (auto simp: parse_int_def Let_def split: option.splits if_splits)

section \<open>Lemmas: binary search\<close>

lemma bsearch_loop_partition:
  assumes "i \<le> k" "k \<le> j" "j \<le> length xs"
    and "\<And>a. a < k \<Longrightarrow> before (xs ! a)"
    and "\<And>a. k \<le> a \<Longrightarrow> a < length xs \<Longrightarrow> \<not> before (xs ! a)"
  shows "bsearch_loop before xs i j = k"
  using assms(1-3)
proof (induction "j - i" arbitrary: i j rule: less_induct)
  case less
  show ?case
  proof (cases "i < j")
    case False
    with less.prems show ?thesis by (simp add: bsearch_loop.simps [of before xs i j])
  next
    case True
    define h where "h = (i + j) div 2"
    from True have h: "i \<le> h" "h < j" by (auto simp: h_def)
    show ?thesis
    proof (cases "before (xs ! h)")
      case hb: True
      with assms(5) [of h] h less.prems have "h < k" by (meson leI order_less_le_trans)
      with less.hyps [of j "Suc h"] less.prems h have "bsearch_loop before xs (Suc h) j = k" by auto
      with True hb show ?thesis by (simp add: bsearch_loop.simps [of before xs i j] h_def Let_def)
    next
      case hb: False
      with assms(4) [of h] have "k \<le> h" by (meson leI)
      with less.hyps [of h i] less.prems h have "bsearch_loop before xs i h = k" by auto
      with True hb show ?thesis by (simp add: bsearch_loop.simps [of before xs i j] h_def Let_def)
    qed
  qed
qed

lemma bsearch_partition:
  assumes "k \<le> length xs"
    and "\<And>a. a < k \<Longrightarrow> before (xs ! a)"
    and "\<And>a. k \<le> a \<Longrightarrow> a < length xs \<Longrightarrow> \<not> before (xs ! a)"
  shows "bsearch before xs = k"
  unfolding bsearch_def using assms by (intro bsearch_loop_partition) auto

lemma bsearch_takeWhile:
  assumes "sorted_wrt (\<lambda>x y. before y \<longrightarrow> before x) xs"
  shows "bsearch before xs = length (takeWhile before xs)"
proof (rule bsearch_partition)
  show "length (takeWhile before xs) \<le> length xs" by (rule length_takeWhile_le)
  fix a assume "a < length (takeWhile before xs)"
  then show "before (xs ! a)" by (metis nth_mem set_takeWhileD takeWhile_nth)
next
  fix a assume a: "length (takeWhile before xs) \<le> a" "a < length xs"
  let ?k = "length (takeWhile before xs)"
  have k: "\<not> before (xs ! ?k)" using a by (intro nth_length_takeWhile) simp
  show "\<not> before (xs ! a)"
  proof (cases "?k = a")
    case False
    with a have "before (xs ! a) \<longrightarrow> before (xs ! ?k)"
      using sorted_wrt_nth_less [OF assms, of ?k a] by simp
    with k show ?thesis by simp
  qed (use k in simp)
qed

lemma bsearch_le: "bsearch before xs \<le> length xs"
proof -
  have "i \<le> j \<Longrightarrow> bsearch_loop before xs i j \<le> j" for i j
  proof (induction "j - i" arbitrary: i j rule: less_induct)
    case less
    then show ?case
    proof (cases "i < j")
      case True
      define h where "h = (i + j) div 2"
      from True have h: "i \<le> h" "h < j" by (auto simp: h_def)
      from less.hyps [of j "Suc h"] less.hyps [of h i] h True show ?thesis
        by (fastforce simp: bsearch_loop.simps [of before xs i j] h_def [symmetric] Let_def)
    qed (simp add: bsearch_loop.simps [of before xs])
  qed
  then show ?thesis by (simp add: bsearch_def)
qed

text \<open>The position found is 0 or follows an element that comes before the target.\<close>

lemma bsearch_loop_pos:
  "bsearch_loop before xs i j \<noteq> i \<Longrightarrow> 0 < bsearch_loop before xs i j \<and> before (xs ! (bsearch_loop before xs i j - 1))"
proof (induction "j - i" arbitrary: i j rule: less_induct)
  case less
  show ?case
  proof (cases "i < j")
    case False
    with less.prems show ?thesis by (simp add: bsearch_loop.simps [of before xs i j])
  next
    case True
    define h where "h = (i + j) div 2"
    from True have h: "i \<le> h" "h < j" by (auto simp: h_def)
    have eq: "bsearch_loop before xs i j =
        (if before (xs ! h) then bsearch_loop before xs (Suc h) j else bsearch_loop before xs i h)"
      using True by (simp add: bsearch_loop.simps [of before xs i j] h_def Let_def)
    show ?thesis
    proof (cases "before (xs ! h)")
      case hb: True
      with eq less.hyps [of j "Suc h"] h show ?thesis
        by (cases "bsearch_loop before xs (Suc h) j = Suc h") auto
    next
      case False
      with eq less.hyps [of h i] less.prems h show ?thesis by auto
    qed
  qed
qed

lemma bsearch_pos: "bsearch before xs = Suc h \<Longrightarrow> before (xs ! h)"
  using bsearch_loop_pos [of before xs 0 "length xs"] by (simp add: bsearch_def)

section \<open>Insertion at a position\<close>

definition ins_at :: "nat \<Rightarrow> 'a \<Rightarrow> 'a list \<Rightarrow> 'a list" where
  "ins_at i x xs = take i xs @ x # drop i xs"

lemma length_ins_at [simp]: "length (ins_at i x xs) = Suc (length xs)"
  by (simp add: ins_at_def)

lemma set_ins_at [simp]: "set (ins_at i x xs) = insert x (set xs)"
  by (metis Un_insert_right append_take_drop_id ins_at_def list.simps(15) set_append)

lemma ins_at_length [simp]: "length xs \<le> i \<Longrightarrow> ins_at i x xs = xs @ [x]"
  by (simp add: ins_at_def)

lemma last_ins_at: "i < length xs \<Longrightarrow> last (ins_at i x xs) = last xs"
  by (simp add: ins_at_def)

lemma mset_ins_at [simp]: "mset (ins_at i x xs) = add_mset x (mset xs)"
  by (metis append_take_drop_id ins_at_def mset.simps(2) mset_append union_mset_add_mset_right)

lemma distinct_map_ins_at:
  "distinct (map f (ins_at i x xs)) \<longleftrightarrow> f x \<notin> f ` set xs \<and> distinct (map f xs)"
proof -
  have "mset (map f (ins_at i x xs)) = mset (map f (x # xs))" by simp
  then have "distinct (map f (ins_at i x xs)) = distinct (map f (x # xs))"
    by (rule mset_eq_imp_distinct_iff)
  then show ?thesis by auto
qed

lemma distinct_submset:
  assumes "mset xs \<subseteq># mset ys" and "distinct ys"
  shows "distinct xs"
proof -
  have "count (mset xs) a = (if a \<in> set xs then 1 else 0)" for a
  proof -
    have "count (mset xs) a \<le> count (mset ys) a" using assms(1) by (rule mset_subset_eq_count)
    moreover have "count (mset ys) a \<le> 1" using assms(2) by (simp add: distinct_count_atmost_1)
    ultimately have "count (mset xs) a \<le> 1" by (rule order_trans)
    moreover have "count (mset xs) a = 0 \<longleftrightarrow> a \<notin> set xs" by (rule count_mset_0_iff)
    ultimately show ?thesis by (cases "count (mset xs) a") auto
  qed
  then show ?thesis by (simp add: distinct_count_atmost_1)
qed

section \<open>Strict weak orders and sorted insertion\<close>

text \<open>
  A comparison callback \<open>lt\<close> that orders a slice has to be a strict weak order. The
  locale states this contract; sorted insertion by binary search is analysed once here
  and used by the buckets of the vacuum and by the merged listing of the command line
  client.
\<close>

locale weak_order =
  fixes lt :: "'a \<Rightarrow> 'a \<Rightarrow> bool"
  assumes asym: "lt x y \<Longrightarrow> \<not> lt y x"
    and neg_trans: "\<not> lt x y \<Longrightarrow> \<not> lt y z \<Longrightarrow> \<not> lt x z"
begin

lemma irrefl: "\<not> lt x x"
  using asym by blast

lemma lt_trans: "lt x y \<Longrightarrow> lt y z \<Longrightarrow> lt x z"
  using asym neg_trans by blast

text \<open>\<open>before x\<close> holds for a prefix of a slice sorted by \<open>lt\<close>.\<close>

lemma before_prefix:
  "sorted_wrt (\<lambda>x y. \<not> lt y x) xs \<Longrightarrow> sorted_wrt (\<lambda>x y. lt y t \<longrightarrow> lt x t) xs"
  by (erule sorted_wrt_mono_rel [rotated]) (metis neg_trans)

lemma sorted_insert:
  assumes "sorted_wrt (\<lambda>x y. \<not> lt y x) xs" and "i = length (takeWhile (\<lambda>x. lt x t) xs)"
  shows "sorted_wrt (\<lambda>x y. \<not> lt y x) (take i xs @ t # drop i xs)"
proof -
  have ti: "take i xs = takeWhile (\<lambda>x. lt x t) xs" and di: "drop i xs = dropWhile (\<lambda>x. lt x t) xs"
    by (simp_all add: assms(2) flip: takeWhile_eq_take dropWhile_eq_drop)
  have pre: "lt x t" if "x \<in> set (take i xs)" for x
    using that by (auto simp: ti dest: set_takeWhileD)
  have post: "\<not> lt y t" if "y \<in> set (drop i xs)" for y
  proof -
    from that obtain z zs where z: "drop i xs = z # zs" by (cases "drop i xs") auto
    then have "\<not> lt z t" by (simp add: di dropWhile_eq_Cons_conv)
    moreover have "sorted_wrt (\<lambda>x y. \<not> lt y x) (z # zs)"
      using assms(1) z by (metis sorted_wrt_drop)
    ultimately show ?thesis using that z neg_trans [of y z t] by auto
  qed
  have "sorted_wrt (\<lambda>x y. \<not> lt y x) (take i xs @ drop i xs)"
    using assms(1) by simp
  then show ?thesis using pre post
    by (simp add: sorted_wrt_append del: append_take_drop_id) (meson asym lt_trans)
qed

text \<open>
  Keeping the first \<open>n\<close> of a stream: every element is inserted before its equals, and the
  list is cut to \<open>n\<close>.
\<close>

definition top_step :: "nat \<Rightarrow> 'a list \<Rightarrow> 'a \<Rightarrow> 'a list" where
  "top_step n ps x = take n (ins_at (length (takeWhile (\<lambda>p. lt p x) ps)) x ps)"

definition is_top :: "nat \<Rightarrow> 'a list \<Rightarrow> 'a list \<Rightarrow> bool" where
  "is_top n ps xs \<longleftrightarrow>
     sorted_wrt (\<lambda>x y. \<not> lt y x) ps \<and> length ps = min n (length xs)
     \<and> (\<exists>rest. mset xs = mset ps + rest \<and> (\<forall>x\<in>#rest. \<forall>y\<in>set ps. \<not> lt x y))"

lemma is_top_step:
  assumes "is_top n ps xs"
  shows "is_top n (top_step n ps x) (xs @ [x])"
proof -
  let ?i = "length (takeWhile (\<lambda>p. lt p x) ps)"
  let ?qs = "ins_at ?i x ps"
  from assms obtain rest where rest: "mset xs = mset ps + rest" "\<forall>x\<in>#rest. \<forall>y\<in>set ps. \<not> lt x y"
    and srt: "sorted_wrt (\<lambda>x y. \<not> lt y x) ps" and len: "length ps = min n (length xs)"
    unfolding is_top_def by blast
  have qs: "sorted_wrt (\<lambda>x y. \<not> lt y x) ?qs"
    unfolding ins_at_def by (rule sorted_insert [OF srt refl])
  have "sorted_wrt (\<lambda>x y. \<not> lt y x) (take n ?qs @ drop n ?qs)" using qs by simp
  then have dom: "\<forall>a\<in>set (take n ?qs). \<forall>b\<in>set (drop n ?qs). \<not> lt b a"
    by (simp only: sorted_wrt_append) blast
  have "sorted_wrt (\<lambda>x y. \<not> lt y x) (take n ?qs)" using qs by (rule sorted_wrt_take)
  moreover have "length (take n ?qs) = min n (length (xs @ [x]))" using len by simp
  moreover have "mset (xs @ [x]) = mset (take n ?qs) + (mset (drop n ?qs) + rest)"
  proof -
    have "mset (take n ?qs) + mset (drop n ?qs) = add_mset x (mset ps)"
      by (metis append_take_drop_id mset_append mset_ins_at)
    then have "mset (take n ?qs) + (mset (drop n ?qs) + rest) = add_mset x (mset ps + rest)"
      by (metis union_assoc union_mset_add_mset_left)
    then show ?thesis using rest(1) by simp
  qed
  moreover have "\<not> lt r y" if r: "r \<in># rest" and y: "y \<in> set (take n ?qs)" for r y
  proof (cases "y \<in> set ps")
    case True
    with rest(2) r show ?thesis by blast
  next
    case False
    have "length xs = length ps + size rest" using rest(1) by (metis size_mset size_union)
    moreover have "size rest > 0" using r by (metis nonempty_has_size empty_iff set_mset_empty)
    ultimately have full: "length ps = n" using len by linarith
    from y have "y \<in> set ?qs" by (rule in_set_takeD)
    with False have yx: "y = x" by simp
    have "?i < n"
    proof (rule ccontr)
      assume "\<not> ?i < n"
      then have "take n ?qs = ps" using full by simp
      with y False show False by simp
    qed
    with full have "\<not> lt (ps ! ?i) x" by (metis nth_length_takeWhile)
    moreover have "\<not> lt r (ps ! ?i)" using rest(2) r \<open>?i < n\<close> full by (metis nth_mem)
    ultimately show ?thesis using yx neg_trans by blast
  qed
  ultimately have "is_top n (take n ?qs) (xs @ [x])" using dom unfolding is_top_def
    by (intro conjI exI [where x = "mset (drop n ?qs) + rest"]) (assumption+, simp only: set_mset_union Un_iff set_mset_mset, blast)
  then show ?thesis by (simp only: top_step_def)
qed

lemma is_top_foldl: "is_top n (foldl (top_step n) [] xs) xs"
proof (induction xs rule: rev_induct)
  case Nil
  show ?case by (simp add: is_top_def)
next
  case (snoc x xs)
  then show ?case by (simp add: is_top_step)
qed

end

end
