(* ===== verification/Kube_Types.thy ===== *)
theory Kube_Types
  imports Prelude
begin

text \<open>
  The data the components exchange: Kubernetes objects as the components read them, and
  the custom resources of \<^verbatim>\<open>cmd/operator/api/v1\<close>.

  A Kubernetes object (\<^verbatim>\<open>unstructured.Unstructured\<close>) is a record of what its accessors
  return. A pointer or a value that may be nil is an \<open>option\<close>. An instant is an \<open>int\<close>,
  with \<open>0\<close> for Go's zero time. \<open>u_strings\<close> lists the string-valued leaves of the
  object by path, which is what \<^verbatim>\<open>unstructured.NestedString\<close> finds.
\<close>

type_synonym go_time = int

section \<open>Kubernetes objects\<close>

record unstructured =
  u_apiVersion :: "string option"
  u_kind :: "string option"
  u_name :: string
  u_namespace :: string
  u_uid :: string
  u_resourceVersion :: string
  u_creationTimestamp :: go_time
  u_deletionTimestamp :: "go_time option"
  u_managedFields :: "go_time option list"
  u_ownerReferences :: "string list"
  u_labels :: "(string, string) gomap"
  u_strings :: "(string list \<times> string) list"

definition GetAPIVersion :: "unstructured \<Rightarrow> string" where
  "GetAPIVersion obj = (case u_apiVersion obj of None \<Rightarrow> [] | Some v \<Rightarrow> v)"

definition GetKind :: "unstructured \<Rightarrow> string" where
  "GetKind obj = (case u_kind obj of None \<Rightarrow> [] | Some v \<Rightarrow> v)"

text \<open>\<^verbatim>\<open>metav1.Time.Before\<close> on pointers: false as soon as one side is nil.\<close>

fun time_before :: "go_time option \<Rightarrow> go_time option \<Rightarrow> bool" where
  "time_before (Some t) (Some u) = (t < u)"
| "time_before _ _ = False"

section \<open>Constants\<close>

definition KubeArchiveConfigResourceName :: string where
  "KubeArchiveConfigResourceName = ''kubearchive''"

definition SinkFilterResourceName :: string where
  "SinkFilterResourceName = ''sink-filters''"

definition SinkFilterGlobalNamespace :: string where
  "SinkFilterGlobalNamespace = ''___global___''"

definition ClusterVacuumAllNamespaces :: string where
  "ClusterVacuumAllNamespaces = ''___all-namespaces___''"

definition KubeArchiveSinkName :: string where
  "KubeArchiveSinkName = ''kubearchive-sink''"

definition KubeArchiveSinkFilterName :: string where
  "KubeArchiveSinkFilterName = ''kubearchive-sinkfilter''"

definition KubeArchiveOperatorName :: string where
  "KubeArchiveOperatorName = ''kubearchive-operator''"

definition KubeArchiveVacuumName :: string where
  "KubeArchiveVacuumName = ''kubearchive-vacuum''"

definition KubeArchiveClusterVacuumName :: string where
  "KubeArchiveClusterVacuumName = ''kubearchive-cluster-vacuum''"

text \<open>\<open>init\<close>: the namespace from the environment, \<open>kubearchive\<close> when it is unset or empty.\<close>

definition KubeArchiveNamespace :: "(string \<Rightarrow> string option) \<Rightarrow> string" where
  "KubeArchiveNamespace getenv =
     (case getenv ''KUBEARCHIVE_NAMESPACE'' of
        None \<Rightarrow> ''kubearchive''
      | Some v \<Rightarrow> if v = [] then ''kubearchive'' else v)"

section \<open>Custom resources\<close>

record apiVersionKind =
  avk_Kind :: string
  avk_APIVersion :: string

definition Key :: "apiVersionKind \<Rightarrow> string" where
  "Key a = avk_Kind a @ ''-'' @ avk_APIVersion a"

record keepLastKeepRule =
  kk_Count :: int
  kk_When :: string
  kk_SortBy :: string

record keepLastOverrideRule =
  ko_Name :: string
  ko_Count :: int

record keepLastWhenConfig =
  kw_Keep :: "keepLastKeepRule list"
  kw_Override :: "keepLastOverrideRule list"

record kubeArchiveConfigResource =
  kr_Selector :: apiVersionKind
  kr_ArchiveWhen :: string
  kr_DeleteWhen :: string
  kr_ArchiveOnDelete :: string
  kr_KeepLastWhen :: "keepLastWhenConfig option"

record kubeArchiveConfig =
  kac_Name :: string
  kac_Namespace :: string
  kac_DeletionTimestamp :: "go_time option"
  kac_Finalizers :: "string list"
  kac_Resources :: "kubeArchiveConfigResource list option"

record clusterKeepLastRule =
  ck_Name :: string
  ck_Count :: int
  ck_When :: string
  ck_SortBy :: string

record clusterKubeArchiveConfigResource =
  cr_Selector :: apiVersionKind
  cr_ArchiveWhen :: string
  cr_DeleteWhen :: string
  cr_ArchiveOnDelete :: string
  cr_KeepLastWhen :: "clusterKeepLastRule list"

record clusterKubeArchiveConfig =
  ckac_Name :: string
  ckac_DeletionTimestamp :: "go_time option"
  ckac_Finalizers :: "string list"
  ckac_Resources :: "clusterKubeArchiveConfigResource list"

record sinkFilter =
  sf_Name :: string
  sf_Namespace :: string
  sf_Namespaces :: "(string, kubeArchiveConfigResource list) gomap option"
  sf_Cluster :: "clusterKubeArchiveConfigResource list"

record namespaceVacuumConfig =
  nvc_Name :: string
  nvc_Namespace :: string
  nvc_Resources :: "apiVersionKind list"

record clusterVacuumConfig =
  cvc_Name :: string
  cvc_Namespace :: string
  cvc_Namespaces :: "(string, apiVersionKind list) gomap"

text \<open>Reading a nil slice or a nil map is reading an empty one.\<close>

definition kacResources :: "kubeArchiveConfig \<Rightarrow> kubeArchiveConfigResource list" where
  "kacResources k = (case kac_Resources k of None \<Rightarrow> [] | Some rs \<Rightarrow> rs)"

definition sfNamespaces :: "sinkFilter \<Rightarrow> (string, kubeArchiveConfigResource list) gomap" where
  "sfNamespaces sf = (case sf_Namespaces sf of None \<Rightarrow> [] | Some m \<Rightarrow> m)"

section \<open>Keys\<close>

text \<open>A key determines kind and API version: Kubernetes kinds are identifiers and hold no dash.\<close>

lemma Key_inj:
  assumes "Key a = Key b" and "CHR ''-'' \<notin> set (avk_Kind a)" and "CHR ''-'' \<notin> set (avk_Kind b)"
  shows "a = b"
proof -
  have "split_on CHR ''-'' (Key a) = split_on CHR ''-'' (Key b)" using assms(1) by simp
  then have "avk_Kind a = avk_Kind b"
    using assms(2,3) by (simp add: Key_def split_on_cons)
  with assms(1) show ?thesis by (simp add: Key_def apiVersionKind.equality)
qed

lemma Key_split:
  "CHR ''-'' \<notin> set (avk_Kind a) \<Longrightarrow>
    split_on CHR ''-'' (Key a) = avk_Kind a # split_on CHR ''-'' (avk_APIVersion a)"
  by (simp add: Key_def split_on_cons)

section \<open>A sample object\<close>

text \<open>An object of a given kind, for the evaluations at concrete inputs.\<close>

definition sample_obj :: "string \<Rightarrow> string \<Rightarrow> string \<Rightarrow> go_time \<Rightarrow> unstructured" where
  "sample_obj kind name uid created =
     \<lparr>u_apiVersion = Some ''v1'', u_kind = Some kind, u_name = name, u_namespace = ''ns'', u_uid = uid,
      u_resourceVersion = ''1'', u_creationTimestamp = created, u_deletionTimestamp = None,
      u_managedFields = [], u_ownerReferences = [], u_labels = [], u_strings = []\<rparr>"

lemma sample_obj_simps [simp]:
  "GetKind (sample_obj k n u c) = k" "GetAPIVersion (sample_obj k n u c) = ''v1''" "u_uid (sample_obj k n u c) = u"
  "u_name (sample_obj k n u c) = n" "u_namespace (sample_obj k n u c) = ''ns''"
  "u_creationTimestamp (sample_obj k n u c) = c" "u_deletionTimestamp (sample_obj k n u c) = None"
  by (simp_all add: sample_obj_def GetKind_def GetAPIVersion_def)

end
