(* ===== verification/Cel_Filters.thy ===== *)
theory Cel_Filters
  imports Kube_Types
begin

text \<open>
  \<^verbatim>\<open>pkg/cel/cel.go\<close> and \<^verbatim>\<open>pkg/filters/filters.go\<close>: evaluating CEL programs and turning a
  SinkFilter into compiled expressions per resource kind.

  The CEL engine is a library: \<open>compile\<close> stands for \<^verbatim>\<open>CompileCELExpr\<close>'s parse, check and
  program steps (\<open>None\<close> for an error) and \<open>eval\<close> for \<^verbatim>\<open>ContextEval\<close>. A program is
  evaluated at most once on an object in every handler modelled here, so \<open>eval\<close> as a
  function of program and object covers expressions that read the clock.
\<close>

section \<open>CEL\<close>

datatype celval = CelBool bool | CelString string | CelInt int | CelList "celval list" | CelErr | CelNil

type_synonym 'p cel_compile = "string \<Rightarrow> 'p option"
type_synonym 'p cel_eval = "'p \<Rightarrow> unstructured \<Rightarrow> celval"

definition ExecuteCEL :: "'p cel_eval \<Rightarrow> 'p option \<Rightarrow> unstructured \<Rightarrow> celval" where
  "ExecuteCEL eval program obj =
     (case program of None \<Rightarrow> CelNil | Some p \<Rightarrow> eval p obj)"

definition ExecuteBooleanCEL :: "'p cel_eval \<Rightarrow> 'p option \<Rightarrow> unstructured \<Rightarrow> bool" where
  "ExecuteBooleanCEL eval program obj =
     (case ExecuteCEL eval program obj of CelBool b \<Rightarrow> b | _ \<Rightarrow> False)"

section \<open>Compiled filters\<close>

datatype filterType = Vacuum | Controller

record 'p keepLastWhenRule =
  klr_Name :: string
  klr_When :: "'p option"
  klr_WhenText :: string
  klr_Count :: int
  klr_SortBy :: string

record 'p celExpressions =
  ce_ArchiveWhen :: "'p option"
  ce_DeleteWhen :: "'p option"
  ce_ArchiveOnDelete :: "'p option"
  ce_KeepLastWhen :: "'p keepLastWhenRule list"

definition CompileCELExpression :: "'p cel_compile \<Rightarrow> string \<Rightarrow> 'p option" where
  "CompileCELExpression compile expression =
     (if expression = [] then None else compile expression)"

definition compileKeepLastWhenRules ::
    "'p cel_compile \<Rightarrow> keepLastWhenConfig option \<Rightarrow> 'p keepLastWhenRule list" where
  "compileKeepLastWhenRules compile keepLastWhen =
     (case keepLastWhen of None \<Rightarrow> []
      | Some c \<Rightarrow>
          map (\<lambda>r. \<lparr>klr_Name = [], klr_When = CompileCELExpression compile (kk_When r),
                    klr_WhenText = trim_space (kk_When r), klr_Count = kk_Count r,
                    klr_SortBy = kk_SortBy r\<rparr>) (kw_Keep c)
          @ map (\<lambda>r. \<lparr>klr_Name = ko_Name r, klr_When = None, klr_WhenText = [],
                      klr_Count = ko_Count r, klr_SortBy = []\<rparr>) (kw_Override c))"

definition compileClusterKeepLastWhenRules ::
    "'p cel_compile \<Rightarrow> clusterKeepLastRule list \<Rightarrow> 'p keepLastWhenRule list" where
  "compileClusterKeepLastWhenRules compile keepLastWhen =
     map (\<lambda>r. \<lparr>klr_Name = ck_Name r, klr_When = CompileCELExpression compile (ck_When r),
               klr_WhenText = trim_space (ck_When r), klr_Count = ck_Count r,
               klr_SortBy = ck_SortBy r\<rparr>) keepLastWhen"

text \<open>The expressions of one entry, by filter type (the \<^verbatim>\<open>switch\<close> of both extraction loops).\<close>

definition clusterCelExpr ::
    "'p cel_compile \<Rightarrow> filterType \<Rightarrow> clusterKubeArchiveConfigResource \<Rightarrow> 'p celExpressions" where
  "clusterCelExpr compile ft res =
     (let e = \<lparr>ce_ArchiveWhen = CompileCELExpression compile (cr_ArchiveWhen res),
               ce_DeleteWhen = None, ce_ArchiveOnDelete = None, ce_KeepLastWhen = []\<rparr>
      in case ft of
           Vacuum \<Rightarrow> e\<lparr>ce_KeepLastWhen := compileClusterKeepLastWhenRules compile (cr_KeepLastWhen res)\<rparr>
         | Controller \<Rightarrow>
             e\<lparr>ce_DeleteWhen := CompileCELExpression compile (cr_DeleteWhen res),
               ce_ArchiveOnDelete := CompileCELExpression compile (cr_ArchiveOnDelete res)\<rparr>)"

definition namespaceCelExpr ::
    "'p cel_compile \<Rightarrow> filterType \<Rightarrow> kubeArchiveConfigResource \<Rightarrow> 'p celExpressions" where
  "namespaceCelExpr compile ft res =
     (let e = \<lparr>ce_ArchiveWhen = CompileCELExpression compile (kr_ArchiveWhen res),
               ce_DeleteWhen = None, ce_ArchiveOnDelete = None, ce_KeepLastWhen = []\<rparr>
      in case ft of
           Vacuum \<Rightarrow> e\<lparr>ce_KeepLastWhen := compileKeepLastWhenRules compile (kr_KeepLastWhen res)\<rparr>
         | Controller \<Rightarrow>
             e\<lparr>ce_DeleteWhen := CompileCELExpression compile (kr_DeleteWhen res),
               ce_ArchiveOnDelete := CompileCELExpression compile (kr_ArchiveOnDelete res)\<rparr>)"

definition ExtractClusterCELExpressionsByKind ::
    "'p cel_compile \<Rightarrow> sinkFilter \<Rightarrow> filterType \<Rightarrow> (string, 'p celExpressions) gomap" where
  "ExtractClusterCELExpressionsByKind compile sf ft =
     (if sf_Cluster sf = [] then []
      else foldl (\<lambda>m res. gomap_set m (avk_Kind (cr_Selector res) @ ''-'' @ avk_APIVersion (cr_Selector res))
                           (clusterCelExpr compile ft res))
             [] (sf_Cluster sf))"

type_synonym 'p kind_filters = "(string, (string, 'p celExpressions) gomap) gomap"

text \<open>\<^verbatim>\<open>namespacesByKinds[key][ns] = celExpr\<close>, creating the inner map on first use.\<close>

definition add_namespace_expr ::
    "'p kind_filters \<Rightarrow> string \<Rightarrow> string \<Rightarrow> 'p celExpressions \<Rightarrow> 'p kind_filters" where
  "add_namespace_expr m key ns e =
     (case gomap_get m key of
        Some namespaces \<Rightarrow> gomap_set m key (gomap_set namespaces ns e)
      | None \<Rightarrow> gomap_set m key [(ns, e)])"

definition extractNamespacesByKindsList ::
    "'p cel_compile \<Rightarrow> sinkFilter \<Rightarrow> string list \<Rightarrow> filterType \<Rightarrow> 'p kind_filters" where
  "extractNamespacesByKindsList compile sf namespacesToProcess ft =
     foldl (\<lambda>m ns. case gomap_get (sfNamespaces sf) ns of
                     None \<Rightarrow> m
                   | Some resources \<Rightarrow>
                       foldl (\<lambda>m res. add_namespace_expr m (Key (kr_Selector res)) ns
                                        (namespaceCelExpr compile ft res)) m resources)
       [] namespacesToProcess"

definition ExtractNamespacesByKind ::
    "'p cel_compile \<Rightarrow> sinkFilter \<Rightarrow> filterType \<Rightarrow> 'p kind_filters" where
  "ExtractNamespacesByKind compile sf ft =
     extractNamespacesByKindsList compile sf (gomap_keys (sfNamespaces sf)) ft"

definition ExtractNamespaceByKind ::
    "'p cel_compile \<Rightarrow> sinkFilter \<Rightarrow> string \<Rightarrow> filterType \<Rightarrow> 'p kind_filters" where
  "ExtractNamespaceByKind compile sf ns ft = extractNamespacesByKindsList compile sf [ns] ft"

section \<open>What the extraction computes\<close>

text \<open>The expressions the filters hold for a kind in a namespace.\<close>

definition kind_ns_get :: "'p kind_filters \<Rightarrow> string \<Rightarrow> string \<Rightarrow> 'p celExpressions option" where
  "kind_ns_get m key ns = Option.bind (gomap_get m key) (\<lambda>inner. gomap_get inner ns)"

lemma kind_ns_get_add:
  "kind_ns_get (add_namespace_expr m key ns e) key' ns' =
     (if key' = key \<and> ns' = ns then Some e else kind_ns_get m key' ns')"
  by (auto simp: kind_ns_get_def add_namespace_expr_def split: option.splits)

lemma kind_ns_get_foldl_add:
  "kind_ns_get (foldl (\<lambda>m res. add_namespace_expr m (f res) ns (g res)) m0 rs) key ns' =
     (if ns' = ns then
        (case last_entry (\<lambda>res. f res = key) rs of
           Some res \<Rightarrow> Some (g res) | None \<Rightarrow> kind_ns_get m0 key ns')
      else kind_ns_get m0 key ns')"
  by (induction rs rule: rev_induct) (auto simp: last_entry_snoc kind_ns_get_add)

definition namespace_entry ::
    "'p cel_compile \<Rightarrow> sinkFilter \<Rightarrow> filterType \<Rightarrow> string \<Rightarrow> string \<Rightarrow> 'p celExpressions option" where
  "namespace_entry compile sf ft key ns =
     Option.bind (gomap_get (sfNamespaces sf) ns)
       (\<lambda>rs. map_option (namespaceCelExpr compile ft) (last_entry (\<lambda>r. Key (kr_Selector r) = key) rs))"

lemma kind_ns_get_extract:
  "distinct nss \<Longrightarrow>
   kind_ns_get (extractNamespacesByKindsList compile sf nss ft) key ns =
     (if ns \<in> set nss then namespace_entry compile sf ft key ns else None)"
proof (induction nss rule: rev_induct)
  case Nil
  then show ?case by (simp add: extractNamespacesByKindsList_def kind_ns_get_def)
next
  case (snoc n nss)
  then show ?case
    by (auto simp: extractNamespacesByKindsList_def kind_ns_get_foldl_add namespace_entry_def
        split: option.splits)
qed

lemma ExtractNamespacesByKind_get:
  assumes "gomap_ok (sfNamespaces sf)"
  shows "kind_ns_get (ExtractNamespacesByKind compile sf ft) key ns = namespace_entry compile sf ft key ns"
proof (cases "gomap_get (sfNamespaces sf) ns")
  case None
  then show ?thesis
    using assms by (simp add: ExtractNamespacesByKind_def kind_ns_get_extract namespace_entry_def)
next
  case (Some rs)
  then have "ns \<in> set (gomap_keys (sfNamespaces sf))" by (rule gomap_get_in_keys)
  then show ?thesis
    using assms by (simp add: ExtractNamespacesByKind_def kind_ns_get_extract)
qed

lemma ExtractNamespaceByKind_get:
  "kind_ns_get (ExtractNamespaceByKind compile sf n ft) key ns =
     (if ns = n then namespace_entry compile sf ft key ns else None)"
  by (simp add: ExtractNamespaceByKind_def kind_ns_get_extract)

section \<open>Properties\<close>

text \<open>A namespace vacuum, which extracts the filters of its own namespace only, sees for
  every kind exactly the expressions that the cluster vacuum and the controller extract for
  that namespace, and nothing for any other namespace.\<close>

theorem namespace_extraction_agrees:
  assumes "gomap_ok (sfNamespaces sf)"
  shows "kind_ns_get (ExtractNamespaceByKind compile sf n ft) key n =
           kind_ns_get (ExtractNamespacesByKind compile sf ft) key n
         \<and> (\<forall>m. m \<noteq> n \<longrightarrow> kind_ns_get (ExtractNamespaceByKind compile sf n ft) key m = None)"
  using assms by (simp add: ExtractNamespacesByKind_get ExtractNamespaceByKind_get)

definition sample_sinkfilter :: "(string \<times> kubeArchiveConfigResource list) list \<Rightarrow> sinkFilter" where
  "sample_sinkfilter nss =
     \<lparr>sf_Name = SinkFilterResourceName, sf_Namespace = ''kubearchive'', sf_Namespaces = Some nss, sf_Cluster = []\<rparr>"

definition sample_kac_resource :: kubeArchiveConfigResource where
  "sample_kac_resource =
     \<lparr>kr_Selector = \<lparr>avk_Kind = ''Pod'', avk_APIVersion = ''v1''\<rparr>, kr_ArchiveWhen = ''true'', kr_DeleteWhen = [],
      kr_ArchiveOnDelete = [], kr_KeepLastWhen = None\<rparr>"

theorem namespace_extraction_agrees_witness:
  "kind_ns_get (ExtractNamespaceByKind Some (sample_sinkfilter [(''a'', [sample_kac_resource]), (''b'', [])]) ''a'' Controller)
     ''Pod-v1'' ''a'' =
   kind_ns_get (ExtractNamespacesByKind Some (sample_sinkfilter [(''a'', [sample_kac_resource]), (''b'', [])]) Controller)
     ''Pod-v1'' ''a''"
  by (rule namespace_extraction_agrees [THEN conjunct1]) (simp add: sample_sinkfilter_def sfNamespaces_def)

text \<open>The extracted filters do not depend on the order in which the runtime visits the
  namespaces of the SinkFilter.\<close>

theorem extraction_order_irrelevant:
  assumes "sf_Namespaces sf = Some m" and "sf_Namespaces sf' = Some m'"
    and "mset m = mset m'" and "gomap_ok m"
  shows "kind_ns_get (ExtractNamespacesByKind compile sf ft) key ns =
         kind_ns_get (ExtractNamespacesByKind compile sf' ft) key ns"
proof -
  have "gomap_ok m'" using assms(3,4) by (metis mset_eq_imp_distinct_iff mset_map)
  moreover have "map_of m = map_of m'" using assms(3,4) by (rule gomap_perm_get)
  ultimately show ?thesis
    using assms by (simp add: ExtractNamespacesByKind_get namespace_entry_def sfNamespaces_def)
qed

theorem extraction_order_irrelevant_witness:
  "kind_ns_get (ExtractNamespacesByKind Some (sample_sinkfilter [(''a'', [sample_kac_resource]), (''b'', [])]) Vacuum) ''Pod-v1'' ''a'' =
   kind_ns_get (ExtractNamespacesByKind Some (sample_sinkfilter [(''b'', []), (''a'', [sample_kac_resource])]) Vacuum) ''Pod-v1'' ''a''"
  by (rule extraction_order_irrelevant [where m = "[(''a'', [sample_kac_resource]), (''b'', [])]"
        and m' = "[(''b'', []), (''a'', [sample_kac_resource])]"])
     (simp_all add: sample_sinkfilter_def)

end
