(* ===== verification/Keepers.thy ===== *)
theory Keepers
  imports Cel_Filters
begin

text \<open>
  The rule and bucket half of \<^verbatim>\<open>cmd/vacuum/publisher.go\<close>: unifying cluster and namespace
  keep-last rules, building one keeper per rule, ordering resources and inserting a
  resource into a keeper's bucket.

  A pointer to a listed resource is a pair of the position of the resource in the list
  (its address: the loop variable is a fresh variable in every iteration) and the resource;
  two pointers are equal when their addresses are. A bucket is a list of optional pointers
  of length \<^verbatim>\<open>Count+1\<close>.
\<close>

type_synonym res_ptr = "nat \<times> unstructured"

datatype go_panic = MakeNegativeLength | IndexOutOfRange | NilDereference

record 'p keeper =
  kp_when :: "'p keepLastWhenRule"
  kp_bucket :: "res_ptr option list"

section \<open>Unifying the rules\<close>

type_synonym 'p unify_state =
  "'p keepLastWhenRule list \<times> (string, nat) gomap \<times> (string, bool) gomap"

definition unify_cluster_rule :: "'p unify_state \<Rightarrow> 'p keepLastWhenRule \<Rightarrow> 'p unify_state" where
  "unify_cluster_rule st r =
     (case st of (unified, names, texts) \<Rightarrow>
        (unified @ [r], gomap_set names (klr_Name r) (length unified),
         gomap_set texts (klr_WhenText r) True))"

definition unify_namespace_rule :: "'p unify_state \<Rightarrow> 'p keepLastWhenRule \<Rightarrow> 'p unify_state" where
  "unify_namespace_rule st r =
     (case st of (unified, names, texts) \<Rightarrow>
        if klr_Name r \<noteq> [] then
          (case gomap_get names (klr_Name r) of
             Some idx \<Rightarrow>
               if klr_Count r < klr_Count (unified ! idx)
               then (unified[idx := (unified ! idx)\<lparr>klr_Count := klr_Count r\<rparr>], names, texts)
               else (unified, names, texts)
           | None \<Rightarrow> (unified, names, texts))
        else if gomap_get0 False texts (klr_WhenText r) then (unified, names, texts)
        else (unified @ [r], names, gomap_set texts (klr_WhenText r) True))"

definition unifyRules ::
    "'p keepLastWhenRule list \<Rightarrow> 'p keepLastWhenRule list \<Rightarrow> 'p keepLastWhenRule list" where
  "unifyRules clusterRules namespaceRules =
     fst (foldl unify_namespace_rule (foldl unify_cluster_rule ([], [], []) clusterRules) namespaceRules)"

section \<open>Keepers\<close>

text \<open>\<^verbatim>\<open>make([]*T, Count+1)\<close> panics on a negative length.\<close>

fun make_keepers :: "'p keepLastWhenRule list \<Rightarrow> go_panic + 'p keeper list" where
  "make_keepers [] = Inr []"
| "make_keepers (r # rs) =
     (if klr_Count r + 1 < 0 then Inl MakeNegativeLength
      else case make_keepers rs of
             Inl e \<Rightarrow> Inl e
           | Inr ks \<Rightarrow> Inr (\<lparr>kp_when = r, kp_bucket = replicate (nat (klr_Count r + 1)) None\<rparr> # ks))"

definition createKeepers ::
    "'p celExpressions \<Rightarrow> 'p celExpressions \<Rightarrow> go_panic + 'p keeper list" where
  "createKeepers clusterCel namespaceCel =
     make_keepers (unifyRules (ce_KeepLastWhen clusterCel) (ce_KeepLastWhen namespaceCel))"

section \<open>Ordering resources\<close>

definition compareResources :: "string \<Rightarrow> unstructured option \<Rightarrow> unstructured option \<Rightarrow> bool" where
  "compareResources sortField i j =
     (case i of None \<Rightarrow> False
      | Some a \<Rightarrow> (case j of None \<Rightarrow> True
        | Some b \<Rightarrow>
            if sortField = [] \<or> sortField = ''metadata.creationTimestamp''
            then u_creationTimestamp b < u_creationTimestamp a
            else (case (map_of (u_strings a) (split_on CHR ''.'' sortField),
                        map_of (u_strings b) (split_on CHR ''.'' sortField)) of
                    (Some x, Some y) \<Rightarrow> y < x
                  | _ \<Rightarrow> u_creationTimestamp b < u_creationTimestamp a)))"

definition ptr_obj :: "res_ptr option \<Rightarrow> unstructured option" where
  "ptr_obj p = map_option snd p"

text \<open>The comparison callback of the binary search in \<^verbatim>\<open>sortResources\<close>.\<close>

definition bucketCompare :: "string \<Rightarrow> res_ptr option \<Rightarrow> res_ptr option \<Rightarrow> int" where
  "bucketCompare sortField elem target =
     (if elem = None \<and> target = None then 0
      else if elem = None then 1
      else if target = None then -1
      else if compareResources sortField (ptr_obj elem) (ptr_obj target) then -1
      else if compareResources sortField (ptr_obj target) (ptr_obj elem) then 1
      else 0)"

text \<open>
  The new item sits in the last slot; \<^verbatim>\<open>copy(bucket[i+1:], bucket[i:len(bucket)-1])\<close> moves
  the elements from position \<open>i\<close> one place up, over the last slot.
\<close>

definition sortResources :: "string \<Rightarrow> res_ptr option list \<Rightarrow> res_ptr option list" where
  "sortResources sortField bucket =
     (if length bucket \<le> 1 then bucket
      else let newItem = last bucket;
               i = fst (binarySearchFunc (\<lambda>e. bucketCompare sortField e newItem) (butlast bucket))
           in if i < length bucket - 1
              then take i bucket @ newItem # drop i (butlast bucket)
              else bucket)"

section \<open>Unified rules: lemmas\<close>

lemma unify_cluster_foldl:
  "foldl unify_cluster_rule (u, names, texts) rs =
     (u @ rs,
      foldl (\<lambda>m p. gomap_set m (klr_Name (snd p)) (fst p)) names (enumerate (length u) rs),
      foldl (\<lambda>m r. gomap_set m (klr_WhenText r) True) texts rs)"
  by (induction rs arbitrary: u names texts) (auto simp: unify_cluster_rule_def)

text \<open>
  What one namespace rule may do to the unified list: leave it, lower one count, or add a
  rule without a name whose text is new.
\<close>

definition unify_inv :: "'p keepLastWhenRule list \<Rightarrow> 'p unify_state \<Rightarrow> bool" where
  "unify_inv cs st \<longleftrightarrow>
     (case st of (unified, names, texts) \<Rightarrow>
        length cs \<le> length unified
        \<and> (\<forall>i < length cs. \<exists>n \<le> klr_Count (cs ! i). unified ! i = (cs ! i)\<lparr>klr_Count := n\<rparr>)
        \<and> (\<forall>r \<in> set (drop (length cs) unified). klr_Name r = [])
        \<and> distinct (map klr_WhenText (drop (length cs) unified))
        \<and> set (map klr_WhenText (drop (length cs) unified)) \<inter> set (map klr_WhenText cs) = {}
        \<and> (\<forall>n i. map_of names n = Some i \<longrightarrow> i < length cs \<and> klr_Name (cs ! i) = n)
        \<and> (\<forall>t. map_of texts t = (if t \<in> set (map klr_WhenText unified) then Some True else None)))"

lemma unify_inv_cluster: "unify_inv cs (foldl unify_cluster_rule ([], [], []) cs)"
proof -
  have names: "\<forall>n i. map_of (foldl (\<lambda>m p. gomap_set m (klr_Name (snd p)) (fst p)) [] (enumerate 0 xs)) n = Some i
      \<longrightarrow> i < length xs \<and> klr_Name (xs ! i) = n" for xs :: "'a keepLastWhenRule list"
    by (induction xs rule: rev_induct) (auto simp: enumerate_append_eq nth_append less_SucI)
  have texts: "map_of (foldl (\<lambda>m r. gomap_set m (klr_WhenText r) True) [] xs) t =
      (if t \<in> set (map klr_WhenText xs) then Some True else None)" for xs :: "'a keepLastWhenRule list" and t
    by (induction xs rule: rev_induct) auto
  show ?thesis
    using names [of cs] texts [of cs]
    by (auto simp: unify_cluster_foldl unify_inv_def intro: exI [where x = "klr_Count _"])
qed

lemma unify_inv_namespace:
  assumes "unify_inv cs st"
  shows "unify_inv cs (unify_namespace_rule st r)"
proof -
  obtain u names texts where st: "st = (u, names, texts)" by (cases st) auto
  note inv = assms [unfolded st unify_inv_def, simplified]
  have texts: "gomap_get0 False texts t \<longleftrightarrow> t \<in> klr_WhenText ` set u" for t
    using inv by (auto simp: gomap_get0_def)
  have nochange: "unify_namespace_rule st r = st"
    if "\<nexists>idx. klr_Name r \<noteq> [] \<and> map_of names (klr_Name r) = Some idx \<and> klr_Count r < klr_Count (u ! idx)"
      and "\<not> (klr_Name r = [] \<and> klr_WhenText r \<notin> set (map klr_WhenText u))"
    using that by (auto simp: unify_namespace_rule_def st texts split: option.splits)
  consider (low) idx where "klr_Name r \<noteq> []" "map_of names (klr_Name r) = Some idx"
      "klr_Count r < klr_Count (u ! idx)"
    | (add) "klr_Name r = []" "klr_WhenText r \<notin> set (map klr_WhenText u)"
    | (same) "unify_namespace_rule st r = st"
    using nochange by blast
  then show ?thesis
  proof cases
    case low
    from inv low have idx: "idx < length cs" by blast
    with inv have idx': "idx < length u" by linarith
    have "drop (length cs) (u[idx := v]) = drop (length cs) u" for v using idx by simp
    moreover from inv idx obtain n where n: "n \<le> klr_Count (cs ! idx)" "u ! idx = (cs ! idx)\<lparr>klr_Count := n\<rparr>"
      by blast
    moreover have "map klr_WhenText (u[idx := (u ! idx)\<lparr>klr_Count := c\<rparr>]) = map klr_WhenText u" for c
      using inv idx by (simp add: map_update list_update_same_conv)
    then have "klr_WhenText ` set (u[idx := (u ! idx)\<lparr>klr_Count := c\<rparr>]) = klr_WhenText ` set u" for c
      by (metis set_map)
    ultimately show ?thesis using inv low idx idx'
      by (auto simp: unify_namespace_rule_def st unify_inv_def nth_list_update)
         (metis order.trans order_less_imp_le)
  next
    case add
    have "klr_WhenText x \<in> klr_WhenText ` set u" if "x \<in> set cs" for x
    proof -
      from that obtain i where i: "i < length cs" "x = cs ! i" by (auto simp: in_set_conv_nth)
      with inv obtain n where "u ! i = x\<lparr>klr_Count := n\<rparr>" by blast
      then have "klr_WhenText x = klr_WhenText (u ! i)" by simp
      moreover have "u ! i \<in> set u" using i inv by simp
      ultimately show ?thesis by (rule image_eqI)
    qed
    with add show ?thesis using inv
      by (auto simp: unify_namespace_rule_def st unify_inv_def gomap_get0_def nth_append dest: in_set_dropD)
  next
    case same
    with assms show ?thesis by simp
  qed
qed

lemma unify_inv_unifyRules:
  "unify_inv cs (foldl unify_namespace_rule (foldl unify_cluster_rule ([], [], []) cs) ns)"
  by (induction ns rule: rev_induct) (simp_all add: unify_inv_cluster unify_inv_namespace)

text \<open>Counts: the smallest of the rule's own count and the counts of its overrides.\<close>

lemma unify_namespace_fst:
  "fst (unify_namespace_rule (u, names, texts) r) =
     (if klr_Name r \<noteq> [] then
        (case map_of names (klr_Name r) of
           None \<Rightarrow> u
         | Some idx \<Rightarrow> if klr_Count r < klr_Count (u ! idx) then u[idx := (u ! idx)\<lparr>klr_Count := klr_Count r\<rparr>] else u)
      else if gomap_get0 False texts (klr_WhenText r) then u else u @ [r])"
  by (simp add: unify_namespace_rule_def split: option.splits)

lemma unify_names:
  "fst (snd (foldl unify_namespace_rule st ns)) = fst (snd st)"
  by (induction ns rule: rev_induct) (auto simp: unify_namespace_rule_def split: prod.splits option.splits)

lemma unify_cluster_names:
  assumes "distinct (map klr_Name cs)" and "i < length cs"
  shows "map_of (fst (snd (foldl unify_cluster_rule ([], [], []) cs))) (klr_Name (cs ! i)) = Some i"
proof -
  have "map_of (foldl (\<lambda>m p. gomap_set m (klr_Name (snd p)) (fst p)) [] (enumerate 0 xs)) (klr_Name (xs ! i)) = Some i"
    if "distinct (map klr_Name xs)" "i < length xs" for xs :: "'a keepLastWhenRule list"
    using that
  proof (induction xs rule: rev_induct)
    case (snoc x xs)
    show ?case
    proof (cases "i = length xs")
      case False
      with snoc.prems have "i < length xs" by simp
      moreover have "klr_Name (xs ! i) \<noteq> klr_Name x"
        using snoc.prems(1) imageI [OF nth_mem [OF \<open>i < length xs\<close>], of klr_Name] by auto
      ultimately show ?thesis using snoc by (simp add: enumerate_append_eq nth_append)
    qed (simp add: enumerate_append_eq)
  qed simp
  with assms show ?thesis by (simp add: unify_cluster_foldl)
qed

lemma unify_step_nth:
  assumes inv: "unify_inv cs (u, names, texts)" and i: "i < length cs" "map_of names (klr_Name (cs ! i)) = Some i"
  shows "fst (unify_namespace_rule (u, names, texts) r) ! i =
    (u ! i)\<lparr>klr_Count := (if klr_Name r \<noteq> [] \<and> klr_Name r = klr_Name (cs ! i)
                          then min (klr_Count (u ! i)) (klr_Count r) else klr_Count (u ! i))\<rparr>"
proof -
  have len: "length cs \<le> length u" and
    names: "\<And>n j. map_of names n = Some j \<Longrightarrow> j < length cs \<and> klr_Name (cs ! j) = n"
    using inv by (simp_all add: unify_inv_def)
  show ?thesis
  proof (cases "klr_Name r = [] \<or> map_of names (klr_Name r) = None")
    case True
    with i len show ?thesis by (auto simp: unify_namespace_fst nth_append)
  next
    case False
    then obtain j where j: "klr_Name r \<noteq> []" "map_of names (klr_Name r) = Some j" by auto
    with names have nj: "klr_Name (cs ! j) = klr_Name r" "j < length cs" by blast+
    with i j have "i = j \<longleftrightarrow> klr_Name r = klr_Name (cs ! i)" by (metis option.inject)
    with i len j nj show ?thesis by (auto simp: unify_namespace_fst nth_list_update min_def)
  qed
qed

definition lowest_count :: "'p keepLastWhenRule list \<Rightarrow> 'p keepLastWhenRule \<Rightarrow> int" where
  "lowest_count ns r =
     Min (insert (klr_Count r) (klr_Count ` {o1 \<in> set ns. klr_Name o1 \<noteq> [] \<and> klr_Name o1 = klr_Name r}))"

lemma lowest_count_snoc:
  "lowest_count (ns @ [x]) r =
     (if klr_Name x \<noteq> [] \<and> klr_Name x = klr_Name r then min (lowest_count ns r) (klr_Count x) else lowest_count ns r)"
proof -
  let ?S = "{o1 \<in> set ns. klr_Name o1 \<noteq> [] \<and> klr_Name o1 = klr_Name r}"
  have "{o1 \<in> set (ns @ [x]). klr_Name o1 \<noteq> [] \<and> klr_Name o1 = klr_Name r} =
      (if klr_Name x \<noteq> [] \<and> klr_Name x = klr_Name r then insert x ?S else ?S)" by auto
  moreover have "Min (insert a (insert b (klr_Count ` ?S))) = min (Min (insert a (klr_Count ` ?S))) b" for a b
    using Min_insert [of "insert a (klr_Count ` ?S)" b] by (simp add: insert_commute min.commute)
  ultimately show ?thesis by (simp add: lowest_count_def)
qed

lemma unify_nth:
  assumes "distinct (map klr_Name cs)" and "i < length cs"
  shows "unifyRules cs ns ! i = (cs ! i)\<lparr>klr_Count := lowest_count ns (cs ! i)\<rparr>"
proof (induction ns rule: rev_induct)
  case Nil
  from assms(2) show ?case by (simp add: unifyRules_def unify_cluster_foldl lowest_count_def)
next
  case (snoc x ns)
  obtain u names texts where st: "foldl unify_namespace_rule (foldl unify_cluster_rule ([], [], []) cs) ns = (u, names, texts)"
    by (metis prod.exhaust)
  have inv: "unify_inv cs (u, names, texts)" using unify_inv_unifyRules [of cs ns] by (simp add: st)
  have "names = fst (snd (foldl unify_cluster_rule ([], [], []) cs))"
    using unify_names [of "foldl unify_cluster_rule ([], [], []) cs" ns] by (simp add: st)
  with assms have "map_of names (klr_Name (cs ! i)) = Some i" by (simp add: unify_cluster_names)
  from unify_step_nth [OF inv assms(2) this, of x] snoc.IH show ?case
    by (simp add: unifyRules_def st lowest_count_snoc)
qed

text \<open>The rules added for the namespace: unnamed, with new texts, and one for every unnamed rule.\<close>

lemma unify_added:
  shows "set (drop (length cs) (unifyRules cs ns)) \<subseteq> {r \<in> set ns. klr_Name r = []}"
    and "{klr_WhenText r |r. r \<in> set ns \<and> klr_Name r = []} \<subseteq> klr_WhenText ` set (unifyRules cs ns)"
proof (induction ns rule: rev_induct)
  case Nil
  show "set (drop (length cs) (unifyRules cs [])) \<subseteq> {r \<in> set []. klr_Name r = []}"
    "{klr_WhenText r |r. r \<in> set [] \<and> klr_Name r = []} \<subseteq> klr_WhenText ` set (unifyRules cs [])"
    by (simp_all add: unifyRules_def unify_cluster_foldl)
next
  case (snoc x ns)
  obtain u names texts where st: "foldl unify_namespace_rule (foldl unify_cluster_rule ([], [], []) cs) ns = (u, names, texts)"
    by (metis prod.exhaust)
  have inv: "unify_inv cs (u, names, texts)" using unify_inv_unifyRules [of cs ns] by (simp add: st)
  have u: "unifyRules cs ns = u" by (simp add: unifyRules_def st)
  have u': "unifyRules cs (ns @ [x]) = fst (unify_namespace_rule (u, names, texts) x)" by (simp add: unifyRules_def st)
  have texts: "gomap_get0 False texts t \<longleftrightarrow> t \<in> klr_WhenText ` set u" for t
    using inv by (auto simp: unify_inv_def gomap_get0_def)
  have low: "drop (length cs) (u[j := v]) = drop (length cs) u" if "map_of names n = Some j" for j v n
    using inv that by (simp add: unify_inv_def)
  have same: "klr_WhenText ` set (u[j := (u ! j)\<lparr>klr_Count := c\<rparr>]) = klr_WhenText ` set u" for j c
    by (metis (no_types, lifting) keepLastWhenRule.select_convs(3) keepLastWhenRule.surjective
        keepLastWhenRule.update_convs(4) list_update_beyond list_update_id map_update not_le_imp_less set_map)
  show "set (drop (length cs) (unifyRules cs (ns @ [x]))) \<subseteq> {r \<in> set (ns @ [x]). klr_Name r = []}"
    using snoc.IH(1) inv unfolding u' u
    by (auto simp: unify_namespace_fst low unify_inv_def split: option.splits if_splits)
  show "{klr_WhenText r |r. r \<in> set (ns @ [x]) \<and> klr_Name r = []} \<subseteq> klr_WhenText ` set (unifyRules cs (ns @ [x]))"
    using snoc.IH(2) unfolding u' u
    by (auto simp: unify_namespace_fst same texts split: option.splits)
qed

section \<open>Buckets: lemmas\<close>

text \<open>
  A bucket of a rule with count \<open>n\<close> holds at most \<open>n\<close> pointers, packed at the front of
  its \<open>n + 1\<close> slots.
\<close>

definition kept :: "res_ptr option list \<Rightarrow> res_ptr list" where
  "kept b = List.map_filter (\<lambda>x. x) b"

definition wf_bucket :: "nat \<Rightarrow> res_ptr option list \<Rightarrow> bool" where
  "wf_bucket n b \<longleftrightarrow> length (kept b) \<le> n \<and> b = map Some (kept b) @ replicate (Suc n - length (kept b)) None"

lemma kept_packed [simp]: "kept (map Some ps @ replicate m None) = ps"
proof -
  have "List.map_filter (\<lambda>x. x) (replicate m (None :: res_ptr option)) = []"
    by (induction m) (simp_all add: map_filter_def)
  moreover have "List.map_filter (\<lambda>x. x) (map Some ps) = ps"
    by (induction ps) (simp_all add: map_filter_def)
  ultimately show ?thesis by (simp add: kept_def map_filter_def)
qed

lemma kept_replicate [simp]: "kept (replicate m None) = []"
  using kept_packed [of "[]" m] by simp

lemma wf_bucketI: "length ps \<le> n \<Longrightarrow> wf_bucket n (map Some ps @ replicate (Suc n - length ps) None)"
  by (simp add: wf_bucket_def)

lemma wf_bucketE:
  assumes "wf_bucket n b"
  obtains ps where "b = map Some ps @ replicate (Suc n - length ps) None" "length ps \<le> n" "kept b = ps"
  using assms unfolding wf_bucket_def by blast

lemma wf_bucket_make: "wf_bucket n (replicate (Suc n) None)"
  using wf_bucketI [of "[]" n] by simp

lemma wf_bucket_length: "wf_bucket n b \<Longrightarrow> length b = Suc n"
  by (auto elim!: wf_bucketE)

text \<open>The position \<^verbatim>\<open>sortResources\<close> finds for the new item.\<close>

definition bucket_pos :: "string \<Rightarrow> res_ptr \<Rightarrow> res_ptr option list \<Rightarrow> nat" where
  "bucket_pos sortField x elems = bsearch (\<lambda>e. bucketCompare sortField e (Some x) < 0) elems"

lemma bucketCompare_before:
  "bucketCompare sf e (Some x) < 0 \<longleftrightarrow> (\<exists>p. e = Some p \<and> compareResources sf (Some (snd p)) (Some (snd x)))"
  by (auto simp: bucketCompare_def ptr_obj_def)

lemma bucket_pos_le: "bucket_pos sf x (map Some ps @ replicate m None) \<le> length ps"
proof (cases "bucket_pos sf x (map Some ps @ replicate m None)")
  case (Suc h)
  let ?e = "map Some ps @ replicate m None"
  from Suc have "bucketCompare sf (?e ! h) (Some x) < 0"
    unfolding bucket_pos_def by (rule bsearch_pos)
  then have "?e ! h \<noteq> None" by (auto simp: bucketCompare_before)
  moreover have "h < length ?e"
    using Suc bsearch_le [of "\<lambda>e. bucketCompare sf e (Some x) < 0" ?e] by (simp add: bucket_pos_def)
  ultimately have "h < length ps" by (auto simp: nth_append split: if_splits)
  with Suc show ?thesis by simp
qed simp

text \<open>Writing the new item to the last slot and sorting inserts it among the kept pointers.\<close>

lemma sortResources_insert:
  assumes "length ps \<le> n"
  defines "e \<equiv> map Some ps @ replicate (n - length ps) None"
  shows "sortResources sf (e @ [Some x]) =
    map Some (ins_at (bucket_pos sf x e) x ps) @ replicate (n - length ps) None"
proof (cases "n = 0")
  case True
  with assms show ?thesis by (simp add: sortResources_def)
next
  case False
  have le: "bucket_pos sf x e \<le> length ps" unfolding e_def by (rule bucket_pos_le)
  have len: "length e = n" using assms(1) by (simp add: e_def)
  have pos: "fst (binarySearchFunc (\<lambda>e. bucketCompare sf e (Some x)) e) = bucket_pos sf x e"
    by (simp add: binarySearchFunc_def bucket_pos_def Let_def)
  show ?thesis
  proof (cases "bucket_pos sf x e < n")
    case True
    then show ?thesis using False le len
      by (simp add: sortResources_def pos Let_def) (simp add: e_def ins_at_def take_map drop_map)
  next
    case full: False
    with le assms(1) have "length ps = n" by simp
    with full False le len show ?thesis
      by (simp add: sortResources_def pos Let_def) (simp add: e_def)
  qed
qed

text \<open>With a strict weak order the position is after the elements that come before the item.\<close>

lemma bucket_pos_sorted:
  assumes "sorted_wrt (\<lambda>p q. \<not> lt q p) ps" and "weak_order lt"
    and "\<And>p q. lt p q \<longleftrightarrow> compareResources sf (Some (snd p)) (Some (snd q))"
  shows "bucket_pos sf x (map Some ps @ replicate m None) = length (takeWhile (\<lambda>p. lt p x) ps)"
proof -
  let ?bef = "\<lambda>e. bucketCompare sf e (Some x) < 0"
  have bef: "?bef (Some p) \<longleftrightarrow> lt p x" "\<not> ?bef None" for p
    by (simp_all add: bucketCompare_before assms(3))
  have "sorted_wrt (\<lambda>a b. lt b x \<longrightarrow> lt a x) ps"
    using weak_order.before_prefix [OF assms(2,1)] .
  moreover have "sorted_wrt (\<lambda>a b. ?bef b \<longrightarrow> ?bef a) (replicate m None)"
    by (induction m) (auto simp: bef)
  ultimately have "sorted_wrt (\<lambda>a b. ?bef b \<longrightarrow> ?bef a) (map Some ps @ replicate m None)"
    by (auto simp: sorted_wrt_append sorted_wrt_map bef)
  then have "bucket_pos sf x (map Some ps @ replicate m None) =
      length (takeWhile ?bef (map Some ps @ replicate m None))"
    unfolding bucket_pos_def by (rule bsearch_takeWhile)
  also have "\<dots> = length (takeWhile (\<lambda>p. lt p x) ps)"
    by (cases m; induction ps) (auto simp: bef)
  finally show ?thesis .
qed

section \<open>The order of creation timestamps\<close>

text \<open>
  With the default sort field resources are ordered newest first; this is a strict weak
  order, whatever the objects hold. So is a string field that every resource has.
\<close>

definition newer :: "unstructured \<Rightarrow> unstructured \<Rightarrow> bool" where
  "newer a b \<longleftrightarrow> u_creationTimestamp b < u_creationTimestamp a"

lemma compareResources_default:
  "sf = [] \<or> sf = ''metadata.creationTimestamp'' \<Longrightarrow> compareResources sf (Some a) (Some b) \<longleftrightarrow> newer a b"
  by (auto simp: compareResources_def newer_def)

interpretation newest_first: weak_order "\<lambda>p q :: res_ptr. newer (snd p) (snd q)"
  by unfold_locales (auto simp: newer_def)

section \<open>Properties\<close>

definition sample_rule :: "string \<Rightarrow> string \<Rightarrow> int \<Rightarrow> unit keepLastWhenRule" where
  "sample_rule name text cnt =
     \<lparr>klr_Name = name, klr_When = Some (), klr_WhenText = text, klr_Count = cnt, klr_SortBy = []\<rparr>"

text \<open>When the named cluster rules have different names, unifying keeps every cluster rule
  at its position and changes nothing but its count, which becomes the smallest of its own count and
  the counts of the overrides of that name: a namespace can keep fewer resources than the cluster
  rule, never more.\<close>

theorem unified_cluster_rule:
  assumes "distinct (map klr_Name clusterRules)" and "i < length clusterRules"
  shows "unifyRules clusterRules namespaceRules ! i =
      (clusterRules ! i)\<lparr>klr_Count := lowest_count namespaceRules (clusterRules ! i)\<rparr>
    \<and> klr_Count (unifyRules clusterRules namespaceRules ! i) \<le> klr_Count (clusterRules ! i)"
  by (simp add: unify_nth [OF assms] lowest_count_def)

theorem unified_cluster_rule_witness:
  "unifyRules [sample_rule ''a'' ''x'' 5, sample_rule ''b'' ''y'' 2] [sample_rule ''a'' [] 3] ! 0 =
     (sample_rule ''a'' ''x'' 5)\<lparr>klr_Count := 3\<rparr>"
  using unified_cluster_rule [of "[sample_rule ''a'' ''x'' 5, sample_rule ''b'' ''y'' 2]" 0 "[sample_rule ''a'' [] 3]"]
  by (simp add: sample_rule_def lowest_count_def)

text \<open>The rules unifying adds after the cluster rules are rules of the namespace without a
  name, no two rules added have the same text and none has the text of a cluster rule; and the
  text of every namespace rule without a name is the text of some unified rule.\<close>

theorem unified_namespace_rules:
  "let added = drop (length clusterRules) (unifyRules clusterRules namespaceRules)
   in set added \<subseteq> {r \<in> set namespaceRules. klr_Name r = []}
      \<and> distinct (map klr_WhenText added)
      \<and> klr_WhenText ` set added \<inter> klr_WhenText ` set clusterRules = {}
      \<and> {klr_WhenText r |r. r \<in> set namespaceRules \<and> klr_Name r = []}
          \<subseteq> klr_WhenText ` set (unifyRules clusterRules namespaceRules)"
proof -
  have "distinct (map klr_WhenText (drop (length clusterRules) (unifyRules clusterRules namespaceRules)))
    \<and> klr_WhenText ` set (drop (length clusterRules) (unifyRules clusterRules namespaceRules))
        \<inter> klr_WhenText ` set clusterRules = {}"
    using unify_inv_unifyRules [of clusterRules namespaceRules]
    by (auto simp: unify_inv_def unifyRules_def split: prod.splits)
  then show ?thesis using unify_added [where cs = clusterRules and ns = namespaceRules] by (simp add: Let_def)
qed

end
