(* ===== verification/Vacuum.thy ===== *)
theory Vacuum
  imports Keepers
begin

text \<open>
  The publishing half of \<^verbatim>\<open>cmd/vacuum\<close>: listing the resources of a kind, keeping the last
  ones of every rule, and sending the cloud events; the cluster and the namespace vacuum.

  The model records the calls of \<^verbatim>\<open>sendCloudEvent\<close> in order; the result of a send is only
  logged. A run-time panic ends the process and is an error value. The REST mapper and
  the list call of the Kubernetes API are arguments. The code asserts without a check that a listed
  object has a map of metadata with a string as its name; the API server guarantees both, so that
  every item of the model has them.
\<close>

record vac_event =
  ev_type :: string
  ev_namespace :: string
  ev_name :: string
  ev_item :: unstructured

type_synonym 'p keeper_state = "'p keeper list \<times> (string, int) gomap \<times> vac_event list"

section \<open>One resource against one keeper\<close>

text \<open>
  The body of the loop over the keepers. \<open>item\<close> is written to the last slot and sorted
  in; when it did not end in the last slot it is kept, and the pointer that did is dropped.
\<close>

definition keeper_matches :: "'p cel_eval \<Rightarrow> 'p keeper \<Rightarrow> unstructured \<Rightarrow> bool" where
  "keeper_matches eval k obj = ExecuteBooleanCEL eval (klr_When (kp_when k)) obj"

definition drop_resource ::
    "string \<Rightarrow> unstructured \<Rightarrow> (string, int) gomap \<Rightarrow> vac_event list \<Rightarrow>
      (string, int) gomap \<times> vac_event list" where
  "drop_resource pre dropped all evs =
     (let d = u_uid dropped; all' = gomap_set all d (gomap_get0 0 all d - 1)
      in if gomap_get0 0 all' d = 0
         then (gomap_del all' d,
               evs @ [\<lparr>ev_type = pre @ ''.keep-last-when-delete'', ev_namespace = u_namespace dropped,
                       ev_name = u_name dropped, ev_item = dropped\<rparr>])
         else (all', evs))"

definition keep_in_bucket ::
    "string \<Rightarrow> 'p keeper \<Rightarrow> res_ptr \<Rightarrow> (string, int) gomap \<Rightarrow> vac_event list \<Rightarrow>
      go_panic + ('p keeper \<times> (string, int) gomap \<times> vac_event list)" where
  "keep_in_bucket pre k item all evs =
     (if kp_bucket k = [] then Inl IndexOutOfRange
      else
        let n = length (kp_bucket k) - 1;
            b = sortResources (klr_SortBy (kp_when k)) ((kp_bucket k)[n := Some item]);
            k' = k\<lparr>kp_bucket := b[n := None]\<rparr>
        in if map_option fst (last b) \<noteq> Some (fst item) then
             (let all1 = gomap_set all (u_uid (snd item)) (gomap_get0 0 all (u_uid (snd item)) + 1)
              in case go_index b (klr_Count (kp_when k)) of
                   None \<Rightarrow> Inl IndexOutOfRange
                 | Some None \<Rightarrow> Inr (k', all1, evs)
                 | Some (Some dropped) \<Rightarrow> Inr (k', drop_resource pre (snd dropped) all1 evs))
           else Inr (k', all, evs))"

fun process_keepers ::
    "'p cel_eval \<Rightarrow> string \<Rightarrow> res_ptr \<Rightarrow> 'p keeper list \<Rightarrow> (string, int) gomap \<Rightarrow> vac_event list \<Rightarrow>
      go_panic + 'p keeper_state" where
  "process_keepers eval pre item [] all evs = Inr ([], all, evs)"
| "process_keepers eval pre item (k # ks) all evs =
     (if keeper_matches eval k (snd item) then
        (case keep_in_bucket pre k item all evs of
           Inl e \<Rightarrow> Inl e
         | Inr (k', all', evs') \<Rightarrow>
             (case process_keepers eval pre item ks all' evs' of
                Inl e \<Rightarrow> Inl e
              | Inr (ks', all'', evs'') \<Rightarrow> Inr (k' # ks', all'', evs'')))
      else
        (case process_keepers eval pre item ks all evs of
           Inl e \<Rightarrow> Inl e
         | Inr (ks', all', evs') \<Rightarrow> Inr (k # ks', all', evs')))"

section \<open>The loop over the listed resources\<close>

text \<open>\<open>archive\<close> is the disjunction of the cluster and the namespace \<^verbatim>\<open>ArchiveWhen\<close>.\<close>

definition process_item ::
    "'p cel_eval \<Rightarrow> (unstructured \<Rightarrow> bool) \<Rightarrow> string \<Rightarrow> string \<Rightarrow> 'p keeper_state \<Rightarrow> res_ptr \<Rightarrow>
      go_panic + 'p keeper_state" where
  "process_item eval archive pre ns st item =
     (case st of (ks, all, evs) \<Rightarrow>
        case process_keepers eval pre item ks all evs of
          Inl e \<Rightarrow> Inl e
        | Inr (ks', all', evs') \<Rightarrow>
            if list_ex (\<lambda>k. keeper_matches eval k (snd item)) ks then
              Inr (ks', all',
                   if gomap_get all' (u_uid (snd item)) = None
                   then evs' @ [\<lparr>ev_type = pre @ ''.keep-last-when-delete'', ev_namespace = ns,
                                 ev_name = u_name (snd item), ev_item = snd item\<rparr>]
                   else evs')
            else if archive (snd item) then
              Inr (ks', all', evs' @ [\<lparr>ev_type = pre @ ''.archive-when'', ev_namespace = ns,
                                       ev_name = u_name (snd item), ev_item = snd item\<rparr>])
            else Inr (ks', all', evs'))"

fun process_items ::
    "'p cel_eval \<Rightarrow> (unstructured \<Rightarrow> bool) \<Rightarrow> string \<Rightarrow> string \<Rightarrow> 'p keeper_state \<Rightarrow> res_ptr list \<Rightarrow>
      go_panic + 'p keeper_state" where
  "process_items eval archive pre ns st [] = Inr st"
| "process_items eval archive pre ns st (x # xs) =
     (case process_item eval archive pre ns st x of
        Inl e \<Rightarrow> Inl e
      | Inr st' \<Rightarrow> process_items eval archive pre ns st' xs)"

section \<open>The publisher\<close>

text \<open>
  \<open>restMapping\<close> is \<^verbatim>\<open>RESTMapping(GroupKind, version)\<close> and \<open>listItems\<close> the list call;
  \<open>None\<close> stands for an error.
\<close>

record ('p, 'g) vacuumPublisher =
  vp_clusterFilters :: "(string, 'p celExpressions) gomap"
  vp_namespaceFilters :: "'p kind_filters"
  vp_restMapping :: "string \<Rightarrow> string \<Rightarrow> string \<Rightarrow> 'g option"
  vp_listItems :: "'g \<Rightarrow> string \<Rightarrow> unstructured list option"

definition getGVR :: "(string \<Rightarrow> string \<Rightarrow> string \<Rightarrow> 'g option) \<Rightarrow> apiVersionKind \<Rightarrow> 'g option" where
  "getGVR restMapping avk =
     (let data = split_on CHR ''/'' (avk_APIVersion avk)
      in if length data > 1 then restMapping (data ! 0) (avk_Kind avk) (data ! 1)
         else restMapping [] (avk_Kind avk) (avk_APIVersion avk))"

definition empty_cel :: "'p celExpressions" where
  "empty_cel = \<lparr>ce_ArchiveWhen = None, ce_DeleteWhen = None, ce_ArchiveOnDelete = None, ce_KeepLastWhen = []\<rparr>"

definition sendByAPIVersionKind ::
    "'p cel_eval \<Rightarrow> ('p, 'g) vacuumPublisher \<Rightarrow> string \<Rightarrow> string \<Rightarrow> apiVersionKind \<Rightarrow>
      go_panic + vac_event list" where
  "sendByAPIVersionKind eval vcep pre ns avk =
     (case getGVR (vp_restMapping vcep) avk of
        None \<Rightarrow> Inr []
      | Some gvr \<Rightarrow>
          (case vp_listItems vcep gvr ns of
             None \<Rightarrow> Inr []
           | Some items \<Rightarrow>
               let key = Key avk;
                   cluster = gomap_get (vp_clusterFilters vcep) key;
                   namespace = kind_ns_get (vp_namespaceFilters vcep) key ns;
                   archive = (\<lambda>obj.
                     (case cluster of None \<Rightarrow> False | Some c \<Rightarrow> ExecuteBooleanCEL eval (ce_ArchiveWhen c) obj)
                     \<or> (case namespace of None \<Rightarrow> False | Some c \<Rightarrow> ExecuteBooleanCEL eval (ce_ArchiveWhen c) obj))
               in case createKeepers (case cluster of None \<Rightarrow> empty_cel | Some c \<Rightarrow> c)
                         (case namespace of None \<Rightarrow> empty_cel | Some c \<Rightarrow> c) of
                    Inl e \<Rightarrow> Inl e
                  | Inr keepers \<Rightarrow>
                      (case process_items eval archive pre ns (keepers, [], []) (enumerate 0 items) of
                         Inl e \<Rightarrow> Inl e
                       | Inr (_, _, evs) \<Rightarrow> Inr evs)))"

text \<open>Running several sends one after the other: a panic ends the process.\<close>

fun send_all :: "('a \<Rightarrow> go_panic + vac_event list) \<Rightarrow> 'a list \<Rightarrow> go_panic + vac_event list" where
  "send_all f [] = Inr []"
| "send_all f (x # xs) =
     (case f x of
        Inl e \<Rightarrow> Inl e
      | Inr evs \<Rightarrow> (case send_all f xs of Inl e \<Rightarrow> Inl e | Inr evs' \<Rightarrow> Inr (evs @ evs')))"

definition namespace_keys :: "('p, 'g) vacuumPublisher \<Rightarrow> string list" where
  "namespace_keys vcep =
     sort (remdups (gomap_keys (vp_clusterFilters vcep) @ gomap_keys (vp_namespaceFilters vcep)))"

definition key_selectors :: "string list \<Rightarrow> apiVersionKind list" where
  "key_selectors keys =
     concat (map (\<lambda>k. let parts = split_on CHR ''-'' k
                      in if length parts \<noteq> 2 then []
                         else [\<lparr>avk_Kind = parts ! 0, avk_APIVersion = parts ! 1\<rparr>]) keys)"

definition SendByNamespace ::
    "'p cel_eval \<Rightarrow> ('p, 'g) vacuumPublisher \<Rightarrow> string \<Rightarrow> string \<Rightarrow> go_panic + vac_event list" where
  "SendByNamespace eval vcep pre ns =
     send_all (sendByAPIVersionKind eval vcep pre ns) (key_selectors (namespace_keys vcep))"

section \<open>The two vacuum jobs\<close>

text \<open>
  The requests a job makes to the API server, as the answers it gets. A conversion error
  of the answer is one more error of the request. \<open>ve_sinkFilterNamespaces\<close> is the
  answer to the second request for the SinkFilter, made by \<^verbatim>\<open>getNamespacesFromSinkFilter\<close>.
\<close>

datatype k8s_error = NotFound | RequestFailed

datatype vac_error =
    NoNamespaceVariable
  | SinkFilterReaderError
  | SinkFilterError k8s_error
  | ClientError
  | PublisherError
  | ConfigError k8s_error
  | NamespacesError k8s_error
  | Panicked go_panic

record ('p, 'g) vac_env =
  ve_getenv :: "string \<Rightarrow> string"
  ve_readerOk :: bool
  ve_clientOk :: bool
  ve_publisherOk :: bool
  ve_sinkFilter :: "k8s_error + sinkFilter"
  ve_sinkFilterNamespaces :: "k8s_error + sinkFilter"
  ve_clusterVacuumConfig :: "string \<Rightarrow> k8s_error + clusterVacuumConfig"
  ve_namespaceVacuumConfig :: "string \<Rightarrow> string \<Rightarrow> k8s_error + namespaceVacuumConfig"
  ve_compile :: "'p cel_compile"
  ve_eval :: "'p cel_eval"
  ve_restMapping :: "string \<Rightarrow> string \<Rightarrow> string \<Rightarrow> 'g option"
  ve_listItems :: "'g \<Rightarrow> string \<Rightarrow> unstructured list option"

text \<open>A missing SinkFilter is the nil pointer without an error.\<close>

definition GetSinkFilter :: "k8s_error + sinkFilter \<Rightarrow> k8s_error + sinkFilter option" where
  "GetSinkFilter answer =
     (case answer of
        Inl NotFound \<Rightarrow> Inr None
      | Inl RequestFailed \<Rightarrow> Inl RequestFailed
      | Inr sf \<Rightarrow> Inr (Some sf))"

definition ProcessAllNamespacesWithFilterType ::
    "'p cel_compile \<Rightarrow> k8s_error + sinkFilter \<Rightarrow> filterType \<Rightarrow> k8s_error + 'p kind_filters" where
  "ProcessAllNamespacesWithFilterType compile answer ft =
     (case GetSinkFilter answer of
        Inl e \<Rightarrow> Inl e
      | Inr None \<Rightarrow> Inr []
      | Inr (Some sf) \<Rightarrow> Inr (ExtractNamespacesByKind compile sf ft))"

definition ProcessSingleNamespaceWithFilterType ::
    "'p cel_compile \<Rightarrow> k8s_error + sinkFilter \<Rightarrow> string \<Rightarrow> filterType \<Rightarrow> k8s_error + 'p kind_filters" where
  "ProcessSingleNamespaceWithFilterType compile answer targetNamespace ft =
     (case GetSinkFilter answer of
        Inl e \<Rightarrow> Inl e
      | Inr None \<Rightarrow> Inr []
      | Inr (Some sf) \<Rightarrow> Inr (ExtractNamespaceByKind compile sf targetNamespace ft))"

definition getNamespacesFromSinkFilter :: "k8s_error + sinkFilter \<Rightarrow> k8s_error + string list" where
  "getNamespacesFromSinkFilter answer =
     (case answer of Inl e \<Rightarrow> Inl e | Inr sf \<Rightarrow> Inr (sort (gomap_keys (sfNamespaces sf))))"

definition getNamespacesFromClusterVacuumConfig :: "clusterVacuumConfig \<Rightarrow> string list" where
  "getNamespacesFromClusterVacuumConfig config =
     sort (filter (\<lambda>n. n \<noteq> ClusterVacuumAllNamespaces) (gomap_keys (cvc_Namespaces config)))"

definition new_publisher ::
    "('p, 'g) vac_env \<Rightarrow> (string, 'p celExpressions) gomap \<Rightarrow> 'p kind_filters \<Rightarrow> ('p, 'g) vacuumPublisher" where
  "new_publisher env clusterFilters namespaceFilters =
     \<lparr>vp_clusterFilters = clusterFilters, vp_namespaceFilters = namespaceFilters,
      vp_restMapping = ve_restMapping env, vp_listItems = ve_listItems env\<rparr>"

definition clusterVacuumEventTypePrefix :: string where
  "clusterVacuumEventTypePrefix = ''org.kubearchive.vacuum.cluster.resource''"

definition namespaceVacuumEventTypePrefix :: string where
  "namespaceVacuumEventTypePrefix = ''org.kubearchive.vacuum.namespace.resource''"

text \<open>The body of the loop over the namespaces: explicit entry, or the entry for all namespaces.\<close>

definition vacuum_selected ::
    "'p cel_eval \<Rightarrow> ('p, 'g) vacuumPublisher \<Rightarrow> string \<Rightarrow> string \<Rightarrow> apiVersionKind list \<Rightarrow>
      go_panic + vac_event list" where
  "vacuum_selected eval vcep pre ns resources =
     (if resources = [] then SendByNamespace eval vcep pre ns
      else send_all (sendByAPIVersionKind eval vcep pre ns) resources)"

definition vacuum_namespace ::
    "'p cel_eval \<Rightarrow> ('p, 'g) vacuumPublisher \<Rightarrow> clusterVacuumConfig \<Rightarrow> string \<Rightarrow> go_panic + vac_event list" where
  "vacuum_namespace eval vcep config ns =
     vacuum_selected eval vcep clusterVacuumEventTypePrefix ns
       (case gomap_get (cvc_Namespaces config) ns of
          Some value \<Rightarrow> value
        | None \<Rightarrow> gomap_get0 [] (cvc_Namespaces config) ClusterVacuumAllNamespaces)"

definition lift_panic :: "go_panic + 'a \<Rightarrow> vac_error + 'a" where
  "lift_panic r = (case r of Inl p \<Rightarrow> Inl (Panicked p) | Inr x \<Rightarrow> Inr x)"

definition clusterVacuum :: "('p, 'g) vac_env \<Rightarrow> string \<Rightarrow> vac_error + vac_event list" where
  "clusterVacuum env configName =
     (if \<not> ve_readerOk env then Inl SinkFilterReaderError
      else case GetSinkFilter (ve_sinkFilter env) of
        Inl e \<Rightarrow> Inl (SinkFilterError e)
      | Inr None \<Rightarrow> Inl (Panicked NilDereference)
      | Inr (Some sf) \<Rightarrow>
          let clusterFilters = ExtractClusterCELExpressionsByKind (ve_compile env) sf Vacuum;
              namespaceFilters = ExtractNamespacesByKind (ve_compile env) sf Vacuum
          in if \<not> ve_clientOk env then Inl ClientError
             else if \<not> ve_publisherOk env then Inl PublisherError
             else case ve_clusterVacuumConfig env configName of
               Inl e \<Rightarrow> Inl (ConfigError e)
             | Inr config \<Rightarrow>
                 let vcep = new_publisher env clusterFilters namespaceFilters;
                     explicit = getNamespacesFromClusterVacuumConfig config;
                     allNS = (gomap_get (cvc_Namespaces config) ClusterVacuumAllNamespaces \<noteq> None)
                 in case (if explicit = [] \<or> allNS
                          then getNamespacesFromSinkFilter (ve_sinkFilterNamespaces env)
                          else Inr explicit) of
                      Inl e \<Rightarrow> Inl (NamespacesError e)
                    | Inr namespaces \<Rightarrow>
                        lift_panic (send_all (vacuum_namespace (ve_eval env) vcep config) namespaces))"

definition namespaceVacuum :: "('p, 'g) vac_env \<Rightarrow> string \<Rightarrow> vac_error + vac_event list" where
  "namespaceVacuum env configName =
     (let namespace = ve_getenv env ''NAMESPACE''
      in if namespace = [] then Inl NoNamespaceVariable
      else if \<not> ve_readerOk env then Inl SinkFilterReaderError
      else case GetSinkFilter (ve_sinkFilter env) of
        Inl e \<Rightarrow> Inl (SinkFilterError e)
      | Inr None \<Rightarrow> Inl (Panicked NilDereference)
      | Inr (Some sf) \<Rightarrow>
          let clusterFilters = ExtractClusterCELExpressionsByKind (ve_compile env) sf Vacuum;
              namespaceFilters = ExtractNamespaceByKind (ve_compile env) sf namespace Vacuum
          in if \<not> ve_clientOk env then Inl ClientError
             else if \<not> ve_publisherOk env then Inl PublisherError
             else case ve_namespaceVacuumConfig env namespace configName of
               Inl e \<Rightarrow> Inl (ConfigError e)
             | Inr config \<Rightarrow>
                 lift_panic (vacuum_selected (ve_eval env) (new_publisher env clusterFilters namespaceFilters)
                   namespaceVacuumEventTypePrefix namespace (sort_key Key (nvc_Resources config))))"

text \<open>\<^verbatim>\<open>main\<close>: the exit code, or \<open>None\<close> for a panic.\<close>

definition vacuum_main :: "('p, 'g) vac_env \<Rightarrow> string \<Rightarrow> string \<Rightarrow> nat option" where
  "vacuum_main env type config =
     (case (if type = ''cluster'' then clusterVacuum env config else namespaceVacuum env config) of
        Inl (Panicked _) \<Rightarrow> None
      | Inl _ \<Rightarrow> Some 1
      | Inr _ \<Rightarrow> Some 0)"

section \<open>One keeper: what the loop body does to the bucket\<close>

abbreviation rule_count :: "'p keeper \<Rightarrow> nat" where
  "rule_count k \<equiv> nat (klr_Count (kp_when k))"

abbreviation kept_ptrs :: "'p keeper \<Rightarrow> res_ptr list" where
  "kept_ptrs k \<equiv> kept (kp_bucket k)"

definition keeper_ok :: "'p keeper \<Rightarrow> bool" where
  "keeper_ok k \<longleftrightarrow> 0 \<le> klr_Count (kp_when k) \<and> wf_bucket (rule_count k) (kp_bucket k)"

definition insert_pos :: "'p keeper \<Rightarrow> res_ptr \<Rightarrow> nat" where
  "insert_pos k x =
     bucket_pos (klr_SortBy (kp_when k)) x
       (map Some (kept_ptrs k) @ replicate (rule_count k - length (kept_ptrs k)) None)"

definition keep_update :: "res_ptr \<Rightarrow> 'p keeper \<Rightarrow> 'p keeper" where
  "keep_update x k =
     (let qs = take (rule_count k) (ins_at (insert_pos k x) x (kept_ptrs k))
      in k\<lparr>kp_bucket := map Some qs @ replicate (Suc (rule_count k) - length qs) None\<rparr>)"

definition keep_step :: "'p cel_eval \<Rightarrow> res_ptr \<Rightarrow> 'p keeper \<Rightarrow> 'p keeper" where
  "keep_step eval x k = (if keeper_matches eval k (snd x) then keep_update x k else k)"

lemma keep_update_when [simp]: "kp_when (keep_update x k) = kp_when k"
  by (simp add: keep_update_def Let_def)

lemma keep_step_when [simp]: "kp_when (keep_step eval x k) = kp_when k"
  by (simp add: keep_step_def)

lemma keep_update_kept:
  "kept_ptrs (keep_update x k) = take (rule_count k) (ins_at (insert_pos k x) x (kept_ptrs k))"
  by (simp add: keep_update_def Let_def)

lemma keep_update_ok: "keeper_ok k \<Longrightarrow> keeper_ok (keep_update x k)"
  using wf_bucketI [of "take (rule_count k) (ins_at (insert_pos k x) x (kept_ptrs k))" "rule_count k"]
  by (simp add: keeper_ok_def keep_update_def Let_def)

lemma keep_step_ok [simp]: "keeper_ok k \<Longrightarrow> keeper_ok (keep_step eval x k)"
  by (simp add: keep_step_def keep_update_ok)

lemma keep_step_matches [simp]: "keeper_matches eval (keep_step eval' x k) obj = keeper_matches eval k obj"
  by (simp add: keeper_matches_def)

lemma insert_pos_le: "insert_pos k x \<le> length (kept_ptrs k)"
  unfolding insert_pos_def by (rule bucket_pos_le)

lemma keep_in_bucket_eq:
  assumes ok: "keeper_ok k" and fresh: "fst item \<notin> fst ` set (kept_ptrs k)"
  shows "keep_in_bucket pre k item all evs =
    Inr (keep_update item k,
      if insert_pos k item < rule_count k then
        (let all1 = gomap_set all (u_uid (snd item)) (gomap_get0 0 all (u_uid (snd item)) + 1)
         in if length (kept_ptrs k) = rule_count k
            then drop_resource pre (snd (last (kept_ptrs k))) all1 evs else (all1, evs))
      else (all, evs))"
proof -
  define n ps i where "n = rule_count k" and "ps = kept_ptrs k" and "i = insert_pos k item"
  have cnt: "klr_Count (kp_when k) = int n" using ok by (simp add: keeper_ok_def n_def)
  from ok obtain len: "length ps \<le> n" and b: "kp_bucket k = map Some ps @ replicate (Suc n - length ps) None"
    unfolding keeper_ok_def ps_def n_def by (metis wf_bucketE)
  let ?e = "map Some ps @ replicate (n - length ps) None"
  have b': "kp_bucket k = ?e @ [None]"
    using len by (simp add: b Suc_diff_le replicate_append_same)
  have lenb: "length (kp_bucket k) - Suc 0 = n" using len by (simp add: b)
  have upd: "(kp_bucket k)[n := Some item] = ?e @ [Some item]"
    using len by (simp add: b' list_update_append)
  have pos: "bucket_pos (klr_SortBy (kp_when k)) item ?e = i"
    by (simp add: i_def insert_pos_def ps_def n_def)
  have sorted: "sortResources (klr_SortBy (kp_when k)) (?e @ [Some item]) =
      map Some (ins_at i item ps) @ replicate (n - length ps) None" (is "_ = ?b2")
    using sortResources_insert [OF len] by (simp add: pos)
  have i: "i \<le> length ps" by (simp add: i_def ps_def insert_pos_le)
  have final: "?b2[n := None] = map Some (take n (ins_at i item ps)) @
      replicate (Suc n - length (take n (ins_at i item ps))) None"
  proof (cases "length ps = n")
    case True
    then show ?thesis by (simp add: upd_conv_take_nth_drop take_map)
  next
    case False
    with len have lt: "length ps < n" by simp
    then have "?b2 ! n = None" by (simp add: nth_append)
    then have "?b2[n := None] = ?b2" by (metis list_update_id)
    with lt show ?thesis by simp
  qed
  define b2 where "b2 = ?b2"
  have srt: "sortResources (klr_SortBy (kp_when k)) ((kp_bucket k)[n := Some item]) = b2"
    by (simp only: upd sorted b2_def)
  have k': "k\<lparr>kp_bucket := b2[n := None]\<rparr> = keep_update item k"
    by (simp add: keep_update_def Let_def b2_def final flip: n_def ps_def i_def)
  have ne: "kp_bucket k \<noteq> []" by (simp add: b')
  have nth: "go_index b2 (int n) = Some (if length ps = n then Some (last (ins_at i item ps)) else None)"
    using len by (auto simp: b2_def go_index_def nth_append last_conv_nth ins_at_def)
  have lst: "last b2 = (if length ps = n then Some (last (ins_at i item ps)) else None)"
    using len by (auto simp: b2_def last_append last_map ins_at_def)
  have lstp: "last (ins_at i item ps) = (if i < length ps then last ps else item)"
    using i by (auto simp: last_ins_at)
  have notlast: "fst (last ps) \<noteq> fst item" if "i < length ps"
    using fresh that by (metis ps_def image_eqI last_in_set length_greater_0_conv less_nat_zero_code not_gr0)
  have cond: "map_option fst (last b2) = Some (fst item) \<longleftrightarrow> \<not> i < n"
    using i len notlast by (cases "length ps = n") (auto simp: lst lstp simp flip: eq_fst_iff)
  have part: "keep_in_bucket pre k item all evs =
      Inr (keep_update item k,
        if i < n then
          (let all1 = gomap_set all (u_uid (snd item)) (gomap_get0 0 all (u_uid (snd item)) + 1)
           in if length ps = n then drop_resource pre (snd (last ps)) all1 evs else (all1, evs))
        else (all, evs))"
    using i len notlast
    by (cases "length ps = n"; cases "i < n")
      (simp_all add: keep_in_bucket_def Let_def ne lenb srt k' cnt nth cond lstp del: map_option_eq_Some)
  show ?thesis using part unfolding n_def ps_def i_def .
qed

section \<open>The counters of the keepers\<close>

text \<open>
  \<^verbatim>\<open>all[uid]\<close> counts the keepers that hold the resource, and the entry is gone as soon as no
  keeper holds it: this is the invariant that makes the deletions right.
\<close>

definition held_uids :: "'p keeper \<Rightarrow> string set" where
  "held_uids k = (\<lambda>p. u_uid (snd p)) ` set (kept_ptrs k)"

definition held :: "'p keeper list \<Rightarrow> string \<Rightarrow> nat" where
  "held ks u = length (filter (\<lambda>k. u \<in> held_uids k) ks)"

definition count_entry :: "nat \<Rightarrow> int option" where
  "count_entry n = (if n = 0 then None else Some (int n))"

definition counts_ok :: "(string \<Rightarrow> nat) \<Rightarrow> (string, int) gomap \<Rightarrow> bool" where
  "counts_ok f all \<longleftrightarrow> (\<forall>u. map_of all u = count_entry (f u))"

definition delete_events :: "string \<Rightarrow> vac_event list \<Rightarrow> vac_event list" where
  "delete_events pre evs = filter (\<lambda>e. ev_type e = pre @ ''.keep-last-when-delete'') evs"

definition deleted_uids :: "string \<Rightarrow> vac_event list \<Rightarrow> string list" where
  "deleted_uids pre evs = map (\<lambda>e. u_uid (ev_item e)) (delete_events pre evs)"

definition deletes_ok :: "string \<Rightarrow> string set \<Rightarrow> (string \<Rightarrow> nat) \<Rightarrow> vac_event list \<Rightarrow> bool" where
  "deletes_ok pre D f evs \<longleftrightarrow>
     distinct (deleted_uids pre evs) \<and> set (deleted_uids pre evs) = {u \<in> D. f u = 0}"

lemma held_split:
  "held (ks @ ks') u = held ks u + held ks' u"
  "held (k # ks) u = (if u \<in> held_uids k then Suc (held ks u) else held ks u)"
  "held [] u = 0"
  by (simp_all add: held_def)

lemma deleted_uids_simps [simp]:
  "deleted_uids pre [] = []"
  "deleted_uids pre (evs @ evs') = deleted_uids pre evs @ deleted_uids pre evs'"
  by (simp_all add: deleted_uids_def delete_events_def)

lemma deleted_uids_delete [simp]:
  "deleted_uids pre [\<lparr>ev_type = pre @ ''.keep-last-when-delete'', ev_namespace = ns, ev_name = n, ev_item = obj\<rparr>] = [u_uid obj]"
  by (simp add: deleted_uids_def delete_events_def)

lemma deleted_uids_archive [simp]:
  "deleted_uids pre [\<lparr>ev_type = pre @ ''.archive-when'', ev_namespace = ns, ev_name = n, ev_item = obj\<rparr>] = []"
  by (simp add: deleted_uids_def delete_events_def)

lemma counts_ok_get0: "counts_ok f all \<Longrightarrow> gomap_get0 0 all u = int (f u)"
  by (simp add: counts_ok_def gomap_get0_def count_entry_def)

lemma counts_ok_incr:
  "counts_ok f all \<Longrightarrow> counts_ok (f(u := Suc (f u))) (gomap_set all u (gomap_get0 0 all u + 1))"
  by (simp add: counts_ok_get0) (simp add: counts_ok_def count_entry_def)

text \<open>Dropping a held resource: one keeper less, and a deletion exactly when it was the last one.\<close>

lemma drop_resource_ok:
  assumes "counts_ok f all" and "0 < f (u_uid d)" and "deletes_ok pre D f evs" and "u_uid d \<in> D"
    and "drop_resource pre d all evs = (all', evs')"
  shows "counts_ok (f(u_uid d := f (u_uid d) - 1)) all'"
    and "deletes_ok pre D (f(u_uid d := f (u_uid d) - 1)) evs'"
proof -
  let ?u = "u_uid d"
  have get: "gomap_get0 0 all ?u = int (f ?u)"
    using assms(1) by (rule counts_ok_get0)
  have eq: "(all', evs') =
      (if f ?u - 1 = 0
       then (gomap_del (gomap_set all ?u (int (f ?u - 1))) ?u,
             evs @ [\<lparr>ev_type = pre @ ''.keep-last-when-delete'', ev_namespace = u_namespace d,
                     ev_name = u_name d, ev_item = d\<rparr>])
       else (gomap_set all ?u (int (f ?u - 1)), evs))"
    using assms(2,5) by (cases "f ?u") (auto simp: drop_resource_def Let_def get)
  show "counts_ok (f(?u := f ?u - 1)) all'"
    using eq assms(1) by (auto simp: counts_ok_def count_entry_def split: if_splits)
  show "deletes_ok pre D (f(?u := f ?u - 1)) evs'"
  proof (cases "f ?u - 1 = 0")
    case True
    with eq assms(2,3,4) show ?thesis by (auto simp: deletes_ok_def split: if_splits)
  next
    case False
    with eq assms(2,3) show ?thesis by (auto simp: deletes_ok_def split: if_splits)
  qed
qed

section \<open>The loops keep the counters\<close>

text \<open>What the inner loop relies on: fresh addresses and UIDs, and buckets without duplicates.\<close>

definition keeper_fresh :: "res_ptr \<Rightarrow> 'p keeper \<Rightarrow> bool" where
  "keeper_fresh x k \<longleftrightarrow>
     fst x \<notin> fst ` set (kept_ptrs k) \<and> u_uid (snd x) \<notin> held_uids k
     \<and> distinct (map (\<lambda>p. u_uid (snd p)) (kept_ptrs k))"

lemma keep_update_held:
  assumes "keeper_ok k" and "keeper_fresh x k"
  shows "held_uids (keep_update x k) =
      (if insert_pos k x < rule_count k then
         insert (u_uid (snd x)) (if length (kept_ptrs k) = rule_count k
            then held_uids k - {u_uid (snd (last (kept_ptrs k)))} else held_uids k)
       else held_uids k)"
proof -
  let ?ps = "kept_ptrs k" and ?n = "rule_count k" and ?i = "insert_pos k x"
  let ?uid = "\<lambda>p :: res_ptr. u_uid (snd p)"
  have len: "length ?ps \<le> ?n" and i: "?i \<le> length ?ps"
    using assms(1) by (auto simp: keeper_ok_def wf_bucket_def insert_pos_le)
  consider (out) "?i = ?n" "length ?ps = ?n" | (room) "?i < ?n" "length ?ps < ?n"
    | (full) "?i < ?n" "length ?ps = ?n"
    using len i by linarith
  then show ?thesis
  proof cases
    case out
    then show ?thesis by (simp add: held_uids_def keep_update_kept)
  next
    case room
    then show ?thesis by (simp add: held_uids_def keep_update_kept)
  next
    case full
    then have ne: "?ps \<noteq> []" by auto
    then have split: "?ps = butlast ?ps @ [last ?ps]" by simp
    have "take ?n (ins_at ?i x ?ps) = ins_at ?i x (butlast ?ps)"
    proof -
      have "ins_at ?i x ?ps = ins_at ?i x (butlast ?ps) @ [last ?ps]"
        using full by (subst split) (simp add: ins_at_def)
      then show ?thesis using full ne by simp
    qed
    moreover have "?uid ` set (butlast ?ps) = held_uids k - {?uid (last ?ps)}"
    proof -
      have "distinct (map ?uid (butlast ?ps @ [last ?ps]))"
        using assms(2) split by (simp add: keeper_fresh_def)
      moreover have "held_uids k = ?uid ` set (butlast ?ps @ [last ?ps])"
        using split by (simp add: held_uids_def)
      ultimately show ?thesis by auto
    qed
    ultimately show ?thesis using full by (simp add: held_uids_def keep_update_kept)
  qed
qed

lemma keep_in_bucket_ok:
  assumes ok: "keeper_ok k" "keeper_fresh x k"
    and counts: "counts_ok (held (ks1 @ k # ks2)) all"
    and dels: "deletes_ok pre D (held (ks1 @ k # ks2)) evs"
    and D: "held_uids k \<subseteq> D" "u_uid (snd x) \<notin> D"
    and res: "keep_in_bucket pre k x all evs = Inr (k', all', evs')"
  shows "k' = keep_update x k" and "counts_ok (held (ks1 @ k' # ks2)) all'"
    and "deletes_ok pre D (held (ks1 @ k' # ks2)) evs'"
proof -
  let ?ps = "kept_ptrs k" and ?n = "rule_count k" and ?i = "insert_pos k x" and ?u = "u_uid (snd x)"
  let ?f = "held (ks1 @ k # ks2)" and ?f' = "held (ks1 @ keep_update x k # ks2)"
  have fresh: "fst x \<notin> fst ` set ?ps" "?u \<notin> held_uids k" using ok(2) by (simp_all add: keeper_fresh_def)
  note eq = keep_in_bucket_eq [OF ok(1) fresh(1), of pre all evs]
  from res eq show k': "k' = keep_update x k" by simp
  note hu = keep_update_held [OF ok]
  define all1 where "all1 = gomap_set all ?u (gomap_get0 0 all ?u + 1)"
  have c1: "counts_ok (?f(?u := Suc (?f ?u))) all1" unfolding all1_def by (rule counts_ok_incr [OF counts])
  have d1: "deletes_ok pre D (?f(?u := Suc (?f ?u))) evs"
    using dels D(2) by (auto simp: deletes_ok_def)
  consider (out) "\<not> ?i < ?n" | (room) "?i < ?n" "length ?ps \<noteq> ?n" | (full) "?i < ?n" "length ?ps = ?n"
    by blast
  then have "counts_ok ?f' all' \<and> deletes_ok pre D ?f' evs'"
  proof cases
    case out
    with hu have "?f' = ?f" by (auto simp: fun_eq_iff held_split)
    with out res eq counts dels show ?thesis by simp
  next
    case room
    with hu fresh have "?f' = ?f(?u := Suc (?f ?u))" by (auto simp: fun_eq_iff held_split)
    with room res eq c1 d1 show ?thesis by (simp add: all1_def Let_def)
  next
    case full
    let ?d = "u_uid (snd (last ?ps))"
    have "?ps \<noteq> []" using full by auto
    then have d: "?d \<in> held_uids k" by (simp add: held_uids_def)
    with fresh have du: "?d \<noteq> ?u" by auto
    let ?g = "?f(?u := Suc (?f ?u))"
    have f': "?f' = ?g(?d := ?g ?d - 1)"
      using hu full d du fresh by (auto simp: fun_eq_iff held_split)
    have dr: "drop_resource pre (snd (last ?ps)) all1 evs = (all', evs')"
      using full res eq by (simp add: all1_def Let_def)
    have gd: "0 < ?g ?d" and dD: "?d \<in> D" using d du D(1) by (auto simp: held_split)
    show ?thesis
      unfolding f' using drop_resource_ok [OF c1 gd d1 dD dr] by (rule conjI)
  qed
  then show "counts_ok (held (ks1 @ k' # ks2)) all'" "deletes_ok pre D (held (ks1 @ k' # ks2)) evs'"
    by (simp_all add: k')
qed

lemma process_keepers_ok:
  assumes "\<forall>k\<in>set ks. keeper_ok k \<and> keeper_fresh x k \<and> held_uids k \<subseteq> D" and "u_uid (snd x) \<notin> D"
    and "counts_ok (held (ks1 @ ks)) all" and "deletes_ok pre D (held (ks1 @ ks)) evs"
  shows "\<exists>all' evs'. process_keepers eval pre x ks all evs = Inr (map (keep_step eval x) ks, all', evs')
    \<and> counts_ok (held (ks1 @ map (keep_step eval x) ks)) all'
    \<and> deletes_ok pre D (held (ks1 @ map (keep_step eval x) ks)) evs'"
  using assms
proof (induction ks arbitrary: ks1 all evs)
  case (Cons k ks)
  have k: "keeper_ok k" "keeper_fresh x k" "held_uids k \<subseteq> D" using Cons.prems by simp_all
  show ?case
  proof (cases "keeper_matches eval k (snd x)")
    case False
    with Cons.IH [of "ks1 @ [k]" all evs] Cons.prems show ?thesis
      by (auto simp: keep_step_def)
  next
    case True
    obtain k' all' evs' where res: "keep_in_bucket pre k x all evs = Inr (k', all', evs')"
      using keep_in_bucket_eq [OF k(1), of x pre all evs] k(2) by (metis keeper_fresh_def prod.exhaust)
    from keep_in_bucket_ok [OF k(1,2) Cons.prems(3,4) k(3) Cons.prems(2) res]
    have k': "keep_step eval x k = k'" and c: "counts_ok (held ((ks1 @ [k']) @ ks)) all'"
      and d: "deletes_ok pre D (held ((ks1 @ [k']) @ ks)) evs'"
      by (simp_all add: keep_step_def True)
    from Cons.IH [OF _ Cons.prems(2) c d] Cons.prems(1) obtain all'' evs'' where
      "process_keepers eval pre x ks all' evs' = Inr (map (keep_step eval x) ks, all'', evs'')"
      "counts_ok (held ((ks1 @ [k']) @ map (keep_step eval x) ks)) all''"
      "deletes_ok pre D (held ((ks1 @ [k']) @ map (keep_step eval x) ks)) evs''"
      by auto
    with res True k' show ?thesis by auto
  qed
qed simp

text \<open>
  The state after the resources \<open>xs\<close>: every keeper holds some of the resources its rule
  matched, the counters are right, and the deletions sent so far are those of the matched
  resources no keeper holds.
\<close>

definition matched :: "'p cel_eval \<Rightarrow> 'p keeper list \<Rightarrow> unstructured \<Rightarrow> bool" where
  "matched eval ks obj \<longleftrightarrow> list_ex (\<lambda>k. keeper_matches eval k obj) ks"

definition matched_by :: "'p cel_eval \<Rightarrow> 'p keeper \<Rightarrow> res_ptr list \<Rightarrow> res_ptr list" where
  "matched_by eval k xs = filter (\<lambda>p. keeper_matches eval k (snd p)) xs"

definition matched_uids :: "'p cel_eval \<Rightarrow> 'p keeper list \<Rightarrow> res_ptr list \<Rightarrow> string set" where
  "matched_uids eval ks xs = {u_uid (snd p) |p. p \<in> set xs \<and> matched eval ks (snd p)}"

definition vac_inv :: "'p cel_eval \<Rightarrow> string \<Rightarrow> res_ptr list \<Rightarrow> 'p keeper_state \<Rightarrow> bool" where
  "vac_inv eval pre xs st \<longleftrightarrow>
     (case st of (ks, all, evs) \<Rightarrow>
        (\<forall>k\<in>set ks. keeper_ok k \<and> mset (kept_ptrs k) \<subseteq># mset (matched_by eval k xs))
        \<and> counts_ok (held ks) all \<and> deletes_ok pre (matched_uids eval ks xs) (held ks) evs)"

definition all_distinct :: "res_ptr list \<Rightarrow> bool" where
  "all_distinct xs \<longleftrightarrow> distinct (map fst xs) \<and> distinct (map (\<lambda>p. u_uid (snd p)) xs)"

lemma matched_map_keep [simp]:
  "matched eval (map (keep_step eval x) ks) obj = matched eval ks obj"
  by (simp add: matched_def list_ex_iff)

lemma keep_step_subset:
  assumes "mset (kept_ptrs k) \<subseteq># mset (matched_by eval k xs)"
  shows "mset (kept_ptrs (keep_step eval x k)) \<subseteq># mset (matched_by eval (keep_step eval x k) (xs @ [x]))"
proof (cases "keeper_matches eval k (snd x)")
  case True
  have "mset (take (rule_count k) (ins_at (insert_pos k x) x (kept_ptrs k))) \<subseteq># add_mset x (mset (kept_ptrs k))"
    by (metis append_take_drop_id mset_append mset_ins_at mset_subset_eq_add_left)
  then show ?thesis
    using assms True by (auto simp: keep_step_def keep_update_kept matched_by_def keeper_matches_def
        intro: subset_mset.order_trans)
qed (use assms in \<open>simp add: keep_step_def matched_by_def\<close>)

lemma vac_inv_fresh:
  assumes sub: "mset (kept_ptrs k) \<subseteq># mset (matched_by eval k xs)" and dist: "all_distinct (xs @ [x])"
  shows "keeper_fresh x k"
proof -
  have "mset (kept_ptrs k) \<subseteq># mset xs"
    using sub by (metis matched_by_def mset_filter multiset_filter_subset subset_mset.order_trans)
  then have in_xs: "set (kept_ptrs k) \<subseteq> set xs" by (metis set_mset_mono set_mset_mset)
  have "mset (map (\<lambda>p. u_uid (snd p)) (kept_ptrs k)) \<subseteq># mset (map (\<lambda>p. u_uid (snd p)) xs)"
    using \<open>mset (kept_ptrs k) \<subseteq># mset xs\<close> by (simp add: image_mset_subseteq_mono)
  moreover have "distinct (map (\<lambda>p. u_uid (snd p)) xs)" using dist by (simp add: all_distinct_def)
  ultimately have "distinct (map (\<lambda>p. u_uid (snd p)) (kept_ptrs k))"
    by (rule distinct_submset)
  with in_xs dist show ?thesis
    by (auto simp: keeper_fresh_def all_distinct_def held_uids_def)
qed

lemma held_uids_matched:
  assumes "k \<in> set ks" and "mset (kept_ptrs k) \<subseteq># mset (matched_by eval k xs)"
  shows "held_uids k \<subseteq> matched_uids eval ks xs"
proof -
  have "set (kept_ptrs k) \<subseteq> set (matched_by eval k xs)"
    using assms(2) by (metis set_mset_mono set_mset_mset)
  with assms(1) show ?thesis
    by (fastforce simp: held_uids_def matched_uids_def matched_by_def matched_def list_ex_iff)
qed

text \<open>One resource of the list.\<close>

lemma process_item_inv:
  assumes inv: "vac_inv eval pre xs (ks, all, evs)" and dist: "all_distinct (xs @ [x])"
  shows "\<exists>all' evs'. process_item eval archive pre ns (ks, all, evs) x = Inr (map (keep_step eval x) ks, all', evs')
    \<and> vac_inv eval pre (xs @ [x]) (map (keep_step eval x) ks, all', evs')"
proof -
  let ?D = "matched_uids eval ks xs" and ?ks = "map (keep_step eval x) ks" and ?u = "u_uid (snd x)"
  have ks: "\<forall>k\<in>set ks. keeper_ok k \<and> keeper_fresh x k \<and> held_uids k \<subseteq> ?D"
    using inv dist by (auto simp: vac_inv_def intro: vac_inv_fresh dest: held_uids_matched)
  have new: "?u \<notin> ?D" using dist by (force simp: matched_uids_def all_distinct_def)
  have "counts_ok (held ([] @ ks)) all" "deletes_ok pre ?D (held ([] @ ks)) evs"
    using inv by (simp_all add: vac_inv_def)
  from process_keepers_ok [OF ks new this, of eval] obtain all' evs' where
    pk: "process_keepers eval pre x ks all evs = Inr (?ks, all', evs')"
    and c: "counts_ok (held ?ks) all'" and d: "deletes_ok pre ?D (held ?ks) evs'"
    by auto
  have D': "matched_uids eval ?ks (xs @ [x]) = (if matched eval ks (snd x) then insert ?u ?D else ?D)"
    by (cases x) (auto simp: matched_uids_def)
  have kok: "\<forall>k\<in>set ?ks. keeper_ok k \<and> mset (kept_ptrs k) \<subseteq># mset (matched_by eval k (xs @ [x]))"
    using inv by (auto simp: vac_inv_def keep_step_subset simp del: keep_step_matches)
  have get: "map_of all' ?u = None \<longleftrightarrow> held ?ks ?u = 0"
    using c by (simp add: counts_ok_def count_entry_def)
  have dels: "deletes_ok pre (insert ?u ?D) (held ?ks) evs'" if "held ?ks ?u \<noteq> 0"
    using d that by (auto simp: deletes_ok_def)
  have dels': "deletes_ok pre (insert ?u ?D) (held ?ks) (evs' @ [\<lparr>ev_type = pre @ ''.keep-last-when-delete'',
      ev_namespace = ns, ev_name = u_name (snd x), ev_item = snd x\<rparr>])" if "held ?ks ?u = 0"
    using d new that by (auto simp: deletes_ok_def)
  have arch: "deletes_ok pre ?D (held ?ks) (evs' @ [\<lparr>ev_type = pre @ ''.archive-when'',
      ev_namespace = ns, ev_name = u_name (snd x), ev_item = snd x\<rparr>])"
    using d by (simp add: deletes_ok_def)
  show ?thesis
    using pk c d kok D' get dels dels' arch
    by (simp add: process_item_def vac_inv_def flip: matched_def)
qed

lemma process_items_inv:
  assumes "vac_inv eval pre xs (ks, all, evs)" and "all_distinct (xs @ ys)"
  shows "\<exists>all' evs'. process_items eval archive pre ns (ks, all, evs) ys =
      Inr (map (\<lambda>k. foldl (\<lambda>k x. keep_step eval x k) k ys) ks, all', evs')
    \<and> vac_inv eval pre (xs @ ys) (map (\<lambda>k. foldl (\<lambda>k x. keep_step eval x k) k ys) ks, all', evs')"
  using assms
proof (induction ys arbitrary: xs ks all evs)
  case (Cons y ys)
  have "all_distinct (xs @ [y])" using Cons.prems(2) by (auto simp: all_distinct_def)
  from process_item_inv [OF Cons.prems(1) this, of archive ns] obtain all1 evs1 where
    one: "process_item eval archive pre ns (ks, all, evs) y = Inr (map (keep_step eval y) ks, all1, evs1)"
    "vac_inv eval pre (xs @ [y]) (map (keep_step eval y) ks, all1, evs1)"
    by blast
  from Cons.IH [OF one(2)] Cons.prems(2) one(1) show ?case by (simp add: comp_def)
qed simp

section \<open>What one rule keeps\<close>

definition new_keeper :: "'p keepLastWhenRule \<Rightarrow> 'p keeper" where
  "new_keeper r = \<lparr>kp_when = r, kp_bucket = replicate (nat (klr_Count r + 1)) None\<rparr>"

text \<open>The resources a rule holds at the end of the list, in the order of its bucket.\<close>

definition rule_kept :: "'p cel_eval \<Rightarrow> 'p keepLastWhenRule \<Rightarrow> res_ptr list \<Rightarrow> res_ptr list" where
  "rule_kept eval r xs = kept_ptrs (foldl (\<lambda>k x. keep_step eval x k) (new_keeper r) xs)"

definition rule_matches :: "'p cel_eval \<Rightarrow> 'p keepLastWhenRule \<Rightarrow> unstructured \<Rightarrow> bool" where
  "rule_matches eval r obj = ExecuteBooleanCEL eval (klr_When r) obj"

lemma keeper_matches_rule: "keeper_matches eval k obj = rule_matches eval (kp_when k) obj"
  by (simp add: keeper_matches_def rule_matches_def)

lemma new_keeper_when [simp]: "kp_when (new_keeper r) = r"
  by (simp add: new_keeper_def)

lemma new_keeper_kept [simp]: "kept_ptrs (new_keeper r) = []"
  by (simp add: new_keeper_def)

lemma make_keepers_eq:
  "\<forall>r\<in>set rs. 0 \<le> klr_Count r \<Longrightarrow> make_keepers rs = Inr (map new_keeper rs)"
  by (induction rs) (auto simp: new_keeper_def)

lemma new_keeper_ok: "0 \<le> klr_Count r \<Longrightarrow> keeper_ok (new_keeper r)"
  using wf_bucket_make [of "nat (klr_Count r)"]
  by (simp add: keeper_ok_def new_keeper_def nat_add_distrib)

lemma foldl_keep_when [simp]: "kp_when (foldl (\<lambda>k x. keep_step eval x k) k xs) = kp_when k"
  by (induction xs rule: rev_induct) auto

lemma foldl_keep_ok: "keeper_ok k \<Longrightarrow> keeper_ok (foldl (\<lambda>k x. keep_step eval x k) k xs)"
  by (induction xs rule: rev_induct) auto


lemma held_pos: "0 < held ks u \<longleftrightarrow> (\<exists>k\<in>set ks. u \<in> held_uids k)"
  by (auto simp: held_def filter_empty_conv)

lemma collect_filter: "{u \<in> {f p |p. P p}. Q u} = {f p |p. P p \<and> Q (f p)}"
  by blast

lemma process_items_start:
  assumes "\<forall>r\<in>set rs. 0 \<le> klr_Count r" and "all_distinct xs"
  shows "\<exists>ks all evs. process_items eval archive pre ns (map new_keeper rs, [], []) xs = Inr (ks, all, evs)
    \<and> distinct (deleted_uids pre evs)
    \<and> set (deleted_uids pre evs) =
        {u_uid (snd p) |p. p \<in> set xs \<and> (\<exists>r\<in>set rs. rule_matches eval r (snd p))
           \<and> \<not> (\<exists>r\<in>set rs. u_uid (snd p) \<in> (\<lambda>q. u_uid (snd q)) ` set (rule_kept eval r xs))}"
proof -
  have "held (map new_keeper rs) u = 0" for u
    by (simp add: held_def held_uids_def comp_def)
  then have start: "vac_inv eval pre [] (map new_keeper rs, [], [])"
    using assms(1) by (auto simp: vac_inv_def new_keeper_ok counts_ok_def count_entry_def deletes_ok_def
        matched_uids_def)
  let ?ks = "map (\<lambda>k. foldl (\<lambda>k x. keep_step eval x k) k xs) (map new_keeper rs)"
  have "all_distinct ([] @ xs)" using assms(2) by simp
  from process_items_inv [OF start this, of archive ns] obtain all evs where
    res: "process_items eval archive pre ns (map new_keeper rs, [], []) xs = Inr (?ks, all, evs)"
    and inv: "vac_inv eval pre xs (?ks, all, evs)"
    by auto
  have h: "held ?ks u = 0 \<longleftrightarrow> \<not> (\<exists>r\<in>set rs. u \<in> (\<lambda>q. u_uid (snd q)) ` set (rule_kept eval r xs))" for u
    using held_pos [of ?ks u] by (auto simp: held_uids_def rule_kept_def)
  have m: "matched eval ?ks obj \<longleftrightarrow> (\<exists>r\<in>set rs. rule_matches eval r obj)" for obj
    by (auto simp: matched_def list_ex_iff keeper_matches_rule)
  have e: "set (deleted_uids pre evs) = {u \<in> matched_uids eval ?ks xs. held ?ks u = 0}"
    using inv by (simp add: vac_inv_def deletes_ok_def)
  have "set (deleted_uids pre evs) =
        {u_uid (snd p) |p. p \<in> set xs \<and> (\<exists>r\<in>set rs. rule_matches eval r (snd p))
           \<and> \<not> (\<exists>r\<in>set rs. u_uid (snd p) \<in> (\<lambda>q. u_uid (snd q)) ` set (rule_kept eval r xs))}"
    unfolding e matched_uids_def m h collect_filter by (simp only: conj_assoc)
  moreover have "distinct (deleted_uids pre evs)" using inv by (simp add: vac_inv_def deletes_ok_def)
  ultimately show ?thesis using res by blast
qed

section \<open>Properties\<close>

text \<open>The rules that apply to a kind in a namespace: those of the cluster and of the namespace, unified.\<close>

definition rules_for :: "('p, 'g) vacuumPublisher \<Rightarrow> string \<Rightarrow> apiVersionKind \<Rightarrow> 'p keepLastWhenRule list" where
  "rules_for vcep ns avk =
     unifyRules
       (case gomap_get (vp_clusterFilters vcep) (Key avk) of None \<Rightarrow> [] | Some c \<Rightarrow> ce_KeepLastWhen c)
       (case kind_ns_get (vp_namespaceFilters vcep) (Key avk) ns of None \<Rightarrow> [] | Some c \<Rightarrow> ce_KeepLastWhen c)"

lemma all_distinct_enumerate:
  assumes "distinct (map u_uid items)"
  shows "all_distinct (enumerate 0 items)"
proof -
  have "map (\<lambda>p. u_uid (snd p)) (enumerate n items) = map u_uid items" for n
    by (induction items arbitrary: n) auto
  with assms show ?thesis by (simp add: all_distinct_def)
qed

lemma createKeepers_rules:
  assumes "\<forall>r\<in>set (rules_for vcep ns avk). 0 \<le> klr_Count r"
  shows "createKeepers (case gomap_get (vp_clusterFilters vcep) (Key avk) of None \<Rightarrow> empty_cel | Some c \<Rightarrow> c)
      (case kind_ns_get (vp_namespaceFilters vcep) (Key avk) ns of None \<Rightarrow> empty_cel | Some c \<Rightarrow> c)
    = Inr (map new_keeper (rules_for vcep ns avk))"
  using make_keepers_eq [OF assms]
  by (auto simp: createKeepers_def rules_for_def empty_cel_def split: option.splits)

lemma vacuum_run_deletes:
  assumes "getGVR (vp_restMapping vcep) avk = Some gvr" and "vp_listItems vcep gvr ns = Some items"
    and "distinct (map u_uid items)"
    and "\<forall>r\<in>set (rules_for vcep ns avk). 0 \<le> klr_Count r"
  shows "\<exists>evs. sendByAPIVersionKind eval vcep pre ns avk = Inr evs
    \<and> distinct (deleted_uids pre evs)
    \<and> set (deleted_uids pre evs) =
        {u_uid (snd p) |p. p \<in> set (enumerate 0 items)
           \<and> (\<exists>r\<in>set (rules_for vcep ns avk). rule_matches eval r (snd p))
           \<and> \<not> (\<exists>r\<in>set (rules_for vcep ns avk).
                  u_uid (snd p) \<in> (\<lambda>q. u_uid (snd q)) ` set (rule_kept eval r (enumerate 0 items)))}"
proof -
  let ?archive = "\<lambda>obj.
    (case gomap_get (vp_clusterFilters vcep) (Key avk) of None \<Rightarrow> False | Some c \<Rightarrow> ExecuteBooleanCEL eval (ce_ArchiveWhen c) obj)
    \<or> (case kind_ns_get (vp_namespaceFilters vcep) (Key avk) ns of None \<Rightarrow> False | Some c \<Rightarrow> ExecuteBooleanCEL eval (ce_ArchiveWhen c) obj)"
  from process_items_start [OF assms(4) all_distinct_enumerate [OF assms(3)], of eval ?archive pre ns]
  obtain ks all evs where res:
    "process_items eval ?archive pre ns (map new_keeper (rules_for vcep ns avk), [], []) (enumerate 0 items) = Inr (ks, all, evs)"
    and evs: "distinct (deleted_uids pre evs)"
    "set (deleted_uids pre evs) =
        {u_uid (snd p) |p. p \<in> set (enumerate 0 items)
           \<and> (\<exists>r\<in>set (rules_for vcep ns avk). rule_matches eval r (snd p))
           \<and> \<not> (\<exists>r\<in>set (rules_for vcep ns avk).
                  u_uid (snd p) \<in> (\<lambda>q. u_uid (snd q)) ` set (rule_kept eval r (enumerate 0 items)))}"
    by blast
  have "sendByAPIVersionKind eval vcep pre ns avk = Inr evs"
    by (simp only: sendByAPIVersionKind_def assms(1,2) Let_def option.case createKeepers_rules [OF assms(4)]
        sum.case res prod.case)
  with evs show ?thesis by blast
qed

text \<open>C17: for a kind that can be listed, with rules whose counts are not negative and resources
  with different UIDs, the vacuum does not panic, sends at most one delete event per resource,
  and the resources it deletes are exactly those that some rule matches and that no rule holds
  in its bucket after the last resource, whatever the order of the list and the sort fields.\<close>

theorem vacuum_deletes_exactly:
  assumes "getGVR (vp_restMapping vcep) avk = Some gvr" and "vp_listItems vcep gvr ns = Some items"
    and "distinct (map u_uid items)"
    and "\<forall>r\<in>set (rules_for vcep ns avk). 0 \<le> klr_Count r"
  shows "\<exists>evs. sendByAPIVersionKind eval vcep pre ns avk = Inr evs
    \<and> distinct (deleted_uids pre evs)
    \<and> set (deleted_uids pre evs) =
        {u_uid (snd p) |p. p \<in> set (enumerate 0 items)
           \<and> (\<exists>r\<in>set (rules_for vcep ns avk). rule_matches eval r (snd p))
           \<and> \<not> (\<exists>r\<in>set (rules_for vcep ns avk).
                  u_uid (snd p) \<in> (\<lambda>q. u_uid (snd q)) ` set (rule_kept eval r (enumerate 0 items)))}"
  by (rule vacuum_run_deletes [OF assms])

definition sample_publisher :: "(unit, unit) vacuumPublisher" where
  "sample_publisher =
     \<lparr>vp_clusterFilters = [(''Pod-v1'', \<lparr>ce_ArchiveWhen = None, ce_DeleteWhen = None, ce_ArchiveOnDelete = None,
                                         ce_KeepLastWhen = [sample_rule ''r'' ''true'' 1]\<rparr>)],
      vp_namespaceFilters = [], vp_restMapping = (\<lambda>_ _ _. Some ()),
      vp_listItems = (\<lambda>_ _. Some [sample_obj ''Pod'' ''old'' ''u1'' 10, sample_obj ''Pod'' ''new'' ''u2'' 20])\<rparr>"

lemma sample_rules:
  "rules_for sample_publisher ''ns'' \<lparr>avk_Kind = ''Pod'', avk_APIVersion = ''v1''\<rparr> = [sample_rule ''r'' ''true'' 1]"
  by (simp add: rules_for_def sample_publisher_def Key_def kind_ns_get_def unifyRules_def unify_cluster_rule_def)

theorem vacuum_deletes_exactly_witness:
  "\<exists>evs. sendByAPIVersionKind (\<lambda>_ _. CelBool True) sample_publisher ''p'' ''ns''
      \<lparr>avk_Kind = ''Pod'', avk_APIVersion = ''v1''\<rparr> = Inr evs \<and> distinct (deleted_uids ''p'' evs)"
  using vacuum_deletes_exactly [of sample_publisher "\<lparr>avk_Kind = ''Pod'', avk_APIVersion = ''v1''\<rparr>" "()" "''ns''"
      "[sample_obj ''Pod'' ''old'' ''u1'' 10, sample_obj ''Pod'' ''new'' ''u2'' 20]" "\<lambda>_ _. CelBool True" "''p''"]
  unfolding sample_rules
  by (auto simp: sample_publisher_def getGVR_def sample_obj_def sample_rule_def)



text \<open>A namespace run recovers from the filter keys exactly the selectors whose API version
  has no dash; a kind of a group such as \<open>cert-manager.io/v1\<close> is never vacuumed by it.\<close>

theorem namespace_run_skips_dashed_groups:
  assumes "\<forall>a\<in>set avks. CHR ''-'' \<notin> set (avk_Kind a)"
  shows "key_selectors (map Key avks) = filter (\<lambda>a. CHR ''-'' \<notin> set (avk_APIVersion a)) avks"
  using assms
proof (induction avks)
  case (Cons a as)
  have "length (split_on CHR ''-'' (Key a)) = 2 \<longleftrightarrow> CHR ''-'' \<notin> set (avk_APIVersion a)"
    using Cons.prems by (simp add: Key_split length_split_on count_list_0_iff)
  moreover have "split_on CHR ''-'' (Key a) = [avk_Kind a, avk_APIVersion a]" if "CHR ''-'' \<notin> set (avk_APIVersion a)"
    using Cons.prems that by (simp add: Key_split split_on_none)
  ultimately show ?case using Cons by (simp add: key_selectors_def Let_def)
qed (simp add: key_selectors_def)

theorem namespace_run_skips_dashed_groups_witness:
  "key_selectors (map Key [\<lparr>avk_Kind = ''Pod'', avk_APIVersion = ''v1''\<rparr>,
     \<lparr>avk_Kind = ''Issuer'', avk_APIVersion = ''cert-manager.io/v1''\<rparr>]) = [\<lparr>avk_Kind = ''Pod'', avk_APIVersion = ''v1''\<rparr>]"
  using namespace_run_skips_dashed_groups [of "[\<lparr>avk_Kind = ''Pod'', avk_APIVersion = ''v1''\<rparr>,
     \<lparr>avk_Kind = ''Issuer'', avk_APIVersion = ''cert-manager.io/v1''\<rparr>]"]
  by simp

text \<open>Without a SinkFilter both vacuum jobs dereference the nil pointer that \<open>GetSinkFilter\<close>
  returns and panic, while the readers that process namespaces return an empty map.\<close>

theorem missing_sinkfilter_panics:
  assumes "ve_sinkFilter env = Inl NotFound" and "ve_readerOk env" and "ve_getenv env ''NAMESPACE'' \<noteq> []"
  shows "clusterVacuum env c = Inl (Panicked NilDereference)
    \<and> namespaceVacuum env c = Inl (Panicked NilDereference)
    \<and> ProcessAllNamespacesWithFilterType compile (ve_sinkFilter env) ft = Inr []
    \<and> ProcessSingleNamespaceWithFilterType compile (ve_sinkFilter env) n ft = Inr []"
  using assms
  by (simp add: clusterVacuum_def namespaceVacuum_def GetSinkFilter_def ProcessAllNamespacesWithFilterType_def
      ProcessSingleNamespaceWithFilterType_def Let_def)

definition sample_env :: "k8s_error + sinkFilter \<Rightarrow> (unit, unit) vac_env" where
  "sample_env sf =
     \<lparr>ve_getenv = (\<lambda>_. ''ns''), ve_readerOk = True, ve_clientOk = True, ve_publisherOk = True,
      ve_sinkFilter = sf, ve_sinkFilterNamespaces = sf,
      ve_clusterVacuumConfig = (\<lambda>n. Inr \<lparr>cvc_Name = n, cvc_Namespace = ''kubearchive'', cvc_Namespaces = []\<rparr>),
      ve_namespaceVacuumConfig = (\<lambda>ns n. Inr \<lparr>nvc_Name = n, nvc_Namespace = ns, nvc_Resources = []\<rparr>),
      ve_compile = (\<lambda>_. Some ()), ve_eval = (\<lambda>_ _. CelBool True),
      ve_restMapping = (\<lambda>_ _ _. Some ()), ve_listItems = (\<lambda>_ _. Some [])\<rparr>"

theorem missing_sinkfilter_panics_witness:
  "clusterVacuum (sample_env (Inl NotFound)) ''c'' = Inl (Panicked NilDereference)"
  by (rule missing_sinkfilter_panics [THEN conjunct1]) (simp_all add: sample_env_def)

text \<open>A ClusterVacuumConfig that names no namespace at all runs over every namespace of the
  SinkFilter, exactly like one whose only entry is the one for all namespaces without resources.\<close>

theorem empty_cluster_config_is_all_namespaces:
  assumes "ve_clusterVacuumConfig env c = Inr cfg" and "cvc_Namespaces cfg = []"
    and "ve_clusterVacuumConfig env c' = Inr cfg'" and "cvc_Namespaces cfg' = [(ClusterVacuumAllNamespaces, [])]"
  shows "clusterVacuum env c = clusterVacuum env c'"
proof -
  have ns: "vacuum_namespace ev v cfg n = vacuum_namespace ev v cfg' n" for ev n and v :: "('a, 'b) vacuumPublisher"
    using assms(2,4) by (simp add: vacuum_namespace_def gomap_get0_def)
  have "vacuum_namespace ev v cfg = vacuum_namespace ev v cfg'" for ev and v :: "('a, 'b) vacuumPublisher"
    by (rule ext) (rule ns)
  then show ?thesis using assms
    by (cases "GetSinkFilter (ve_sinkFilter env)"; cases "projr (GetSinkFilter (ve_sinkFilter env))")
       (simp_all add: clusterVacuum_def getNamespacesFromClusterVacuumConfig_def Let_def split: sum.split)
qed

theorem empty_cluster_config_is_all_namespaces_witness:
  "let env = (sample_env (Inl RequestFailed))\<lparr>ve_clusterVacuumConfig := (\<lambda>n. Inr \<lparr>cvc_Name = n, cvc_Namespace = ''k'',
      cvc_Namespaces = (if n = ''empty'' then [] else [(ClusterVacuumAllNamespaces, [])])\<rparr>)\<rparr>
   in clusterVacuum env ''empty'' = clusterVacuum env ''all''"
  unfolding Let_def
  by (rule empty_cluster_config_is_all_namespaces
      [where cfg = "\<lparr>cvc_Name = ''empty'', cvc_Namespace = ''k'', cvc_Namespaces = []\<rparr>"
         and cfg' = "\<lparr>cvc_Name = ''all'', cvc_Namespace = ''k'',
           cvc_Namespaces = [(ClusterVacuumAllNamespaces, [])]\<rparr>"]) simp_all

end
