(* ===== verification/Label_Tables.thy ===== *)
theory Label_Tables
  imports Kube_Types
begin

text \<open>
  The normalised label tables of the PostgreSQL schema and the trigger that fills them
  (\<^verbatim>\<open>07_label_normalization_tables.up.sql\<close>, \<^verbatim>\<open>09_label_trigger.up.sql\<close>). The label filters of
  \<^verbatim>\<open>pkg/database/sql/postgresql.go\<close> read these tables instead of the JSON of the resources;
  what they rely on is \<open>label_sync\<close>, which the trigger establishes.

  A table with a \<^verbatim>\<open>BIGSERIAL\<close> identifier and a unique column is an association list from the
  column to the identifier, with the next identifier of its sequence.
\<close>

type_synonym 'k serial_table = "('k \<times> int) list \<times> int"

abbreviation row_id :: "'k serial_table \<Rightarrow> 'k \<Rightarrow> int option" where
  "row_id t k \<equiv> map_of (fst t) k"

text \<open>\<^verbatim>\<open>INSERT ... ON CONFLICT DO NOTHING\<close>: a conflict uses up an identifier as well.\<close>

definition insert_do_nothing :: "'k \<Rightarrow> 'k serial_table \<Rightarrow> 'k serial_table" where
  "insert_do_nothing k t =
     (case t of (rows, nxt) \<Rightarrow>
        (case map_of rows k of None \<Rightarrow> (rows @ [(k, nxt)], nxt + 1) | Some _ \<Rightarrow> (rows, nxt + 1)))"

definition insert_all :: "'k list \<Rightarrow> 'k serial_table \<Rightarrow> 'k serial_table" where
  "insert_all ks t = fold insert_do_nothing ks t"

record label_tables =
  lt_key :: "string serial_table"
  lt_value :: "string serial_table"
  lt_pair :: "(int \<times> int) serial_table"
  lt_resource :: "(int \<times> int) list"

definition pair_key :: "label_tables \<Rightarrow> string \<times> string \<Rightarrow> (int \<times> int) option" where
  "pair_key lt kv =
     (case (row_id (lt_key lt) (fst kv), row_id (lt_value lt) (snd kv)) of
        (Some a, Some b) \<Rightarrow> Some (a, b) | _ \<Rightarrow> None)"

text \<open>The identifier of a label: \<^verbatim>\<open>label_key_value\<close> joined with key and value.\<close>

definition label_id :: "label_tables \<Rightarrow> string \<times> string \<Rightarrow> int option" where
  "label_id lt kv = Option.bind (pair_key lt kv) (row_id (lt_pair lt))"

text \<open>
  \<^verbatim>\<open>sync_labels_to_relational_tables\<close>: \<open>old\<close> is the label object before an update,
  \<open>None\<close> for an insert; a missing label object is \<open>None\<close> inside.
\<close>

type_synonym label_obj = "(string, string) gomap option"

definition label_list :: "label_obj \<Rightarrow> (string \<times> string) list" where
  "label_list obj = (case obj of None \<Rightarrow> [] | Some ls \<Rightarrow> ls)"

definition sync_labels :: "label_obj option \<Rightarrow> int \<Rightarrow> label_obj \<Rightarrow> label_tables \<Rightarrow> label_tables" where
  "sync_labels old rid new lt =
     (if old = Some new then lt
      else let kept = filter (\<lambda>(r, _). r \<noteq> rid) (lt_resource lt)
      in case new of
           None \<Rightarrow> lt\<lparr>lt_resource := kept\<rparr>
         | Some ls \<Rightarrow>
             let lt1 = lt\<lparr>lt_key := insert_all (map fst ls) (lt_key lt),
                          lt_value := insert_all (map snd ls) (lt_value lt), lt_resource := kept\<rparr>;
                 lt2 = lt1\<lparr>lt_pair := insert_all (List.map_filter (pair_key lt1) ls) (lt_pair lt1)\<rparr>
             in lt2\<lparr>lt_resource := kept @ map (\<lambda>l. (rid, l)) (remdups (List.map_filter (label_id lt2) ls))\<rparr>)"

section \<open>Serial tables\<close>

definition serial_ok :: "'k serial_table \<Rightarrow> bool" where
  "serial_ok t \<longleftrightarrow> distinct (map fst (fst t)) \<and> distinct (map snd (fst t)) \<and> (\<forall>i\<in>snd ` set (fst t). i < snd t)"

text \<open>Tables only grow: an identifier once given is never changed.\<close>

definition extends :: "'k serial_table \<Rightarrow> 'k serial_table \<Rightarrow> bool" where
  "extends t t' \<longleftrightarrow> (\<forall>k i. row_id t k = Some i \<longrightarrow> row_id t' k = Some i)"

lemma extends_refl [simp]: "extends t t" and extends_trans: "extends t u \<Longrightarrow> extends u v \<Longrightarrow> extends t v"
  by (simp_all add: extends_def)

lemma insert_do_nothing_ok:
  assumes "serial_ok t" shows "serial_ok (insert_do_nothing k t)"
proof -
  obtain rows nxt where t: "t = (rows, nxt)" by (cases t)
  show ?thesis
  proof (cases "map_of rows k")
    case None
    then have "k \<notin> fst ` set rows" by (simp add: map_of_eq_None_iff)
    with assms None show ?thesis by (fastforce simp: t serial_ok_def insert_do_nothing_def)
  next
    case (Some i)
    with assms show ?thesis by (auto simp: t serial_ok_def insert_do_nothing_def less_le_trans intro: less_SucI)
  qed
qed

lemma insert_do_nothing_extends [simp]: "extends t (insert_do_nothing k t)"
  by (cases t) (auto simp: extends_def insert_do_nothing_def map_add_def split: option.splits)

lemma insert_do_nothing_has: "row_id (insert_do_nothing k t) k \<noteq> None"
  by (cases t) (auto simp: insert_do_nothing_def map_add_def split: option.splits)

lemma insert_all_ok: "serial_ok t \<Longrightarrow> serial_ok (insert_all ks t)"
  unfolding insert_all_def by (induction ks arbitrary: t) (auto simp: insert_do_nothing_ok)

lemma insert_all_extends [simp]: "extends t (insert_all ks t)"
  unfolding insert_all_def
proof (induction ks arbitrary: t)
  case (Cons k ks)
  show ?case using extends_trans [OF insert_do_nothing_extends Cons.IH] by simp
qed simp

lemma insert_all_has: "k \<in> set ks \<Longrightarrow> row_id (insert_all ks t) k \<noteq> None"
proof (induction ks arbitrary: t)
  case (Cons x ks)
  show ?case
  proof (cases "k = x")
    case True
    obtain i where "row_id (insert_do_nothing k t) k = Some i" using insert_do_nothing_has [of k t] by auto
    moreover have "extends (insert_do_nothing k t) (insert_all ks (insert_do_nothing k t))" by simp
    ultimately have "row_id (insert_all ks (insert_do_nothing k t)) k = Some i" by (simp only: extends_def)
    with True show ?thesis by (simp add: insert_all_def)
  next
    case False
    with Cons show ?thesis by (simp add: insert_all_def)
  qed
qed simp

lemma row_id_inj:
  assumes "serial_ok t" "row_id t k = Some i" "row_id t k' = Some i"
  shows "k = k'"
proof -
  from assms have "(k, i) \<in> set (fst t)" "(k', i) \<in> set (fst t)" by (auto dest: map_of_SomeD)
  moreover have "inj_on snd (set (fst t))" using assms(1) by (simp add: serial_ok_def distinct_map)
  ultimately have "(k, i) = (k', i)" by (elim inj_onD) simp_all
  then show ?thesis by simp
qed

section \<open>Label tables\<close>

definition tables_extend :: "label_tables \<Rightarrow> label_tables \<Rightarrow> bool" where
  "tables_extend lt lt' \<longleftrightarrow>
     extends (lt_key lt) (lt_key lt') \<and> extends (lt_value lt) (lt_value lt') \<and> extends (lt_pair lt) (lt_pair lt')"

definition tables_ok :: "label_tables \<Rightarrow> bool" where
  "tables_ok lt \<longleftrightarrow> serial_ok (lt_key lt) \<and> serial_ok (lt_value lt) \<and> serial_ok (lt_pair lt)"

definition resource_labels :: "label_tables \<Rightarrow> int \<Rightarrow> int set" where
  "resource_labels lt rid = set (map snd (filter (\<lambda>r. fst r = rid) (lt_resource lt)))"

lemma resource_labels_set: "resource_labels lt rid = {l. (rid, l) \<in> set (lt_resource lt)}"
  by (force simp: resource_labels_def)

text \<open>
  The tables hold the labels of a resource: every label has an identifier, and these are
  the identifiers linked to the resource.
\<close>

definition label_sync :: "label_tables \<Rightarrow> int \<Rightarrow> label_obj \<Rightarrow> bool" where
  "label_sync lt rid obj \<longleftrightarrow>
     (\<forall>kv\<in>set (label_list obj). label_id lt kv \<noteq> None)
     \<and> resource_labels lt rid = {l. \<exists>kv\<in>set (label_list obj). label_id lt kv = Some l}"

lemma label_id_extend:
  assumes "tables_extend lt lt'" and "label_id lt kv = Some l"
  shows "label_id lt' kv = Some l"
  using assms by (auto simp: tables_extend_def label_id_def pair_key_def extends_def split: option.splits)

lemma label_id_inj:
  assumes "tables_ok lt" "label_id lt kv = Some l" "label_id lt kv' = Some l"
  shows "kv = kv'"
proof -
  obtain p where p: "pair_key lt kv = Some p" "row_id (lt_pair lt) p = Some l"
    using assms(2) by (auto simp: label_id_def split: bind_splits)
  obtain p' where p': "pair_key lt kv' = Some p'" "row_id (lt_pair lt) p' = Some l"
    using assms(3) by (auto simp: label_id_def split: bind_splits)
  have "p = p'" using row_id_inj p(2) p'(2) assms(1) unfolding tables_ok_def by metis
  with p(1) p'(1) have k: "row_id (lt_key lt) (fst kv) = Some (fst p)" "row_id (lt_key lt) (fst kv') = Some (fst p)"
    and v: "row_id (lt_value lt) (snd kv) = Some (snd p)" "row_id (lt_value lt) (snd kv') = Some (snd p)"
    by (auto simp: pair_key_def split: option.splits)
  have "serial_ok (lt_key lt)" "serial_ok (lt_value lt)" using assms(1) by (simp_all add: tables_ok_def)
  from row_id_inj [OF this(1) k] row_id_inj [OF this(2) v] show ?thesis by (rule prod_eqI)
qed

lemma label_sync_extend:
  assumes "label_sync lt rid obj" and "tables_extend lt lt'"
    and "resource_labels lt' rid = resource_labels lt rid"
  shows "label_sync lt' rid obj"
proof -
  have "label_id lt' kv = label_id lt kv" if "kv \<in> set (label_list obj)" for kv
    using that assms(1) label_id_extend [OF assms(2)] unfolding label_sync_def by (metis option.exhaust)
  with assms show ?thesis by (auto simp: label_sync_def)
qed

lemma map_filter_set: "set (List.map_filter f xs) = {y. \<exists>x\<in>set xs. f x = Some y}"
  by (force simp: map_filter_def image_iff)

lemma sync_labels_tables:
  shows "tables_ok lt \<Longrightarrow> tables_ok (sync_labels old rid new lt)"
    and "tables_extend lt (sync_labels old rid new lt)"
  by (auto simp: sync_labels_def Let_def tables_ok_def tables_extend_def insert_all_ok split: option.splits)

lemma sync_labels_others:
  "r \<noteq> rid \<Longrightarrow> resource_labels (sync_labels old rid new lt) r = resource_labels lt r"
  by (auto simp: sync_labels_def Let_def resource_labels_set split: option.splits)

text \<open>After the trigger the tables hold the new labels.\<close>

lemma sync_labels_own:
  assumes "\<And>prev. old = Some prev \<Longrightarrow> label_sync lt rid prev"
  shows "label_sync (sync_labels old rid new lt) rid new"
proof (cases "old = Some new")
  case True
  with assms show ?thesis by (simp add: sync_labels_def)
next
  case False
  show ?thesis
  proof (cases new)
    case None
    with False show ?thesis by (auto simp: sync_labels_def label_sync_def label_list_def resource_labels_set)
  next
    case (Some ls)
    define kept where "kept = filter (\<lambda>(r, _). r \<noteq> rid) (lt_resource lt)"
    define lt1 where "lt1 = lt\<lparr>lt_key := insert_all (map fst ls) (lt_key lt),
      lt_value := insert_all (map snd ls) (lt_value lt), lt_resource := kept\<rparr>"
    define lt2 where "lt2 = lt1\<lparr>lt_pair := insert_all (List.map_filter (pair_key lt1) ls) (lt_pair lt1)\<rparr>"
    let ?lt = "lt2\<lparr>lt_resource := kept @ map (\<lambda>l. (rid, l)) (remdups (List.map_filter (label_id lt2) ls))\<rparr>"
    have eq: "sync_labels old rid new lt = ?lt"
      using False Some by (simp add: sync_labels_def Let_def kept_def lt1_def lt2_def)
    have id: "label_id ?lt kv = label_id lt2 kv" for kv by (simp add: label_id_def pair_key_def)
    have has: "label_id lt2 kv \<noteq> None" if "kv \<in> set ls" for kv
    proof -
      from that have "fst kv \<in> set (map fst ls)" "snd kv \<in> set (map snd ls)" by auto
      then obtain a b where ab: "row_id (lt_key lt1) (fst kv) = Some a" "row_id (lt_value lt1) (snd kv) = Some b"
        using insert_all_has unfolding lt1_def by (metis (no_types) label_tables.select_convs label_tables.surjective label_tables.update_convs not_None_eq)
      then have pk: "pair_key lt1 kv = Some (a, b)" by (simp add: pair_key_def)
      with that have "(a, b) \<in> set (List.map_filter (pair_key lt1) ls)" by (auto simp: map_filter_set)
      then have "row_id (lt_pair lt2) (a, b) \<noteq> None" unfolding lt2_def by (simp add: insert_all_has del: not_None_eq)
      moreover have "pair_key lt2 kv = Some (a, b)" using pk by (simp add: lt2_def pair_key_def)
      ultimately show ?thesis by (simp add: label_id_def)
    qed
    have "resource_labels ?lt rid = {l. \<exists>kv\<in>set ls. label_id lt2 kv = Some l}"
      by (auto simp: resource_labels_set kept_def map_filter_set)
    with has show ?thesis unfolding eq unfolding Some by (simp add: label_sync_def label_list_def id)
  qed
qed

lemmas sync_labels_facts = sync_labels_tables sync_labels_others sync_labels_own

text \<open>What a synchronised table answers: the labels of the resource, by identifier.\<close>

lemma label_sync_label:
  assumes "tables_ok lt" "label_sync lt rid obj" "label_id lt kv = Some l"
  shows "l \<in> resource_labels lt rid \<longleftrightarrow> kv \<in> set (label_list obj)"
proof
  assume "l \<in> resource_labels lt rid"
  then obtain kv' where "kv' \<in> set (label_list obj)" "label_id lt kv' = Some l"
    using assms(2) unfolding label_sync_def by blast
  then show "kv \<in> set (label_list obj)" using label_id_inj [OF assms(1,3)] by metis
next
  assume "kv \<in> set (label_list obj)"
  then show "l \<in> resource_labels lt rid" using assms(2,3) unfolding label_sync_def by blast
qed

end
