(* ===== verification/Sql_Store.thy ===== *)
theory Sql_Store
  imports Label_Tables
begin

text \<open>
  The writing half of \<^verbatim>\<open>pkg/database/sql\<close>: the tables of the PostgreSQL schema, the statements
  the inserters and the deleter build, and \<^verbatim>\<open>WriteResource\<close> as a transaction over them.

  A statement is modelled by its effect on the tables. A transaction works on tables of its own,
  which only its commit makes those of the server. Statements, commit and rollback may fail:
  \<open>write_faults\<close> says which of them do and how, and the theorems hold for every choice.
\<close>

section \<open>Tables\<close>

text \<open>What the database and the readers look at in the JSON of a resource; \<open>jd_pod\<close> is the
  result of decoding it as a Pod, \<open>None\<close> when that fails.\<close>

record pod_view =
  pv_name :: string
  pv_annotations :: "(string, string) gomap"
  pv_containers :: "string list"

record json_data =
  jd_creationTimestamp :: "string option"
  jd_labels :: label_obj
  jd_owners :: "string list"
  jd_pod :: "pod_view option"

record resource_row =
  rr_id :: int
  rr_uuid :: string
  rr_apiVersion :: string
  rr_kind :: string
  rr_name :: string
  rr_namespace :: string
  rr_resourceVersion :: string
  rr_clusterUpdatedTs :: go_time
  rr_clusterDeletedTs :: "go_time option"
  rr_data :: json_data

record logTuple =
  lg_ContainerName :: string
  lg_Url :: string
  lg_Query :: string
  lg_Start :: string
  lg_End :: string

record log_row =
  lr_uuid :: string
  lr_tuple :: logTuple

text \<open>\<open>db_open\<close> counts the transactions that the server has begun and not ended.\<close>

record db_state =
  db_resource :: "resource_row list"
  db_nextId :: int
  db_log_url :: "log_row list"
  db_labels :: label_tables
  db_open :: nat

datatype writeResourceResult =
    WriteResourceResultInserted
  | WriteResourceResultUpdated
  | WriteResourceResultNone
  | WriteResourceResultError

section \<open>Statements\<close>

definition find_uuid :: "string \<Rightarrow> resource_row list \<Rightarrow> resource_row option" where
  "find_uuid u rows = List.find (\<lambda>r. rr_uuid r = u) rows"

text \<open>
  \<^verbatim>\<open>ResourceInserter\<close>: insert, or update the row of the same UUID when it is older; the third
  component is the \<^verbatim>\<open>RETURNING\<close> column, \<open>None\<close> when no row was written. The trigger on the
  table keeps the label tables.
\<close>

definition ResourceInserter ::
    "string \<Rightarrow> string \<Rightarrow> string \<Rightarrow> string \<Rightarrow> string \<Rightarrow> string \<Rightarrow> go_time \<Rightarrow> go_time option \<Rightarrow> json_data \<Rightarrow>
      db_state \<Rightarrow> db_state \<times> bool option" where
  "ResourceInserter uuid apiVersion kind name namespace version clusterUpdatedTs clusterDeletedTs data db =
     (case find_uuid uuid (db_resource db) of
        None \<Rightarrow>
          (db\<lparr>db_resource := db_resource db @
                [\<lparr>rr_id = db_nextId db, rr_uuid = uuid, rr_apiVersion = apiVersion, rr_kind = kind, rr_name = name,
                  rr_namespace = namespace, rr_resourceVersion = version, rr_clusterUpdatedTs = clusterUpdatedTs,
                  rr_clusterDeletedTs = clusterDeletedTs, rr_data = data\<rparr>],
              db_nextId := db_nextId db + 1,
              db_labels := sync_labels None (db_nextId db) (jd_labels data) (db_labels db)\<rparr>, Some True)
      | Some old \<Rightarrow>
          if rr_clusterUpdatedTs old < clusterUpdatedTs then
            (db\<lparr>db_resource := map (\<lambda>r. if rr_uuid r = uuid
                  then r\<lparr>rr_name := name, rr_namespace := namespace, rr_resourceVersion := version,
                         rr_clusterUpdatedTs := clusterUpdatedTs, rr_clusterDeletedTs := clusterDeletedTs,
                         rr_data := data\<rparr> else r) (db_resource db),
                db_nextId := db_nextId db + 1,
                db_labels := sync_labels (Some (jd_labels (rr_data old))) (rr_id old) (jd_labels data) (db_labels db)\<rparr>,
             Some False)
          else (db\<lparr>db_nextId := db_nextId db + 1\<rparr>, None))"

definition UrlDeleter :: "string \<Rightarrow> db_state \<Rightarrow> db_state" where
  "UrlDeleter uuid db = db\<lparr>db_log_url := filter (\<lambda>l. lr_uuid l \<noteq> uuid) (db_log_url db)\<rparr>"

definition UrlInserter :: "string \<Rightarrow> logTuple \<Rightarrow> db_state \<Rightarrow> db_state" where
  "UrlInserter uuid log db = db\<lparr>db_log_url := db_log_url db @ [\<lparr>lr_uuid = uuid, lr_tuple = log\<rparr>]\<rparr>"

section \<open>Transactions\<close>

text \<open>
  \<^verbatim>\<open>database/sql\<close> on PostgreSQL. Statements change the tables of the transaction, which nobody else
  sees. After one of them has failed the server refuses the others and the commit. Sequences do
  not take part in transactions: an identifier that was drawn stays drawn, and \<open>draws\<close> says how many a
  statement drew from each sequence before it failed. \<open>tx_done\<close> is the client's mark on a transaction
  that it has tried to end, on which commit and rollback fail with \<^verbatim>\<open>sql.ErrTxDone\<close>.
\<close>

record transaction =
  tx_work :: db_state
  tx_aborted :: bool
  tx_done :: bool

record draws =
  dr_resource :: nat
  dr_key :: nat
  dr_value :: nat
  dr_pair :: nat

definition no_draws :: draws where
  "no_draws = \<lparr>dr_resource = 0, dr_key = 0, dr_value = 0, dr_pair = 0\<rparr>"

definition advance :: "draws \<Rightarrow> db_state \<Rightarrow> db_state" where
  "advance d db =
     (let lt = db_labels db
      in db\<lparr>db_nextId := db_nextId db + int (dr_resource d),
            db_labels := lt\<lparr>lt_key := (fst (lt_key lt), snd (lt_key lt) + int (dr_key d)),
                            lt_value := (fst (lt_value lt), snd (lt_value lt) + int (dr_value d)),
                            lt_pair := (fst (lt_pair lt), snd (lt_pair lt) + int (dr_pair d))\<rparr>\<rparr>)"

text \<open>The tables of the server with the sequences as a transaction left them.\<close>

definition keep_sequences :: "db_state \<Rightarrow> db_state \<Rightarrow> db_state" where
  "keep_sequences work db =
     (let lt = db_labels db; lw = db_labels work
      in db\<lparr>db_nextId := db_nextId work,
            db_labels := lt\<lparr>lt_key := (fst (lt_key lt), snd (lt_key lw)), lt_value := (fst (lt_value lt), snd (lt_value lw)),
                            lt_pair := (fst (lt_pair lt), snd (lt_pair lw))\<rparr>\<rparr>)"

definition tx_begin :: "bool \<Rightarrow> db_state \<Rightarrow> (db_state \<times> transaction) option" where
  "tx_begin fails db =
     (if fails then None
      else Some (db\<lparr>db_open := Suc (db_open db)\<rparr>, \<lparr>tx_work = db, tx_aborted = False, tx_done = False\<rparr>))"

definition tx_exec :: "bool \<Rightarrow> draws \<Rightarrow> (db_state \<Rightarrow> db_state \<times> 'a) \<Rightarrow> transaction \<Rightarrow> transaction \<times> 'a option" where
  "tx_exec fails drawn f tx =
     (if tx_done tx \<or> tx_aborted tx then (tx, None)
      else if fails then (tx\<lparr>tx_work := advance drawn (tx_work tx), tx_aborted := True\<rparr>, None)
      else case f (tx_work tx) of (work, x) \<Rightarrow> (tx\<lparr>tx_work := work\<rparr>, Some x))"

definition tx_discard :: "db_state \<Rightarrow> transaction \<Rightarrow> db_state" where
  "tx_discard db tx = (keep_sequences (tx_work tx) db)\<lparr>db_open := db_open db - 1\<rparr>"

text \<open>
  How a commit goes: it works; the context has ended before it, which leaves the transaction as it
  is; the server refuses it and discards the transaction; or it works and its answer is lost. The
  flag of the result says whether the client gets an error.
\<close>

datatype commit_answer = CommitDone | CommitCancelled | CommitRefused | CommitLost

definition tx_commit :: "commit_answer \<Rightarrow> db_state \<Rightarrow> transaction \<Rightarrow> db_state \<times> transaction \<times> bool" where
  "tx_commit answer db tx =
     (if tx_done tx \<or> answer = CommitCancelled then (db, tx, True)
      else if tx_aborted tx \<or> answer = CommitRefused then (tx_discard db tx, tx\<lparr>tx_done := True\<rparr>, True)
      else ((tx_work tx)\<lparr>db_open := db_open db - 1\<rparr>, tx\<lparr>tx_done := True\<rparr>, answer = CommitLost))"

text \<open>A rollback that fails leaves the transaction to the server, which still has it.\<close>

definition tx_rollback :: "bool \<Rightarrow> db_state \<Rightarrow> transaction \<Rightarrow> db_state \<times> transaction \<times> bool" where
  "tx_rollback fails db tx =
     (if tx_done tx then (db, tx, True)
      else if fails then (keep_sequences (tx_work tx) db, tx\<lparr>tx_done := True\<rparr>, True)
      else (tx_discard db tx, tx\<lparr>tx_done := True\<rparr>, False))"

section \<open>WriteResource\<close>

record write_faults =
  wf_begin :: bool
  wf_upsert :: bool
  wf_drawn :: draws
  wf_delete :: bool
  wf_log :: "nat \<Rightarrow> bool"
  wf_commit :: commit_answer
  wf_rollback :: bool

datatype sql_error = ErrNoRows | ErrExec

text \<open>The flag says whether rolling back failed too.\<close>

datatype write_error =
    NilObject
  | BeginFailed
  | UpsertFailed bool
  | UrlDeleteFailed bool
  | UrlInsertFailed bool
  | CommitFailed bool

fun insert_logs :: "(nat \<Rightarrow> bool) \<Rightarrow> nat \<Rightarrow> string \<Rightarrow> logTuple list \<Rightarrow> transaction \<Rightarrow> transaction \<times> bool" where
  "insert_logs fails n uuid [] tx = (tx, True)"
| "insert_logs fails n uuid (l # ls) tx =
     (case tx_exec (fails n) no_draws (\<lambda>db. (UrlInserter uuid l db, ())) tx of
        (tx, None) \<Rightarrow> (tx, False)
      | (tx, Some _) \<Rightarrow> insert_logs fails (Suc n) uuid ls tx)"

text \<open>The log links of a Pod: the error, if any, without the flag.\<close>

definition write_logs ::
    "write_faults \<Rightarrow> string \<Rightarrow> logTuple list \<Rightarrow> transaction \<Rightarrow> transaction \<times> (bool \<Rightarrow> write_error) option" where
  "write_logs flt uuid logs tx =
     (case tx_exec (wf_delete flt) no_draws (\<lambda>db. (UrlDeleter uuid db, ())) tx of
        (tx, None) \<Rightarrow> (tx, Some UrlDeleteFailed)
      | (tx, Some _) \<Rightarrow>
          (case insert_logs (wf_log flt) 0 uuid logs tx of
             (tx, False) \<Rightarrow> (tx, Some UrlInsertFailed)
           | (tx, True) \<Rightarrow> (tx, None)))"

text \<open>The block that ends every branch with an error: roll back, and report both errors.\<close>

definition roll_back ::
    "bool \<Rightarrow> db_state \<Rightarrow> transaction \<Rightarrow> (bool \<Rightarrow> write_error) \<Rightarrow> db_state \<times> writeResourceResult \<times> write_error option" where
  "roll_back fails db tx err =
     (case tx_rollback fails db tx of (db, _, rollbackErr) \<Rightarrow> (db, WriteResourceResultError, Some (err rollbackErr)))"

definition WriteResource ::
    "write_faults \<Rightarrow> db_state \<Rightarrow> unstructured option \<Rightarrow> json_data \<Rightarrow> go_time \<Rightarrow> logTuple list \<Rightarrow>
      db_state \<times> writeResourceResult \<times> write_error option" where
  "WriteResource flt db k8sObj data lastUpdated logs =
     (case k8sObj of None \<Rightarrow> (db, WriteResourceResultError, Some NilObject)
      | Some obj \<Rightarrow>
        (case tx_begin (wf_begin flt) db of
           None \<Rightarrow> (db, WriteResourceResultError, Some BeginFailed)
         | Some (db, tx) \<Rightarrow>
             (case tx_exec (wf_upsert flt) (wf_drawn flt)
                     (ResourceInserter (u_uid obj) (GetAPIVersion obj) (GetKind obj) (u_name obj) (u_namespace obj)
                        (u_resourceVersion obj) lastUpdated (u_deletionTimestamp obj) data) tx of
                (tx, answer) \<Rightarrow>
                  let execErr = (case answer of None \<Rightarrow> Some ErrExec | Some None \<Rightarrow> Some ErrNoRows | Some (Some _) \<Rightarrow> None);
                      inserted = (answer = Some (Some True))
                  in if execErr \<noteq> None \<and> execErr \<noteq> Some ErrNoRows
                     then roll_back (wf_rollback flt) db tx UpsertFailed
                     else
                       (case (if GetKind obj = ''Pod'' then write_logs flt (u_uid obj) logs tx else (tx, None)) of
                          (tx, Some err) \<Rightarrow> roll_back (wf_rollback flt) db tx err
                        | (tx, None) \<Rightarrow>
                            (case tx_commit (wf_commit flt) db tx of
                               (db, tx, commitErr) \<Rightarrow>
                                 let execErr = (if commitErr then Some ErrExec else None)
                                 in if execErr \<noteq> None then roll_back (wf_rollback flt) db tx CommitFailed
                                    else (db, if execErr = Some ErrNoRows then WriteResourceResultNone
                                              else if inserted then WriteResourceResultInserted
                                              else WriteResourceResultUpdated, None))))))"

section \<open>Lemmas: the statements\<close>

lemma find_uuid_Some: "find_uuid u rows = Some r \<Longrightarrow> r \<in> set rows \<and> rr_uuid r = u"
  by (auto simp: find_uuid_def find_Some_iff)

lemma find_uuid_None: "find_uuid u rows = None \<longleftrightarrow> u \<notin> rr_uuid ` set rows"
  by (auto simp: find_uuid_def find_None_iff)

lemma find_uuid_distinct:
  assumes "distinct (map rr_uuid rows)" and "r \<in> set rows"
  shows "find_uuid (rr_uuid r) rows = Some r"
proof (cases "find_uuid (rr_uuid r) rows")
  case None
  with assms(2) show ?thesis by (auto simp: find_uuid_None)
next
  case (Some r')
  with assms show ?thesis by (auto dest!: find_uuid_Some simp: distinct_map inj_on_def)
qed

lemma find_uuid_append:
  "find_uuid u (xs @ [r]) = (case find_uuid u xs of None \<Rightarrow> if rr_uuid r = u then Some r else None | Some x \<Rightarrow> Some x)"
  by (induction xs) (auto simp: find_uuid_def)

lemma find_uuid_map:
  "(\<And>r. rr_uuid (f r) = rr_uuid r) \<Longrightarrow> find_uuid u (map f rows) = map_option f (find_uuid u rows)"
  by (induction rows) (auto simp: find_uuid_def)

lemma UrlDeleter_other [simp]:
  "db_resource (UrlDeleter u db) = db_resource db" "db_nextId (UrlDeleter u db) = db_nextId db"
  "db_labels (UrlDeleter u db) = db_labels db"
  by (simp_all add: UrlDeleter_def)

text \<open>The rows of the log table after a write of a Pod.\<close>

definition replaced_logs :: "string \<Rightarrow> logTuple list \<Rightarrow> log_row list \<Rightarrow> log_row list" where
  "replaced_logs uuid logs rows =
     filter (\<lambda>l. lr_uuid l \<noteq> uuid) rows @ map (\<lambda>l. \<lparr>lr_uuid = uuid, lr_tuple = l\<rparr>) logs"

text \<open>The three outcomes of the upsert.\<close>

definition upsert :: "unstructured \<Rightarrow> json_data \<Rightarrow> go_time \<Rightarrow> db_state \<Rightarrow> db_state \<times> bool option" where
  "upsert obj data ts db = ResourceInserter (u_uid obj) (GetAPIVersion obj) (GetKind obj) (u_name obj)
     (u_namespace obj) (u_resourceVersion obj) ts (u_deletionTimestamp obj) data db"

definition no_fault :: "write_faults \<Rightarrow> unstructured \<Rightarrow> logTuple list \<Rightarrow> bool" where
  "no_fault flt obj logs \<longleftrightarrow>
     \<not> wf_begin flt \<and> \<not> wf_upsert flt \<and> wf_commit flt = CommitDone
     \<and> (GetKind obj = ''Pod'' \<longrightarrow> \<not> wf_delete flt \<and> (\<forall>i < length logs. \<not> wf_log flt i))"

definition written :: "unstructured \<Rightarrow> json_data \<Rightarrow> go_time \<Rightarrow> logTuple list \<Rightarrow> db_state \<Rightarrow> db_state" where
  "written obj data ts logs db =
     (let db1 = fst (upsert obj data ts db)
      in if GetKind obj = ''Pod''
         then db1\<lparr>db_log_url := replaced_logs (u_uid obj) logs (db_log_url db1)\<rparr> else db1)"

section \<open>Lemmas: transactions\<close>

text \<open>What readers can see of a database, and the sequences, which only grow.\<close>

definition tables_of :: "db_state \<Rightarrow> resource_row list \<times> log_row list \<times> (string \<times> int) list \<times> (string \<times> int) list
    \<times> ((int \<times> int) \<times> int) list \<times> (int \<times> int) list" where
  "tables_of db = (db_resource db, db_log_url db, fst (lt_key (db_labels db)), fst (lt_value (db_labels db)),
     fst (lt_pair (db_labels db)), lt_resource (db_labels db))"

definition seqs_le :: "db_state \<Rightarrow> db_state \<Rightarrow> bool" where
  "seqs_le db db' \<longleftrightarrow> db_nextId db \<le> db_nextId db' \<and> snd (lt_key (db_labels db)) \<le> snd (lt_key (db_labels db'))
     \<and> snd (lt_value (db_labels db)) \<le> snd (lt_value (db_labels db')) \<and> snd (lt_pair (db_labels db)) \<le> snd (lt_pair (db_labels db'))"

text \<open>The tables are as they were; identifiers may have been drawn.\<close>

definition unchanged :: "db_state \<Rightarrow> db_state \<Rightarrow> bool" where
  "unchanged db db' \<longleftrightarrow> tables_of db' = tables_of db \<and> seqs_le db db'"

fun rollback_failed :: "write_error \<Rightarrow> bool" where
  "rollback_failed (UpsertFailed b) = b"
| "rollback_failed (UrlDeleteFailed b) = b"
| "rollback_failed (UrlInsertFailed b) = b"
| "rollback_failed (CommitFailed b) = b"
| "rollback_failed _ = False"

lemma unchanged_refl [simp]: "unchanged db db"
  by (simp add: unchanged_def seqs_le_def)

lemma seqs_le_refl [simp]: "seqs_le db db"
  by (simp add: seqs_le_def)

lemma seqs_le_trans: "seqs_le a b \<Longrightarrow> seqs_le b c \<Longrightarrow> seqs_le a c"
  by (simp add: seqs_le_def)

lemma seqs_le_logs [simp]:
  "seqs_le db (work\<lparr>db_log_url := ls\<rparr>) \<longleftrightarrow> seqs_le db work" "seqs_le db (UrlDeleter u work) \<longleftrightarrow> seqs_le db work"
  "seqs_le db (UrlInserter u l work) \<longleftrightarrow> seqs_le db work"
  by (simp_all add: seqs_le_def UrlDeleter_def UrlInserter_def)

lemma advance_le: "seqs_le db (advance d db)"
  by (simp add: seqs_le_def advance_def Let_def)

lemma advance_none [simp]: "advance no_draws db = db"
  by (simp add: advance_def no_draws_def)

lemma insert_do_nothing_next: "snd t \<le> snd (insert_do_nothing k t)"
  by (cases t) (simp add: insert_do_nothing_def split: option.split)

lemma insert_all_next: "snd t \<le> snd (insert_all ks t)"
  unfolding insert_all_def
proof (induction ks arbitrary: t)
  case (Cons k ks)
  from order_trans [OF insert_do_nothing_next Cons.IH] show ?case by simp
qed simp

lemma sync_labels_next:
  "snd (lt_key lt) \<le> snd (lt_key (sync_labels old rid new lt))" "snd (lt_value lt) \<le> snd (lt_value (sync_labels old rid new lt))"
  "snd (lt_pair lt) \<le> snd (lt_pair (sync_labels old rid new lt))"
  by (simp_all add: sync_labels_def Let_def insert_all_next split: option.split)

lemma ResourceInserter_next:
  "seqs_le db (fst (ResourceInserter u v k n ns rv ts del data db))" "db_open (fst (ResourceInserter u v k n ns rv ts del data db)) = db_open db"
  by (simp_all add: ResourceInserter_def seqs_le_def sync_labels_next split: option.split)

lemma keep_unchanged: "seqs_le db work \<Longrightarrow> unchanged db (keep_sequences work (db\<lparr>db_open := n\<rparr>))"
  by (simp add: unchanged_def tables_of_def keep_sequences_def seqs_le_def Let_def)

lemma unchanged_open [simp]: "unchanged db (db'\<lparr>db_open := n\<rparr>) \<longleftrightarrow> unchanged db db'"
  by (simp add: unchanged_def tables_of_def seqs_le_def)

lemma keep_open [simp]: "db_open (keep_sequences work db) = db_open db"
  by (simp add: keep_sequences_def Let_def)

text \<open>Rolling back an open transaction restores the tables, and ends it unless the rollback fails.\<close>

lemma roll_back_restores:
  assumes "\<not> tx_done tx" "seqs_le db (tx_work tx)"
  shows "\<exists>db'. roll_back fails (db\<lparr>db_open := Suc (db_open db)\<rparr>) tx err = (db', WriteResourceResultError, Some (err fails))
    \<and> unchanged db db' \<and> db_open db' = (if fails then Suc (db_open db) else db_open db)"
  using assms by (simp add: roll_back_def tx_rollback_def tx_discard_def keep_unchanged)

lemma insert_logs_ok:
  assumes "\<not> tx_aborted tx" "\<not> tx_done tx" "\<forall>i < length ls. \<not> fails (n + i)"
  shows "insert_logs fails n uuid ls tx =
    (tx\<lparr>tx_work := (tx_work tx)\<lparr>db_log_url := db_log_url (tx_work tx) @ map (\<lambda>l. \<lparr>lr_uuid = uuid, lr_tuple = l\<rparr>) ls\<rparr>\<rparr>, True)"
  using assms
proof (induction ls arbitrary: n tx)
  case (Cons l ls)
  have f: "\<not> fails n" using Cons.prems(3) [rule_format, of 0] by simp
  have rest: "\<forall>i < length ls. \<not> fails (Suc n + i)" using Cons.prems(3) by (metis add_Suc_shift Suc_less_eq length_Cons)
  show ?case using Cons.IH [OF _ _ rest, of "tx\<lparr>tx_work := UrlInserter uuid l (tx_work tx)\<rparr>"] Cons.prems(1,2) f
    by (simp add: tx_exec_def UrlInserter_def)
qed simp

lemma insert_logs_fails:
  assumes "\<not> tx_done tx" "seqs_le db (tx_work tx)" "insert_logs fails n uuid ls tx = (tx', False)"
  shows "\<not> tx_done tx' \<and> seqs_le db (tx_work tx')"
  using assms
proof (induction ls arbitrary: n tx)
  case (Cons l ls)
  obtain tx1 a where e: "tx_exec (fails n) no_draws (\<lambda>db. (UrlInserter uuid l db, ())) tx = (tx1, a)" by (metis prod.exhaust)
  then have "\<not> tx_done tx1 \<and> seqs_le db (tx_work tx1)" using Cons.prems(1,2) by (auto simp: tx_exec_def split: if_splits)
  with Cons.IH [of tx1 "Suc n"] Cons.prems(3) e show ?case by (cases a) auto
qed simp

lemma insert_logs_refuses:
  "\<not> tx_aborted tx \<Longrightarrow> \<not> tx_done tx \<Longrightarrow> i < length ls \<Longrightarrow> fails (n + i) \<Longrightarrow> \<not> snd (insert_logs fails n uuid ls tx)"
proof (induction ls arbitrary: n tx i)
  case (Cons l ls)
  show ?case
  proof (cases "fails n")
    case False
    with Cons.prems obtain j where "i = Suc j" by (cases i) auto
    with Cons.IH [of "tx\<lparr>tx_work := UrlInserter uuid l (tx_work tx)\<rparr>" j "Suc n"] Cons.prems False show ?thesis
      by (simp add: tx_exec_def)
  qed (use Cons.prems in \<open>simp add: tx_exec_def\<close>)
qed simp

text \<open>The statements about log links, in a transaction whose upsert worked.\<close>

lemma write_logs_ok:
  assumes "\<not> tx_aborted tx" "\<not> tx_done tx" "\<not> wf_delete flt" "\<forall>i < length logs. \<not> wf_log flt i"
  shows "write_logs flt uuid logs tx =
    (tx\<lparr>tx_work := (tx_work tx)\<lparr>db_log_url := replaced_logs uuid logs (db_log_url (tx_work tx))\<rparr>\<rparr>, None)"
  using insert_logs_ok [of "tx\<lparr>tx_work := UrlDeleter uuid (tx_work tx)\<rparr>" logs "wf_log flt" 0 uuid] assms
  by (simp add: write_logs_def tx_exec_def UrlDeleter_def replaced_logs_def)

lemma write_logs_fails:
  assumes "\<not> tx_aborted tx" "\<not> tx_done tx" "seqs_le db (tx_work tx)" "wf_delete flt \<or> (\<exists>i < length logs. wf_log flt i)"
  obtains tx' err where "write_logs flt uuid logs tx = (tx', Some err)" "err \<in> {UrlDeleteFailed, UrlInsertFailed}"
    "\<not> tx_done tx'" "seqs_le db (tx_work tx')"
proof (cases "wf_delete flt")
  case True
  with assms that [of "tx\<lparr>tx_aborted := True\<rparr>" UrlDeleteFailed] show ?thesis by (simp add: write_logs_def tx_exec_def)
next
  case False
  let ?tx = "tx\<lparr>tx_work := UrlDeleter uuid (tx_work tx)\<rparr>"
  from False assms(4) obtain i where "i < length logs" "wf_log flt i" by blast
  then have "\<not> snd (insert_logs (wf_log flt) 0 uuid logs ?tx)" using assms(1,2) by (intro insert_logs_refuses) simp_all
  then obtain tx' where l: "insert_logs (wf_log flt) 0 uuid logs ?tx = (tx', False)" by (metis prod.collapse)
  with insert_logs_fails [OF _ _ l, of db] assms False that [of tx' UrlInsertFailed] show ?thesis
    by (simp add: write_logs_def tx_exec_def)
qed

section \<open>Lemmas: WriteResource\<close>

text \<open>A transaction whose statements all worked, up to its commit.\<close>

definition ends_in_commit :: "write_faults \<Rightarrow> unstructured \<Rightarrow> logTuple list \<Rightarrow> bool" where
  "ends_in_commit flt obj logs \<longleftrightarrow>
     \<not> wf_begin flt \<and> \<not> wf_upsert flt \<and> (GetKind obj = ''Pod'' \<longrightarrow> \<not> wf_delete flt \<and> (\<forall>i < length logs. \<not> wf_log flt i))"

lemma no_fault_commits: "no_fault flt obj logs \<longleftrightarrow> ends_in_commit flt obj logs \<and> wf_commit flt = CommitDone"
  by (auto simp: no_fault_def ends_in_commit_def)

lemma WriteResource_commits:
  assumes "ends_in_commit flt obj logs"
  shows "WriteResource flt db (Some obj) data ts logs =
    (case tx_commit (wf_commit flt) (db\<lparr>db_open := Suc (db_open db)\<rparr>)
            \<lparr>tx_work = written obj data ts logs db, tx_aborted = False, tx_done = False\<rparr> of
       (db', tx, True) \<Rightarrow> roll_back (wf_rollback flt) db' tx CommitFailed
     | (db', tx, False) \<Rightarrow>
         (db', if snd (upsert obj data ts db) = Some True then WriteResourceResultInserted else WriteResourceResultUpdated, None))"
proof -
  obtain db1 r where u: "upsert obj data ts db = (db1, r)" by (metis prod.exhaust)
  have "(if GetKind obj = ''Pod'' then write_logs flt (u_uid obj) logs \<lparr>tx_work = db1, tx_aborted = False, tx_done = False\<rparr>
         else (\<lparr>tx_work = db1, tx_aborted = False, tx_done = False\<rparr>, None)) =
        (\<lparr>tx_work = written obj data ts logs db, tx_aborted = False, tx_done = False\<rparr>, None)"
    using assms u by (simp add: written_def write_logs_ok ends_in_commit_def)
  with assms u show ?thesis
    by (cases r) (simp_all add: WriteResource_def tx_begin_def tx_exec_def ends_in_commit_def upsert_def [symmetric] Let_def split: prod.split bool.split)
qed

lemma written_next: "seqs_le db (written obj data ts logs db)" "db_open (written obj data ts logs db) = db_open db"
  using ResourceInserter_next by (simp_all add: written_def upsert_def Let_def)

lemma written_same_open [simp]: "(written obj data ts logs db)\<lparr>db_open := db_open db\<rparr> = written obj data ts logs db"
  using written_next(2) [of obj data ts logs db] by (cases "written obj data ts logs db") simp

lemma WriteResource_ok:
  assumes "no_fault flt obj logs"
  shows "WriteResource flt db (Some obj) data ts logs =
    (written obj data ts logs db,
     if snd (upsert obj data ts db) = Some True then WriteResourceResultInserted else WriteResourceResultUpdated, None)"
  using assms by (simp add: no_fault_commits WriteResource_commits tx_commit_def)

text \<open>
  A write that fails: the tables are as they were, unless the commit worked and only its answer was
  lost; and the server has no further open transaction, unless the rollback failed too.
\<close>

lemma WriteResource_fault:
  assumes "\<not> no_fault flt obj logs"
  shows "\<exists>db' e. WriteResource flt db (Some obj) data ts logs = (db', WriteResourceResultError, Some e)
    \<and> (unchanged db db' \<or> wf_commit flt = CommitLost \<and> e = CommitFailed True \<and> db' = written obj data ts logs db)
    \<and> (db_open db' = db_open db \<or> wf_rollback flt \<and> rollback_failed e \<and> db_open db' = Suc (db_open db))"
proof (cases "ends_in_commit flt obj logs")
  case True
  note w = WriteResource_commits [OF True, of db data ts]
  let ?tx = "\<lparr>tx_work = written obj data ts logs db, tx_aborted = False, tx_done = False\<rparr>"
  show ?thesis
  proof (cases "wf_commit flt")
    case CommitDone
    with assms True show ?thesis by (simp add: no_fault_commits)
  next
    case CommitCancelled
    from roll_back_restores [of ?tx db "wf_rollback flt" CommitFailed] written_next(1)
    show ?thesis unfolding w CommitCancelled by (auto simp: tx_commit_def)
  next
    case CommitRefused
    have "unchanged db (keep_sequences (written obj data ts logs db) (db\<lparr>db_open := Suc (db_open db)\<rparr>))"
      by (rule keep_unchanged [OF written_next(1)])
    then show ?thesis unfolding w CommitRefused by (simp add: tx_commit_def tx_discard_def roll_back_def tx_rollback_def)
  next
    case CommitLost
    show ?thesis unfolding w CommitLost using written_next(2) by (simp add: tx_commit_def roll_back_def tx_rollback_def)
  qed
next
  case False
  let ?tx = "\<lparr>tx_work = db, tx_aborted = False, tx_done = False\<rparr>"
  consider "wf_begin flt" | "\<not> wf_begin flt" "wf_upsert flt"
    | "\<not> wf_begin flt" "\<not> wf_upsert flt" "GetKind obj = ''Pod''" "wf_delete flt \<or> (\<exists>i < length logs. wf_log flt i)"
    using False by (auto simp: ends_in_commit_def)
  then show ?thesis
  proof cases
    case 1
    then show ?thesis by (simp add: WriteResource_def tx_begin_def)
  next
    case 2
    from roll_back_restores [of "\<lparr>tx_work = advance (wf_drawn flt) db, tx_aborted = True, tx_done = False\<rparr>" db "wf_rollback flt" UpsertFailed]
    show ?thesis using 2 advance_le [of db "wf_drawn flt"]
      by (auto simp: WriteResource_def tx_begin_def tx_exec_def)
  next
    case 3
    obtain db1 r where u: "upsert obj data ts db = (db1, r)" by (metis prod.exhaust)
    then have "seqs_le db db1" using ResourceInserter_next(1) unfolding upsert_def by (metis fst_conv)
    then obtain tx' err where l: "write_logs flt (u_uid obj) logs \<lparr>tx_work = db1, tx_aborted = False, tx_done = False\<rparr> = (tx', Some err)"
        "err \<in> {UrlDeleteFailed, UrlInsertFailed}" "\<not> tx_done tx'" "seqs_le db (tx_work tx')"
      using write_logs_fails [OF _ _ _ 3(4), of "\<lparr>tx_work = db1, tx_aborted = False, tx_done = False\<rparr>" db "u_uid obj"] by auto
    have "WriteResource flt db (Some obj) data ts logs = roll_back (wf_rollback flt) (db\<lparr>db_open := Suc (db_open db)\<rparr>) tx' err"
      using 3 u [unfolded upsert_def 3(3)] l(1) by (cases r) (simp_all add: WriteResource_def tx_begin_def tx_exec_def Let_def)
    with roll_back_restores [OF l(3,4), of "wf_rollback flt" err] l(2) show ?thesis by auto
  qed
qed

lemma WriteResource_nil: "WriteResource flt db None data ts logs = (db, WriteResourceResultError, Some NilObject)"
  by (simp add: WriteResource_def)

section \<open>Lemmas: the upsert\<close>

text \<open>The row an insert adds, and what an update does to a row.\<close>

definition new_row :: "unstructured \<Rightarrow> json_data \<Rightarrow> go_time \<Rightarrow> int \<Rightarrow> resource_row" where
  "new_row obj data ts i =
     \<lparr>rr_id = i, rr_uuid = u_uid obj, rr_apiVersion = GetAPIVersion obj, rr_kind = GetKind obj, rr_name = u_name obj,
      rr_namespace = u_namespace obj, rr_resourceVersion = u_resourceVersion obj, rr_clusterUpdatedTs = ts,
      rr_clusterDeletedTs = u_deletionTimestamp obj, rr_data = data\<rparr>"

definition set_row :: "unstructured \<Rightarrow> json_data \<Rightarrow> go_time \<Rightarrow> resource_row \<Rightarrow> resource_row" where
  "set_row obj data ts r =
     (if rr_uuid r = u_uid obj
      then r\<lparr>rr_name := u_name obj, rr_namespace := u_namespace obj, rr_resourceVersion := u_resourceVersion obj,
             rr_clusterUpdatedTs := ts, rr_clusterDeletedTs := u_deletionTimestamp obj, rr_data := data\<rparr> else r)"

lemma new_row_simps [simp]:
  "rr_id (new_row obj data ts i) = i" "rr_uuid (new_row obj data ts i) = u_uid obj"
  "rr_data (new_row obj data ts i) = data" "rr_clusterUpdatedTs (new_row obj data ts i) = ts"
  by (simp_all add: new_row_def)

lemma set_row_simps [simp]:
  "rr_id (set_row obj data ts r) = rr_id r" "rr_uuid (set_row obj data ts r) = rr_uuid r"
  by (simp_all add: set_row_def)

lemma set_row_other: "rr_uuid r \<noteq> u_uid obj \<Longrightarrow> set_row obj data ts r = r"
  by (simp add: set_row_def)

lemma set_row_own: "rr_uuid r = u_uid obj \<Longrightarrow> rr_data (set_row obj data ts r) = data"
  by (simp add: set_row_def)

lemma upsert_new:
  "find_uuid (u_uid obj) (db_resource db) = None \<Longrightarrow>
   upsert obj data ts db =
     (db\<lparr>db_resource := db_resource db @ [new_row obj data ts (db_nextId db)], db_nextId := db_nextId db + 1,
         db_labels := sync_labels None (db_nextId db) (jd_labels data) (db_labels db)\<rparr>, Some True)"
  by (simp add: upsert_def ResourceInserter_def new_row_def)

lemma upsert_newer:
  "find_uuid (u_uid obj) (db_resource db) = Some old \<Longrightarrow> rr_clusterUpdatedTs old < ts \<Longrightarrow>
   upsert obj data ts db =
     (db\<lparr>db_resource := map (set_row obj data ts) (db_resource db), db_nextId := db_nextId db + 1,
         db_labels := sync_labels (Some (jd_labels (rr_data old))) (rr_id old) (jd_labels data) (db_labels db)\<rparr>,
      Some False)"
  by (simp add: upsert_def ResourceInserter_def set_row_def cong: map_cong)

lemma upsert_stale:
  "find_uuid (u_uid obj) (db_resource db) = Some old \<Longrightarrow> \<not> rr_clusterUpdatedTs old < ts \<Longrightarrow>
   upsert obj data ts db = (db\<lparr>db_nextId := db_nextId db + 1\<rparr>, None)"
  by (simp add: upsert_def ResourceInserter_def)

lemma upsert_cases:
  obtains (new) "find_uuid (u_uid obj) (db_resource db) = None"
  | (newer) old where "find_uuid (u_uid obj) (db_resource db) = Some old" "rr_clusterUpdatedTs old < ts"
      "old \<in> set (db_resource db)" "rr_uuid old = u_uid obj"
  | (stale) old where "find_uuid (u_uid obj) (db_resource db) = Some old" "\<not> rr_clusterUpdatedTs old < ts"
      "old \<in> set (db_resource db)" "rr_uuid old = u_uid obj"
  by (metis find_uuid_Some option.exhaust)

section \<open>The schema invariant\<close>

definition db_ok :: "db_state \<Rightarrow> bool" where
  "db_ok db \<longleftrightarrow>
     distinct (map rr_uuid (db_resource db)) \<and> distinct (map rr_id (db_resource db))
     \<and> (\<forall>r\<in>set (db_resource db). rr_id r < db_nextId db)
     \<and> (\<forall>l\<in>set (db_log_url db). lr_uuid l \<in> rr_uuid ` set (db_resource db))
     \<and> tables_ok (db_labels db)
     \<and> (\<forall>r\<in>set (db_resource db). label_sync (db_labels db) (rr_id r) (jd_labels (rr_data r)))"

lemma db_ok_row_eq:
  assumes "db_ok db" "r \<in> set (db_resource db)" "r' \<in> set (db_resource db)"
  shows "rr_uuid r = rr_uuid r' \<longleftrightarrow> r = r'" "rr_id r = rr_id r' \<longleftrightarrow> r = r'"
  using assms by (auto simp: db_ok_def distinct_map inj_on_def)

lemma upsert_uuids:
  "rr_uuid ` set (db_resource (fst (upsert obj data ts db))) = insert (u_uid obj) (rr_uuid ` set (db_resource db))"
proof (cases rule: upsert_cases [where obj = obj and db = db and ts = ts])
  case (newer old)
  then have "u_uid obj \<in> rr_uuid ` set (db_resource db)" by (metis image_eqI)
  with newer show ?thesis by (simp add: upsert_newer image_image insert_absorb)
next
  case (stale old)
  then have "u_uid obj \<in> rr_uuid ` set (db_resource db)" by (metis image_eqI)
  with stale show ?thesis by (simp add: upsert_stale insert_absorb)
qed (simp add: upsert_new)

lemma upsert_logs [simp]: "db_log_url (fst (upsert obj data ts db)) = db_log_url db"
  by (simp add: upsert_def ResourceInserter_def split: option.splits)

lemma sync_keeps_others:
  assumes "label_sync lt r prev" and "r \<noteq> rid"
  shows "label_sync (sync_labels old rid new lt) r prev"
  using assms by (intro label_sync_extend [OF assms(1)] sync_labels_tables(2) sync_labels_others)

lemma upsert_ok:
  assumes ok: "db_ok db"
  shows "db_ok (fst (upsert obj data ts db))"
proof (cases rule: upsert_cases [where obj = obj and db = db and ts = ts])
  case new
  let ?lt = "sync_labels None (db_nextId db) (jd_labels data) (db_labels db)"
  have "label_sync ?lt (rr_id r) (jd_labels (rr_data r))" if "r \<in> set (db_resource db)" for r
    using ok that by (intro sync_keeps_others) (auto simp: db_ok_def)
  moreover have "label_sync ?lt (db_nextId db) (jd_labels data)" by (rule sync_labels_own) simp
  moreover have "\<forall>r\<in>set (db_resource db). rr_id r \<noteq> db_nextId db" using ok by (auto simp: db_ok_def)
  ultimately show ?thesis using new ok
    by (auto simp: upsert_new find_uuid_None db_ok_def sync_labels_tables(1) less_imp_le intro: zle_add1_eq_le [THEN iffD2])
next
  case (newer old)
  let ?lt = "sync_labels (Some (jd_labels (rr_data old))) (rr_id old) (jd_labels data) (db_labels db)"
  have own: "label_sync ?lt (rr_id old) (jd_labels data)"
    using ok newer by (intro sync_labels_own) (auto simp: db_ok_def)
  have lab: "label_sync ?lt (rr_id r) (jd_labels (rr_data (set_row obj data ts r)))" if "r \<in> set (db_resource db)" for r
  proof (cases "rr_uuid r = u_uid obj")
    case True
    with db_ok_row_eq(1) [OF ok that newer(3)] newer have "r = old" by simp
    with own True show ?thesis by (simp add: set_row_own)
  next
    case False
    with db_ok_row_eq [OF ok that newer(3)] newer have "rr_id r \<noteq> rr_id old" by auto
    with ok that False show ?thesis by (simp add: sync_keeps_others set_row_other db_ok_def)
  qed
  show ?thesis using newer ok lab
    by (auto simp: upsert_newer db_ok_def sync_labels_tables(1) comp_def image_image intro: less_trans)
next
  case (stale old)
  with ok show ?thesis by (auto simp: upsert_stale db_ok_def intro: less_trans)
qed

lemma written_ok: "db_ok db \<Longrightarrow> db_ok (written obj data ts logs db)"
  using upsert_ok [of db obj data ts] upsert_uuids [of obj data ts db]
  by (auto simp: written_def Let_def db_ok_def replaced_logs_def)

section \<open>What the archive promises\<close>

text \<open>
  The specification of the archive: a map from UUIDs to entries, in which a write wins when
  it is newer than the entry it meets. API version and kind are those of the first write.
\<close>

record entry =
  en_apiVersion :: string
  en_kind :: string
  en_name :: string
  en_namespace :: string
  en_version :: string
  en_updated :: go_time
  en_deleted :: "go_time option"
  en_data :: json_data

type_synonym archive = "string \<rightharpoonup> entry"

definition new_entry :: "string \<Rightarrow> string \<Rightarrow> unstructured \<Rightarrow> json_data \<Rightarrow> go_time \<Rightarrow> entry" where
  "new_entry apiVersion kind obj data ts =
     \<lparr>en_apiVersion = apiVersion, en_kind = kind, en_name = u_name obj, en_namespace = u_namespace obj,
      en_version = u_resourceVersion obj, en_updated = ts, en_deleted = u_deletionTimestamp obj, en_data = data\<rparr>"

definition spec_write :: "unstructured \<Rightarrow> json_data \<Rightarrow> go_time \<Rightarrow> archive \<Rightarrow> archive" where
  "spec_write obj data ts a =
     (case a (u_uid obj) of
        None \<Rightarrow> a(u_uid obj \<mapsto> new_entry (GetAPIVersion obj) (GetKind obj) obj data ts)
      | Some e \<Rightarrow> if en_updated e < ts
                  then a(u_uid obj \<mapsto> new_entry (en_apiVersion e) (en_kind e) obj data ts) else a)"

definition row_entry :: "resource_row \<Rightarrow> entry" where
  "row_entry r =
     \<lparr>en_apiVersion = rr_apiVersion r, en_kind = rr_kind r, en_name = rr_name r, en_namespace = rr_namespace r,
      en_version = rr_resourceVersion r, en_updated = rr_clusterUpdatedTs r, en_deleted = rr_clusterDeletedTs r,
      en_data = rr_data r\<rparr>"

definition archive_of :: "db_state \<Rightarrow> archive" where
  "archive_of db = (\<lambda>u. map_option row_entry (find_uuid u (db_resource db)))"

lemma row_entry_new: "row_entry (new_row obj data ts i) = new_entry (GetAPIVersion obj) (GetKind obj) obj data ts"
  by (simp add: row_entry_def new_row_def new_entry_def)

lemma row_entry_set:
  "rr_uuid r = u_uid obj \<Longrightarrow> row_entry (set_row obj data ts r) = new_entry (rr_apiVersion r) (rr_kind r) obj data ts"
  by (simp add: row_entry_def set_row_def new_entry_def)

lemma row_entry_simps [simp]:
  "en_updated (row_entry r) = rr_clusterUpdatedTs r" "en_apiVersion (row_entry r) = rr_apiVersion r"
  "en_kind (row_entry r) = rr_kind r"
  by (simp_all add: row_entry_def)

lemma upsert_refines: "archive_of (fst (upsert obj data ts db)) = spec_write obj data ts (archive_of db)"
proof (cases rule: upsert_cases [where obj = obj and db = db and ts = ts])
  case new
  have "archive_of (fst (upsert obj data ts db)) u = spec_write obj data ts (archive_of db) u" for u
    using new by (auto simp: archive_of_def upsert_new spec_write_def find_uuid_append row_entry_new split: option.splits)
  then show ?thesis ..
next
  case (newer old)
  have "archive_of (fst (upsert obj data ts db)) u = spec_write obj data ts (archive_of db) u" for u
  proof (cases "u = u_uid obj")
    case True
    with newer show ?thesis by (simp add: archive_of_def upsert_newer spec_write_def find_uuid_map row_entry_set)
  next
    case False
    have "map_option (\<lambda>r. row_entry (set_row obj data ts r)) (find_uuid u (db_resource db)) =
        map_option row_entry (find_uuid u (db_resource db))"
      using False by (cases "find_uuid u (db_resource db)") (auto dest: find_uuid_Some simp: set_row_other)
    with newer False show ?thesis
      by (simp add: archive_of_def upsert_newer spec_write_def find_uuid_map option.map_comp comp_def)
  qed
  then show ?thesis ..
next
  case (stale old)
  then show ?thesis by (simp add: archive_of_def upsert_stale spec_write_def)
qed

lemma written_refines: "archive_of (written obj data ts logs db) = spec_write obj data ts (archive_of db)"
  using upsert_refines [of obj data ts db] by (simp add: written_def Let_def archive_of_def)

text \<open>Writes to different entries, and writes to one entry at different instants, commute.\<close>

type_synonym write_req = "unstructured \<times> json_data \<times> go_time"

definition spec_step :: "write_req \<Rightarrow> archive \<Rightarrow> archive" where
  "spec_step w = spec_write (fst w) (fst (snd w)) (snd (snd w))"

definition independent :: "write_req \<Rightarrow> write_req \<Rightarrow> bool" where
  "independent v w \<longleftrightarrow>
     u_uid (fst v) \<noteq> u_uid (fst w)
     \<or> snd (snd v) \<noteq> snd (snd w) \<and> GetAPIVersion (fst v) = GetAPIVersion (fst w) \<and> GetKind (fst v) = GetKind (fst w)"

lemma new_entry_simps [simp]:
  "en_updated (new_entry v k obj data ts) = ts" "en_apiVersion (new_entry v k obj data ts) = v"
  "en_kind (new_entry v k obj data ts) = k"
  by (simp_all add: new_entry_def)

lemma spec_step_commute:
  assumes "independent v w"
  shows "spec_step v (spec_step w a) = spec_step w (spec_step v a)"
proof (cases "u_uid (fst v) = u_uid (fst w)")
  case True
  then have ts: "snd (snd v) < snd (snd w) \<or> snd (snd w) < snd (snd v)"
    and eq: "GetAPIVersion (fst v) = GetAPIVersion (fst w)" "GetKind (fst v) = GetKind (fst w)"
    using assms by (auto simp: independent_def)
  show ?thesis
    by (cases "a (u_uid (fst w))"; rule disjE [OF ts]) (simp_all add: spec_step_def spec_write_def True eq)
next
  case False
  then show ?thesis
    by (simp add: spec_step_def spec_write_def fun_upd_twist split: option.split)
qed

text \<open>The contract of \<^verbatim>\<open>interfaces.DBWriter\<close> the sink relies on.\<close>

locale archive_writer =
  fixes wr :: "'f \<Rightarrow> 'db \<Rightarrow> unstructured option \<Rightarrow> json_data \<Rightarrow> go_time \<Rightarrow> logTuple list \<Rightarrow>
      'db \<times> writeResourceResult \<times> write_error option"
    and inv :: "'db \<Rightarrow> bool" and view :: "'db \<Rightarrow> archive"
  assumes atomic: "wr flt db optr data ts logs = (db', res, Some e) \<Longrightarrow> res = WriteResourceResultError
        \<and> (view db' = view db \<or> (\<exists>obj. optr = Some obj \<and> view db' = spec_write obj data ts (view db)))"
    and refines: "wr flt db (Some obj) data ts logs = (db', res, None) \<Longrightarrow> view db' = spec_write obj data ts (view db)"
    and keeps: "inv db \<Longrightarrow> wr flt db optr data ts logs = (db', res, err) \<Longrightarrow> inv db'"
begin

text \<open>A sequence of deliveries, each with its faults and its log links.\<close>

definition deliver :: "'f \<times> write_req \<times> logTuple list \<Rightarrow> 'db \<Rightarrow> 'db" where
  "deliver d db = (case d of (flt, (obj, data, ts), logs) \<Rightarrow> fst (wr flt db (Some obj) data ts logs))"

definition succeeds :: "'f \<times> write_req \<times> logTuple list \<Rightarrow> bool" where
  "succeeds d \<longleftrightarrow> (case d of (flt, (obj, data, ts), logs) \<Rightarrow> \<forall>db. snd (snd (wr flt db (Some obj) data ts logs)) = None)"

lemma keeps_fst: "inv db \<Longrightarrow> inv (fst (wr flt db optr data ts logs))"
  by (metis keeps prod.collapse)

lemma deliver_inv: "inv db \<Longrightarrow> inv (deliver d db)"
  by (auto simp: deliver_def split: prod.splits intro: keeps_fst)

lemma deliveries_inv: "inv db \<Longrightarrow> inv (fold deliver ds db)"
  by (induction ds arbitrary: db) (simp_all add: deliver_inv)

lemma deliver_view: "succeeds d \<Longrightarrow> view (deliver d db) = spec_step (fst (snd d)) (view db)"
proof -
  assume ok: "succeeds d"
  obtain flt obj data ts logs where d: "d = (flt, (obj, data, ts), logs)" by (metis prod.exhaust)
  obtain db' res err where w: "wr flt db (Some obj) data ts logs = (db', res, err)" by (metis prod.exhaust)
  from ok d have "snd (snd (wr flt db (Some obj) data ts logs)) = None" by (simp add: succeeds_def)
  with w have "err = None" by simp
  with refines w d show ?thesis by (simp add: deliver_def spec_step_def)
qed

lemma deliveries_view:
  "\<forall>d\<in>set ds. succeeds d \<Longrightarrow> view (fold deliver ds db) = fold (\<lambda>d. spec_step (fst (snd d))) ds (view db)"
  by (induction ds arbitrary: db) (simp_all add: deliver_view)

text \<open>The archive does not depend on the order of delivery.\<close>

lemma deliveries_commute:
  assumes "\<forall>d\<in>set ds. succeeds d" and "mset ds = mset ds'"
    and "\<forall>i<length ds. \<forall>j<length ds. i \<noteq> j \<longrightarrow> independent (fst (snd (ds ! i))) (fst (snd (ds ! j)))"
  shows "view (fold deliver ds db) = view (fold deliver ds' db)"
proof -
  have "set ds = set ds'" using assms(2) by (metis set_mset_mset)
  then have "\<forall>d\<in>set ds'. succeeds d" using assms(1) by simp
  moreover have "fold (\<lambda>d. spec_step (fst (snd d))) ds = fold (\<lambda>d. spec_step (fst (snd d))) ds'"
  proof (rule fold_multiset_equiv)
    fix x y assume "x \<in> set ds" "y \<in> set ds"
    then obtain i j where ij: "i < length ds" "x = ds ! i" "j < length ds" "y = ds ! j" by (auto simp: in_set_conv_nth)
    show "spec_step (fst (snd x)) \<circ> spec_step (fst (snd y)) = spec_step (fst (snd y)) \<circ> spec_step (fst (snd x))"
    proof (cases "i = j")
      case False
      with assms(3) ij have "independent (fst (snd x)) (fst (snd y))" by blast
      then show ?thesis using spec_step_commute by (intro ext) (simp only: comp_apply, metis)
    qed (use ij in simp)
  qed (rule assms(2))
  ultimately show ?thesis using assms(1) by (simp add: deliveries_view)
qed

end

text \<open>A database whose tables are unchanged holds the same archive and is as consistent as before.\<close>

lemma unchanged_archive: "unchanged db db' \<Longrightarrow> archive_of db' = archive_of db"
  by (simp add: unchanged_def tables_of_def archive_of_def)

lemma label_id_rows:
  "fst (lt_key lt') = fst (lt_key lt) \<Longrightarrow> fst (lt_value lt') = fst (lt_value lt) \<Longrightarrow> fst (lt_pair lt') = fst (lt_pair lt) \<Longrightarrow>
    label_id lt' = label_id lt"
  by (rule ext) (simp add: label_id_def pair_key_def)

lemma serial_ok_next: "serial_ok t \<Longrightarrow> fst t' = fst t \<Longrightarrow> snd t \<le> snd t' \<Longrightarrow> serial_ok t'"
  by (auto simp: serial_ok_def intro: less_le_trans)

lemma unchanged_ok:
  assumes "unchanged db db'" "db_ok db"
  shows "db_ok db'"
proof -
  have t: "fst (lt_key (db_labels db')) = fst (lt_key (db_labels db))" "fst (lt_value (db_labels db')) = fst (lt_value (db_labels db))"
    "fst (lt_pair (db_labels db')) = fst (lt_pair (db_labels db))" "lt_resource (db_labels db') = lt_resource (db_labels db)"
    and rows: "db_resource db' = db_resource db" "db_log_url db' = db_log_url db" and le: "seqs_le db db'"
    using assms(1) by (simp_all add: unchanged_def tables_of_def)
  have "label_sync (db_labels db') rid obj = label_sync (db_labels db) rid obj" for rid obj
    by (simp add: label_sync_def label_id_rows [OF t(1-3)] resource_labels_def t(4))
  moreover have "tables_ok (db_labels db')"
    using assms(2) le t by (auto simp: db_ok_def tables_ok_def seqs_le_def intro: serial_ok_next)
  ultimately show ?thesis using assms(2) le rows by (auto simp: db_ok_def seqs_le_def intro: less_le_trans)
qed

lemma WriteResource_error:
  assumes "WriteResource flt db optr data ts logs = (db', res, Some e)"
  shows "res = WriteResourceResultError
    \<and> (unchanged db db' \<or> (\<exists>obj. optr = Some obj \<and> wf_commit flt = CommitLost \<and> e = CommitFailed True \<and> db' = written obj data ts logs db))
    \<and> (db_open db' = db_open db \<or> wf_rollback flt \<and> rollback_failed e \<and> db_open db' = Suc (db_open db))"
proof (cases optr)
  case None
  with assms show ?thesis by (auto simp: WriteResource_nil)
next
  case (Some obj)
  with assms have "\<not> no_fault flt obj logs" using WriteResource_ok [of flt obj logs db data ts] by auto
  from WriteResource_fault [OF this, of db data ts] assms Some show ?thesis by auto
qed

interpretation pg: archive_writer WriteResource db_ok archive_of
proof
  fix flt db obj data ts logs db' res e
  assume "WriteResource flt db obj data ts logs = (db', res, Some e)"
  from WriteResource_error [OF this] show "res = WriteResourceResultError
      \<and> (archive_of db' = archive_of db \<or> (\<exists>ob. obj = Some ob \<and> archive_of db' = spec_write ob data ts (archive_of db)))"
    by (auto simp: unchanged_archive written_refines)
next
  fix flt db obj data ts logs db' res
  assume w: "WriteResource flt db (Some obj) data ts logs = (db', res, None)"
  then have "no_fault flt obj logs" using WriteResource_fault [of flt obj logs db data ts] by fastforce
  with w show "archive_of db' = spec_write obj data ts (archive_of db)"
    by (auto simp: WriteResource_ok written_refines)
next
  fix db flt obj data ts logs db' res err
  assume ok: "db_ok db" and w: "WriteResource flt db obj data ts logs = (db', res, err)"
  show "db_ok db'"
  proof (cases err)
    case None
    with w obtain ob where ob: "obj = Some ob" by (cases obj) (auto simp: WriteResource_nil)
    with w None have "no_fault flt ob logs" using WriteResource_fault [of flt ob logs db data ts] by fastforce
    with w ob ok show ?thesis by (auto simp: WriteResource_ok written_ok)
  next
    case (Some e)
    from WriteResource_error [OF w [unfolded Some]] ok show ?thesis by (auto simp: unchanged_ok written_ok)
  qed
qed

lemma pg_succeeds: "no_fault flt obj logs \<Longrightarrow> pg.succeeds (flt, (obj, data, ts), logs)"
  by (simp add: pg.succeeds_def WriteResource_ok)

section \<open>Properties\<close>

definition empty_db :: db_state where
  "empty_db = \<lparr>db_resource = [], db_nextId = 1, db_log_url = [],
     db_labels = \<lparr>lt_key = ([], 1), lt_value = ([], 1), lt_pair = ([], 1), lt_resource = []\<rparr>, db_open = 0\<rparr>"

lemma empty_db_ok: "db_ok empty_db"
  by (simp add: db_ok_def empty_db_def tables_ok_def serial_ok_def)

definition sample_faults :: write_faults where
  "sample_faults = \<lparr>wf_begin = False, wf_upsert = False, wf_drawn = no_draws, wf_delete = False, wf_log = (\<lambda>_. False),
     wf_commit = CommitDone, wf_rollback = False\<rparr>"

definition sample_json :: json_data where
  "sample_json = \<lparr>jd_creationTimestamp = Some ''2024-01-01T00:00:00Z'', jd_labels = Some [(''app'', ''web'')],
     jd_owners = [], jd_pod = None\<rparr>"

lemma no_fault_sample [simp]: "no_fault sample_faults obj logs"
  by (simp add: no_fault_def sample_faults_def)

text \<open>C14: a write is all or nothing and leaves no transaction behind. Without an error the tables are
  those of the complete write. With an error they are as they were, at whatever statement it
  failed and whether or not the rollback worked; only when the commit itself reported the error
  can they also be those of the complete write, since its answer may have been lost. The server
  has no more open transactions than before, except for the one whose rollback failed, and then
  the error says so.\<close>

theorem write_atomic:
  assumes "WriteResource flt db optr data ts logs = (db', res, err)"
  shows "(err = None \<longrightarrow> (\<exists>obj. optr = Some obj \<and> db' = written obj data ts logs db))
    \<and> (\<forall>e. err = Some e \<longrightarrow> res = WriteResourceResultError
         \<and> (tables_of db' = tables_of db
            \<or> (\<exists>obj. optr = Some obj \<and> wf_commit flt = CommitLost \<and> e = CommitFailed True \<and> db' = written obj data ts logs db)))
    \<and> (db_open db' = db_open db \<or> wf_rollback flt \<and> (\<exists>e. err = Some e \<and> rollback_failed e) \<and> db_open db' = Suc (db_open db))"
proof (cases err)
  case None
  with assms obtain obj where obj: "optr = Some obj" by (cases optr) (auto simp: WriteResource_nil)
  with assms None have "no_fault flt obj logs" using WriteResource_fault [of flt obj logs db data ts] by fastforce
  with assms obj None show ?thesis by (auto simp: WriteResource_ok written_next(2))
next
  case (Some e)
  from WriteResource_error [OF assms [unfolded Some]] Some show ?thesis by (auto simp: unchanged_def)
qed

text \<open>A Pod whose second log link is refused: its row and its first link are gone again, the identifier is used up.\<close>

theorem write_atomic_witness:
  "let w = WriteResource (sample_faults\<lparr>wf_log := (\<lambda>i. i = 1)\<rparr>) empty_db (Some (sample_obj ''Pod'' ''p'' ''u1'' 10)) sample_json 20
     [\<lparr>lg_ContainerName = ''a'', lg_Url = ''x'', lg_Query = [], lg_Start = [], lg_End = []\<rparr>,
      \<lparr>lg_ContainerName = ''b'', lg_Url = ''y'', lg_Query = [], lg_Start = [], lg_End = []\<rparr>]
   in snd (snd w) = Some (UrlInsertFailed False) \<and> tables_of (fst w) = tables_of empty_db \<and> db_open (fst w) = 0
      \<and> db_nextId (fst w) = 2"
proof -
  let ?w = "WriteResource (sample_faults\<lparr>wf_log := (\<lambda>i. i = 1)\<rparr>) empty_db (Some (sample_obj ''Pod'' ''p'' ''u1'' 10)) sample_json 20
     [\<lparr>lg_ContainerName = ''a'', lg_Url = ''x'', lg_Query = [], lg_Start = [], lg_End = []\<rparr>,
      \<lparr>lg_ContainerName = ''b'', lg_Url = ''y'', lg_Query = [], lg_Start = [], lg_End = []\<rparr>]"
  have w: "snd (snd ?w) = Some (UrlInsertFailed False)" "db_nextId (fst ?w) = 2" by code_simp+
  then have "?w = (fst ?w, fst (snd ?w), Some (UrlInsertFailed False))" by (metis prod.collapse)
  from write_atomic [OF this] w show ?thesis by (simp add: Let_def sample_faults_def empty_db_def)
qed

text \<open>C15: every write, whatever fails, keeps the schema consistent: UUIDs and identifiers are
  unique, identifiers stay below the sequence, log links belong to archived resources, and the
  label tables hold exactly the labels of the archived JSON.\<close>

theorem write_keeps_schema:
  assumes "db_ok db"
  shows "db_ok (fst (WriteResource flt db obj data ts logs))"
  using assms by (rule pg.keeps_fst)

theorem write_keeps_schema_witness:
  "db_ok (fst (WriteResource sample_faults empty_db (Some (sample_obj ''Pod'' ''p'' ''u1'' 10)) sample_json 20 []))"
  by (rule write_keeps_schema [OF empty_db_ok])

text \<open>C9: a write that succeeds is one step of the archive specification: it adds the resource,
  replaces the older entry of its UUID, or leaves a newer or equally new entry alone.\<close>

theorem write_refines_archive:
  assumes "WriteResource flt db (Some obj) data ts logs = (db', res, None)"
  shows "archive_of db' = spec_write obj data ts (archive_of db)"
  using assms by (rule pg.refines)

theorem write_refines_archive_witness:
  "archive_of (written (sample_obj ''Job'' ''j'' ''u1'' 10) sample_json 20 [] empty_db) =
     spec_write (sample_obj ''Job'' ''j'' ''u1'' 10) sample_json 20 (archive_of empty_db)"
  by (rule write_refines_archive [OF WriteResource_ok [of sample_faults]]) simp

text \<open>C16: deliveries of events that are about different resources, or about one resource at
  different instants, lead to the same archive in every order, so a late event never undoes a
  newer one.\<close>

theorem delivery_order_irrelevant:
  assumes "\<forall>(flt, (obj, data, ts), logs)\<in>set ds. no_fault flt obj logs" and "mset ds = mset ds'"
    and "\<forall>i<length ds. \<forall>j<length ds. i \<noteq> j \<longrightarrow> independent (fst (snd (ds ! i))) (fst (snd (ds ! j)))"
  shows "archive_of (fold (\<lambda>(flt, (obj, data, ts), logs) db. fst (WriteResource flt db (Some obj) data ts logs)) ds db) =
         archive_of (fold (\<lambda>(flt, (obj, data, ts), logs) db. fst (WriteResource flt db (Some obj) data ts logs)) ds' db)"
proof -
  have eq: "(\<lambda>(flt, (obj, data, ts), logs) db. fst (WriteResource flt db (Some obj) data ts logs)) = pg.deliver"
    by (auto simp: pg.deliver_def fun_eq_iff)
  have "\<forall>d\<in>set ds. pg.succeeds d" using assms(1) by (auto intro: pg_succeeds)
  from pg.deliveries_commute [OF this assms(2,3)] show ?thesis unfolding eq .
qed

theorem delivery_order_irrelevant_witness:
  "let a = (sample_faults, (sample_obj ''Job'' ''j'' ''u1'' 10, sample_json, 20), []);
       b = (sample_faults, (sample_obj ''Job'' ''j2'' ''u1'' 10, sample_json, 30), [])
   in archive_of (fold (\<lambda>(flt, (obj, data, ts), logs) db. fst (WriteResource flt db (Some obj) data ts logs)) [a, b] empty_db) =
      archive_of (fold (\<lambda>(flt, (obj, data, ts), logs) db. fst (WriteResource flt db (Some obj) data ts logs)) [b, a] empty_db)"
  unfolding Let_def
  by (rule delivery_order_irrelevant)
     (auto simp: less_Suc_eq independent_def sample_obj_def GetAPIVersion_def GetKind_def)

text \<open>A successful write returns \<open>Inserted\<close> exactly when its UUID was not archived and
  \<open>Updated\<close> in every other case; \<open>WriteResourceResultNone\<close> is never returned, so a write that a
  newer entry turned away is reported as an update.\<close>

theorem write_result:
  assumes "WriteResource flt db (Some obj) data ts logs = (db', res, None)"
  shows "res = (if archive_of db (u_uid obj) = None then WriteResourceResultInserted else WriteResourceResultUpdated)"
proof -
  have nf: "no_fault flt obj logs" using assms WriteResource_fault [of flt obj logs db data ts] by fastforce
  have "snd (upsert obj data ts db) = Some True \<longleftrightarrow> find_uuid (u_uid obj) (db_resource db) = None"
    by (cases rule: upsert_cases [where obj = obj and db = db and ts = ts]) (simp_all add: upsert_new upsert_newer upsert_stale)
  with assms show ?thesis by (auto simp: WriteResource_ok [OF nf] archive_of_def)
qed

theorem write_result_witness:
  "let db = written (sample_obj ''Job'' ''j'' ''u1'' 10) sample_json 20 [] empty_db
   in fst (snd (WriteResource sample_faults db (Some (sample_obj ''Job'' ''j'' ''u1'' 10)) sample_json 15 [])) =
        WriteResourceResultUpdated
      \<and> archive_of (written (sample_obj ''Job'' ''j'' ''u1'' 10) sample_json 15 [] db) = archive_of db"
proof -
  let ?o = "sample_obj ''Job'' ''j'' ''u1'' 10"
  let ?db = "written ?o sample_json 20 [] empty_db"
  have a: "archive_of ?db = spec_write ?o sample_json 20 (archive_of empty_db)" by (rule written_refines)
  have empty: "archive_of empty_db = (\<lambda>_. None)" by (simp add: archive_of_def empty_db_def find_uuid_def)
  with a have some: "archive_of ?db (u_uid ?o) \<noteq> None" by (simp add: spec_write_def)
  obtain db' res where w: "WriteResource sample_faults ?db (Some ?o) sample_json 15 [] = (db', res, None)"
    using WriteResource_ok [OF no_fault_sample] by blast
  from write_result [OF w] some w have "fst (snd (WriteResource sample_faults ?db (Some ?o) sample_json 15 [])) =
      WriteResourceResultUpdated" by (simp del: not_None_eq)
  moreover have "archive_of (written ?o sample_json 15 [] ?db) = archive_of ?db"
    unfolding written_refines [of _ _ 15] a empty by (simp add: spec_write_def)
  ultimately show ?thesis by (simp add: Let_def)
qed

text \<open>A successful write of a Pod leaves exactly the given log links for its UUID and those of
  every other UUID untouched, also when the write is stale and the archived Pod is kept; a write
  of any other kind does not touch the links.\<close>

theorem write_replaces_logs:
  assumes "WriteResource flt db (Some obj) data ts logs = (db', res, None)"
  shows "filter (\<lambda>l. lr_uuid l \<noteq> u_uid obj) (db_log_url db') = filter (\<lambda>l. lr_uuid l \<noteq> u_uid obj) (db_log_url db)
    \<and> map lr_tuple (filter (\<lambda>l. lr_uuid l = u_uid obj) (db_log_url db')) =
        (if GetKind obj = ''Pod'' then logs else map lr_tuple (filter (\<lambda>l. lr_uuid l = u_uid obj) (db_log_url db)))"
proof -
  have nf: "no_fault flt obj logs" using assms WriteResource_fault [of flt obj logs db data ts] by fastforce
  with assms have db': "db' = written obj data ts logs db" by (simp add: WriteResource_ok)
  show ?thesis by (simp add: db' written_def Let_def replaced_logs_def comp_def)
qed

theorem write_replaces_logs_witness:
  "map lr_tuple (filter (\<lambda>l. lr_uuid l = ''u1'') (db_log_url (written (sample_obj ''Pod'' ''p'' ''u1'' 10) sample_json 20
      [\<lparr>lg_ContainerName = ''a'', lg_Url = ''x'', lg_Query = [], lg_Start = [], lg_End = []\<rparr>] empty_db))) =
    [\<lparr>lg_ContainerName = ''a'', lg_Url = ''x'', lg_Query = [], lg_Start = [], lg_End = []\<rparr>]"
  using write_replaces_logs [OF WriteResource_ok [OF no_fault_sample], of "sample_obj ''Pod'' ''p'' ''u1'' 10"
      sample_json 20 "[\<lparr>lg_ContainerName = ''a'', lg_Url = ''x'', lg_Query = [], lg_Start = [], lg_End = []\<rparr>]" empty_db]
  by simp

end
