(* ===== verification/Log_Urls.thy ===== *)
theory Log_Urls
  imports Cel_Filters Sql_Store
begin

text \<open>
  \<^verbatim>\<open>pkg/logurls/logurls.go\<close>, \<^verbatim>\<open>cmd/sink/logs/logs.go\<close> and \<^verbatim>\<open>pkg/files/files.go\<close>: the log links of a
  resource, built from a configuration of templates and CEL expressions.

  \<open>sprint\<close> stands for \<^verbatim>\<open>fmt.Sprintf("%v")\<close> on CEL values. Interpolation repeats until nothing is
  left to substitute; not returning is the value \<open>None\<close>.
\<close>

section \<open>Templates\<close>

datatype 'p log_value = Text string | Program 'p

definition LogURL :: string where "LogURL = ''LOG_URL''"
definition ContainerName :: string where "ContainerName = ''CONTAINER_NAME''"
definition QueryKey :: string where "QueryKey = ''QUERY''"
definition StartKey :: string where "StartKey = ''START''"
definition EndKey :: string where "EndKey = ''END''"

definition is_word_char :: "char \<Rightarrow> bool" where
  "is_word_char c \<longleftrightarrow>
     (let n = of_char c :: nat in 48 \<le> n \<and> n \<le> 57 \<or> 65 \<le> n \<and> n \<le> 90 \<or> 97 \<le> n \<and> n \<le> 122 \<or> c = CHR ''_'')"

text \<open>The names of the matches of \<open>{name}\<close>, from left to right.\<close>

function find_vars :: "string \<Rightarrow> string list" where
  "find_vars s =
     (case s of [] \<Rightarrow> []
      | c # cs \<Rightarrow>
          if c = CHR ''{'' \<and> takeWhile is_word_char cs \<noteq> [] \<and> dropWhile is_word_char cs \<noteq> []
             \<and> hd (dropWhile is_word_char cs) = CHR ''}''
          then takeWhile is_word_char cs # find_vars (tl (dropWhile is_word_char cs))
          else find_vars cs)"
  by pat_completeness auto
termination
proof (relation "measure length")
  fix s c and cs :: string
  assume s: "s = c # cs"
  have "length (dropWhile is_word_char cs) \<le> length cs" by (rule length_dropWhile_le)
  then show "(tl (dropWhile is_word_char cs), s) \<in> measure length" using s by simp
qed simp_all

declare find_vars.simps [simp del]

definition replace_vars :: "(string, string) gomap \<Rightarrow> string list \<Rightarrow> string \<Rightarrow> string" where
  "replace_vars env names val =
     foldl (\<lambda>v name. replace_all v (''{'' @ name @ ''}'') (gomap_get0 [] env name)) val names"

partial_function (option) interpolateString :: "string \<Rightarrow> (string, string) gomap \<Rightarrow> string option" where
  "interpolateString val env =
     (if find_vars val = [] then Some val
      else interpolateString (replace_vars env (find_vars val) val) env)"

section \<open>Substitution maps\<close>

type_synonym smap = "(string, string) gomap"

definition substitution_step :: "(celval \<Rightarrow> string) \<Rightarrow> smap list \<Rightarrow> string \<times> celval \<Rightarrow> smap list" where
  "substitution_step sprint vmaps kv =
     (case snd kv of
        CelList [] \<Rightarrow> map (\<lambda>vm. gomap_set vm (fst kv) []) vmaps
      | CelList vs \<Rightarrow> concat (map (\<lambda>v. map (\<lambda>vm. gomap_set vm (fst kv) (sprint v)) vmaps) vs)
      | v \<Rightarrow> map (\<lambda>vm. gomap_set vm (fst kv) (sprint v)) vmaps)"

definition generateSubstitutionMaps :: "(celval \<Rightarrow> string) \<Rightarrow> (string, celval) gomap \<Rightarrow> smap list" where
  "generateSubstitutionMaps sprint m = foldl (substitution_step sprint) [[]] m"

section \<open>Log links\<close>

definition evaluate_config :: "'p cel_eval \<Rightarrow> (string, 'p log_value) gomap \<Rightarrow> unstructured \<Rightarrow> (string, celval) gomap" where
  "evaluate_config eval cm obj =
     foldl (\<lambda>m (key, v). gomap_set m key (case v of Text s \<Rightarrow> CelString s | Program p \<Rightarrow> ExecuteCEL eval (Some p) obj)) [] cm"

definition log_tuple :: "smap \<Rightarrow> logTuple option" where
  "log_tuple vmap =
     Option.bind (interpolateString (gomap_get0 [] vmap LogURL) vmap) (\<lambda>url.
       Option.bind (interpolateString (gomap_get0 [] vmap QueryKey) vmap) (\<lambda>query.
         Some \<lparr>lg_ContainerName = gomap_get0 [] vmap ContainerName, lg_Url = url, lg_Query = query,
               lg_Start = gomap_get0 [] vmap StartKey, lg_End = gomap_get0 [] vmap EndKey\<rparr>))"

fun collect_tuples :: "smap list \<Rightarrow> logTuple list option" where
  "collect_tuples [] = Some []"
| "collect_tuples (vm # vms) =
     (case log_tuple vm of None \<Rightarrow> None
      | Some t \<Rightarrow> (case collect_tuples vms of None \<Rightarrow> None | Some ts \<Rightarrow> Some (t # ts)))"

definition GenerateLogURLs ::
    "'p cel_eval \<Rightarrow> (celval \<Rightarrow> string) \<Rightarrow> (string, 'p log_value) gomap \<Rightarrow> unstructured \<Rightarrow> logTuple list option" where
  "GenerateLogURLs eval sprint cm obj = collect_tuples (generateSubstitutionMaps sprint (evaluate_config eval cm obj))"

section \<open>The configuration\<close>

text \<open>A directory is the list of its entries: name, whether it is a directory, and the content,
  \<open>None\<close> when it cannot be read.\<close>

record dir_entry =
  de_name :: string
  de_isDir :: bool
  de_content :: "string option"

datatype log_config_error = DirEnvMissing | DirUnreadable | NoConfig | FileUnreadable | NoLogURL | BadExpression string

definition FilesInDir :: "dir_entry list option \<Rightarrow> log_config_error + (string, string option) gomap" where
  "FilesInDir dir =
     (case dir of None \<Rightarrow> Inl DirUnreadable
      | Some es \<Rightarrow> Inr (foldl (\<lambda>m e. gomap_set m (de_name e) (de_content e)) []
                      (filter (\<lambda>e. \<not> de_isDir e \<and> \<not> has_prefix (de_name e) ''..'') es)))"

fun LoggingConfigFromFiles :: "(string, string option) gomap \<Rightarrow> log_config_error + (string, string) gomap" where
  "LoggingConfigFromFiles [] = Inr []"
| "LoggingConfigFromFiles ((name, content) # fs) =
     (case content of None \<Rightarrow> Inl FileUnreadable
      | Some c \<Rightarrow> (case LoggingConfigFromFiles fs of Inl e \<Rightarrow> Inl e | Inr m \<Rightarrow> Inr ((name, trim_space c) # m)))"

definition getKubeArchiveLoggingConfig :: "dir_entry list option option \<Rightarrow> log_config_error + (string, string) gomap" where
  "getKubeArchiveLoggingConfig loggingDir =
     (case loggingDir of None \<Rightarrow> Inl DirEnvMissing
      | Some dir \<Rightarrow>
          (case FilesInDir dir of
             Inl e \<Rightarrow> Inl e
           | Inr files \<Rightarrow> if files = [] then Inl NoConfig else LoggingConfigFromFiles files))"

definition celPrefix :: string where "celPrefix = ''cel:''"

definition containerNameCel :: string where
  "containerNameCel =
     ''cel:spec.containers.map(c, c.name) + (has(spec.initContainers) ? spec.initContainers.map(c, c.name) : [])''"

fun compile_config :: "'p cel_compile \<Rightarrow> (string, string) gomap \<Rightarrow> log_config_error + (string, 'p log_value) gomap" where
  "compile_config compile [] = Inr []"
| "compile_config compile ((key, val) # kvs) =
     (case (case cut_prefix val celPrefix of
              None \<Rightarrow> Inr (Text val)
            | Some expr \<Rightarrow> (case compile expr of None \<Rightarrow> Inl (BadExpression expr) | Some p \<Rightarrow> Inr (Program p))) of
        Inl e \<Rightarrow> Inl e
      | Inr v \<Rightarrow> (case compile_config compile kvs of Inl e \<Rightarrow> Inl e | Inr m \<Rightarrow> Inr ((key, v) # m)))"

definition NewUrlBuilder ::
    "'p cel_compile \<Rightarrow> dir_entry list option option \<Rightarrow> log_config_error + (string, 'p log_value) gomap" where
  "NewUrlBuilder compile loggingDir =
     (case getKubeArchiveLoggingConfig loggingDir of
        Inl e \<Rightarrow> Inl e
      | Inr loggingConf \<Rightarrow>
          if gomap_get loggingConf LogURL = None then Inl NoLogURL
          else compile_config compile (gomap_set loggingConf ContainerName containerNameCel))"

section \<open>Lemmas: interpolation\<close>

lemma find_vars_simps:
  "find_vars [] = []"
  "find_vars (c # cs) =
     (if c = CHR ''{'' \<and> takeWhile is_word_char cs \<noteq> [] \<and> dropWhile is_word_char cs \<noteq> []
         \<and> hd (dropWhile is_word_char cs) = CHR ''}''
      then takeWhile is_word_char cs # find_vars (tl (dropWhile is_word_char cs)) else find_vars cs)"
  by (simp add: find_vars.simps) (simp only: find_vars.simps [of "c # cs"] list.case)

lemma find_vars_first:
  "find_vars s = name # names \<Longrightarrow> \<exists>a b. s = a @ ''{'' @ name @ ''}'' @ b"
proof (induction s arbitrary: name names rule: find_vars.induct)
  case (1 s)
  show ?case
  proof (cases s)
    case Nil
    with "1.prems" show ?thesis by (simp add: find_vars_simps)
  next
    case (Cons c cs)
    let ?w = "takeWhile is_word_char cs" and ?r = "dropWhile is_word_char cs"
    show ?thesis
    proof (cases "c = CHR ''{'' \<and> ?w \<noteq> [] \<and> ?r \<noteq> [] \<and> hd ?r = CHR ''}''")
      case True
      with "1.prems" Cons have "name = ?w" by (simp add: find_vars_simps)
      moreover have "s = [] @ ''{'' @ ?w @ ''}'' @ tl ?r"
        using True Cons by (cases ?r) (simp_all, metis takeWhile_dropWhile_id)
      ultimately show ?thesis by metis
    next
      case False
      with "1.prems" Cons have "find_vars cs = name # names" by (simp only: find_vars_simps if_False)
      with "1.IH"(2) [OF Cons False] obtain a b where "cs = a @ ''{'' @ name @ ''}'' @ b" by blast
      with Cons show ?thesis by (metis append_Cons)
    qed
  qed
qed

abbreviation braces :: "string \<Rightarrow> nat" where
  "braces s \<equiv> count_list s CHR ''{''"

lemma braces_drop: "braces (drop n s) \<le> braces s"
  by (metis append_take_drop_id count_list_append le_add2)

lemma replace_all_braces_le:
  "CHR ''{'' \<notin> set new \<Longrightarrow> braces (replace_all s pat new) \<le> braces s"
proof (induction s pat new rule: replace_all.induct)
  case (1 s pat new)
  have new: "braces new = 0" using "1.prems" by (simp add: count_list_0_iff)
  show ?case
  proof (cases "pat = [] \<or> s = []")
    case True
    then show ?thesis by (subst replace_all.simps) (auto split: list.splits)
  next
    case False
    then obtain c cs where s: "s = c # cs" and pat: "pat \<noteq> []" by (cases s) auto
    show ?thesis
    proof (cases "has_prefix s pat")
      case True
      with "1.IH"(1) [OF pat s True "1.prems"] braces_drop [of "length pat" s] pat s new show ?thesis
        by (subst replace_all.simps) simp
    next
      case False
      with "1.IH"(2) [OF pat s False "1.prems"] pat s show ?thesis by (subst replace_all.simps) simp
    qed
  qed
qed

lemma replace_all_braces_less:
  "CHR ''{'' \<notin> set new \<Longrightarrow> s = a @ (CHR ''{'' # p) @ b \<Longrightarrow> braces (replace_all s (CHR ''{'' # p) new) < braces s"
proof (induction s "CHR ''{'' # p" new arbitrary: a rule: replace_all.induct)
  case (1 s new)
  let ?pat = "CHR ''{'' # p"
  have new: "braces new = 0" using "1.prems"(1) by (simp add: count_list_0_iff)
  have "s \<noteq> []" using "1.prems"(2) by simp
  then obtain c cs where s: "s = c # cs" by (meson neq_Nil_conv)
  show ?case
  proof (cases "has_prefix s ?pat")
    case True
    then obtain t where t: "s = ?pat @ t" by (auto simp: prefix_def)
    then have eq: "replace_all s ?pat new = new @ replace_all t ?pat new"
      using s True by (subst replace_all.simps) (simp split: list.split)
    have "braces (replace_all t ?pat new) \<le> braces t" by (rule replace_all_braces_le [OF "1.prems"(1)])
    moreover have "braces s = Suc (braces p + braces t)" by (simp add: t)
    ultimately show ?thesis using eq new by simp
  next
    case False
    with "1.prems"(2) have "a \<noteq> []" by (auto simp: prefix_def)
    then obtain a' where a: "a = c # a'" using "1.prems"(2) s by (cases a) auto
    with "1.prems"(2) s have "cs = a' @ ?pat @ b" by simp
    from "1.hyps"(2) [OF _ s False "1.prems"(1) this] False s show ?thesis by (subst replace_all.simps) simp
  qed
qed

lemma replace_vars_braces_le:
  assumes "\<forall>v\<in>snd ` set env. CHR ''{'' \<notin> set v"
  shows "braces (replace_vars env names val) \<le> braces val"
proof (induction names arbitrary: val)
  case (Cons n names)
  have "CHR ''{'' \<notin> set (gomap_get0 [] env n)"
    using assms gomap_get0_range [of "[]" env n] by auto
  from replace_all_braces_le [OF this] Cons.IH show ?case by (simp add: replace_vars_def) (meson le_trans)
qed (simp add: replace_vars_def)

lemma replace_vars_braces_less:
  assumes env: "\<forall>v\<in>snd ` set env. CHR ''{'' \<notin> set v" and "find_vars val \<noteq> []"
  shows "braces (replace_vars env (find_vars val) val) < braces val"
proof -
  from assms(2) obtain name names where v: "find_vars val = name # names" by (cases "find_vars val") auto
  have new: "CHR ''{'' \<notin> set (gomap_get0 [] env name)"
    using env gomap_get0_range [of "[]" env name] by auto
  from find_vars_first [OF v] obtain a b where "val = a @ (CHR ''{'' # name @ ''}'') @ b" by auto
  from replace_all_braces_less [OF new this] replace_vars_braces_le [OF env] v
  show ?thesis by (simp add: replace_vars_def) (meson le_less_trans)
qed

section \<open>Lemmas: substitution maps\<close>

text \<open>The texts a key may take: one for a plain value, one per element of a list.\<close>

definition choices :: "(celval \<Rightarrow> string) \<Rightarrow> celval \<Rightarrow> string list" where
  "choices sprint v = (case v of CelList [] \<Rightarrow> [[]] | CelList vs \<Rightarrow> map sprint vs | w \<Rightarrow> [sprint w])"

lemma choices_not_Nil [simp]: "choices sprint v \<noteq> []"
  by (auto simp: choices_def split: celval.splits list.splits)

lemma substitution_step_eq:
  "substitution_step sprint vmaps (k, v) = concat (map (\<lambda>t. map (\<lambda>vm. gomap_set vm k t) vmaps) (choices sprint v))"
  by (simp add: substitution_step_def choices_def comp_def split: celval.splits list.splits)

lemma substitution_step_set:
  "map_of ` set (substitution_step sprint vmaps (k, v)) = {f(k \<mapsto> t) |f t. f \<in> map_of ` set vmaps \<and> t \<in> set (choices sprint v)}"
  unfolding substitution_step_eq by (force simp: image_iff)

lemma substitution_step_length:
  "length (substitution_step sprint vmaps (k, v)) = length (choices sprint v) * length vmaps"
proof -
  have "length (concat (map (\<lambda>t. map (\<lambda>vm. gomap_set vm k t) vmaps) ts)) = length ts * length vmaps" for ts
    by (induction ts) auto
  then show ?thesis unfolding substitution_step_eq .
qed

lemma substitution_fold:
  assumes "gomap_ok m" and "\<forall>f\<in>map_of ` set vmaps. dom f \<inter> fst ` set m = {}"
  shows "map_of ` set (foldl (substitution_step sprint) vmaps m) =
    {f ++ g |f g. f \<in> map_of ` set vmaps \<and> dom g = fst ` set m \<and> (\<forall>(k, v)\<in>set m. \<exists>t\<in>set (choices sprint v). g k = Some t)}"
  using assms
proof (induction m arbitrary: vmaps)
  case Nil
  then show ?case by auto
next
  case (Cons kv m)
  obtain k v where kv: "kv = (k, v)" by (cases kv)
  let ?vm = "substitution_step sprint vmaps (k, v)"
  have km: "k \<notin> fst ` set m" "gomap_ok m" using Cons.prems kv by auto
  have "\<forall>f\<in>map_of ` set ?vm. dom f \<inter> fst ` set m = {}"
  proof
    fix h assume "h \<in> map_of ` set ?vm"
    then obtain f t where f: "f \<in> map_of ` set vmaps" "h = f(k \<mapsto> t)" unfolding substitution_step_set by blast
    with Cons.prems(2) kv have "dom f \<inter> fst ` set m = {}" by auto
    with f(2) km(1) show "dom h \<inter> fst ` set m = {}" by simp
  qed
  note IH = Cons.IH [OF km(2) this]
  have "{f ++ g |f g. f \<in> map_of ` set ?vm \<and> dom g = fst ` set m \<and> (\<forall>(k, v)\<in>set m. \<exists>t\<in>set (choices sprint v). g k = Some t)} =
    {f ++ g |f g. f \<in> map_of ` set vmaps \<and> dom g = insert k (fst ` set m)
       \<and> (\<exists>t\<in>set (choices sprint v). g k = Some t) \<and> (\<forall>(k, v)\<in>set m. \<exists>t\<in>set (choices sprint v). g k = Some t)}"
    (is "?L = ?R")
  proof
    show "?L \<subseteq> ?R"
    proof
      fix h assume "h \<in> ?L"
      then obtain f t g where f: "f \<in> map_of ` set vmaps" "t \<in> set (choices sprint v)" "h = f(k \<mapsto> t) ++ g"
        and g: "dom g = fst ` set m" "\<forall>(k, v)\<in>set m. \<exists>t\<in>set (choices sprint v). g k = Some t"
        unfolding substitution_step_set by blast
      have gk: "g k = None" using g(1) km(1) by (metis domIff)
      have "h = f ++ g(k \<mapsto> t)" using f(3) gk by (auto simp: map_add_def fun_eq_iff split: option.splits)
      moreover have "\<forall>(k', v')\<in>set m. \<exists>t'\<in>set (choices sprint v'). (g(k \<mapsto> t)) k' = Some t'"
        using g(2) km(1) by (force split: prod.splits)
      ultimately show "h \<in> ?R" using f g(1) by (intro CollectI exI [of _ f] exI [of _ "g(k \<mapsto> t)"]) auto
    qed
    show "?R \<subseteq> ?L"
    proof
      fix h assume "h \<in> ?R"
      then obtain f g t where f: "f \<in> map_of ` set vmaps" "h = f ++ g" and g: "dom g = insert k (fst ` set m)"
        "t \<in> set (choices sprint v)" "g k = Some t" "\<forall>(k, v)\<in>set m. \<exists>t\<in>set (choices sprint v). g k = Some t"
        by blast
      have "h = f(k \<mapsto> t) ++ g(k := None)" using f(2) g(3) by (auto simp: map_add_def fun_eq_iff split: option.splits)
      moreover have "dom (g(k := None)) = fst ` set m" using g(1) km(1) by auto
      moreover have "\<forall>(k', v')\<in>set m. \<exists>t'\<in>set (choices sprint v'). (g(k := None)) k' = Some t'"
        using g(4) km(1) by (force split: prod.splits)
      moreover have "f(k \<mapsto> t) \<in> map_of ` set ?vm" unfolding substitution_step_set using f(1) g(2) by blast
      ultimately show "h \<in> ?L" by blast
    qed
  qed
  with IH show ?case by (simp add: kv)
qed

section \<open>Properties\<close>

text \<open>Interpolation ends for every template when no value holds an opening brace, and leaves
  no variable behind.\<close>

theorem interpolation_terminates:
  assumes "\<forall>v\<in>snd ` set env. CHR ''{'' \<notin> set v"
  shows "\<exists>s. interpolateString val env = Some s \<and> find_vars s = []"
proof (induction "braces val" arbitrary: val rule: less_induct)
  case less
  show ?case
  proof (cases "find_vars val = []")
    case True
    then show ?thesis by (subst interpolateString.simps) simp
  next
    case False
    from less [OF replace_vars_braces_less [OF assms False]] False show ?thesis
      by (subst interpolateString.simps) simp
  qed
qed

theorem interpolation_terminates_witness:
  "\<exists>s. interpolateString ''http://logs/{POD}'' [(''POD'', ''web'')] = Some s \<and> find_vars s = []"
  by (rule interpolation_terminates) simp

text \<open>A variable whose value is the variable itself makes the interpolation of any template
  that is just this variable run for ever.\<close>

theorem interpolation_diverges:
  assumes "find_vars (''{'' @ name @ ''}'') = [name]" and "gomap_get env name = Some (''{'' @ name @ ''}'')"
  shows "interpolateString (''{'' @ name @ ''}'') env = None"
proof (rule ccontr)
  let ?t = "''{'' @ name @ ''}''"
  have step: "replace_vars env (find_vars ?t) ?t = ?t"
    using assms by (simp add: replace_vars_def gomap_get0_def) (subst replace_all.simps; simp add: replace_all.simps)
  assume "interpolateString ?t env \<noteq> None"
  then obtain r where r: "interpolateString ?t env = Some r" by auto
  have "\<not> (?t = ?t \<and> env = env)"
  proof (rule interpolateString.raw_induct [where P = "\<lambda>val e _. \<not> (val = ?t \<and> e = env)", OF _ r])
    fix self val e res
    assume IH: "\<And>val e res. self val e = Some res \<Longrightarrow> \<not> (val = ?t \<and> e = env)"
      and eq: "(if find_vars val = [] then Some val else self (replace_vars e (find_vars val) val) e) = Some res"
    show "\<not> (val = ?t \<and> e = env)"
    proof
      assume "val = ?t \<and> e = env"
      with eq assms(1) step have "self ?t env = Some res" by simp
      from IH [OF this] show False by simp
    qed
  qed
  then show False by simp
qed

theorem interpolation_diverges_witness:
  "interpolateString ''{A}'' [(''A'', ''{A}'')] = None"
  using interpolation_diverges [of "''A''" "[(''A'', ''{A}'')]"]
  by (simp add: find_vars_simps is_word_char_def)

text \<open>The substitution maps are the product of the choices of all keys: each map gives every
  key one of its texts, every such combination occurs, and there are as many maps as
  combinations, in whatever order the runtime visits the keys.\<close>

theorem substitution_maps_product:
  assumes "gomap_ok m"
  shows "map_of ` set (generateSubstitutionMaps sprint m) =
      {g. dom g = fst ` set m \<and> (\<forall>(k, v)\<in>set m. \<exists>t\<in>set (choices sprint v). g k = Some t)}
    \<and> length (generateSubstitutionMaps sprint m) = prod_list (map (\<lambda>(k, v). length (choices sprint v)) m)"
proof
  show "map_of ` set (generateSubstitutionMaps sprint m) =
      {g. dom g = fst ` set m \<and> (\<forall>(k, v)\<in>set m. \<exists>t\<in>set (choices sprint v). g k = Some t)}"
    unfolding generateSubstitutionMaps_def using substitution_fold [OF assms, of "[[]]" sprint] by simp
  have "length (foldl (substitution_step sprint) vmaps m) = prod_list (map (\<lambda>(k, v). length (choices sprint v)) m) * length vmaps" for vmaps
    by (induction m arbitrary: vmaps) (auto simp: substitution_step_length mult_ac)
  then show "length (generateSubstitutionMaps sprint m) = prod_list (map (\<lambda>(k, v). length (choices sprint v)) m)"
    by (simp add: generateSubstitutionMaps_def)
qed

theorem substitution_maps_product_witness:
  "length (generateSubstitutionMaps (\<lambda>_. ''x'') [(''CONTAINER_NAME'', CelList [CelString ''a'', CelString ''b'']), (''Q'', CelString ''q'')]) = 2"
  using substitution_maps_product [of "[(''CONTAINER_NAME'', CelList [CelString ''a'', CelString ''b'']), (''Q'', CelString ''q'')]" "\<lambda>_. ''x''"]
  by (simp add: choices_def)

end
