(* ===== verification/Sink.thy ===== *)
theory Sink
  imports Log_Urls
begin

text \<open>
  \<^verbatim>\<open>cmd/sink\<close>: the last update of an object, writing an object with its log links, and the
  handler of cloud events, which archives an object and, for some event types, deletes it from
  the cluster and writes it again.

  The handler takes the database writer as an argument; what it relies on is the contract
  \<open>archive_writer\<close>, and the PostgreSQL writer is the instance the theorems are stated for.
  Parsing and validating the request, decoding its data, the deletion request and the clock are
  answers of the environment. Metrics and traces are left out but for the result attribute.
\<close>

section \<open>Last update\<close>

text \<open>The latest of the times of the managed fields; an absent time is never later.\<close>

definition GetLastUpdateTs :: "unstructured \<Rightarrow> go_time" where
  "GetLastUpdateTs obj =
     the (foldl (\<lambda>latest elem. if latest = None \<or> time_before latest elem then elem else latest) (Some 0) (u_managedFields obj))"

section \<open>Writing a resource\<close>

type_synonym ('f, 'db) db_write =
  "'f \<Rightarrow> 'db \<Rightarrow> unstructured option \<Rightarrow> json_data \<Rightarrow> go_time \<Rightarrow> logTuple list \<Rightarrow> 'db \<times> writeResourceResult \<times> write_error option"

datatype sink_error = UrlsFailed | WriteFailed write_error

definition writeResource ::
    "('f, 'db) db_write \<Rightarrow> (unstructured \<Rightarrow> unit + logTuple list) option \<Rightarrow> 'f \<Rightarrow> 'db \<Rightarrow> unstructured \<Rightarrow> json_data \<Rightarrow>
      'db \<times> writeResourceResult \<times> sink_error option" where
  "writeResource wr builder flt db obj data =
     (case (case builder of None \<Rightarrow> Inr [] | Some urls \<Rightarrow> urls obj) of
        Inl _ \<Rightarrow> (db, WriteResourceResultError, Some UrlsFailed)
      | Inr logs \<Rightarrow>
          (case wr flt db (Some obj) data (GetLastUpdateTs obj) logs of
             (db', res, Some e) \<Rightarrow> (db', res, Some (WriteFailed e))
           | (db', res, None) \<Rightarrow> (db', res, None)))"

section \<open>The handler\<close>

datatype ceResult = CEResultInsert | CEResultUpdate | CEResultNone | CEResultError | CEResultNoConfiguration

definition NewCEResultFromWriteResourceResult :: "writeResourceResult \<Rightarrow> ceResult" where
  "NewCEResultFromWriteResourceResult r =
     (case r of
        WriteResourceResultInserted \<Rightarrow> CEResultInsert
      | WriteResourceResultUpdated \<Rightarrow> CEResultUpdate
      | WriteResourceResultNone \<Rightarrow> CEResultNone
      | WriteResourceResultError \<Rightarrow> CEResultError)"

record cloud_event =
  ce_type :: string
  ce_valid :: bool
  ce_object :: "(unstructured \<times> json_data) option"

datatype delete_answer = Deleted | DeleteNotFound | DeleteFailed

record 'f sink_env =
  se_builder :: "(unstructured \<Rightarrow> unit + logTuple list) option"
  se_firstWrite :: 'f
  se_secondWrite :: 'f
  se_delete :: "unstructured \<Rightarrow> delete_answer"
  se_now :: go_time

text \<open>The state of the database, the status of the answer, whether a deletion was requested, and
  the metric attribute, \<open>None\<close> when the event is not counted.\<close>

record 'db sink_outcome =
  so_db :: 'db
  so_status :: nat
  so_deleted :: bool
  so_metric :: "ceResult option"

text \<open>The handler from its first write on; \<open>deletes\<close> says that the event type asks for deletion.\<close>

definition archive_object ::
    "('f, 'db) db_write \<Rightarrow> 'f sink_env \<Rightarrow> 'db \<Rightarrow> unstructured \<Rightarrow> json_data \<Rightarrow> bool \<Rightarrow> 'db sink_outcome" where
  "archive_object wr env db obj data deletes =
     (case writeResource wr (se_builder env) (se_firstWrite env) db obj data of
        (db1, res1, Some e) \<Rightarrow> \<lparr>so_db = db1, so_status = 500, so_deleted = False, so_metric = Some CEResultError\<rparr>
      | (db1, res1, None) \<Rightarrow>
          let m1 = NewCEResultFromWriteResourceResult res1
          in if \<not> deletes then \<lparr>so_db = db1, so_status = 202, so_deleted = False, so_metric = Some m1\<rparr>
             else (case se_delete env obj of
                DeleteNotFound \<Rightarrow> \<lparr>so_db = db1, so_status = 202, so_deleted = True, so_metric = Some m1\<rparr>
              | DeleteFailed \<Rightarrow> \<lparr>so_db = db1, so_status = 500, so_deleted = True, so_metric = Some m1\<rparr>
              | Deleted \<Rightarrow>
                  (case writeResource wr (se_builder env) (se_secondWrite env) db1
                          (obj\<lparr>u_deletionTimestamp := Some (se_now env)\<rparr>) data of
                     (db2, res2, Some e) \<Rightarrow> \<lparr>so_db = db2, so_status = 500, so_deleted = True, so_metric = Some m1\<rparr>
                   | (db2, res2, None) \<Rightarrow>
                       \<lparr>so_db = db2, so_status = 202, so_deleted = True,
                        so_metric = Some (NewCEResultFromWriteResourceResult res2)\<rparr>)))"

definition ReceiveCloudEvent ::
    "('f, 'db) db_write \<Rightarrow> 'f sink_env \<Rightarrow> 'db \<Rightarrow> cloud_event option \<Rightarrow> 'db sink_outcome" where
  "ReceiveCloudEvent wr env db event =
     (case event of
        None \<Rightarrow> \<lparr>so_db = db, so_status = 400, so_deleted = False, so_metric = None\<rparr>
      | Some ev \<Rightarrow>
        if \<not> ce_valid ev then \<lparr>so_db = db, so_status = 400, so_deleted = False, so_metric = None\<rparr>
        else (case ce_object ev of
          None \<Rightarrow> \<lparr>so_db = db, so_status = 422, so_deleted = False, so_metric = Some CEResultError\<rparr>
        | Some (obj, data) \<Rightarrow>
          let isDeleteWhen = has_suffix (ce_type ev) ''.delete-when'';
              isArchiveWhen = has_suffix (ce_type ev) ''.archive-when'';
              isArchiveOnDelete = has_suffix (ce_type ev) ''.archive-on-delete'';
              isKeepLastWhenDelete = has_suffix (ce_type ev) ''.keep-last-when-delete''
          in if \<not> isDeleteWhen \<and> \<not> isArchiveWhen \<and> \<not> isArchiveOnDelete \<and> \<not> isKeepLastWhenDelete
             then \<lparr>so_db = db, so_status = 202, so_deleted = False, so_metric = Some CEResultNoConfiguration\<rparr>
             else archive_object wr env db obj data (isDeleteWhen \<or> isKeepLastWhenDelete)))"

definition archiving_type :: "string \<Rightarrow> bool" where
  "archiving_type t \<longleftrightarrow>
     has_suffix t ''.delete-when'' \<or> has_suffix t ''.archive-when'' \<or> has_suffix t ''.archive-on-delete''
     \<or> has_suffix t ''.keep-last-when-delete''"

definition deleting_type :: "string \<Rightarrow> bool" where
  "deleting_type t \<longleftrightarrow> has_suffix t ''.delete-when'' \<or> has_suffix t ''.keep-last-when-delete''"

section \<open>Lemmas\<close>

lemma latest_foldl:
  "foldl (\<lambda>latest elem. if latest = None \<or> time_before latest elem then elem else latest) (Some t) es =
     Some (Max (insert t {x. Some x \<in> set es}))"
proof (induction es arbitrary: t)
  case (Cons e es)
  have fin: "finite {x. Some x \<in> set es}" by (rule finite_subset [of _ "the ` set es"]) force+
  show ?case
  proof (cases e)
    case None
    with Cons show ?thesis by simp
  next
    case (Some x)
    have "{y. Some y \<in> set (e # es)} = insert x {y. Some y \<in> set es}" using Some by auto
    moreover have "Max (insert t (insert x {y. Some y \<in> set es})) = Max (insert (max t x) {y. Some y \<in> set es})"
      using fin by (cases "{y. Some y \<in> set es} = {}") (simp_all add: max.assoc)
    ultimately show ?thesis using Cons Some by (simp add: max_def)
  qed
qed simp

lemma GetLastUpdateTs_deletion [simp]: "GetLastUpdateTs (obj\<lparr>u_deletionTimestamp := d\<rparr>) = GetLastUpdateTs obj"
  by (simp add: GetLastUpdateTs_def)

text \<open>The archive after a write at the instant the entry already has.\<close>

lemma spec_write_again:
  assumes "u_uid obj' = u_uid obj"
  shows "spec_write obj' data' ts (spec_write obj data ts a) = spec_write obj data ts a"
  using assms by (auto simp: spec_write_def split: option.splits)

context archive_writer
begin

lemma writeResource_error:
  "writeResource wr builder flt db obj data = (db', res, Some e) \<Longrightarrow>
     view db' = view db \<or> view db' = spec_write obj data (GetLastUpdateTs obj) (view db)"
  by (auto simp: writeResource_def split: option.splits sum.splits prod.splits dest: atomic)

lemma writeResource_ok:
  "writeResource wr builder flt db obj data = (db', res, None) \<Longrightarrow>
     view db' = spec_write obj data (GetLastUpdateTs obj) (view db)"
  by (auto simp: writeResource_def split: option.splits sum.splits prod.splits dest: refines)

lemma writeResource_keeps:
  "inv db \<Longrightarrow> writeResource wr builder flt db obj data = (db', res, err) \<Longrightarrow> inv db'"
  by (auto simp: writeResource_def split: option.splits sum.splits prod.splits dest: keeps)

text \<open>The handler changes the archive by at most the one write of its object, for every writer
  that keeps the contract. Also an answer with an error can follow a write, whose commit worked but
  was not acknowledged.\<close>

lemma archive_object_view:
  assumes "archive_object wr env db obj data deletes = out"
  shows "(view (so_db out) = view db \<and> so_status out = 500 \<and> \<not> so_deleted out)
    \<or> view (so_db out) = spec_write obj data (GetLastUpdateTs obj) (view db)"
    and "so_deleted out \<Longrightarrow> deletes \<and> view (so_db out) = spec_write obj data (GetLastUpdateTs obj) (view db)"
proof -
  obtain db1 res1 err1 where w1: "writeResource wr (se_builder env) (se_firstWrite env) db obj data = (db1, res1, err1)"
    by (metis prod.exhaust)
  obtain db2 res2 err2 where w2: "writeResource wr (se_builder env) (se_secondWrite env) db1
      (obj\<lparr>u_deletionTimestamp := Some (se_now env)\<rparr>) data = (db2, res2, err2)"
    by (metis prod.exhaust)
  have v1: "view db1 = spec_write obj data (GetLastUpdateTs obj) (view db) \<or> err1 \<noteq> None \<and> view db1 = view db"
    using w1 writeResource_error [of "se_builder env" "se_firstWrite env" db obj data db1 res1]
      writeResource_ok [of "se_builder env" "se_firstWrite env" db obj data db1 res1] by (cases err1) auto
  have v2: "view db2 = view db1" if "err1 = None"
  proof (cases err2)
    case None
    have "view db2 = spec_write (obj\<lparr>u_deletionTimestamp := Some (se_now env)\<rparr>) data (GetLastUpdateTs obj) (view db1)"
      using writeResource_ok [OF w2 [unfolded None]] by simp
    then show ?thesis using v1 that by (simp add: spec_write_again)
  next
    case (Some e)
    from writeResource_error [OF w2 [unfolded Some]] v1 that show ?thesis by (auto simp: spec_write_again)
  qed
  show "(view (so_db out) = view db \<and> so_status out = 500 \<and> \<not> so_deleted out)
    \<or> view (so_db out) = spec_write obj data (GetLastUpdateTs obj) (view db)"
    using assms v1 v2 by (cases err1; cases err2; cases "se_delete env obj")
      (auto simp: archive_object_def w1 w2 Let_def)
  show "so_deleted out \<Longrightarrow> deletes \<and> view (so_db out) = spec_write obj data (GetLastUpdateTs obj) (view db)"
    using assms v1 v2 by (cases err1; cases err2; cases "se_delete env obj")
      (auto simp: archive_object_def w1 w2 Let_def split: if_splits)
qed

lemma archive_object_keeps: "inv db \<Longrightarrow> inv (so_db (archive_object wr env db obj data deletes))"
proof -
  assume db: "inv db"
  obtain db1 res1 err1 where w1: "writeResource wr (se_builder env) (se_firstWrite env) db obj data = (db1, res1, err1)"
    by (metis prod.exhaust)
  obtain db2 res2 err2 where w2: "writeResource wr (se_builder env) (se_secondWrite env) db1
      (obj\<lparr>u_deletionTimestamp := Some (se_now env)\<rparr>) data = (db2, res2, err2)"
    by (metis prod.exhaust)
  from writeResource_keeps [OF db w1] writeResource_keeps [OF _ w2] show ?thesis
    by (cases err1; cases err2; cases "se_delete env obj") (simp_all add: archive_object_def w1 w2 Let_def)
qed

lemma receive_keeps: "inv db \<Longrightarrow> inv (so_db (ReceiveCloudEvent wr env db event))"
  by (simp add: ReceiveCloudEvent_def Let_def archive_object_keeps split: option.split prod.split)

lemma receive_archive:
  "view (so_db (ReceiveCloudEvent wr env db event)) = view db
    \<or> (\<exists>ev obj data. event = Some ev \<and> ce_valid ev \<and> ce_object ev = Some (obj, data) \<and> archiving_type (ce_type ev)
         \<and> view (so_db (ReceiveCloudEvent wr env db event)) = spec_write obj data (GetLastUpdateTs obj) (view db))"
proof (cases event)
  case None
  then show ?thesis by (simp add: ReceiveCloudEvent_def)
next
  case (Some ev)
  show ?thesis
  proof (cases "ce_valid ev \<and> ce_object ev \<noteq> None \<and> archiving_type (ce_type ev)")
    case True
    then obtain obj data where o1: "ce_object ev = Some (obj, data)" by auto
    with True Some have eq: "ReceiveCloudEvent wr env db event = archive_object wr env db obj data (deleting_type (ce_type ev))"
      by (auto simp: ReceiveCloudEvent_def archiving_type_def deleting_type_def Let_def)
    from archive_object_view(1) [OF eq [symmetric]] True Some o1 show ?thesis by blast
  next
    case False
    with Some show ?thesis by (auto simp: ReceiveCloudEvent_def archiving_type_def Let_def split: option.split)
  qed
qed

lemma receive_accepted:
  assumes "so_status (ReceiveCloudEvent wr env db (Some ev)) = 202" and "ce_valid ev"
    and "ce_object ev = Some (obj, data)" and "archiving_type (ce_type ev)"
  shows "view (so_db (ReceiveCloudEvent wr env db (Some ev))) = spec_write obj data (GetLastUpdateTs obj) (view db)"
proof -
  have eq: "ReceiveCloudEvent wr env db (Some ev) = archive_object wr env db obj data (deleting_type (ce_type ev))"
    using assms(2-4) by (auto simp: ReceiveCloudEvent_def archiving_type_def deleting_type_def Let_def)
  from archive_object_view(1) [OF eq [symmetric]] assms(1) show ?thesis by simp
qed

lemma receive_deletes_archived:
  assumes "so_deleted (ReceiveCloudEvent wr env db event)"
  shows "\<exists>ev obj data. event = Some ev \<and> ce_object ev = Some (obj, data) \<and> deleting_type (ce_type ev)
    \<and> view (so_db (ReceiveCloudEvent wr env db event)) = spec_write obj data (GetLastUpdateTs obj) (view db)"
proof -
  from assms obtain ev where ev: "event = Some ev" by (cases event) (auto simp: ReceiveCloudEvent_def)
  with assms obtain obj data where o1: "ce_object ev = Some (obj, data)" "ce_valid ev"
    by (cases "ce_object ev") (auto simp: ReceiveCloudEvent_def split: if_splits)
  with assms ev have "archiving_type (ce_type ev)"
    by (auto simp: ReceiveCloudEvent_def archiving_type_def Let_def split: if_splits)
  with o1 ev have eq: "ReceiveCloudEvent wr env db event = archive_object wr env db obj data (deleting_type (ce_type ev))"
    by (auto simp: ReceiveCloudEvent_def archiving_type_def deleting_type_def Let_def)
  from archive_object_view(2) [OF eq [symmetric] assms] ev o1 show ?thesis by blast
qed

end

section \<open>Properties\<close>

lemma spec_write_entry: "\<exists>e. spec_write obj data ts a (u_uid obj) = Some e \<and> ts \<le> en_updated e"
  by (auto simp: spec_write_def split: option.splits)

definition sample_sink :: "delete_answer \<Rightarrow> write_faults sink_env" where
  "sample_sink ans = \<lparr>se_builder = None, se_firstWrite = sample_faults, se_secondWrite = sample_faults,
     se_delete = (\<lambda>_. ans), se_now = 99\<rparr>"

definition sample_event :: "string \<Rightarrow> cloud_event" where
  "sample_event t = \<lparr>ce_type = t, ce_valid = True, ce_object = Some (sample_obj ''Job'' ''j'' ''u1'' 10, sample_json)\<rparr>"

lemma sample_write:
  "writeResource WriteResource None sample_faults db obj data =
     (written obj data (GetLastUpdateTs obj) [] db,
      if snd (upsert obj data (GetLastUpdateTs obj) db) = Some True then WriteResourceResultInserted else WriteResourceResultUpdated, None)"
  by (simp add: writeResource_def WriteResource_ok [OF no_fault_sample])

text \<open>C1: whenever the handler asks the cluster to delete an object, the object is archived: its
  event type asks for a deletion, and the archive holds an entry of its UUID that is at least as
  recent as the object, whatever happens to the deletion and to the second write.\<close>

theorem archived_before_deleted:
  assumes "so_deleted (ReceiveCloudEvent WriteResource env db event)"
  shows "\<exists>ev obj data e. event = Some ev \<and> ce_object ev = Some (obj, data) \<and> deleting_type (ce_type ev)
    \<and> archive_of (so_db (ReceiveCloudEvent WriteResource env db event)) (u_uid obj) = Some e
    \<and> GetLastUpdateTs obj \<le> en_updated e"
  using pg.receive_deletes_archived [OF assms] spec_write_entry by fastforce

theorem archived_before_deleted_witness:
  "\<exists>ev obj data e. Some (sample_event ''a.delete-when'') = Some ev \<and> ce_object ev = Some (obj, data) \<and> deleting_type (ce_type ev)
    \<and> archive_of (so_db (ReceiveCloudEvent WriteResource (sample_sink DeleteFailed) empty_db (Some (sample_event ''a.delete-when'')))) (u_uid obj) = Some e
    \<and> GetLastUpdateTs obj \<le> en_updated e"
  by (rule archived_before_deleted)
     (simp add: ReceiveCloudEvent_def sample_event_def go_simps archive_object_def sample_sink_def sample_write)

text \<open>C10: an event of an archiving type that is answered with 202 has its object archived, as one
  step of the archive specification; an accepted event is never lost.\<close>

theorem accepted_means_archived:
  assumes "so_status (ReceiveCloudEvent WriteResource env db (Some ev)) = 202" and "ce_valid ev"
    and "ce_object ev = Some (obj, data)" and "archiving_type (ce_type ev)"
  shows "archive_of (so_db (ReceiveCloudEvent WriteResource env db (Some ev))) =
    spec_write obj data (GetLastUpdateTs obj) (archive_of db)"
  by (rule pg.receive_accepted [OF assms])

theorem accepted_means_archived_witness:
  "archive_of (so_db (ReceiveCloudEvent WriteResource (sample_sink Deleted) empty_db (Some (sample_event ''a.archive-when'')))) =
     spec_write (sample_obj ''Job'' ''j'' ''u1'' 10) sample_json (GetLastUpdateTs (sample_obj ''Job'' ''j'' ''u1'' 10)) (archive_of empty_db)"
  by (rule accepted_means_archived)
     (simp_all add: ReceiveCloudEvent_def sample_event_def go_simps archive_object_def sample_sink_def sample_write archiving_type_def)

text \<open>An object that is archived for the first time and deleted from the cluster by the same
  event is stored without a deletion time: the second write carries the same update time as the
  first and does not replace it.\<close>

theorem deletion_time_not_stored:
  assumes "so_deleted (ReceiveCloudEvent WriteResource env db (Some ev))" and "ce_object ev = Some (obj, data)"
    and "archive_of db (u_uid obj) = None" and "u_deletionTimestamp obj = None"
  shows "\<exists>e. archive_of (so_db (ReceiveCloudEvent WriteResource env db (Some ev))) (u_uid obj) = Some e \<and> en_deleted e = None"
proof -
  have "archive_of (so_db (ReceiveCloudEvent WriteResource env db (Some ev))) = spec_write obj data (GetLastUpdateTs obj) (archive_of db)"
    using pg.receive_deletes_archived [OF assms(1)] assms(2) by auto
  with assms(3,4) show ?thesis by (simp add: spec_write_def new_entry_def)
qed

theorem deletion_time_not_stored_witness:
  "\<exists>e. archive_of (so_db (ReceiveCloudEvent WriteResource (sample_sink Deleted) empty_db (Some (sample_event ''a.delete-when'')))) ''u1'' = Some e
     \<and> en_deleted e = None"
proof -
  have "so_deleted (ReceiveCloudEvent WriteResource (sample_sink Deleted) empty_db (Some (sample_event ''a.delete-when'')))"
    by (simp add: ReceiveCloudEvent_def sample_event_def go_simps archive_object_def sample_sink_def sample_write)
  from deletion_time_not_stored [OF this, of "sample_obj ''Job'' ''j'' ''u1'' 10" sample_json] show ?thesis
    by (simp add: sample_event_def archive_of_def empty_db_def find_uuid_def)
qed

text \<open>The last update of an object is the latest of the times of its managed fields, and the
  zero time when there is none.\<close>

theorem last_update_is_latest:
  "GetLastUpdateTs obj = Max (insert 0 {t. Some t \<in> set (u_managedFields obj)})"
  by (simp add: GetLastUpdateTs_def latest_foldl)

end
