(* ===== verification/Vacuum_Delivery.thy ===== *)
theory Vacuum_Delivery
  imports Vacuum Sink
begin

text \<open>
  A vacuum run together with the sink that receives its events: what is deleted from the cluster in
  the end, and what the archive holds of it.
\<close>

section \<open>Definitions\<close>

text \<open>An event of the vacuum as the sink receives it; \<open>json\<close> gives the stored view of an object.\<close>

definition vacuum_received :: "(unstructured \<Rightarrow> json_data) \<Rightarrow> vac_event \<Rightarrow> cloud_event" where
  "vacuum_received json ev = \<lparr>ce_type = ev_type ev, ce_valid = True, ce_object = Some (ev_item ev, json (ev_item ev))\<rparr>"

text \<open>The events are delivered in order, each to a sink whose calls may fail in their own way; the outcome of each is returned.\<close>

fun deliver_all ::
    "(unstructured \<Rightarrow> json_data) \<Rightarrow> db_state \<Rightarrow> (vac_event \<times> write_faults sink_env) list
      \<Rightarrow> (vac_event \<times> db_state sink_outcome) list" where
  "deliver_all json db [] = []"
| "deliver_all json db ((ev, env) # xs) =
     (let out = ReceiveCloudEvent WriteResource env db (Some (vacuum_received json ev))
      in (ev, out) # deliver_all json (so_db out) xs)"

definition final_db :: "db_state \<Rightarrow> (vac_event \<times> db_state sink_outcome) list \<Rightarrow> db_state" where
  "final_db db outs = (if outs = [] then db else so_db (snd (last outs)))"

section \<open>The types of the events\<close>

definition vacuum_types :: "string \<Rightarrow> string set" where
  "vacuum_types pre = {pre @ ''.keep-last-when-delete'', pre @ ''.archive-when''}"

definition typed :: "string \<Rightarrow> vac_event list \<Rightarrow> bool" where
  "typed pre evs \<longleftrightarrow> ev_type ` set evs \<subseteq> vacuum_types pre"

lemma typed_simps [simp]:
  "typed pre []"
  "typed pre (evs @ evs') \<longleftrightarrow> typed pre evs \<and> typed pre evs'"
  "typed pre [\<lparr>ev_type = pre @ ''.keep-last-when-delete'', ev_namespace = ns, ev_name = n, ev_item = obj\<rparr>]"
  "typed pre [\<lparr>ev_type = pre @ ''.archive-when'', ev_namespace = ns, ev_name = n, ev_item = obj\<rparr>]"
  by (auto simp: typed_def vacuum_types_def)

lemma keep_in_bucket_typed:
  "keep_in_bucket pre k item all evs = Inr (k', all', evs') \<Longrightarrow> typed pre evs \<Longrightarrow> typed pre evs'"
  by (auto simp: keep_in_bucket_def drop_resource_def Let_def split: if_splits option.splits)

lemma process_keepers_typed:
  "process_keepers eval pre item ks all evs = Inr (ks', all', evs') \<Longrightarrow> typed pre evs \<Longrightarrow> typed pre evs'"
proof (induction ks arbitrary: ks' all evs)
  case (Cons k ks)
  then show ?case
    by (auto split: if_splits sum.splits prod.splits dest: keep_in_bucket_typed)
qed simp

lemma process_item_typed:
  assumes "process_item eval archive pre ns (ks, all, evs) item = Inr (ks', all', evs')" "typed pre evs"
  shows "typed pre evs'"
proof -
  from assms(1) obtain ks1 all1 evs1 where p: "process_keepers eval pre item ks all evs = Inr (ks1, all1, evs1)"
    by (auto simp: process_item_def split: sum.splits)
  from process_keepers_typed [OF p assms(2)] assms(1) show ?thesis
    by (auto simp: process_item_def p split: if_splits)
qed

lemma process_items_typed:
  "process_items eval archive pre ns st items = Inr (ks', all', evs') \<Longrightarrow> typed pre (snd (snd st)) \<Longrightarrow> typed pre evs'"
proof (induction items arbitrary: st)
  case (Cons x xs)
  obtain ks all evs where "st = (ks, all, evs)" by (metis prod.exhaust)
  with Cons show ?case by (auto split: sum.splits dest: process_item_typed)
qed simp

lemma sent_typed: "sendByAPIVersionKind eval vcep pre ns avk = Inr evs \<Longrightarrow> typed pre evs"
  by (auto simp: sendByAPIVersionKind_def Let_def split: option.splits sum.splits dest: process_items_typed)

lemma deleting_typed:
  "ev_type ev \<in> vacuum_types pre \<Longrightarrow> deleting_type (ev_type ev) \<longleftrightarrow> ev_type ev = pre @ ''.keep-last-when-delete''"
  by (auto simp: vacuum_types_def deleting_type_def go_simps)

lemma archiving_typed: "ev_type ev \<in> vacuum_types pre \<Longrightarrow> archiving_type (ev_type ev)"
  by (auto simp: vacuum_types_def archiving_type_def go_simps)

section \<open>Deliveries\<close>

text \<open>The archive holds the object in a version that is not older.\<close>

definition holds :: "unstructured \<Rightarrow> db_state \<Rightarrow> bool" where
  "holds obj db \<longleftrightarrow> (\<exists>e. archive_of db (u_uid obj) = Some e \<and> GetLastUpdateTs obj \<le> en_updated e)"

lemma spec_write_grows:
  "a u = Some e \<Longrightarrow> \<exists>e'. spec_write obj data ts a u = Some e' \<and> en_updated e \<le> en_updated e'"
  by (auto simp: spec_write_def split: option.splits)

lemma receive_grows: "holds obj db \<Longrightarrow> holds obj (so_db (ReceiveCloudEvent WriteResource env db event))"
  using pg.receive_archive [of env db event] unfolding holds_def
proof (elim disjE exE conjE)
  fix e ev obj' data
  assume e: "archive_of db (u_uid obj) = Some e" "GetLastUpdateTs obj \<le> en_updated e"
    and w: "archive_of (so_db (ReceiveCloudEvent WriteResource env db event)) = spec_write obj' data (GetLastUpdateTs obj') (archive_of db)"
  from spec_write_grows [where a = "archive_of db", OF e(1)] e(2) show "\<exists>e. archive_of (so_db (ReceiveCloudEvent WriteResource env db event)) (u_uid obj) = Some e \<and> GetLastUpdateTs obj \<le> en_updated e"
    unfolding w by (meson order_trans)
qed simp

lemma deliver_grows: "holds obj db \<Longrightarrow> holds obj (final_db db (deliver_all json db xs))"
proof (induction json db xs rule: deliver_all.induct)
  case (2 json db ev env xs)
  then show ?case by (cases xs) (auto simp: final_db_def Let_def receive_grows)
qed (simp add: final_db_def)

lemma deliver_events: "map fst (deliver_all json db xs) = map fst xs"
  by (induction json db xs rule: deliver_all.induct) (simp_all add: Let_def)

lemma final_db_Cons:
  "final_db db ((ev, out) # deliver_all json (so_db out) xs) = final_db (so_db out) (deliver_all json (so_db out) xs)"
  by (auto simp: final_db_def)

lemma receive_holds:
  assumes "so_deleted (ReceiveCloudEvent WriteResource env db (Some (vacuum_received json ev)))"
  shows "deleting_type (ev_type ev) \<and> holds (ev_item ev) (so_db (ReceiveCloudEvent WriteResource env db (Some (vacuum_received json ev))))"
  using pg.receive_deletes_archived [OF assms] by (auto simp: vacuum_received_def holds_def spec_write_entry)

lemma deliver_deletes:
  assumes "(ev, out) \<in> set (deliver_all json db xs)" "so_deleted out"
  shows "deleting_type (ev_type ev) \<and> holds (ev_item ev) (final_db db (deliver_all json db xs))"
  using assms
proof (induction json db xs rule: deliver_all.induct)
  case (2 json db e env xs)
  let ?out = "ReceiveCloudEvent WriteResource env db (Some (vacuum_received json e))"
  have f: "final_db db (deliver_all json db ((e, env) # xs)) = final_db (so_db ?out) (deliver_all json (so_db ?out) xs)"
    by (simp add: Let_def final_db_Cons)
  show ?case
  proof (cases "ev = e \<and> out = ?out")
    case True
    with 2(3) have "so_deleted ?out" by simp
    from receive_holds [OF this] True show ?thesis unfolding f by (simp add: deliver_grows)
  next
    case False
    with 2(2) have "(ev, out) \<in> set (deliver_all json (so_db ?out) xs)" by (auto simp: Let_def)
    with 2(1) [OF refl this] 2(3-) show ?thesis unfolding f by simp
  qed
qed simp

text \<open>An accepted delivery of a deleting event asks the cluster for the deletion.\<close>

lemma accepted_deletes: "so_status (archive_object wr env db obj data True) = 202 \<Longrightarrow> so_deleted (archive_object wr env db obj data True)"
proof -
  obtain db1 res1 err1 where w: "writeResource wr (se_builder env) (se_firstWrite env) db obj data = (db1, res1, err1)" by (metis prod.exhaust)
  show "so_status (archive_object wr env db obj data True) = 202 \<Longrightarrow> so_deleted (archive_object wr env db obj data True)"
    by (cases err1; cases "se_delete env obj") (auto simp: archive_object_def w Let_def split: prod.split option.split)
qed

lemma receive_accepted_deletes:
  assumes "so_status (ReceiveCloudEvent WriteResource env db (Some (vacuum_received json ev))) = 202" "deleting_type (ev_type ev)"
  shows "so_deleted (ReceiveCloudEvent WriteResource env db (Some (vacuum_received json ev)))"
proof -
  have "ReceiveCloudEvent WriteResource env db (Some (vacuum_received json ev)) = archive_object WriteResource env db (ev_item ev) (json (ev_item ev)) True"
    using assms(2) by (auto simp: ReceiveCloudEvent_def vacuum_received_def deleting_type_def Let_def)
  with assms(1) accepted_deletes show ?thesis by simp
qed

lemma deliver_accepted:
  "(ev, out) \<in> set (deliver_all json db xs) \<Longrightarrow> so_status out = 202 \<Longrightarrow> deleting_type (ev_type ev) \<Longrightarrow> so_deleted out"
  by (induction json db xs rule: deliver_all.induct) (auto simp: Let_def receive_accepted_deletes)

lemma deliver_archived:
  assumes "(ev, out) \<in> set (deliver_all json db xs)" "so_status out = 202" "archiving_type (ev_type ev)"
  shows "holds (ev_item ev) (final_db db (deliver_all json db xs))"
  using assms
proof (induction json db xs rule: deliver_all.induct)
  case (2 json db e env xs)
  let ?out = "ReceiveCloudEvent WriteResource env db (Some (vacuum_received json e))"
  have f: "final_db db (deliver_all json db ((e, env) # xs)) = final_db (so_db ?out) (deliver_all json (so_db ?out) xs)"
    by (simp add: Let_def final_db_Cons)
  show ?case
  proof (cases "ev = e \<and> out = ?out")
    case True
    with 2(3,4) have "so_status ?out = 202" "archiving_type (ce_type (vacuum_received json e))" by (simp_all add: vacuum_received_def)
    then have "archive_of (so_db ?out) = spec_write (ev_item e) (json (ev_item e)) (GetLastUpdateTs (ev_item e)) (archive_of db)"
      by (intro pg.receive_accepted) (simp_all add: vacuum_received_def)
    then have "holds (ev_item e) (so_db ?out)" unfolding holds_def using spec_write_entry by metis
    with True show ?thesis unfolding f by (simp add: deliver_grows)
  next
    case False
    with 2(2) have "(ev, out) \<in> set (deliver_all json (so_db ?out) xs)" by (auto simp: Let_def)
    with 2(1) [OF refl this] 2(3-) show ?thesis unfolding f by simp
  qed
qed simp

section \<open>Properties\<close>

text \<open>The resources of a list that some rule matches and no rule holds in its bucket after the last resource.\<close>

definition surplus :: "'p cel_eval \<Rightarrow> 'p keepLastWhenRule list \<Rightarrow> unstructured list \<Rightarrow> string set" where
  "surplus eval rules items =
     {u_uid (snd p) |p. p \<in> set (enumerate 0 items)
        \<and> (\<exists>r\<in>set rules. rule_matches eval r (snd p))
        \<and> \<not> (\<exists>r\<in>set rules. u_uid (snd p) \<in> (\<lambda>q. u_uid (snd q)) ` set (rule_kept eval r (enumerate 0 items)))}"

definition deleted_by :: "(vac_event \<times> db_state sink_outcome) list \<Rightarrow> string set" where
  "deleted_by outs = {u_uid (ev_item ev) |ev out. (ev, out) \<in> set outs \<and> so_deleted out}"

text \<open>C5: when the events of a vacuum run are delivered to the sink, whatever calls of the sinks fail,
  the cluster is asked only for deletions of resources that are surplus under the rules, and each
  of these is archived in the end in a version that is not older; no resource that a rule holds is
  ever deleted. When every delivery is accepted, all surplus resources are deleted, and the object
  of every event is archived.\<close>

theorem vacuumed_resources_archived:
  assumes "getGVR (vp_restMapping vcep) avk = Some gvr" and "vp_listItems vcep gvr ns = Some items"
    and "distinct (map u_uid items)" and "\<forall>r\<in>set (rules_for vcep ns avk). 0 \<le> klr_Count r"
  shows "\<exists>evs. sendByAPIVersionKind eval vcep pre ns avk = Inr evs
    \<and> (\<forall>envs json db. length envs = length evs \<longrightarrow>
         deleted_by (deliver_all json db (zip evs envs)) \<subseteq> surplus eval (rules_for vcep ns avk) items
       \<and> (\<forall>(ev, out)\<in>set (deliver_all json db (zip evs envs)).
            so_deleted out \<longrightarrow> holds (ev_item ev) (final_db db (deliver_all json db (zip evs envs))))
       \<and> ((\<forall>(ev, out)\<in>set (deliver_all json db (zip evs envs)). so_status out = 202) \<longrightarrow>
            deleted_by (deliver_all json db (zip evs envs)) = surplus eval (rules_for vcep ns avk) items
          \<and> (\<forall>ev\<in>set evs. holds (ev_item ev) (final_db db (deliver_all json db (zip evs envs))))))"
proof -
  obtain evs where evs: "sendByAPIVersionKind eval vcep pre ns avk = Inr evs"
    and del: "set (deleted_uids pre evs) = surplus eval (rules_for vcep ns avk) items"
    using vacuum_run_deletes [OF assms] unfolding surplus_def by blast
  have types: "ev_type ev \<in> vacuum_types pre" if "ev \<in> set evs" for ev
    using sent_typed [OF evs] that by (auto simp: typed_def)
  show ?thesis
  proof (intro exI conjI allI impI)
    show "sendByAPIVersionKind eval vcep pre ns avk = Inr evs" by (rule evs)
  next
    fix envs :: "write_faults sink_env list" and json db
    assume len: "length envs = length evs"
    let ?outs = "deliver_all json db (zip evs envs)"
    have ev: "map fst ?outs = evs" using len by (simp add: deliver_events)
    have mem: "ev \<in> set evs" if "(ev, out) \<in> set ?outs" for ev out using that ev by (metis fst_conv image_eqI list.set_map)
    have mem': "\<exists>out. (ev, out) \<in> set ?outs" if "ev \<in> set evs" for ev using that ev by (metis (no_types) imageE list.set_map prod.collapse)
    have uids: "u \<in> set (deleted_uids pre evs) \<longleftrightarrow> (\<exists>ev\<in>set evs. deleting_type (ev_type ev) \<and> u = u_uid (ev_item ev))" for u
      using types deleting_typed by (auto simp: deleted_uids_def delete_events_def)
    show sub: "deleted_by ?outs \<subseteq> surplus eval (rules_for vcep ns avk) items"
      unfolding del [symmetric] using mem deliver_deletes by (fastforce simp: deleted_by_def uids)
    show "\<forall>(ev, out)\<in>set ?outs. so_deleted out \<longrightarrow> holds (ev_item ev) (final_db db ?outs)" using deliver_deletes by fast
    assume ok: "\<forall>(ev, out)\<in>set ?outs. so_status out = 202"
    have "surplus eval (rules_for vcep ns avk) items \<subseteq> deleted_by ?outs"
      unfolding del [symmetric] deleted_by_def using mem' ok deliver_accepted by (fastforce simp: uids)
    with sub show "deleted_by ?outs = surplus eval (rules_for vcep ns avk) items" by blast
    show "\<forall>ev\<in>set evs. holds (ev_item ev) (final_db db ?outs)"
      using mem' ok types archiving_typed deliver_archived by fast
  qed
qed

theorem vacuumed_resources_archived_witness:
  "\<exists>evs. sendByAPIVersionKind (\<lambda>_ _. CelBool True) sample_publisher ''p'' ''ns'' \<lparr>avk_Kind = ''Pod'', avk_APIVersion = ''v1''\<rparr> = Inr evs
     \<and> deleted_by (deliver_all (\<lambda>_. sample_json) empty_db (zip evs (replicate (length evs) (sample_sink Deleted))))
         \<subseteq> surplus (\<lambda>_ _. CelBool True) [sample_rule ''r'' ''true'' 1]
             [sample_obj ''Pod'' ''old'' ''u1'' 10, sample_obj ''Pod'' ''new'' ''u2'' 20]"
proof -
  let ?avk = "\<lparr>avk_Kind = ''Pod'', avk_APIVersion = ''v1''\<rparr>"
  let ?items = "[sample_obj ''Pod'' ''old'' ''u1'' 10, sample_obj ''Pod'' ''new'' ''u2'' 20]"
  have h: "getGVR (vp_restMapping sample_publisher) ?avk = Some ()" "vp_listItems sample_publisher () ''ns'' = Some ?items"
    "distinct (map u_uid ?items)" "\<forall>r\<in>set (rules_for sample_publisher ''ns'' ?avk). 0 \<le> klr_Count r"
    unfolding sample_rules by (simp_all add: sample_publisher_def getGVR_def sample_obj_def sample_rule_def)
  obtain evs where e: "sendByAPIVersionKind (\<lambda>_ _. CelBool True) sample_publisher ''p'' ''ns'' ?avk = Inr evs"
    and d: "length envs = length evs \<Longrightarrow> deleted_by (deliver_all json db (zip evs envs)) \<subseteq> surplus (\<lambda>_ _. CelBool True) [sample_rule ''r'' ''true'' 1] ?items"
    for envs json db
    using vacuumed_resources_archived [OF h, of "\<lambda>_ _. CelBool True" "''p''"] unfolding sample_rules by blast
  from d [of "replicate (length evs) (sample_sink Deleted)"] e show ?thesis by simp
qed

end
