(* ===== verification/Rbac.thy ===== *)
theory Rbac
  imports Kube_Types "HOL-Library.Product_Lexorder"
begin

text \<open>
  \<^verbatim>\<open>cmd/operator/internal/controller/common.go\<close>: the roles, bindings, subjects and policy rules
  that the operator's controllers compute.

  The REST mapper is a library: \<open>mapping group kind version\<close> is the answer of
  \<^verbatim>\<open>RESTMapping\<close>, \<open>None\<close> for an error. The permissions a list of rules grants are
  those of the documented semantics of RBAC: some rule names the API group, the resource and
  the verb.
\<close>

section \<open>Data\<close>

record policyRule =
  pr_APIGroups :: "string list"
  pr_Resources :: "string list"
  pr_Verbs :: "string list"

record subject =
  sb_Kind :: string
  sb_Name :: string
  sb_Namespace :: string

record roleRef =
  rr_APIGroup :: string
  rr_Kind :: string
  rr_Name :: string

record rbac_role =
  ro_Name :: string
  ro_Namespace :: string
  ro_Owner :: "(string \<times> string) option"
  ro_Rules :: "policyRule list"

record rbac_binding =
  rb_Name :: string
  rb_Namespace :: string
  rb_Owner :: "(string \<times> string) option"
  rb_RoleRef :: roleRef
  rb_Subjects :: "subject list"

record serviceAccount =
  sa_Name :: string
  sa_Namespace :: string
  sa_Owner :: "(string \<times> string) option"

record gvr =
  gvr_Group :: string
  gvr_Version :: string
  gvr_Resource :: string

type_synonym rest_mapping = "string \<Rightarrow> string \<Rightarrow> string \<Rightarrow> gvr option"

section \<open>Desired objects\<close>

definition resourceFinalizerName :: string where
  "resourceFinalizerName = ''kubearchive.org/finalizer''"

definition desiredClusterRole :: "string \<Rightarrow> policyRule list \<Rightarrow> rbac_role" where
  "desiredClusterRole name rules = \<lparr>ro_Name = name, ro_Namespace = [], ro_Owner = None, ro_Rules = rules\<rparr>"

definition desiredClusterRoleBinding :: "string \<Rightarrow> string \<Rightarrow> subject list \<Rightarrow> rbac_binding" where
  "desiredClusterRoleBinding name kind subjects =
     \<lparr>rb_Name = name, rb_Namespace = [], rb_Owner = None,
      rb_RoleRef = \<lparr>rr_APIGroup = ''rbac.authorization.k8s.io'', rr_Kind = kind, rr_Name = name\<rparr>,
      rb_Subjects = subjects\<rparr>"

definition newSubject :: "string \<Rightarrow> string \<Rightarrow> subject" where
  "newSubject namespace name = \<lparr>sb_Kind = ''ServiceAccount'', sb_Name = name, sb_Namespace = namespace\<rparr>"

definition desiredServiceAccount :: "string \<Rightarrow> string \<Rightarrow> serviceAccount" where
  "desiredServiceAccount namespace name = \<lparr>sa_Name = name, sa_Namespace = namespace, sa_Owner = None\<rparr>"

section \<open>Policy rules\<close>

text \<open>Group and version as \<^verbatim>\<open>createPolicyRules\<close> reads them from an API version.\<close>

definition rule_gv :: "string \<Rightarrow> string \<times> string" where
  "rule_gv apiVersion =
     (let data = split_on CHR ''/'' apiVersion
      in if 1 < length data then (data ! 0, data ! 1) else ([], apiVersion))"

definition add_group_resource ::
    "rest_mapping \<Rightarrow> (string, string list) gomap \<Rightarrow> apiVersionKind \<Rightarrow> (string, string list) gomap" where
  "add_group_resource mapping groups res =
     (case rule_gv (avk_APIVersion res) of (apiGroup, apiVersion) \<Rightarrow>
        (case mapping apiGroup (avk_Kind res) apiVersion of
           None \<Rightarrow> groups
         | Some g \<Rightarrow> gomap_set groups apiGroup (gomap_get0 [] groups apiGroup @ [to_lower (gvr_Resource g)])))"

definition createPolicyRules ::
    "rest_mapping \<Rightarrow> apiVersionKind list \<Rightarrow> string list \<Rightarrow> policyRule list" where
  "createPolicyRules mapping resources verbs =
     map (\<lambda>(group, resList). \<lparr>pr_APIGroups = [group], pr_Resources = resList, pr_Verbs = verbs\<rparr>)
       (foldl (add_group_resource mapping) [] resources)"

text \<open>
  \<^verbatim>\<open>comparePolicyRules\<close> compares the three slices in turn, each lexicographically: the order of the
  triples below. Only equal rules compare as equal, so \<^verbatim>\<open>slices.SortFunc\<close> has one result.
\<close>

definition rule_key :: "policyRule \<Rightarrow> string list \<times> string list \<times> string list" where
  "rule_key r = (pr_APIGroups r, pr_Resources r, pr_Verbs r)"

definition slices_compare :: "'a::linorder list \<Rightarrow> 'a list \<Rightarrow> int" where
  "slices_compare xs ys = (if xs < ys then -1 else if ys < xs then 1 else 0)"

definition comparePolicyRules :: "policyRule \<Rightarrow> policyRule \<Rightarrow> int" where
  "comparePolicyRules a b =
     (if slices_compare (pr_APIGroups a) (pr_APIGroups b) \<noteq> 0 then slices_compare (pr_APIGroups a) (pr_APIGroups b)
      else if slices_compare (pr_Resources a) (pr_Resources b) \<noteq> 0 then slices_compare (pr_Resources a) (pr_Resources b)
      else slices_compare (pr_Verbs a) (pr_Verbs b))"

fun insert_cmp :: "('a \<Rightarrow> 'a \<Rightarrow> int) \<Rightarrow> 'a \<Rightarrow> 'a list \<Rightarrow> 'a list" where
  "insert_cmp cmp x [] = [x]"
| "insert_cmp cmp x (y # ys) = (if cmp x y \<le> 0 then x # y # ys else y # insert_cmp cmp x ys)"

definition sortFunc :: "('a \<Rightarrow> 'a \<Rightarrow> int) \<Rightarrow> 'a list \<Rightarrow> 'a list" where
  "sortFunc cmp xs = foldr (insert_cmp cmp) xs []"

definition sort_rule :: "policyRule \<Rightarrow> policyRule" where
  "sort_rule r = \<lparr>pr_APIGroups = sort (pr_APIGroups r), pr_Resources = sort (pr_Resources r), pr_Verbs = sort (pr_Verbs r)\<rparr>"

text \<open>
  The copies share the inner slices with the arguments, so sorting them sorts the slices of
  the arguments: the function returns its answer and the two arguments as it leaves them.
\<close>

definition equalPolicyRules ::
    "policyRule list \<Rightarrow> policyRule list \<Rightarrow> bool \<times> policyRule list \<times> policyRule list" where
  "equalPolicyRules a b =
     (if length a \<noteq> length b then (False, a, b)
      else let a' = map sort_rule a; b' = map sort_rule b;
               aCopy = sortFunc comparePolicyRules a'; bCopy = sortFunc comparePolicyRules b'
           in (list_all2 (\<lambda>x y. pr_APIGroups x = pr_APIGroups y \<and> pr_Resources x = pr_Resources y \<and> pr_Verbs x = pr_Verbs y)
                 aCopy bCopy, a', b'))"

section \<open>Subjects\<close>

definition subject_set :: "subject list \<Rightarrow> (subject, unit) gomap" where
  "subject_set subjects = foldl (\<lambda>m s. gomap_set m s ()) [] subjects"

definition removeSubjects :: "subject list \<Rightarrow> subject list \<Rightarrow> subject list" where
  "removeSubjects subjects removals =
     filter (\<lambda>s. gomap_get (subject_set removals) s = None) subjects"

definition mergeSubjects :: "subject list \<Rightarrow> subject list \<Rightarrow> subject list" where
  "mergeSubjects s1 s2 = gomap_keys (foldl (\<lambda>m s. gomap_set m s ()) (subject_set s1) s2)"

section \<open>What rules allow\<close>

definition allows :: "policyRule list \<Rightarrow> string \<Rightarrow> string \<Rightarrow> string \<Rightarrow> bool" where
  "allows rules grp resource verb \<longleftrightarrow>
     (\<exists>r\<in>set rules. grp \<in> set (pr_APIGroups r) \<and> resource \<in> set (pr_Resources r) \<and> verb \<in> set (pr_Verbs r))"

lemma groups_get:
  "gomap_get0 [] (foldl (add_group_resource mapping) groups resources) g =
     gomap_get0 [] groups g
     @ concat (map (\<lambda>r. if fst (rule_gv (avk_APIVersion r)) = g
                        then (case mapping g (avk_Kind r) (snd (rule_gv (avk_APIVersion r))) of
                                None \<Rightarrow> [] | Some x \<Rightarrow> [to_lower (gvr_Resource x)])
                        else []) resources)"
proof (induction resources arbitrary: groups)
  case (Cons r rs)
  have "gomap_get0 [] (add_group_resource mapping groups r) g =
      gomap_get0 [] groups g
      @ (if fst (rule_gv (avk_APIVersion r)) = g
         then (case mapping g (avk_Kind r) (snd (rule_gv (avk_APIVersion r))) of
                 None \<Rightarrow> [] | Some x \<Rightarrow> [to_lower (gvr_Resource x)])
         else [])"
    by (auto simp: add_group_resource_def split: prod.split option.split)
  then show ?case by (simp add: Cons.IH)
qed simp

lemma groups_ok: "gomap_ok groups \<Longrightarrow> gomap_ok (foldl (add_group_resource mapping) groups resources)"
  by (induction resources arbitrary: groups)
    (auto simp: add_group_resource_def split: prod.split option.split)

lemma allows_createPolicyRules:
  "allows (createPolicyRules mapping resources verbs) g res v \<longleftrightarrow>
     v \<in> set verbs
     \<and> (\<exists>r\<in>set resources. fst (rule_gv (avk_APIVersion r)) = g
          \<and> map_option (to_lower \<circ> gvr_Resource) (mapping g (avk_Kind r) (snd (rule_gv (avk_APIVersion r)))) = Some res)"
proof -
  let ?m = "foldl (add_group_resource mapping) [] resources"
  have ok: "gomap_ok ?m" by (rule groups_ok) simp
  have "allows (createPolicyRules mapping resources verbs) g res v \<longleftrightarrow>
      v \<in> set verbs \<and> (\<exists>l. (g, l) \<in> set ?m \<and> res \<in> set l)"
    by (force simp: allows_def createPolicyRules_def)
  moreover have "(\<exists>l. (g, l) \<in> set ?m \<and> res \<in> set l) \<longleftrightarrow> res \<in> set (gomap_get0 [] ?m g)"
    using ok by (auto simp: gomap_get0_def split: option.split dest: map_of_SomeD)
  moreover have "res \<in> set (gomap_get0 [] ?m g) \<longleftrightarrow>
      (\<exists>r\<in>set resources. fst (rule_gv (avk_APIVersion r)) = g
          \<and> map_option (to_lower \<circ> gvr_Resource) (mapping g (avk_Kind r) (snd (rule_gv (avk_APIVersion r)))) = Some res)"
  proof -
    have "res \<in> set (case mapping g k v of None \<Rightarrow> [] | Some x \<Rightarrow> [to_lower (gvr_Resource x)]) \<longleftrightarrow>
        map_option (to_lower \<circ> gvr_Resource) (mapping g k v) = Some res" for k v
      by (cases "mapping g k v") auto
    then show ?thesis unfolding groups_get by (simp add: gomap_get0_def if_distrib [of set] if_distrib [of "(\<in>) res"] cong: if_cong) blast
  qed
  ultimately show ?thesis by simp
qed

lemma set_mergeSubjects: "set (mergeSubjects s1 s2) = set s1 \<union> set s2"
proof -
  have "set (gomap_keys (foldl (\<lambda>m s. gomap_set m s ()) m ss)) = set (gomap_keys m) \<union> set ss"
    for m :: "(subject, unit) gomap" and ss
    by (induction ss arbitrary: m) (auto simp: dom_update)
  then show ?thesis by (simp add: mergeSubjects_def subject_set_def del: map_map)
qed

lemma distinct_mergeSubjects: "distinct (mergeSubjects s1 s2)"
proof -
  have "gomap_ok m \<Longrightarrow> gomap_ok (foldl (\<lambda>m s. gomap_set m s ()) m ss)" for m :: "(subject, unit) gomap" and ss
    by (induction ss arbitrary: m) auto
  then show ?thesis by (simp add: mergeSubjects_def subject_set_def)
qed

lemma set_removeSubjects: "set (removeSubjects subjects removals) = set subjects - set removals"
  by (auto simp: removeSubjects_def subject_set_def map_of_foldl_set last_entry_None split: option.splits
      dest: last_entry_Some)

section \<open>Comparing rules\<close>

lemma slices_compare_zero [simp]: "slices_compare xs ys = 0 \<longleftrightarrow> xs = ys"
  by (auto simp: slices_compare_def)

lemma comparePolicyRules_le: "comparePolicyRules a b \<le> 0 \<longleftrightarrow> rule_key a \<le> rule_key b"
  by (auto simp: comparePolicyRules_def rule_key_def slices_compare_def less_eq_prod_simp)

lemma insert_cmp_rules: "insert_cmp comparePolicyRules x ys = insort_key rule_key x ys"
  by (induction ys) (simp_all add: comparePolicyRules_le)

lemma sortFunc_rules: "sortFunc comparePolicyRules xs = sort_key rule_key xs"
proof -
  have "insert_cmp comparePolicyRules = insort_key rule_key" by (intro ext insert_cmp_rules)
  then show ?thesis by (simp add: sortFunc_def sort_key_def)
qed

lemma map_sort_key: "map f (sort_key f xs) = sort (map f xs)"
proof -
  have "sorted (map f (sort_key f xs))" by simp
  moreover have "mset (map f (sort_key f xs)) = mset (map f xs)" by (simp del: mset_map add: mset_map)
  ultimately show ?thesis by (metis properties_for_sort)
qed

lemma equalPolicyRules_iff:
  "fst (equalPolicyRules a b) \<longleftrightarrow> mset (map (rule_key \<circ> sort_rule) a) = mset (map (rule_key \<circ> sort_rule) b)"
proof (cases "length a = length b")
  case False
  then have "mset (map (rule_key \<circ> sort_rule) a) \<noteq> mset (map (rule_key \<circ> sort_rule) b)"
    by (metis length_map size_mset)
  with False show ?thesis by (simp add: equalPolicyRules_def)
next
  case True
  have "fst (equalPolicyRules a b) \<longleftrightarrow>
      list_all2 (\<lambda>x y. rule_key x = rule_key y) (sort_key rule_key (map sort_rule a)) (sort_key rule_key (map sort_rule b))"
    using True by (simp add: equalPolicyRules_def sortFunc_rules Let_def rule_key_def)
  also have "\<dots> \<longleftrightarrow> map rule_key (sort_key rule_key (map sort_rule a)) = map rule_key (sort_key rule_key (map sort_rule b))"
    by (simp only: list.rel_eq [symmetric] list.rel_map)
  also have "\<dots> \<longleftrightarrow> sort (map (rule_key \<circ> sort_rule) a) = sort (map (rule_key \<circ> sort_rule) b)"
    by (simp add: map_sort_key)
  also have "\<dots> \<longleftrightarrow> mset (map (rule_key \<circ> sort_rule) a) = mset (map (rule_key \<circ> sort_rule) b)"
  proof
    assume "sort (map (rule_key \<circ> sort_rule) a) = sort (map (rule_key \<circ> sort_rule) b)"
    then have "mset (sort (map (rule_key \<circ> sort_rule) a)) = mset (sort (map (rule_key \<circ> sort_rule) b))" by (rule arg_cong)
    then show "mset (map (rule_key \<circ> sort_rule) a) = mset (map (rule_key \<circ> sort_rule) b)" by (simp only: mset_sort)
  next
    assume "mset (map (rule_key \<circ> sort_rule) a) = mset (map (rule_key \<circ> sort_rule) b)"
    then have "sorted_list_of_multiset (mset (map (rule_key \<circ> sort_rule) a)) =
        sorted_list_of_multiset (mset (map (rule_key \<circ> sort_rule) b))" by (rule arg_cong)
    then show "sort (map (rule_key \<circ> sort_rule) a) = sort (map (rule_key \<circ> sort_rule) b)"
      by (simp only: sorted_list_of_multiset_mset)
  qed
  finally show ?thesis .
qed

text \<open>Rules compared as equal grant the same permissions.\<close>

lemma allows_sort_rule: "allows (map sort_rule rules) g res v \<longleftrightarrow> allows rules g res v"
  by (simp add: allows_def sort_rule_def)

lemma allows_rule_key:
  assumes "set (map rule_key a) = set (map rule_key b)"
  shows "allows a g res v \<longleftrightarrow> allows b g res v"
proof -
  have "allows x g res v \<longleftrightarrow> (\<exists>k\<in>set (map rule_key x). g \<in> set (fst k) \<and> res \<in> set (fst (snd k)) \<and> v \<in> set (snd (snd k)))" for x
    by (auto simp: allows_def rule_key_def)
  with assms show ?thesis by presburger
qed

text \<open>Two lists of policy rules that the operator takes for equal grant the same
  permissions, and the comparison does not see the order of the rules or of the entries
  inside a rule.\<close>

theorem equal_rules_grant_the_same:
  "(fst (equalPolicyRules a b) \<longrightarrow> (\<forall>g res v. allows a g res v \<longleftrightarrow> allows b g res v))
   \<and> (mset (map (\<lambda>r. (mset (pr_APIGroups r), mset (pr_Resources r), mset (pr_Verbs r))) a)
        = mset (map (\<lambda>r. (mset (pr_APIGroups r), mset (pr_Resources r), mset (pr_Verbs r))) b)
      \<longleftrightarrow> fst (equalPolicyRules a b))"
proof (intro conjI impI allI)
  fix g res v
  assume "fst (equalPolicyRules a b)"
  then have "mset (map rule_key (map sort_rule a)) = mset (map rule_key (map sort_rule b))"
    by (simp add: equalPolicyRules_iff)
  then have "allows (map sort_rule a) g res v = allows (map sort_rule b) g res v"
    by (metis allows_rule_key set_mset_mset)
  then show "allows a g res v = allows b g res v" by (simp only: allows_sort_rule)
next
  let ?bag = "\<lambda>r. (mset (pr_APIGroups r), mset (pr_Resources r), mset (pr_Verbs r))"
  let ?of = "\<lambda>(x, y, z). (mset x, mset y, mset z) :: string multiset \<times> string multiset \<times> string multiset"
  let ?to = "\<lambda>(x, y, z). (sorted_list_of_multiset x, sorted_list_of_multiset y, sorted_list_of_multiset z)"
  have of: "map ?bag rs = map ?of (map (rule_key \<circ> sort_rule) rs)" for rs
    by (simp add: rule_key_def sort_rule_def)
  have to: "map (rule_key \<circ> sort_rule) rs = map ?to (map ?bag rs)" for rs
    by (simp add: rule_key_def sort_rule_def sorted_list_of_multiset_mset)
  show "mset (map ?bag a) = mset (map ?bag b) \<longleftrightarrow> fst (equalPolicyRules a b)"
    unfolding equalPolicyRules_iff
  proof
    assume "mset (map ?bag a) = mset (map ?bag b)"
    then have "mset (map ?to (map ?bag a)) = mset (map ?to (map ?bag b))" by (simp only: mset_map)
    then show "mset (map (rule_key \<circ> sort_rule) a) = mset (map (rule_key \<circ> sort_rule) b)" by (simp only: to)
  next
    assume "mset (map (rule_key \<circ> sort_rule) a) = mset (map (rule_key \<circ> sort_rule) b)"
    then have "mset (map ?of (map (rule_key \<circ> sort_rule) a)) = mset (map ?of (map (rule_key \<circ> sort_rule) b))" by (simp only: mset_map)
    then show "mset (map ?bag a) = mset (map ?bag b)" by (simp only: of)
  qed
qed

text \<open>The same two rules in another order, with other orders inside.\<close>

theorem equal_rules_grant_the_same_witness:
  "let a = [\<lparr>pr_APIGroups = [[]], pr_Resources = [''pods'', ''jobs''], pr_Verbs = [''get'']\<rparr>,
            \<lparr>pr_APIGroups = [''batch''], pr_Resources = [''jobs''], pr_Verbs = [''get'']\<rparr>];
       b = [\<lparr>pr_APIGroups = [''batch''], pr_Resources = [''jobs''], pr_Verbs = [''get'']\<rparr>,
            \<lparr>pr_APIGroups = [[]], pr_Resources = [''jobs'', ''pods''], pr_Verbs = [''get'']\<rparr>]
   in a \<noteq> b \<and> fst (equalPolicyRules a b) \<and> (allows a [] ''pods'' ''get'' \<longleftrightarrow> allows b [] ''pods'' ''get'')"
proof -
  let ?x = "\<lparr>pr_APIGroups = [[]], pr_Resources = [''pods'', ''jobs''], pr_Verbs = [''get'']\<rparr>"
  let ?y = "\<lparr>pr_APIGroups = [''batch''], pr_Resources = [''jobs''], pr_Verbs = [''get'']\<rparr>"
  let ?z = "\<lparr>pr_APIGroups = [[]], pr_Resources = [''jobs'', ''pods''], pr_Verbs = [''get'']\<rparr>"
  have "fst (equalPolicyRules [?x, ?y] [?y, ?z])"
    using equal_rules_grant_the_same [of "[?x, ?y]" "[?y, ?z]"] by simp
  then show ?thesis using equal_rules_grant_the_same [of "[?x, ?y]" "[?y, ?z]"] by simp
qed

end
