(* ===== verification/Cluster_Api.thy ===== *)
theory Cluster_Api
  imports Rbac
begin

text \<open>
  The objects of the cluster that the operator's controllers read and write, and the three calls
  of the controller-runtime client they use. The client and the API server are not part of the
  sources. \<open>cluster\<close> holds the stored objects by namespace and name; a call may fail for any
  reason, which the fault oracle decides call by call, and otherwise \<^verbatim>\<open>Get\<close> answers what
  is stored, \<^verbatim>\<open>Create\<close> refuses an existing name and \<^verbatim>\<open>Update\<close> a missing one.
\<close>

type_synonym nsname = "string \<times> string"

datatype api_error = ApiNotFound | ApiAlreadyExists | ApiFailed

record cluster =
  cl_calls :: nat
  cl_roles :: "(nsname, rbac_role) gomap"
  cl_roleBindings :: "(nsname, rbac_binding) gomap"
  cl_serviceAccounts :: "(nsname, serviceAccount) gomap"
  cl_clusterRoles :: "(nsname, rbac_role) gomap"
  cl_clusterRoleBindings :: "(nsname, rbac_binding) gomap"
  cl_sinkFilters :: "(nsname, sinkFilter) gomap"
  cl_kacs :: "(nsname, kubeArchiveConfig) gomap"
  cl_ckacs :: "(nsname, clusterKubeArchiveConfig) gomap"

text \<open>The oracle: whether the \<open>n\<close>-th call fails.\<close>

type_synonym faults = "nat \<Rightarrow> bool"
type_synonym 'a answer = "(api_error + 'a) \<times> cluster"
type_synonym 'v selector = "cluster \<Rightarrow> (nsname, 'v) gomap"
type_synonym 'v updater = "((nsname, 'v) gomap \<Rightarrow> (nsname, 'v) gomap) \<Rightarrow> cluster \<Rightarrow> cluster"

definition called :: "cluster \<Rightarrow> cluster" where
  "called c = c\<lparr>cl_calls := Suc (cl_calls c)\<rparr>"

definition api_get :: "faults \<Rightarrow> 'v selector \<Rightarrow> nsname \<Rightarrow> cluster \<Rightarrow> 'v answer" where
  "api_get fails sel k c =
     (if fails (cl_calls c) then Inl ApiFailed
      else case gomap_get (sel c) k of None \<Rightarrow> Inl ApiNotFound | Some v \<Rightarrow> Inr v,
      called c)"

definition api_create :: "faults \<Rightarrow> 'v selector \<Rightarrow> 'v updater \<Rightarrow> nsname \<Rightarrow> 'v \<Rightarrow> cluster \<Rightarrow> 'v answer" where
  "api_create fails sel upd k v c =
     (if fails (cl_calls c) then (Inl ApiFailed, called c)
      else if gomap_get (sel c) k \<noteq> None then (Inl ApiAlreadyExists, called c)
      else (Inr v, upd (\<lambda>m. gomap_set m k v) (called c)))"

definition api_update :: "faults \<Rightarrow> 'v selector \<Rightarrow> 'v updater \<Rightarrow> nsname \<Rightarrow> 'v \<Rightarrow> cluster \<Rightarrow> 'v answer" where
  "api_update fails sel upd k v c =
     (if fails (cl_calls c) then (Inl ApiFailed, called c)
      else if gomap_get (sel c) k = None then (Inl ApiNotFound, called c)
      else (Inr v, upd (\<lambda>m. gomap_set m k v) (called c)))"

text \<open>
  The pattern of the controllers: \<^verbatim>\<open>Get\<close>; when nothing is found \<^verbatim>\<open>Create\<close>
  a fresh object; on another error stop; otherwise \<^verbatim>\<open>Update\<close> with a new version of
  what is stored.
\<close>

definition upsert :: "faults \<Rightarrow> 'v selector \<Rightarrow> 'v updater \<Rightarrow> nsname \<Rightarrow> 'v \<Rightarrow> ('v \<Rightarrow> 'v) \<Rightarrow> cluster \<Rightarrow> 'v answer" where
  "upsert fails sel upd k fresh nxt c =
     (case api_get fails sel k c of
        (Inl ApiNotFound, c1) \<Rightarrow> api_create fails sel upd k fresh c1
      | (Inl e, c1) \<Rightarrow> (Inl e, c1)
      | (Inr old, c1) \<Rightarrow> api_update fails sel upd k (nxt old) c1)"

text \<open>\<^verbatim>\<open>if err != nil { return err }\<close>: go on with the value and the cluster, or stop at the error.\<close>

fun and_then :: "'a answer \<Rightarrow> ('a \<Rightarrow> cluster \<Rightarrow> 'b answer) \<Rightarrow> 'b answer" where
  "and_then (Inl e, c) f = (Inl e, c)"
| "and_then (Inr a, c) f = f a c"

text \<open>A sequence of calls that may end with an error: the error with the cluster it leaves, or
  both steps in turn.\<close>

lemma and_then_ok:
  "and_then p f = (Inr b, c') \<longleftrightarrow> (\<exists>a c1. p = (Inr a, c1) \<and> f a c1 = (Inr b, c'))"
  by (cases "(p, f)" rule: and_then.cases) auto

section \<open>The contract of a store of objects\<close>

text \<open>
  One kind of object in the cluster: reading after writing, and what writing leaves alone. What
  the pattern does on every outcome is shown once here.
\<close>

locale object_store =
  fixes sel :: "'v selector" and upd :: "'v updater"
  assumes sel_upd: "sel (upd f c) = f (sel c)"
    and calls_upd: "cl_calls (upd f c) = cl_calls c"
    and sel_called: "sel (called c) = sel c"
begin

lemma upsert_stores:
  assumes "upsert fails sel upd k fresh nxt c = (Inr v, c')"
  shows "v = (case gomap_get (sel c) k of None \<Rightarrow> fresh | Some old \<Rightarrow> nxt old)
         \<and> gomap_get (sel c') k = Some v
         \<and> c' = upd (\<lambda>m. gomap_set m k v) (called (called c))"
  using assms
  by (auto simp: upsert_def api_get_def api_create_def api_update_def sel_upd sel_called split: if_splits option.splits)

lemma upsert_succeeds:
  assumes "\<And>n. \<not> fails n"
  shows "\<exists>v c'. upsert fails sel upd k fresh nxt c = (Inr v, c')"
  using assms by (cases "upsert fails sel upd k fresh nxt c"; cases "fst (upsert fails sel upd k fresh nxt c)")
    (auto simp: upsert_def api_get_def api_create_def api_update_def sel_called split: if_splits option.splits)

lemma upsert_fails:
  assumes "upsert fails sel upd k fresh nxt c = (Inl e, c')"
  shows "(c' = called c \<or> c' = called (called c)) \<and> (fails (cl_calls c) \<or> fails (Suc (cl_calls c)))"
proof -
  have "cl_calls (called c) = Suc (cl_calls c)" by (simp add: called_def)
  with assms show ?thesis
    by (auto simp: upsert_def api_get_def api_create_def api_update_def sel_called split: if_splits option.splits)
qed

end

interpretation roles: object_store cl_roles cl_roles_update
  by unfold_locales (simp_all add: called_def)

interpretation roleBindings: object_store cl_roleBindings cl_roleBindings_update
  by unfold_locales (simp_all add: called_def)

interpretation serviceAccounts: object_store cl_serviceAccounts cl_serviceAccounts_update
  by unfold_locales (simp_all add: called_def)

interpretation clusterRoles: object_store cl_clusterRoles cl_clusterRoles_update
  by unfold_locales (simp_all add: called_def)

interpretation clusterRoleBindings: object_store cl_clusterRoleBindings cl_clusterRoleBindings_update
  by unfold_locales (simp_all add: called_def)

interpretation sinkFilters: object_store cl_sinkFilters cl_sinkFilters_update
  by unfold_locales (simp_all add: called_def)

interpretation kacs: object_store cl_kacs cl_kacs_update
  by unfold_locales (simp_all add: called_def)

interpretation ckacs: object_store cl_ckacs cl_ckacs_update
  by unfold_locales (simp_all add: called_def)

section \<open>Frames\<close>

text \<open>What a call leaves alone: any view of the cluster that the written kind and the call counter
  are not part of, or that looks at other objects of the written kind.\<close>

lemma view_get: "(\<And>c. view (called c) = view c) \<Longrightarrow> view (snd (api_get fails sel k c)) = view c"
  by (simp add: api_get_def)

lemma view_create:
  "(\<And>c. view (called c) = view c) \<Longrightarrow> (\<And>v c. view (upd (\<lambda>m. gomap_set m k v) c) = view c) \<Longrightarrow>
     view (snd (api_create fails sel upd k v c)) = view c"
  by (simp add: api_create_def)

lemma view_update:
  "(\<And>c. view (called c) = view c) \<Longrightarrow> (\<And>v c. view (upd (\<lambda>m. gomap_set m k v) c) = view c) \<Longrightarrow>
     view (snd (api_update fails sel upd k v c)) = view c"
  by (simp add: api_update_def)

lemma view_upsert:
  "(\<And>c. view (called c) = view c) \<Longrightarrow> (\<And>v c. view (upd (\<lambda>m. gomap_set m k v) c) = view c) \<Longrightarrow>
     view (snd (upsert fails sel upd k fresh nxt c)) = view c"
  by (simp add: upsert_def api_get_def view_create view_update split: option.split)

lemma view_and_then:
  "view (snd p) = v \<Longrightarrow> (\<And>a c. view c = v \<Longrightarrow> view (snd (f a c)) = v) \<Longrightarrow> view (snd (and_then p f)) = v"
  by (cases "(p, f)" rule: and_then.cases) auto

text \<open>Without faults the pattern always succeeds.\<close>

lemma get_no_fault:
  "(\<And>n. \<not> fails n) \<Longrightarrow>
     api_get fails sel k c = (case gomap_get (sel c) k of None \<Rightarrow> Inl ApiNotFound | Some v \<Rightarrow> Inr v, called c)"
  by (simp add: api_get_def)

lemma and_then_succeeds:
  "\<exists>a c'. p = (Inr a, c') \<Longrightarrow> (\<And>a c. \<exists>b c'. f a c = (Inr b, c')) \<Longrightarrow> \<exists>b c'. and_then p f = (Inr b, c')"
  by auto

end
