(* ===== verification/Config_Reconcile.thy ===== *)
theory Config_Reconcile
  imports Cluster_Api
begin

text \<open>
  \<^verbatim>\<open>kubearchiveconfig_controller.go\<close> and \<^verbatim>\<open>clusterkubearchiveconfig_controller.go\<close>: the
  controllers that copy the configurations of the namespaces and of the cluster into the one
  SinkFilter, give the sink and the vacuum their permissions, and clean up under a finalizer.

  Every call of the client may fail. \<^verbatim>\<open>SetControllerReference\<close> belongs to
  controller-runtime: whether it succeeds is an argument, and what it does is to record the
  configuration as the owner.
\<close>

record reconcile_env =
  re_fails :: faults
  re_mapping :: rest_mapping
  re_namespace :: string
  re_setOwner :: "kubeArchiveConfig \<Rightarrow> bool"

section \<open>The SinkFilter\<close>

definition filter_key :: "reconcile_env \<Rightarrow> nsname" where
  "filter_key env = (re_namespace env, SinkFilterResourceName)"

definition new_filter :: "reconcile_env \<Rightarrow> sinkFilter" where
  "new_filter env =
     \<lparr>sf_Name = SinkFilterResourceName, sf_Namespace = re_namespace env, sf_Namespaces = Some [], sf_Cluster = []\<rparr>"

definition desiredSinkFilterNamespace ::
    "reconcile_env \<Rightarrow> sinkFilter option \<Rightarrow> string \<Rightarrow> kubeArchiveConfigResource list option \<Rightarrow> sinkFilter" where
  "desiredSinkFilterNamespace env sf namespace resources =
     (let sf1 = (case sf of None \<Rightarrow> new_filter env | Some x \<Rightarrow> x);
          m = sfNamespaces sf1
      in sf1\<lparr>sf_Namespaces := Some (case resources of
                Some rs \<Rightarrow> gomap_set m namespace rs
              | None \<Rightarrow> gomap_del m namespace)\<rparr>)"

definition updateSinkFilterNamespace ::
    "reconcile_env \<Rightarrow> string \<Rightarrow> kubeArchiveConfigResource list option \<Rightarrow> cluster \<Rightarrow> sinkFilter answer" where
  "updateSinkFilterNamespace env namespace resources c =
     upsert (re_fails env) cl_sinkFilters cl_sinkFilters_update (filter_key env)
       (desiredSinkFilterNamespace env None namespace resources)
       (\<lambda>sf. desiredSinkFilterNamespace env (Some sf) namespace resources) c"

definition desiredSinkFilterCluster ::
    "reconcile_env \<Rightarrow> sinkFilter option \<Rightarrow> clusterKubeArchiveConfigResource list \<Rightarrow> sinkFilter" where
  "desiredSinkFilterCluster env sf resources =
     (let sf1 = (case sf of None \<Rightarrow> new_filter env | Some x \<Rightarrow> x)
      in sf1\<lparr>sf_Namespaces := Some (gomap_del (sfNamespaces sf1) SinkFilterGlobalNamespace),
             sf_Cluster := (if 0 < length resources then resources else [])\<rparr>)"

definition updateSinkFilterCluster ::
    "reconcile_env \<Rightarrow> clusterKubeArchiveConfigResource list \<Rightarrow> cluster \<Rightarrow> sinkFilter answer" where
  "updateSinkFilterCluster env resources c =
     upsert (re_fails env) cl_sinkFilters cl_sinkFilters_update (filter_key env)
       (desiredSinkFilterCluster env None resources)
       (\<lambda>sf. desiredSinkFilterCluster env (Some sf) resources) c"

section \<open>Roles, bindings and service accounts\<close>

definition desiredRole :: "string \<Rightarrow> string \<Rightarrow> policyRule list \<Rightarrow> rbac_role" where
  "desiredRole namespace name rules =
     \<lparr>ro_Name = name, ro_Namespace = namespace, ro_Owner = None, ro_Rules = rules\<rparr>"

definition owner_key :: "kubeArchiveConfig \<Rightarrow> nsname" where
  "owner_key kac = (kac_Namespace kac, kac_Name kac)"

definition reconcileRole ::
    "reconcile_env \<Rightarrow> kubeArchiveConfig option \<Rightarrow> string \<Rightarrow> string \<Rightarrow> policyRule list \<Rightarrow> cluster \<Rightarrow> rbac_role answer" where
  "reconcileRole env kac namespace name rules c =
     (let desired = (desiredRole namespace name rules)\<lparr>ro_Owner := map_option owner_key kac\<rparr>
      in if (case kac of None \<Rightarrow> False | Some k \<Rightarrow> \<not> re_setOwner env k) then (Inl ApiFailed, c)
         else upsert (re_fails env) cl_roles cl_roles_update (namespace, name)
                desired (\<lambda>existing. existing\<lparr>ro_Rules := ro_Rules desired\<rparr>) c)"

definition desiredRoleBinding :: "string \<Rightarrow> string \<Rightarrow> string \<Rightarrow> subject list \<Rightarrow> rbac_binding" where
  "desiredRoleBinding namespace name kind subjects =
     \<lparr>rb_Name = name, rb_Namespace = namespace, rb_Owner = None,
      rb_RoleRef = \<lparr>rr_APIGroup = ''rbac.authorization.k8s.io'', rr_Kind = kind, rr_Name = name\<rparr>,
      rb_Subjects = subjects\<rparr>"

definition reconcileRoleBinding ::
    "reconcile_env \<Rightarrow> kubeArchiveConfig option \<Rightarrow> string \<Rightarrow> string \<Rightarrow> string \<Rightarrow> bool \<Rightarrow> subject list \<Rightarrow> cluster \<Rightarrow>
      rbac_binding answer" where
  "reconcileRoleBinding env kac namespace name kind add subjects c =
     (let desired = (desiredRoleBinding namespace name kind subjects)\<lparr>rb_Owner := map_option owner_key kac\<rparr>
      in if (case kac of None \<Rightarrow> False | Some k \<Rightarrow> \<not> re_setOwner env k) then (Inl ApiFailed, c)
         else upsert (re_fails env) cl_roleBindings cl_roleBindings_update (namespace, name)
                desired
                (\<lambda>existing. existing\<lparr>rb_Subjects :=
                   (if add then mergeSubjects (rb_Subjects existing) (rb_Subjects desired)
                    else removeSubjects (rb_Subjects existing) (rb_Subjects desired))\<rparr>) c)"

definition reconcileServiceAccount ::
    "reconcile_env \<Rightarrow> kubeArchiveConfig option \<Rightarrow> string \<Rightarrow> string \<Rightarrow> cluster \<Rightarrow> serviceAccount answer" where
  "reconcileServiceAccount env kac namespace name c =
     (case api_get (re_fails env) cl_serviceAccounts (namespace, name) c of
        (Inl ApiNotFound, c1) \<Rightarrow>
          if (case kac of None \<Rightarrow> False | Some k \<Rightarrow> \<not> re_setOwner env k) then (Inl ApiFailed, c1)
          else api_create (re_fails env) cl_serviceAccounts cl_serviceAccounts_update (namespace, name)
                 ((desiredServiceAccount namespace name)\<lparr>sa_Owner := map_option owner_key kac\<rparr>) c1
      | (Inl e, c1) \<Rightarrow> (Inl e, c1)
      | (Inr sa, c1) \<Rightarrow> (Inr sa, c1))"

definition ckac_key :: nsname where
  "ckac_key = ([], KubeArchiveConfigResourceName)"

text \<open>An error in reading the ClusterKubeArchiveConfig is only logged here.\<close>

definition reconcileSinkRole :: "reconcile_env \<Rightarrow> kubeArchiveConfig \<Rightarrow> cluster \<Rightarrow> rbac_role answer" where
  "reconcileSinkRole env kac c =
     (let resources = map kr_Selector (kacResources kac)
      in case api_get (re_fails env) cl_ckacs ckac_key c of
           (Inr ckac, c1) \<Rightarrow>
             reconcileRole env (Some kac) (kac_Namespace kac) KubeArchiveSinkName
               (createPolicyRules (re_mapping env) (resources @ map cr_Selector (ckac_Resources ckac)) [''delete'']) c1
         | (Inl _, c1) \<Rightarrow>
             reconcileRole env (Some kac) (kac_Namespace kac) KubeArchiveSinkName
               (createPolicyRules (re_mapping env) resources [''delete'']) c1)"

definition reconcileSinkRoleBinding ::
    "reconcile_env \<Rightarrow> kubeArchiveConfig \<Rightarrow> rbac_role \<Rightarrow> cluster \<Rightarrow> rbac_binding answer" where
  "reconcileSinkRoleBinding env kac role c =
     reconcileRoleBinding env (Some kac) (kac_Namespace kac) (ro_Name role) ''Role'' True
       [newSubject (re_namespace env) (ro_Name role)] c"

definition reconcileVacuumServiceAccount :: "reconcile_env \<Rightarrow> kubeArchiveConfig \<Rightarrow> cluster \<Rightarrow> serviceAccount answer" where
  "reconcileVacuumServiceAccount env kac c =
     reconcileServiceAccount env (Some kac) (kac_Namespace kac) KubeArchiveVacuumName c"

definition reconcileVacuumRole :: "reconcile_env \<Rightarrow> kubeArchiveConfig \<Rightarrow> cluster \<Rightarrow> rbac_role answer" where
  "reconcileVacuumRole env kac c =
     (let resources = \<lparr>avk_Kind = ''NamespaceVacuumConfig'', avk_APIVersion = ''kubearchive.org/v1''\<rparr>
                      # map kr_Selector (kacResources kac)
      in case api_get (re_fails env) cl_ckacs ckac_key c of
           (Inl ApiNotFound, c1) \<Rightarrow>
             reconcileRole env (Some kac) (kac_Namespace kac) KubeArchiveVacuumName
               (createPolicyRules (re_mapping env) resources [''get'', ''list'']) c1
         | (Inl e, c1) \<Rightarrow> (Inl e, c1)
         | (Inr ckac, c1) \<Rightarrow>
             reconcileRole env (Some kac) (kac_Namespace kac) KubeArchiveVacuumName
               (createPolicyRules (re_mapping env) (resources @ map cr_Selector (ckac_Resources ckac)) [''get'', ''list'']) c1)"

definition reconcileLocalVacuumRoleBinding ::
    "reconcile_env \<Rightarrow> kubeArchiveConfig \<Rightarrow> rbac_role \<Rightarrow> cluster \<Rightarrow> rbac_binding answer" where
  "reconcileLocalVacuumRoleBinding env kac role c =
     reconcileRoleBinding env (Some kac) (kac_Namespace kac) (ro_Name role) ''Role'' True
       [newSubject (kac_Namespace kac) KubeArchiveVacuumName,
        newSubject (re_namespace env) KubeArchiveClusterVacuumName] c"

definition reconcileKubeArchiveVacuumRoleBinding ::
    "reconcile_env \<Rightarrow> kubeArchiveConfig \<Rightarrow> bool \<Rightarrow> cluster \<Rightarrow> rbac_binding answer" where
  "reconcileKubeArchiveVacuumRoleBinding env kac add c =
     reconcileRoleBinding env None (re_namespace env) KubeArchiveVacuumName ''Role'' add
       (newSubject (kac_Namespace kac) KubeArchiveVacuumName
        # (if add then [newSubject (re_namespace env) KubeArchiveClusterVacuumName] else [])) c"

definition reconcileVacuumResources :: "reconcile_env \<Rightarrow> kubeArchiveConfig \<Rightarrow> cluster \<Rightarrow> rbac_binding answer" where
  "reconcileVacuumResources env kac c =
     and_then (reconcileVacuumServiceAccount env kac c) (\<lambda>_ c1.
     and_then (reconcileVacuumRole env kac c1) (\<lambda>role c2.
     and_then (reconcileLocalVacuumRoleBinding env kac role c2) (\<lambda>_ c3.
     reconcileKubeArchiveVacuumRoleBinding env kac True c3)))"

section \<open>Reconciling\<close>

definition is_zero_time :: "go_time option \<Rightarrow> bool" where
  "is_zero_time t \<longleftrightarrow> t = None \<or> t = Some 0"

definition reconcile_live :: "reconcile_env \<Rightarrow> kubeArchiveConfig \<Rightarrow> cluster \<Rightarrow> rbac_binding answer" where
  "reconcile_live env kac c =
     and_then (updateSinkFilterNamespace env (kac_Namespace kac) (kac_Resources kac) c) (\<lambda>_ c1.
     and_then (reconcileSinkRole env kac c1) (\<lambda>role c2.
     and_then (reconcileSinkRoleBinding env kac role c2) (\<lambda>_ c3.
     reconcileVacuumResources env kac c3)))"

text \<open>The answer is the error, or nothing.\<close>

definition finish :: "'a answer \<Rightarrow> api_error option \<times> cluster" where
  "finish p = (case p of (Inl e, c) \<Rightarrow> (Some e, c) | (Inr _, c) \<Rightarrow> (None, c))"

definition kac_Reconcile :: "reconcile_env \<Rightarrow> nsname \<Rightarrow> cluster \<Rightarrow> api_error option \<times> cluster" where
  "kac_Reconcile env req c =
     (case api_get (re_fails env) cl_kacs req c of
        (Inl ApiNotFound, c1) \<Rightarrow> (None, c1)
      | (Inl e, c1) \<Rightarrow> (Some e, c1)
      | (Inr kac, c1) \<Rightarrow>
          if is_zero_time (kac_DeletionTimestamp kac) then
            if resourceFinalizerName \<in> set (kac_Finalizers kac) then finish (reconcile_live env kac c1)
            else (let kac' = kac\<lparr>kac_Finalizers := kac_Finalizers kac @ [resourceFinalizerName]\<rparr>
                  in finish (and_then (api_update (re_fails env) cl_kacs cl_kacs_update req kac' c1)
                       (\<lambda>_ c2. reconcile_live env kac' c2)))
          else if resourceFinalizerName \<in> set (kac_Finalizers kac) then
            finish
              (and_then (updateSinkFilterNamespace env (kac_Namespace kac) None c1) (\<lambda>_ c2.
               and_then (reconcileKubeArchiveVacuumRoleBinding env kac False c2) (\<lambda>_ c3.
               api_update (re_fails env) cl_kacs cl_kacs_update req
                 (kac\<lparr>kac_Finalizers := removeAll resourceFinalizerName (kac_Finalizers kac)\<rparr>) c3)))
          else (None, c1))"

definition ckac_Reconcile :: "reconcile_env \<Rightarrow> nsname \<Rightarrow> cluster \<Rightarrow> api_error option \<times> cluster" where
  "ckac_Reconcile env req c =
     (case api_get (re_fails env) cl_ckacs req c of
        (Inl ApiNotFound, c1) \<Rightarrow> (None, c1)
      | (Inl e, c1) \<Rightarrow> (Some e, c1)
      | (Inr ckac, c1) \<Rightarrow>
          if is_zero_time (ckac_DeletionTimestamp ckac) then
            if resourceFinalizerName \<in> set (ckac_Finalizers ckac)
            then finish (updateSinkFilterCluster env (ckac_Resources ckac) c1)
            else (let ckac' = ckac\<lparr>ckac_Finalizers := ckac_Finalizers ckac @ [resourceFinalizerName]\<rparr>
                  in finish (and_then (api_update (re_fails env) cl_ckacs cl_ckacs_update req ckac' c1)
                       (\<lambda>_ c2. updateSinkFilterCluster env (ckac_Resources ckac') c2)))
          else if resourceFinalizerName \<in> set (ckac_Finalizers ckac) then
            finish
              (and_then (updateSinkFilterCluster env [] c1) (\<lambda>_ c2.
               api_update (re_fails env) cl_ckacs cl_ckacs_update req
                 (ckac\<lparr>ckac_Finalizers := removeAll resourceFinalizerName (ckac_Finalizers ckac)\<rparr>) c2))
          else (None, c1))"

section \<open>Views\<close>

text \<open>What the SinkFilter holds for a namespace, and for the cluster.\<close>

definition filter_ns :: "reconcile_env \<Rightarrow> cluster \<Rightarrow> string \<Rightarrow> kubeArchiveConfigResource list option" where
  "filter_ns env c ns = Option.bind (gomap_get (cl_sinkFilters c) (filter_key env)) (\<lambda>sf. gomap_get (sfNamespaces sf) ns)"

definition filter_cluster :: "reconcile_env \<Rightarrow> cluster \<Rightarrow> clusterKubeArchiveConfigResource list" where
  "filter_cluster env c = (case gomap_get (cl_sinkFilters c) (filter_key env) of None \<Rightarrow> [] | Some sf \<Rightarrow> sf_Cluster sf)"

text \<open>The configurations and the filter, and the configurations alone.\<close>

definition config_view :: "cluster \<Rightarrow> (nsname, sinkFilter) gomap \<times> (nsname, kubeArchiveConfig) gomap \<times> (nsname, clusterKubeArchiveConfig) gomap" where
  "config_view c = (cl_sinkFilters c, cl_kacs c, cl_ckacs c)"

lemma config_view_called [simp]: "config_view (called c) = config_view c"
  by (simp add: config_view_def called_def)

lemma called_simps [simp]:
  "cl_sinkFilters (called c) = cl_sinkFilters c" "cl_kacs (called c) = cl_kacs c" "cl_ckacs (called c) = cl_ckacs c"
  "cl_roles (called c) = cl_roles c" "cl_roleBindings (called c) = cl_roleBindings c"
  "cl_serviceAccounts (called c) = cl_serviceAccounts c"
  by (simp_all add: called_def)

lemma filter_ns_called [simp]: "filter_ns env (called c) = filter_ns env c"
  by (simp add: filter_ns_def fun_eq_iff)

lemma filter_cluster_called [simp]: "filter_cluster env (called c) = filter_cluster env c"
  by (simp add: filter_cluster_def)

lemma sfNamespaces_Some [simp]: "sfNamespaces (sf\<lparr>sf_Namespaces := Some m\<rparr>) = m"
  by (simp add: sfNamespaces_def)

lemma sfNamespaces_new [simp]: "sfNamespaces (new_filter env) = []"
  by (simp add: sfNamespaces_def new_filter_def)

section \<open>Permissions leave the configurations alone\<close>

lemma view_reconcileRole [simp]: "config_view (snd (reconcileRole env kac ns name rules c)) = config_view c"
  by (simp add: reconcileRole_def Let_def view_upsert config_view_def)

lemma view_reconcileRoleBinding [simp]:
  "config_view (snd (reconcileRoleBinding env kac ns name kind add subjects c)) = config_view c"
  by (simp add: reconcileRoleBinding_def Let_def view_upsert config_view_def)

lemma view_reconcileServiceAccount [simp]:
  "config_view (snd (reconcileServiceAccount env kac ns name c)) = config_view c"
  by (simp add: reconcileServiceAccount_def api_get_def view_create config_view_def split: option.split)

lemma view_reconcileSinkRole [simp]: "config_view (snd (reconcileSinkRole env kac c)) = config_view c"
  by (simp add: reconcileSinkRole_def api_get_def Let_def split: option.split)

lemma view_reconcileVacuumRole [simp]: "config_view (snd (reconcileVacuumRole env kac c)) = config_view c"
  by (simp add: reconcileVacuumRole_def api_get_def Let_def split: option.split)

lemmas config_and_then = view_and_then [where view = config_view]

lemma view_reconcileVacuumResources [simp]: "config_view (snd (reconcileVacuumResources env kac c)) = config_view c"
  unfolding reconcileVacuumResources_def
  by (intro config_and_then) (simp_all add: reconcileVacuumServiceAccount_def reconcileLocalVacuumRoleBinding_def
      reconcileKubeArchiveVacuumRoleBinding_def)

definition rbac_live :: "reconcile_env \<Rightarrow> kubeArchiveConfig \<Rightarrow> cluster \<Rightarrow> rbac_binding answer" where
  "rbac_live env kac c =
     and_then (reconcileSinkRole env kac c) (\<lambda>role c2.
     and_then (reconcileSinkRoleBinding env kac role c2) (\<lambda>_ c3.
     reconcileVacuumResources env kac c3))"

lemma reconcile_live_alt:
  "reconcile_live env kac c =
     and_then (updateSinkFilterNamespace env (kac_Namespace kac) (kac_Resources kac) c) (\<lambda>_. rbac_live env kac)"
  by (simp add: reconcile_live_def rbac_live_def [abs_def])

lemma view_rbac_live [simp]: "config_view (snd (rbac_live env kac c)) = config_view c"
  unfolding rbac_live_def by (intro config_and_then) (simp_all add: reconcileSinkRoleBinding_def)

section \<open>The filter after a call\<close>

lemma filter_view:
  "cl_sinkFilters c' = cl_sinkFilters c \<Longrightarrow> filter_ns env c' = filter_ns env c \<and> filter_cluster env c' = filter_cluster env c"
  by (simp add: filter_ns_def filter_cluster_def fun_eq_iff)

lemma desired_namespace:
  "gomap_get (sfNamespaces (desiredSinkFilterNamespace env sf ns rs)) x =
     (if x = ns then rs else Option.bind sf (\<lambda>s. gomap_get (sfNamespaces s) x))"
  "sf_Cluster (desiredSinkFilterNamespace env sf ns rs) = (case sf of None \<Rightarrow> [] | Some s \<Rightarrow> sf_Cluster s)"
  by (auto simp: desiredSinkFilterNamespace_def new_filter_def Let_def sfNamespaces_def split: option.split)

lemma desired_cluster:
  "gomap_get (sfNamespaces (desiredSinkFilterCluster env sf rs)) x =
     (if x = SinkFilterGlobalNamespace then None else Option.bind sf (\<lambda>s. gomap_get (sfNamespaces s) x))"
  "sf_Cluster (desiredSinkFilterCluster env sf rs) = rs"
  by (auto simp: desiredSinkFilterCluster_def new_filter_def Let_def sfNamespaces_def split: option.split)

lemma updateSinkFilterNamespace_ok:
  assumes "updateSinkFilterNamespace env ns rs c = (Inr v, c')"
  shows "filter_ns env c' = (filter_ns env c)(ns := rs)" "filter_cluster env c' = filter_cluster env c"
    "cl_kacs c' = cl_kacs c" "cl_ckacs c' = cl_ckacs c" "cl_roleBindings c' = cl_roleBindings c" "cl_roles c' = cl_roles c"
proof -
  let ?d = "\<lambda>sf. desiredSinkFilterNamespace env sf ns rs"
  from sinkFilters.upsert_stores [OF assms [unfolded updateSinkFilterNamespace_def]]
  have v: "v = ?d (gomap_get (cl_sinkFilters c) (filter_key env))"
    and c': "c' = cl_sinkFilters_update (\<lambda>m. gomap_set m (filter_key env) v) (called (called c))"
    by (auto split: option.splits)
  show "filter_ns env c' = (filter_ns env c)(ns := rs)"
    by (simp add: fun_eq_iff filter_ns_def c' v desired_namespace)
  show "filter_cluster env c' = filter_cluster env c"
    by (simp add: filter_cluster_def c' v desired_namespace split: option.split)
  show "cl_kacs c' = cl_kacs c" "cl_ckacs c' = cl_ckacs c" "cl_roleBindings c' = cl_roleBindings c" "cl_roles c' = cl_roles c"
    by (simp_all add: c')
qed

lemma updateSinkFilterNamespace_fails:
  assumes "updateSinkFilterNamespace env ns rs c = (Inl e, c')"
  shows "config_view c' = config_view c" "cl_roleBindings c' = cl_roleBindings c"
  using sinkFilters.upsert_fails [OF assms [unfolded updateSinkFilterNamespace_def]] by auto

lemma updateSinkFilterCluster_ok:
  assumes "updateSinkFilterCluster env rs c = (Inr v, c')"
  shows "filter_ns env c' = (filter_ns env c)(SinkFilterGlobalNamespace := None)" "filter_cluster env c' = rs"
    "cl_kacs c' = cl_kacs c" "cl_ckacs c' = cl_ckacs c"
proof -
  let ?d = "\<lambda>sf. desiredSinkFilterCluster env sf rs"
  from sinkFilters.upsert_stores [OF assms [unfolded updateSinkFilterCluster_def]]
  have v: "v = ?d (gomap_get (cl_sinkFilters c) (filter_key env))"
    and c': "c' = cl_sinkFilters_update (\<lambda>m. gomap_set m (filter_key env) v) (called (called c))"
    by (auto split: option.splits)
  show "filter_ns env c' = (filter_ns env c)(SinkFilterGlobalNamespace := None)"
    by (simp add: fun_eq_iff filter_ns_def c' v desired_cluster)
  show "filter_cluster env c' = rs"
    by (simp add: filter_cluster_def c' v desired_cluster split: option.split)
  show "cl_kacs c' = cl_kacs c" "cl_ckacs c' = cl_ckacs c"
    by (simp_all add: c')
qed

lemma updateSinkFilterCluster_fails:
  assumes "updateSinkFilterCluster env rs c = (Inl e, c')"
  shows "config_view c' = config_view c"
  using sinkFilters.upsert_fails [OF assms [unfolded updateSinkFilterCluster_def]] by auto

lemma kac_update_cases:
  assumes "api_update fails cl_kacs cl_kacs_update k v c = (r, c')"
  obtains e where "r = Inl e" and "config_view c' = config_view c"
  | "r = Inr v" and "cl_kacs c' = gomap_set (cl_kacs c) k v" and "cl_sinkFilters c' = cl_sinkFilters c"
    and "cl_roleBindings c' = cl_roleBindings c" and "cl_ckacs c' = cl_ckacs c"
  using assms by (auto simp: api_update_def split: if_splits)

section \<open>A run for a live configuration\<close>

lemma reconcile_live_cases:
  assumes "reconcile_live env kac c = (r, c')"
  obtains e where "r = Inl e" and "config_view c' = config_view c"
  | "filter_ns env c' = (filter_ns env c)(kac_Namespace kac := kac_Resources kac)"
    and "filter_cluster env c' = filter_cluster env c" and "cl_kacs c' = cl_kacs c" and "cl_ckacs c' = cl_ckacs c"
proof (cases "updateSinkFilterNamespace env (kac_Namespace kac) (kac_Resources kac) c")
  case (Pair u c1)
  show thesis
  proof (cases u)
    case (Inl e)
    with assms Pair show thesis
      using that(1) updateSinkFilterNamespace_fails(1) [of env _ _ c e c1] by (auto simp: reconcile_live_alt)
  next
    case (Inr v)
    with assms Pair have "rbac_live env kac c1 = (r, c')" by (simp add: reconcile_live_alt)
    then have "config_view c' = config_view c1" by (metis snd_conv view_rbac_live)
    then have "filter_ns env c' = filter_ns env c1 \<and> filter_cluster env c' = filter_cluster env c1"
      "cl_kacs c' = cl_kacs c1" "cl_ckacs c' = cl_ckacs c1"
      using filter_view [of c' c1] by (simp_all add: config_view_def)
    with updateSinkFilterNamespace_ok [OF Pair [unfolded Inr]] show thesis
      using that(2) by simp
  qed
qed

lemma reconcile_live_ok:
  assumes "reconcile_live env kac c = (Inr b, c')"
  shows "filter_ns env c' = (filter_ns env c)(kac_Namespace kac := kac_Resources kac)"
    and "filter_cluster env c' = filter_cluster env c" and "cl_kacs c' = cl_kacs c" and "cl_ckacs c' = cl_ckacs c"
  using assms by (auto elim!: reconcile_live_cases)

text \<open>Whether the stored configuration carries the finalizer.\<close>

definition guarded :: "nsname \<Rightarrow> cluster \<Rightarrow> bool" where
  "guarded req c \<longleftrightarrow> (\<exists>kac. gomap_get (cl_kacs c) req = Some kac \<and> resourceFinalizerName \<in> set (kac_Finalizers kac))"

lemma finish_cases:
  assumes "finish p = (err, c')"
  obtains e where "p = (Inl e, c')" and "err = Some e" | a where "p = (Inr a, c')" and "err = None"
  using assms by (cases p; cases "fst p") (auto simp: finish_def)

lemma config_view_filter:
  "config_view c' = config_view c \<Longrightarrow> filter_ns env c' = filter_ns env c \<and> filter_cluster env c' = filter_cluster env c
     \<and> cl_kacs c' = cl_kacs c"
  using filter_view [of c' c] by (simp add: config_view_def)

lemma live_run:
  assumes found: "gomap_get (cl_kacs c) req = Some kac" and live: "is_zero_time (kac_DeletionTimestamp kac)"
    and run: "kac_Reconcile env req c = (err, c')"
  shows "filter_cluster env c' = filter_cluster env c
         \<and> (filter_ns env c' = filter_ns env c \<and> err \<noteq> None
            \<or> filter_ns env c' = (filter_ns env c)(kac_Namespace kac := kac_Resources kac) \<and> guarded req c')"
proof (cases "re_fails env (cl_calls c)")
  case True
  with run show ?thesis by (auto simp: kac_Reconcile_def api_get_def)
next
  case False
  show ?thesis
  proof (cases "resourceFinalizerName \<in> set (kac_Finalizers kac)")
    case True
    with run found live False have "finish (reconcile_live env kac (called c)) = (err, c')"
      by (simp add: kac_Reconcile_def api_get_def)
    then show ?thesis using found True
      by (elim finish_cases; elim reconcile_live_cases)
        (auto simp: guarded_def dest: config_view_filter [of _ _ env])
  next
    case nofin: False
    let ?k = "kac\<lparr>kac_Finalizers := kac_Finalizers kac @ [resourceFinalizerName]\<rparr>"
    from run found live False nofin
    have fin: "finish (and_then (api_update (re_fails env) cl_kacs cl_kacs_update req ?k (called c))
        (\<lambda>_. reconcile_live env ?k)) = (err, c')"
      by (simp add: kac_Reconcile_def api_get_def Let_def)
    obtain r c1 where upd: "api_update (re_fails env) cl_kacs cl_kacs_update req ?k (called c) = (r, c1)"
      by (cases "api_update (re_fails env) cl_kacs cl_kacs_update req ?k (called c)")
    from upd show ?thesis
    proof (rule kac_update_cases)
      fix e assume "r = Inl e" "config_view c1 = config_view (called c)"
      with fin upd show ?thesis by (auto simp: finish_def dest: config_view_filter [of _ _ env])
    next
      assume r: "r = Inr ?k" and k: "cl_kacs c1 = gomap_set (cl_kacs (called c)) req ?k"
        and sf: "cl_sinkFilters c1 = cl_sinkFilters (called c)"
      from sf have v: "filter_ns env c1 = filter_ns env c \<and> filter_cluster env c1 = filter_cluster env c"
        using filter_view [of c1 c] by simp
      from fin upd r have "finish (reconcile_live env ?k c1) = (err, c')" by simp
      then show ?thesis using k v
        by (elim finish_cases; elim reconcile_live_cases)
          (auto simp: guarded_def dest: config_view_filter [of _ _ env])
    qed
  qed
qed

section \<open>A run for a terminating configuration\<close>

text \<open>The binding of the vacuum's role in the namespace of KubeArchive, and its subjects.\<close>

definition vacuum_binding :: "reconcile_env \<Rightarrow> cluster \<Rightarrow> rbac_binding option" where
  "vacuum_binding env c = gomap_get (cl_roleBindings c) (re_namespace env, KubeArchiveVacuumName)"

definition vacuum_subjects :: "reconcile_env \<Rightarrow> cluster \<Rightarrow> subject set" where
  "vacuum_subjects env c = (case vacuum_binding env c of None \<Rightarrow> {} | Some b \<Rightarrow> set (rb_Subjects b))"

lemma unbind_ok:
  assumes "reconcileKubeArchiveVacuumRoleBinding env kac False c = (Inr b, c')"
  shows "vacuum_subjects env c' =
           (if vacuum_binding env c = None then {newSubject (kac_Namespace kac) KubeArchiveVacuumName}
            else vacuum_subjects env c - {newSubject (kac_Namespace kac) KubeArchiveVacuumName})"
    and "config_view c' = config_view c" and "vacuum_binding env c' \<noteq> None"
proof -
  let ?d = "(desiredRoleBinding (re_namespace env) KubeArchiveVacuumName ''Role''
    [newSubject (kac_Namespace kac) KubeArchiveVacuumName])\<lparr>rb_Owner := None\<rparr>"
  from assms have "upsert (re_fails env) cl_roleBindings cl_roleBindings_update (re_namespace env, KubeArchiveVacuumName) ?d
      (\<lambda>existing. existing\<lparr>rb_Subjects := removeSubjects (rb_Subjects existing) (rb_Subjects ?d)\<rparr>) c = (Inr b, c')"
    by (simp add: reconcileKubeArchiveVacuumRoleBinding_def reconcileRoleBinding_def Let_def)
  from roleBindings.upsert_stores [OF this]
  show "vacuum_subjects env c' =
           (if vacuum_binding env c = None then {newSubject (kac_Namespace kac) KubeArchiveVacuumName}
            else vacuum_subjects env c - {newSubject (kac_Namespace kac) KubeArchiveVacuumName})"
    "vacuum_binding env c' \<noteq> None"
    by (auto simp: vacuum_subjects_def vacuum_binding_def set_removeSubjects desiredRoleBinding_def split: option.splits)
  show "config_view c' = config_view c"
    using view_reconcileRoleBinding [of env None _ _ _ False _ c] assms
    by (metis reconcileKubeArchiveVacuumRoleBinding_def snd_conv)
qed

lemma terminating_run:
  assumes found: "gomap_get (cl_kacs c) req = Some kac" and dead: "\<not> is_zero_time (kac_DeletionTimestamp kac)"
    and fin: "resourceFinalizerName \<in> set (kac_Finalizers kac)"
    and run: "kac_Reconcile env req c = (err, c')"
  shows "filter_cluster env c' = filter_cluster env c
         \<and> (guarded req c' \<and> err \<noteq> None \<and> filter_ns env c' \<in> {filter_ns env c, (filter_ns env c)(kac_Namespace kac := None)}
            \<or> \<not> guarded req c' \<and> err = None \<and> filter_ns env c' = (filter_ns env c)(kac_Namespace kac := None)
               \<and> vacuum_subjects env c' =
                   (if vacuum_binding env c = None then {newSubject (kac_Namespace kac) KubeArchiveVacuumName}
                    else vacuum_subjects env c - {newSubject (kac_Namespace kac) KubeArchiveVacuumName}))"
proof (cases "re_fails env (cl_calls c)")
  case True
  with run found fin show ?thesis by (auto simp: kac_Reconcile_def api_get_def guarded_def)
next
  case False
  let ?k = "kac\<lparr>kac_Finalizers := removeAll resourceFinalizerName (kac_Finalizers kac)\<rparr>"
  let ?upd = "\<lambda>c. api_update (re_fails env) cl_kacs cl_kacs_update req ?k c"
  obtain r1 c1 where s1: "updateSinkFilterNamespace env (kac_Namespace kac) None (called c) = (r1, c1)"
    by (cases "updateSinkFilterNamespace env (kac_Namespace kac) None (called c)")
  obtain r2 c2 where s2: "reconcileKubeArchiveVacuumRoleBinding env kac False c1 = (r2, c2)"
    by (cases "reconcileKubeArchiveVacuumRoleBinding env kac False c1")
  obtain r3 c3 where s3: "?upd c2 = (r3, c3)" by (cases "?upd c2")
  from run found dead fin False s1
  have run': "finish (and_then (r1, c1) (\<lambda>_ c2. and_then (reconcileKubeArchiveVacuumRoleBinding env kac False c2)
      (\<lambda>_ c3. ?upd c3))) = (err, c')"
    by (simp add: kac_Reconcile_def api_get_def)
  show ?thesis
  proof (cases r1)
    case (Inl e)
    with run' have "err \<noteq> None" "c' = c1" by (auto simp: finish_def)
    with updateSinkFilterNamespace_fails(1) [OF s1 [unfolded Inl]] found fin show ?thesis
      by (auto simp: guarded_def dest!: config_view_filter [of _ _ env])
  next
    case (Inr v)
    note ok1 = updateSinkFilterNamespace_ok [OF s1 [unfolded Inr]]
    show ?thesis
    proof (cases r2)
      case (Inl e)
      with run' Inr s2 have e: "err \<noteq> None" "c' = c2" by (auto simp: finish_def)
      have "config_view c2 = config_view c1"
        using view_reconcileRoleBinding [of env None _ _ _ False _ c1] s2
        by (metis reconcileKubeArchiveVacuumRoleBinding_def snd_conv)
      from config_view_filter [OF this, of env] e ok1 found fin show ?thesis by (auto simp: guarded_def)
    next
      case r2: (Inr b)
      note ok2 = unbind_ok [OF s2 [unfolded r2]]
      from run' Inr s2 r2 s3 have run3: "finish (r3, c3) = (err, c')" by simp
      from s3 show ?thesis
      proof (rule kac_update_cases)
        fix e assume "r3 = Inl e" "config_view c3 = config_view c2"
        with run3 config_view_filter [of c3 c2 env] config_view_filter [OF ok2(2), of env] ok1 found fin
        show ?thesis by (auto simp: finish_def guarded_def)
      next
        assume r3: "r3 = Inr ?k" "cl_kacs c3 = gomap_set (cl_kacs c2) req ?k" "cl_sinkFilters c3 = cl_sinkFilters c2"
          "cl_roleBindings c3 = cl_roleBindings c2"
        with run3 have e: "err = None" "c' = c3" by (auto simp: finish_def)
        have "\<not> guarded req c3" using r3(2) by (auto simp: guarded_def)
        moreover have "vacuum_subjects env c3 = vacuum_subjects env c2"
          using r3(4) by (simp add: vacuum_subjects_def vacuum_binding_def)
        moreover have "vacuum_binding env c1 = vacuum_binding env c" "vacuum_subjects env c1 = vacuum_subjects env c"
          using ok1(5) by (simp_all add: vacuum_subjects_def vacuum_binding_def)
        ultimately show ?thesis
          using e filter_view [OF r3(3), of env] config_view_filter [OF ok2(2), of env] ok1 ok2(1) by simp
      qed
    qed
  qed
qed

end
