(* ===== verification/Config_Runs.thy ===== *)
theory Config_Runs
  imports Config_Reconcile
begin

text \<open>
  What the two configuration controllers achieve: a run keeps the stored configurations but for
  their finalizers, succeeds when no call fails, and gives the sink its permissions; and the
  SinkFilter under any interleaving of runs of both controllers with faults of their own.
\<close>

section \<open>Runs keep the configurations\<close>

text \<open>A run changes nothing of a stored configuration but its finalizers.\<close>

definition spec_of :: "cluster \<Rightarrow> nsname \<Rightarrow> kubeArchiveConfig option" where
  "spec_of c req = map_option (\<lambda>kac. kac\<lparr>kac_Finalizers := []\<rparr>) (gomap_get (cl_kacs c) req)"

definition cluster_spec_of :: "cluster \<Rightarrow> nsname \<Rightarrow> clusterKubeArchiveConfig option" where
  "cluster_spec_of c req = map_option (\<lambda>ckac. ckac\<lparr>ckac_Finalizers := []\<rparr>) (gomap_get (cl_ckacs c) req)"

definition specs :: "cluster \<Rightarrow> (nsname \<Rightarrow> kubeArchiveConfig option) \<times> (nsname \<Rightarrow> clusterKubeArchiveConfig option)" where
  "specs c = (spec_of c, cluster_spec_of c)"

lemma specs_view: "cl_kacs c' = cl_kacs c \<Longrightarrow> cl_ckacs c' = cl_ckacs c \<Longrightarrow> specs c' = specs c"
  by (simp add: specs_def spec_of_def cluster_spec_of_def fun_eq_iff)

lemma specs_called [simp]: "specs (called c) = specs c"
  by (rule specs_view) simp_all

lemma specs_filter: "specs (cl_sinkFilters_update f c) = specs c"
  by (rule specs_view) simp_all

lemma specs_finish: "specs (snd (finish p)) = specs (snd p)"
  by (cases p; cases "fst p") (auto simp: finish_def)

lemma specs_config_view: "config_view c' = config_view c \<Longrightarrow> specs c' = specs c"
  by (rule specs_view) (simp_all add: config_view_def)

lemma specs_updateSinkFilterNamespace: "specs (snd (updateSinkFilterNamespace env ns rs c)) = specs c"
  unfolding updateSinkFilterNamespace_def by (rule view_upsert [where view = specs]) (simp_all only: specs_called specs_filter)

lemma specs_updateSinkFilterCluster: "specs (snd (updateSinkFilterCluster env rs c)) = specs c"
  unfolding updateSinkFilterCluster_def by (rule view_upsert [where view = specs]) (simp_all only: specs_called specs_filter)

lemma specs_kac_update:
  assumes "spec_of c req = Some (kac\<lparr>kac_Finalizers := []\<rparr>)"
  shows "specs (snd (api_update fails cl_kacs cl_kacs_update req (kac\<lparr>kac_Finalizers := fs\<rparr>) c)) = specs c"
  using assms by (auto simp: api_update_def specs_def spec_of_def cluster_spec_of_def fun_eq_iff split: option.splits)

lemma specs_ckac_update:
  assumes "cluster_spec_of c req = Some (ckac\<lparr>ckac_Finalizers := []\<rparr>)"
  shows "specs (snd (api_update fails cl_ckacs cl_ckacs_update req (ckac\<lparr>ckac_Finalizers := fs\<rparr>) c)) = specs c"
  using assms by (auto simp: api_update_def specs_def spec_of_def cluster_spec_of_def fun_eq_iff split: option.splits)

lemma specs_reconcile_live: "specs (snd (reconcile_live env kac c)) = specs c"
  unfolding reconcile_live_alt
  by (rule view_and_then [where view = specs], rule specs_updateSinkFilterNamespace)
    (simp only: specs_config_view [OF view_rbac_live])

lemma specs_unbind: "specs (snd (reconcileKubeArchiveVacuumRoleBinding env kac add c)) = specs c"
  by (rule specs_config_view) (simp add: reconcileKubeArchiveVacuumRoleBinding_def)

lemma specs_kac_Reconcile: "specs (snd (kac_Reconcile env req c)) = specs c"
proof (cases "api_get (re_fails env) cl_kacs req c")
  case (Pair r c1)
  then have c1: "specs c1 = specs c" by (auto simp: api_get_def)
  show ?thesis
  proof (cases r)
    case (Inl e)
    with Pair c1 show ?thesis by (cases e) (simp_all add: kac_Reconcile_def)
  next
    case (Inr kac)
    with Pair have s1: "spec_of c1 req = Some (kac\<lparr>kac_Finalizers := []\<rparr>)"
      by (auto simp: api_get_def spec_of_def split: if_splits option.splits)
    then have k: "specs c2 = specs c \<Longrightarrow> spec_of c2 req = Some (kac\<lparr>kac_Finalizers := []\<rparr>)" for c2
      using c1 by (simp add: specs_def)
    have adding: "specs (snd (and_then (api_update (re_fails env) cl_kacs cl_kacs_update req (kac\<lparr>kac_Finalizers := fs\<rparr>) c1)
        (\<lambda>_. reconcile_live env kac'))) = specs c" for fs kac'
      by (rule view_and_then [where view = specs]) (simp_all add: specs_kac_update s1 c1 specs_reconcile_live)
    have removing: "specs (snd (and_then (updateSinkFilterNamespace env (kac_Namespace kac) None c1)
        (\<lambda>_ c2. and_then (reconcileKubeArchiveVacuumRoleBinding env kac False c2)
          (\<lambda>_. api_update (re_fails env) cl_kacs cl_kacs_update req (kac\<lparr>kac_Finalizers := fs\<rparr>))))) = specs c" for fs
      by (intro view_and_then [where view = specs]) (simp_all add: specs_updateSinkFilterNamespace specs_unbind specs_kac_update k c1)
    show ?thesis
      using Pair Inr adding removing by (simp add: kac_Reconcile_def Let_def specs_finish specs_reconcile_live c1)
  qed
qed

lemma specs_ckac_Reconcile: "specs (snd (ckac_Reconcile env req c)) = specs c"
proof (cases "api_get (re_fails env) cl_ckacs req c")
  case (Pair r c1)
  then have c1: "specs c1 = specs c" by (auto simp: api_get_def)
  show ?thesis
  proof (cases r)
    case (Inl e)
    with Pair c1 show ?thesis by (cases e) (simp_all add: ckac_Reconcile_def)
  next
    case (Inr ckac)
    with Pair have s1: "cluster_spec_of c1 req = Some (ckac\<lparr>ckac_Finalizers := []\<rparr>)"
      by (auto simp: api_get_def cluster_spec_of_def split: if_splits option.splits)
    then have k: "specs c2 = specs c \<Longrightarrow> cluster_spec_of c2 req = Some (ckac\<lparr>ckac_Finalizers := []\<rparr>)" for c2
      using c1 by (simp add: specs_def)
    have adding: "specs (snd (and_then (api_update (re_fails env) cl_ckacs cl_ckacs_update req (ckac\<lparr>ckac_Finalizers := fs\<rparr>) c1)
        (\<lambda>_. updateSinkFilterCluster env rs))) = specs c" for fs rs
      by (rule view_and_then [where view = specs]) (simp_all add: specs_ckac_update s1 c1 specs_updateSinkFilterCluster)
    have removing: "specs (snd (and_then (updateSinkFilterCluster env [] c1)
        (\<lambda>_. api_update (re_fails env) cl_ckacs cl_ckacs_update req (ckac\<lparr>ckac_Finalizers := fs\<rparr>)))) = specs c" for fs
      by (intro view_and_then [where view = specs]) (simp_all add: specs_updateSinkFilterCluster specs_ckac_update k c1)
    show ?thesis
      using Pair Inr adding removing by (simp add: ckac_Reconcile_def Let_def specs_finish specs_updateSinkFilterCluster c1)
  qed
qed

lemma cluster_run:
  assumes "\<And>ckac. gomap_get (cl_ckacs c) req = Some ckac \<Longrightarrow> is_zero_time (ckac_DeletionTimestamp ckac)"
    and run: "ckac_Reconcile env req c = (err, c')"
  shows "filter_ns env c' \<in> {filter_ns env c, (filter_ns env c)(SinkFilterGlobalNamespace := None)}
         \<and> (filter_cluster env c' = filter_cluster env c \<and> (err \<noteq> None \<or> gomap_get (cl_ckacs c) req = None)
            \<or> gomap_get (cl_ckacs c) req \<noteq> None \<and> filter_cluster env c' = ckac_Resources (the (gomap_get (cl_ckacs c) req)))"
proof -
  have upd: "filter_ns env c2 \<in> {filter_ns env c, (filter_ns env c)(SinkFilterGlobalNamespace := None)}
      \<and> (filter_cluster env c2 = filter_cluster env c \<and> (\<exists>e. r = Inl e) \<or> filter_cluster env c2 = rs)"
    if "updateSinkFilterCluster env rs c1 = (r, c2)" and "cl_sinkFilters c1 = cl_sinkFilters c" for rs c1 r c2
  proof (cases r)
    case (Inl e)
    with that filter_view [of c1 c env] show ?thesis
      by (auto dest!: updateSinkFilterCluster_fails config_view_filter [of _ _ env])
  next
    case (Inr v)
    with updateSinkFilterCluster_ok [of env rs c1 v c2] that filter_view [of c1 c env] show ?thesis by simp
  qed
  show ?thesis
  proof (cases "re_fails env (cl_calls c) \<or> gomap_get (cl_ckacs c) req = None")
    case True
    with run show ?thesis by (auto simp: ckac_Reconcile_def api_get_def split: if_splits)
  next
    case False
    then obtain ckac where found: "gomap_get (cl_ckacs c) req = Some ckac" "\<not> re_fails env (cl_calls c)" by auto
    note live = assms(1) [OF found(1)]
    obtain r c2 where u: "updateSinkFilterCluster env (ckac_Resources ckac) (called c) = (r, c2)"
      by (cases "updateSinkFilterCluster env (ckac_Resources ckac) (called c)")
    show ?thesis
    proof (cases "resourceFinalizerName \<in> set (ckac_Finalizers ckac)")
      case True
      with run found live u have "finish (r, c2) = (err, c')" by (simp add: ckac_Reconcile_def api_get_def)
      with upd [OF u] found show ?thesis by (auto simp: finish_def split: sum.splits)
    next
      case nofin: False
      let ?k = "ckac\<lparr>ckac_Finalizers := ckac_Finalizers ckac @ [resourceFinalizerName]\<rparr>"
      obtain r1 c1 where a: "api_update (re_fails env) cl_ckacs cl_ckacs_update req ?k (called c) = (r1, c1)"
        by (cases "api_update (re_fails env) cl_ckacs cl_ckacs_update req ?k (called c)")
      then have sf: "cl_sinkFilters c1 = cl_sinkFilters c" by (auto simp: api_update_def split: if_splits)
      from run found live nofin a
      have fin: "finish (and_then (r1, c1) (\<lambda>_. updateSinkFilterCluster env (ckac_Resources ckac))) = (err, c')"
        by (simp add: ckac_Reconcile_def api_get_def Let_def)
      show ?thesis
      proof (cases r1)
        case (Inl e)
        with fin sf filter_view [OF sf, of env] show ?thesis by (auto simp: finish_def)
      next
        case (Inr x)
        obtain r3 c3 where v: "updateSinkFilterCluster env (ckac_Resources ckac) c1 = (r3, c3)"
          by (cases "updateSinkFilterCluster env (ckac_Resources ckac) c1")
        with fin Inr have "finish (r3, c3) = (err, c')" by simp
        with upd [OF v sf] found show ?thesis by (auto simp: finish_def split: sum.splits)
      qed
    qed
  qed
qed

section \<open>Runs without faults\<close>

text \<open>No call fails, and every configuration can be made an owner.\<close>

definition healthy :: "reconcile_env \<Rightarrow> bool" where
  "healthy env \<longleftrightarrow> (\<forall>n. \<not> re_fails env n) \<and> (\<forall>kac. re_setOwner env kac)"

lemma healthy_role: "healthy env \<Longrightarrow> \<exists>v c'. reconcileRole env kac ns name rules c = (Inr v, c')"
  by (auto simp: reconcileRole_def healthy_def Let_def split: option.split intro: roles.upsert_succeeds)

lemma healthy_binding: "healthy env \<Longrightarrow> \<exists>v c'. reconcileRoleBinding env kac ns name kind add subjects c = (Inr v, c')"
  by (auto simp: reconcileRoleBinding_def healthy_def Let_def split: option.split intro: roleBindings.upsert_succeeds)

lemma healthy_account: "healthy env \<Longrightarrow> \<exists>v c'. reconcileServiceAccount env kac ns name c = (Inr v, c')"
  by (auto simp: reconcileServiceAccount_def healthy_def api_get_def api_create_def split: option.split)

lemma healthy_sinkRole: "healthy env \<Longrightarrow> \<exists>v c'. reconcileSinkRole env kac c = (Inr v, c')"
  by (auto simp: reconcileSinkRole_def Let_def api_get_def split: option.split intro: healthy_role)

lemma healthy_vacuumRole: "healthy env \<Longrightarrow> \<exists>v c'. reconcileVacuumRole env kac c = (Inr v, c')"
  by (auto simp: reconcileVacuumRole_def Let_def api_get_def healthy_def [of env] split: option.split
      intro: healthy_role [unfolded healthy_def])

lemma healthy_filter: "healthy env \<Longrightarrow> \<exists>v c'. updateSinkFilterNamespace env ns rs c = (Inr v, c')"
  unfolding updateSinkFilterNamespace_def by (rule sinkFilters.upsert_succeeds) (simp add: healthy_def)

lemma healthy_live:
  assumes "healthy env"
  shows "\<exists>v c'. reconcile_live env kac c = (Inr v, c')"
  unfolding reconcile_live_def reconcileVacuumResources_def reconcileSinkRoleBinding_def reconcileVacuumServiceAccount_def
    reconcileLocalVacuumRoleBinding_def reconcileKubeArchiveVacuumRoleBinding_def
  by (intro and_then_succeeds healthy_filter healthy_sinkRole healthy_binding healthy_account healthy_vacuumRole assms)

lemma healthy_run:
  assumes "healthy env"
  shows "fst (kac_Reconcile env req c) = None"
proof (cases "gomap_get (cl_kacs c) req")
  case None
  with assms show ?thesis by (simp add: kac_Reconcile_def api_get_def healthy_def)
next
  case (Some kac)
  from assms have nf: "\<not> re_fails env n" for n by (simp add: healthy_def)
  have live: "fst (finish (reconcile_live env k c1)) = None" for k c1
    using healthy_live [OF assms, of k c1] by (auto simp: finish_def)
  have upd: "\<exists>c2. api_update (re_fails env) cl_kacs cl_kacs_update req k c1 = (Inr k, c2)"
    if "cl_kacs c1 = cl_kacs c" for k c1
    using that Some nf by (simp add: api_update_def)
  have adding: "fst (finish (and_then (api_update (re_fails env) cl_kacs cl_kacs_update req k (called c)) (\<lambda>_. reconcile_live env k))) = None" for k
    using upd [of "called c" k] live by (auto simp: finish_def split: sum.splits)
  have removing: "fst (finish (and_then (updateSinkFilterNamespace env ns None (called c))
      (\<lambda>_ c2. and_then (reconcileKubeArchiveVacuumRoleBinding env kac False c2)
        (\<lambda>_. api_update (re_fails env) cl_kacs cl_kacs_update req k)))) = None" for ns k
  proof -
    obtain v c1 where s1: "updateSinkFilterNamespace env ns None (called c) = (Inr v, c1)"
      using healthy_filter [OF assms] by blast
    obtain b c2 where s2: "reconcileKubeArchiveVacuumRoleBinding env kac False c1 = (Inr b, c2)"
      using healthy_binding [OF assms] unfolding reconcileKubeArchiveVacuumRoleBinding_def by blast
    have "cl_kacs c2 = cl_kacs c"
      using updateSinkFilterNamespace_ok(3) [OF s1] unbind_ok(2) [OF s2] by (simp add: config_view_def)
    from upd [OF this, of k] s1 s2 show ?thesis by (auto simp: finish_def)
  qed
  show ?thesis using Some nf live adding removing by (simp add: kac_Reconcile_def api_get_def Let_def)
qed

section \<open>The permissions of the sink\<close>

definition sink_view :: "string \<Rightarrow> cluster \<Rightarrow> rbac_role option \<times> rbac_binding option" where
  "sink_view ns c =
     (gomap_get (cl_roles c) (ns, KubeArchiveSinkName), gomap_get (cl_roleBindings c) (ns, KubeArchiveSinkName))"

lemma names_differ: "KubeArchiveVacuumName \<noteq> KubeArchiveSinkName"
  by (simp add: KubeArchiveVacuumName_def KubeArchiveSinkName_def)

lemma sink_view_called [simp]: "sink_view ns (called c) = sink_view ns c"
  by (simp add: sink_view_def)

lemma sink_view_set [simp]:
  "name \<noteq> KubeArchiveSinkName \<Longrightarrow> sink_view ns (cl_roles_update (\<lambda>m. gomap_set m (ns', name) role) c) = sink_view ns c"
  "name \<noteq> KubeArchiveSinkName \<Longrightarrow> sink_view ns (cl_roleBindings_update (\<lambda>m. gomap_set m (ns', name) b) c) = sink_view ns c"
  "sink_view ns (cl_serviceAccounts_update f c) = sink_view ns c"
  by (auto simp: sink_view_def)

lemma sink_view_role: "name \<noteq> KubeArchiveSinkName \<Longrightarrow> sink_view ns (snd (reconcileRole env kac ns' name rules c)) = sink_view ns c"
  by (simp add: reconcileRole_def Let_def view_upsert [where view = "sink_view ns"])

lemma sink_view_binding:
  "name \<noteq> KubeArchiveSinkName \<Longrightarrow> sink_view ns (snd (reconcileRoleBinding env kac ns' name kind add subjects c)) = sink_view ns c"
  by (simp add: reconcileRoleBinding_def Let_def view_upsert [where view = "sink_view ns"])

lemma sink_view_account: "sink_view ns (snd (reconcileServiceAccount env kac ns' name c)) = sink_view ns c"
  by (simp add: reconcileServiceAccount_def api_get_def view_create [where view = "sink_view ns"] split: option.split)

lemma sink_view_vacuumRole: "sink_view ns (snd (reconcileVacuumRole env kac c)) = sink_view ns c"
  by (simp add: reconcileVacuumRole_def api_get_def Let_def sink_view_role names_differ split: option.split)

lemma reconcileRole_name:
  assumes "reconcileRole env kac ns name rules c = (Inr role, c')"
    and "\<And>r. gomap_get (cl_roles c) (ns, name) = Some r \<Longrightarrow> ro_Name r = name"
  shows "ro_Name role = name \<and> ro_Rules role = rules \<and> gomap_get (cl_roles c') (ns, name) = Some role
         \<and> cl_roleBindings c' = cl_roleBindings c \<and> cl_roles c' = gomap_set (cl_roles c) (ns, name) role"
proof -
  let ?d = "(desiredRole ns name rules)\<lparr>ro_Owner := map_option owner_key kac\<rparr>"
  from assms(1) have "upsert (re_fails env) cl_roles cl_roles_update (ns, name) ?d
      (\<lambda>existing. existing\<lparr>ro_Rules := ro_Rules ?d\<rparr>) c = (Inr role, c')"
    by (auto simp: reconcileRole_def Let_def split: if_splits)
  from roles.upsert_stores [OF this] assms(2) show ?thesis by (auto simp: desiredRole_def split: option.splits)
qed

lemma reconcileRoleBinding_adds:
  assumes "reconcileRoleBinding env kac ns name kind True subjects c = (Inr b, c')"
  shows "gomap_get (cl_roleBindings c') (ns, name) = Some b \<and> set subjects \<subseteq> set (rb_Subjects b) \<and> cl_roles c' = cl_roles c"
proof -
  let ?d = "(desiredRoleBinding ns name kind subjects)\<lparr>rb_Owner := map_option owner_key kac\<rparr>"
  from assms(1) have "upsert (re_fails env) cl_roleBindings cl_roleBindings_update (ns, name) ?d
      (\<lambda>existing. existing\<lparr>rb_Subjects := mergeSubjects (rb_Subjects existing) (rb_Subjects ?d)\<rparr>) c = (Inr b, c')"
    by (auto simp: reconcileRoleBinding_def Let_def split: if_splits)
  from roleBindings.upsert_stores [OF this] show ?thesis by (auto simp: desiredRoleBinding_def set_mergeSubjects split: option.splits)
qed

lemma vacuumRole_name:
  assumes "reconcileVacuumRole env kac c = (Inr role, c')"
    and "\<And>r. gomap_get (cl_roles c) (kac_Namespace kac, KubeArchiveVacuumName) = Some r \<Longrightarrow> ro_Name r = KubeArchiveVacuumName"
  shows "ro_Name role = KubeArchiveVacuumName"
proof -
  from assms(1) obtain rules where
    "reconcileRole env (Some kac) (kac_Namespace kac) KubeArchiveVacuumName rules (called c) = (Inr role, c')"
    by (auto simp: reconcileVacuumRole_def api_get_def Let_def split: if_splits option.splits)
  from reconcileRole_name [OF this] assms(2) show ?thesis by simp
qed

lemma roles_account: "cl_roles (snd (reconcileServiceAccount env kac ns name c)) = cl_roles c"
  by (simp add: reconcileServiceAccount_def api_get_def view_create [where view = cl_roles] split: option.split)

lemma vacuum_keeps_sink:
  assumes "reconcileVacuumResources env kac c = (Inr r, c')"
    and "\<And>role. gomap_get (cl_roles c) (kac_Namespace kac, KubeArchiveVacuumName) = Some role \<Longrightarrow> ro_Name role = KubeArchiveVacuumName"
  shows "sink_view ns c' = sink_view ns c"
proof -
  from assms(1) obtain w4 c4 rv c5 w6 c6 where
      a4: "reconcileVacuumServiceAccount env kac c = (Inr w4, c4)"
    and a5: "reconcileVacuumRole env kac c4 = (Inr rv, c5)"
    and a6: "reconcileLocalVacuumRoleBinding env kac rv c5 = (Inr w6, c6)"
    and a7: "reconcileKubeArchiveVacuumRoleBinding env kac True c6 = (Inr r, c')"
    by (auto simp: reconcileVacuumResources_def and_then_ok)
  from a4 have c4: "sink_view ns c4 = sink_view ns c" "cl_roles c4 = cl_roles c"
    using sink_view_account [of ns env "Some kac" "kac_Namespace kac" KubeArchiveVacuumName c]
      roles_account [of env "Some kac" "kac_Namespace kac" KubeArchiveVacuumName c]
    by (simp_all add: reconcileVacuumServiceAccount_def)
  have "ro_Name rv = KubeArchiveVacuumName" by (rule vacuumRole_name [OF a5]) (simp add: c4 assms(2))
  with a6 have "sink_view ns c6 = sink_view ns c5"
    using sink_view_binding [OF names_differ] by (metis reconcileLocalVacuumRoleBinding_def snd_conv)
  moreover from a7 have "sink_view ns c' = sink_view ns c6"
    using sink_view_binding [OF names_differ] by (metis reconcileKubeArchiveVacuumRoleBinding_def snd_conv)
  moreover from a5 have "sink_view ns c5 = sink_view ns c4" by (metis sink_view_vacuumRole snd_conv)
  ultimately show ?thesis by (simp add: c4)
qed

text \<open>Objects are stored under their own names.\<close>

definition roles_named :: "cluster \<Rightarrow> bool" where
  "roles_named c \<longleftrightarrow> (\<forall>k role. gomap_get (cl_roles c) k = Some role \<longrightarrow> ro_Name role = snd k)"

text \<open>The selectors a namespace archives: its own and those of the cluster.\<close>

definition archived_selectors :: "kubeArchiveConfig \<Rightarrow> cluster \<Rightarrow> apiVersionKind list" where
  "archived_selectors kac c =
     map kr_Selector (kacResources kac)
     @ (case gomap_get (cl_ckacs c) ckac_key of None \<Rightarrow> [] | Some ckac \<Rightarrow> map cr_Selector (ckac_Resources ckac))"

text \<open>What the role and the binding of the sink have to be.\<close>

definition sink_permitted :: "reconcile_env \<Rightarrow> string \<Rightarrow> apiVersionKind list \<Rightarrow> cluster \<Rightarrow> bool" where
  "sink_permitted env ns selectors c \<longleftrightarrow>
     (\<exists>role b. sink_view ns c = (Some role, Some b)
        \<and> ro_Rules role = createPolicyRules (re_mapping env) selectors [''delete'']
        \<and> newSubject (re_namespace env) KubeArchiveSinkName \<in> set (rb_Subjects b))"

lemma live_permits:
  assumes "reconcile_live env kac c = (Inr r, c')" and "\<And>n. \<not> re_fails env n"
    and named: "roles_named c"
  shows "sink_permitted env (kac_Namespace kac) (archived_selectors kac c) c'"
proof -
  let ?ns = "kac_Namespace kac"
  from assms(1) obtain v c1 role c2 b c3 where
      s1: "updateSinkFilterNamespace env ?ns (kac_Resources kac) c = (Inr v, c1)"
    and s2: "reconcileSinkRole env kac c1 = (Inr role, c2)"
    and s3: "reconcileSinkRoleBinding env kac role c2 = (Inr b, c3)"
    and s4: "reconcileVacuumResources env kac c3 = (Inr r, c')"
    by (auto simp: reconcile_live_def and_then_ok)
  note same = updateSinkFilterNamespace_ok(4,6) [OF s1]
  have "reconcileRole env (Some kac) ?ns KubeArchiveSinkName
      (createPolicyRules (re_mapping env) (archived_selectors kac c) [''delete'']) (called c1) = (Inr role, c2)"
    using s2 assms(2) same by (auto simp: reconcileSinkRole_def api_get_def archived_selectors_def Let_def split: option.splits)
  from reconcileRole_name [OF this] named same(2)
  have role: "ro_Name role = KubeArchiveSinkName" "gomap_get (cl_roles c2) (?ns, KubeArchiveSinkName) = Some role"
      "ro_Rules role = createPolicyRules (re_mapping env) (archived_selectors kac c) [''delete'']"
    and c2: "cl_roles c2 = gomap_set (cl_roles c) (?ns, KubeArchiveSinkName) role"
    by (auto simp: roles_named_def)
  from s3 have "reconcileRoleBinding env (Some kac) ?ns KubeArchiveSinkName ''Role'' True
      [newSubject (re_namespace env) KubeArchiveSinkName] c2 = (Inr b, c3)"
    by (simp add: reconcileSinkRoleBinding_def role(1))
  from reconcileRoleBinding_adds [OF this] role(2)
  have v3: "sink_view ?ns c3 = (Some role, Some b)" "newSubject (re_namespace env) KubeArchiveSinkName \<in> set (rb_Subjects b)"
    and c3: "cl_roles c3 = cl_roles c2"
    by (auto simp: sink_view_def)
  have "sink_view ?ns c' = sink_view ?ns c3"
    by (rule vacuum_keeps_sink [OF s4]) (use named names_differ in \<open>auto simp: c3 c2 roles_named_def\<close>)
  with v3 role(3) show ?thesis by (auto simp: sink_permitted_def)
qed

section \<open>Interleaved runs\<close>

text \<open>The operator runs the two controllers in some order, each run with faults of its own. The log
  keeps what every run was for and what it returned.\<close>

datatype run = KacRun faults nsname | CkacRun faults nsname

fun run_one :: "reconcile_env \<Rightarrow> run \<Rightarrow> cluster \<Rightarrow> api_error option \<times> cluster" where
  "run_one env (KacRun fails req) c = kac_Reconcile (env\<lparr>re_fails := fails\<rparr>) req c"
| "run_one env (CkacRun fails req) c = ckac_Reconcile (env\<lparr>re_fails := fails\<rparr>) req c"

fun run_all :: "reconcile_env \<Rightarrow> run list \<Rightarrow> cluster \<Rightarrow> (run \<times> api_error option) list \<times> cluster" where
  "run_all env [] c = ([], c)"
| "run_all env (r # rs) c =
     (case run_one env r c of (err, c1) \<Rightarrow>
        (case run_all env rs c1 of (log, c2) \<Rightarrow> ((r, err) # log, c2)))"

fun is_kac_run :: "nsname \<Rightarrow> run \<times> api_error option \<Rightarrow> bool" where
  "is_kac_run req (KacRun _ k, _) = (k = req)"
| "is_kac_run req (CkacRun _ _, _) = False"

fun is_ckac_run :: "run \<times> api_error option \<Rightarrow> bool" where
  "is_ckac_run (CkacRun _ k, _) = (k = ckac_key)"
| "is_ckac_run (KacRun _ _, _) = False"

text \<open>The last run of a kind in the log, when it returned no error.\<close>

definition last_ok :: "(run \<times> api_error option \<Rightarrow> bool) \<Rightarrow> (run \<times> api_error option) list \<Rightarrow> bool" where
  "last_ok P log \<longleftrightarrow> (\<exists>r. last_entry P log = Some (r, None))"

lemma run_all_snoc:
  "run_all env (rs @ [r]) c =
     (case run_all env rs c of (log, c1) \<Rightarrow> (case run_one env r c1 of (err, c2) \<Rightarrow> (log @ [(r, err)], c2)))"
  by (induction rs arbitrary: c) (simp_all split: prod.split)

lemma filter_fails [simp]:
  "filter_ns (env\<lparr>re_fails := f\<rparr>) = filter_ns env" "filter_cluster (env\<lparr>re_fails := f\<rparr>) = filter_cluster env"
  by (simp_all add: filter_ns_def filter_cluster_def filter_key_def fun_eq_iff)

text \<open>What the webhooks ensure of the stored configurations, with no deletion under way.\<close>

definition configs_valid :: "cluster \<Rightarrow> bool" where
  "configs_valid c \<longleftrightarrow>
     (\<forall>req kac. gomap_get (cl_kacs c) req = Some kac \<longrightarrow>
        req = (kac_Namespace kac, KubeArchiveConfigResourceName) \<and> kac_Namespace kac \<noteq> SinkFilterGlobalNamespace
        \<and> is_zero_time (kac_DeletionTimestamp kac))
     \<and> (\<forall>req ckac. gomap_get (cl_ckacs c) req = Some ckac \<longrightarrow> req = ckac_key \<and> is_zero_time (ckac_DeletionTimestamp ckac))"

lemma same_spec:
  "kac\<lparr>kac_Finalizers := fs\<rparr> = kac'\<lparr>kac_Finalizers := fs\<rparr> \<Longrightarrow>
     kac_Namespace kac = kac_Namespace kac' \<and> kac_DeletionTimestamp kac = kac_DeletionTimestamp kac' \<and> kac_Resources kac = kac_Resources kac'"
  by (cases kac; cases kac') simp

lemma same_cluster_spec:
  "ckac\<lparr>ckac_Finalizers := fs\<rparr> = ckac'\<lparr>ckac_Finalizers := fs\<rparr> \<Longrightarrow>
     ckac_DeletionTimestamp ckac = ckac_DeletionTimestamp ckac' \<and> ckac_Resources ckac = ckac_Resources ckac'"
  by (cases ckac; cases ckac') simp

lemma specs_lookup:
  assumes "specs c' = specs c" and "gomap_get (cl_kacs c') req = Some kac'"
  obtains kac where "gomap_get (cl_kacs c) req = Some kac" and "kac_Namespace kac = kac_Namespace kac'"
    and "kac_DeletionTimestamp kac = kac_DeletionTimestamp kac'" and "kac_Resources kac = kac_Resources kac'"
proof -
  from assms have "spec_of c req = Some (kac'\<lparr>kac_Finalizers := []\<rparr>)" by (metis fst_conv option.simps(9) spec_of_def specs_def)
  then obtain kac where "gomap_get (cl_kacs c) req = Some kac" "kac\<lparr>kac_Finalizers := []\<rparr> = kac'\<lparr>kac_Finalizers := []\<rparr>"
    by (auto simp: spec_of_def)
  with same_spec that show thesis by blast
qed

lemma cluster_specs_lookup:
  assumes "specs c' = specs c" and "gomap_get (cl_ckacs c') req = Some ckac'"
  obtains ckac where "gomap_get (cl_ckacs c) req = Some ckac"
    and "ckac_DeletionTimestamp ckac = ckac_DeletionTimestamp ckac'" and "ckac_Resources ckac = ckac_Resources ckac'"
proof -
  from assms have "cluster_spec_of c req = Some (ckac'\<lparr>ckac_Finalizers := []\<rparr>)" by (metis snd_conv option.simps(9) cluster_spec_of_def specs_def)
  then obtain ckac where "gomap_get (cl_ckacs c) req = Some ckac" "ckac\<lparr>ckac_Finalizers := []\<rparr> = ckac'\<lparr>ckac_Finalizers := []\<rparr>"
    by (auto simp: cluster_spec_of_def)
  with same_cluster_spec that show thesis by blast
qed

lemma specs_run_one: "specs (snd (run_one env r c)) = specs c"
  by (cases r) (simp_all add: specs_kac_Reconcile specs_ckac_Reconcile)

lemma specs_run_all: "specs (snd (run_all env rs c)) = specs c"
  by (induction rs arbitrary: c) (simp_all add: specs_run_one split: prod.split, metis snd_conv specs_run_one)

lemma configs_validD:
  assumes "configs_valid c" and "gomap_get (cl_kacs c) req = Some kac"
  shows "req = (kac_Namespace kac, KubeArchiveConfigResourceName)" "kac_Namespace kac \<noteq> SinkFilterGlobalNamespace"
    "is_zero_time (kac_DeletionTimestamp kac)"
  using assms unfolding configs_valid_def by blast+

lemma configs_valid_clusterD:
  assumes "configs_valid c" and "gomap_get (cl_ckacs c) req = Some ckac"
  shows "req = ckac_key" "is_zero_time (ckac_DeletionTimestamp ckac)"
  using assms unfolding configs_valid_def by blast+

lemma configs_valid_specs:
  assumes "specs c' = specs c" and "configs_valid c"
  shows "configs_valid c'"
  unfolding configs_valid_def
proof (intro conjI allI impI)
  fix req kac assume "gomap_get (cl_kacs c') req = Some kac"
  with assms(1) obtain k where "gomap_get (cl_kacs c) req = Some k" and eq: "kac_Namespace k = kac_Namespace kac"
    "kac_DeletionTimestamp k = kac_DeletionTimestamp kac" by (rule specs_lookup)
  from configs_validD [OF assms(2) this(1)] eq
  show "req = (kac_Namespace kac, KubeArchiveConfigResourceName)" "kac_Namespace kac \<noteq> SinkFilterGlobalNamespace"
    "is_zero_time (kac_DeletionTimestamp kac)" by simp_all
next
  fix req ckac assume "gomap_get (cl_ckacs c') req = Some ckac"
  with assms(1) obtain k where "gomap_get (cl_ckacs c) req = Some k" and eq: "ckac_DeletionTimestamp k = ckac_DeletionTimestamp ckac"
    by (rule cluster_specs_lookup)
  from configs_valid_clusterD [OF assms(2) this(1)] eq show "req = ckac_key" "is_zero_time (ckac_DeletionTimestamp ckac)" by simp_all
qed

lemma valid_cluster_run:
  assumes "configs_valid c" and "ckac_Reconcile (env\<lparr>re_fails := f\<rparr>) req c = (err, c')"
  shows "filter_ns env c' \<in> {filter_ns env c, (filter_ns env c)(SinkFilterGlobalNamespace := None)}
         \<and> (filter_cluster env c' = filter_cluster env c \<and> (err \<noteq> None \<or> gomap_get (cl_ckacs c) req = None)
            \<or> gomap_get (cl_ckacs c) req \<noteq> None \<and> filter_cluster env c' = ckac_Resources (the (gomap_get (cl_ckacs c) req)))"
  using cluster_run [of c req "env\<lparr>re_fails := f\<rparr>" err c'] assms configs_valid_clusterD(2) [OF assms(1)]
  by (simp only: filter_fails)

lemma kac_run_missing: "gomap_get (cl_kacs c) req = None \<Longrightarrow> kac_Reconcile env req c = (err, c') \<Longrightarrow> c' = called c"
  by (auto simp: kac_Reconcile_def api_get_def split: if_splits)

text \<open>One run keeps what the runs before it achieved, and achieves its own part when it succeeds.\<close>

lemma run_one_kac:
  assumes valid: "configs_valid c" and run: "run_one env r c = (err, c')"
    and found: "gomap_get (cl_kacs c) req = Some kac"
  shows "filter_ns env c' (kac_Namespace kac) =
           (if is_kac_run req (r, err) \<and> err = None then kac_Resources kac else filter_ns env c' (kac_Namespace kac))"
    and "\<not> is_kac_run req (r, err) \<Longrightarrow> filter_ns env c' (kac_Namespace kac) = filter_ns env c (kac_Namespace kac)"
proof -
  note k = configs_validD [OF valid found]
  show "filter_ns env c' (kac_Namespace kac) =
      (if is_kac_run req (r, err) \<and> err = None then kac_Resources kac else filter_ns env c' (kac_Namespace kac))"
    using run live_run [OF found k(3), of "env\<lparr>re_fails := f\<rparr>" err c' for f]
    by (cases r) (force split: if_splits)+
  assume other: "\<not> is_kac_run req (r, err)"
  show "filter_ns env c' (kac_Namespace kac) = filter_ns env c (kac_Namespace kac)"
  proof (cases r)
    case (KacRun f req')
    show ?thesis
    proof (cases "gomap_get (cl_kacs c) req'")
      case None
      with run KacRun have "c' = called c" by (auto dest: kac_run_missing)
      then show ?thesis by simp
    next
      case (Some kac')
      have "kac_Namespace kac' \<noteq> kac_Namespace kac" "is_zero_time (kac_DeletionTimestamp kac')"
        using configs_validD [OF valid Some] other KacRun k(1) by auto
      with live_run [OF Some this(2), of "env\<lparr>re_fails := f\<rparr>" err c'] run KacRun show ?thesis by auto
    qed
  next
    case (CkacRun f req')
    with run have "ckac_Reconcile (env\<lparr>re_fails := f\<rparr>) req' c = (err, c')" by simp
    from valid_cluster_run [OF valid this] k(2) show ?thesis by auto
  qed
qed

lemma run_one_ckac:
  assumes valid: "configs_valid c" and run: "run_one env r c = (err, c')"
    and found: "gomap_get (cl_ckacs c) ckac_key = Some ckac"
  shows "is_ckac_run (r, err) \<and> err = None \<Longrightarrow> filter_cluster env c' = ckac_Resources ckac"
    and "\<not> is_ckac_run (r, err) \<Longrightarrow> filter_cluster env c' = filter_cluster env c"
proof -
  show "is_ckac_run (r, err) \<and> err = None \<Longrightarrow> filter_cluster env c' = ckac_Resources ckac"
    using run found by (cases r) (auto dest!: valid_cluster_run [OF valid])
  assume other: "\<not> is_ckac_run (r, err)"
  show "filter_cluster env c' = filter_cluster env c"
  proof (cases r)
    case (KacRun f req')
    show ?thesis
    proof (cases "gomap_get (cl_kacs c) req'")
      case None
      with run KacRun have "c' = called c" by (auto dest: kac_run_missing)
      then show ?thesis by simp
    next
      case (Some kac')
      from live_run [OF Some configs_validD(3) [OF valid Some], of "env\<lparr>re_fails := f\<rparr>" err c'] run KacRun show ?thesis by auto
    qed
  next
    case (CkacRun f req')
    with other have "req' \<noteq> ckac_key" by simp
    then have "gomap_get (cl_ckacs c) req' = None" using configs_valid_clusterD(1) [OF valid] by (metis option.exhaust)
    with run CkacRun show ?thesis by (auto dest!: valid_cluster_run [OF valid])
  qed
qed

lemma runs_reach_filter:
  assumes "configs_valid c"
  shows "(\<forall>req kac. gomap_get (cl_kacs c) req = Some kac \<and> last_ok (is_kac_run req) (fst (run_all env rs c)) \<longrightarrow>
            filter_ns env (snd (run_all env rs c)) (kac_Namespace kac) = kac_Resources kac)
         \<and> (\<forall>ckac. gomap_get (cl_ckacs c) ckac_key = Some ckac \<and> last_ok is_ckac_run (fst (run_all env rs c)) \<longrightarrow>
            filter_cluster env (snd (run_all env rs c)) = ckac_Resources ckac)"
proof (induction rs rule: rev_induct)
  case Nil
  then show ?case by (simp add: last_ok_def)
next
  case (snoc r rs)
  obtain log c1 where pre: "run_all env rs c = (log, c1)" by (cases "run_all env rs c")
  obtain err c2 where one: "run_one env r c1 = (err, c2)" by (cases "run_one env r c1")
  have all: "run_all env (rs @ [r]) c = (log @ [(r, err)], c2)" by (simp add: run_all_snoc pre one)
  have sp: "specs c1 = specs c" using specs_run_all [of env rs c] by (simp add: pre)
  have valid: "configs_valid c1" by (rule configs_valid_specs [OF sp assms])
  have step: "last_ok P (log @ [(r, err)]) \<longleftrightarrow> (if P (r, err) then err = None else last_ok P log)" for P
    by (auto simp: last_ok_def last_entry_snoc)
  have "filter_ns env c2 (kac_Namespace kac) = kac_Resources kac"
    if found: "gomap_get (cl_kacs c) req = Some kac" and ok: "last_ok (is_kac_run req) (log @ [(r, err)])" for req kac
  proof -
    obtain kac1 where k1: "gomap_get (cl_kacs c1) req = Some kac1"
      and eq: "kac_Namespace kac1 = kac_Namespace kac" "kac_Resources kac1 = kac_Resources kac"
      by (rule specs_lookup [OF sp [symmetric] found])
    note r = run_one_kac [OF valid one k1, unfolded eq]
    show ?thesis
    proof (cases "is_kac_run req (r, err)")
      case True
      with ok r(1) show ?thesis by (simp add: step)
    next
      case False
      with ok have "last_ok (is_kac_run req) log" by (simp add: step)
      with found snoc.IH have "filter_ns env c1 (kac_Namespace kac) = kac_Resources kac"
        unfolding pre fst_conv snd_conv by blast
      with r(2) [OF False] show ?thesis by simp
    qed
  qed
  moreover have "filter_cluster env c2 = ckac_Resources ckac"
    if found: "gomap_get (cl_ckacs c) ckac_key = Some ckac" and ok: "last_ok is_ckac_run (log @ [(r, err)])" for ckac
  proof -
    obtain ckac1 where k1: "gomap_get (cl_ckacs c1) ckac_key = Some ckac1" and eq: "ckac_Resources ckac1 = ckac_Resources ckac"
      by (rule cluster_specs_lookup [OF sp [symmetric] found])
    note r = run_one_ckac [OF valid one k1, unfolded eq]
    show ?thesis
    proof (cases "is_ckac_run (r, err)")
      case True
      with ok r(1) show ?thesis by (simp add: step)
    next
      case False
      with ok r(2) found snoc.IH show ?thesis by (simp add: step pre)
    qed
  qed
  ultimately show ?case unfolding all fst_conv snd_conv by blast
qed

lemma healthy_permits:
  assumes "healthy env" and "gomap_get (cl_kacs c) req = Some kac" and "is_zero_time (kac_DeletionTimestamp kac)"
    and "roles_named c"
  shows "sink_permitted env (kac_Namespace kac) (archived_selectors kac c) (snd (kac_Reconcile env req c))"
proof -
  have nf: "\<not> re_fails env n" for n using assms(1) by (simp add: healthy_def)
  let ?k = "kac\<lparr>kac_Finalizers := kac_Finalizers kac @ [resourceFinalizerName]\<rparr>"
  let ?c1 = "if resourceFinalizerName \<in> set (kac_Finalizers kac) then called c
    else cl_kacs_update (\<lambda>m. gomap_set m req ?k) (called (called c))"
  let ?k1 = "if resourceFinalizerName \<in> set (kac_Finalizers kac) then kac else ?k"
  obtain v c2 where run: "reconcile_live env ?k1 ?c1 = (Inr v, c2)" using healthy_live [OF assms(1)] by blast
  then have "snd (kac_Reconcile env req c) = c2"
    using assms(2,3) nf by (auto simp: kac_Reconcile_def api_get_def api_update_def Let_def finish_def)
  moreover have "roles_named ?c1" using assms(4) by (simp add: roles_named_def)
  from live_permits [OF run nf this] have "sink_permitted env (kac_Namespace kac) (archived_selectors kac c) c2"
    by (simp add: archived_selectors_def kacResources_def split: if_splits)
  ultimately show ?thesis by simp
qed

section \<open>Properties\<close>

text \<open>C21: for any interleaving of runs of both controllers, each with faults of its own, the
  SinkFilter holds in the end the resources of every live configuration whose last run returned
  no error, and of the cluster configuration likewise, whatever the other runs did.\<close>

theorem sinkfilter_converges:
  assumes "configs_valid c" and "run_all env rs c = (log, c')"
  shows "(\<forall>req kac. gomap_get (cl_kacs c) req = Some kac \<and> last_ok (is_kac_run req) log \<longrightarrow>
            filter_ns env c' (kac_Namespace kac) = kac_Resources kac)
         \<and> (\<forall>ckac. gomap_get (cl_ckacs c) ckac_key = Some ckac \<and> last_ok is_ckac_run log \<longrightarrow>
            filter_cluster env c' = ckac_Resources ckac)"
  using runs_reach_filter [OF assms(1), of env rs] by (simp add: assms(2))

text \<open>C28: after a run without faults for a live configuration, the sink's role in its namespace
  allows deleting exactly the resources that the namespace or the cluster archives and the API
  server maps, and nothing else, and the sink's service account is bound to it.\<close>

theorem sink_may_delete_exactly:
  assumes "healthy env" and "gomap_get (cl_kacs c) req = Some kac" and "is_zero_time (kac_DeletionTimestamp kac)"
    and "roles_named c" and "c' = snd (kac_Reconcile env req c)"
  shows "\<exists>role b. gomap_get (cl_roles c') (kac_Namespace kac, KubeArchiveSinkName) = Some role
         \<and> (\<forall>g res v. allows (ro_Rules role) g res v \<longleftrightarrow>
              v = ''delete'' \<and> (\<exists>a\<in>set (archived_selectors kac c). fst (rule_gv (avk_APIVersion a)) = g
                \<and> map_option (to_lower \<circ> gvr_Resource) (re_mapping env g (avk_Kind a) (snd (rule_gv (avk_APIVersion a)))) = Some res))
         \<and> gomap_get (cl_roleBindings c') (kac_Namespace kac, KubeArchiveSinkName) = Some b
         \<and> newSubject (re_namespace env) KubeArchiveSinkName \<in> set (rb_Subjects b)"
  using healthy_permits [OF assms(1-4)]
  by (auto simp: assms(5) sink_permitted_def sink_view_def allows_createPolicyRules)

text \<open>Whatever calls fail, reconciling a KubeArchiveConfig changes the SinkFilter for its own
  namespace only. A run without error leaves there the resources of a live configuration, which
  then carries the finalizer, and nothing for a terminating one that carried it.\<close>

theorem reconcile_updates_own_namespace:
  assumes "gomap_get (cl_kacs c) req = Some kac" and "kac_Reconcile env req c = (err, c')"
  shows "(\<forall>ns. ns \<noteq> kac_Namespace kac \<longrightarrow> filter_ns env c' ns = filter_ns env c ns)
         \<and> filter_cluster env c' = filter_cluster env c
         \<and> (err = None \<and> is_zero_time (kac_DeletionTimestamp kac) \<longrightarrow>
              filter_ns env c' (kac_Namespace kac) = kac_Resources kac \<and> guarded req c')
         \<and> (err = None \<and> \<not> is_zero_time (kac_DeletionTimestamp kac) \<and> guarded req c \<longrightarrow>
              filter_ns env c' (kac_Namespace kac) = None \<and> \<not> guarded req c')"
proof (cases "is_zero_time (kac_DeletionTimestamp kac)")
  case True
  from live_run [OF assms(1) True assms(2)] True show ?thesis by auto
next
  case dead: False
  show ?thesis
  proof (cases "resourceFinalizerName \<in> set (kac_Finalizers kac)")
    case True
    from terminating_run [OF assms(1) dead True assms(2)] dead show ?thesis by auto
  next
    case False
    with assms dead have "c' = called c" "\<not> guarded req c"
      by (auto simp: kac_Reconcile_def api_get_def guarded_def split: if_splits)
    with dead show ?thesis by simp
  qed
qed

text \<open>C22: the finalizer of a terminating configuration goes last. Whatever calls fail, once it
  is gone the filter has nothing for the namespace. If the vacuum's binding was there, it has lost
  the vacuum of the namespace and no other subject; if it was missing, the clean-up has created it
  with just that subject, which then stays behind, a defect of the code. As long as the finalizer
  stays the run reports an error, so that it is repeated.\<close>

theorem finalizer_guards_cleanup:
  assumes "gomap_get (cl_kacs c) req = Some kac" and "\<not> is_zero_time (kac_DeletionTimestamp kac)"
    and "guarded req c" and "kac_Reconcile env req c = (err, c')"
  shows "(guarded req c' \<longleftrightarrow> err \<noteq> None)
         \<and> (\<not> guarded req c' \<longrightarrow> filter_ns env c' (kac_Namespace kac) = None)
         \<and> (\<not> guarded req c' \<and> vacuum_binding env c \<noteq> None \<longrightarrow>
              vacuum_subjects env c' = vacuum_subjects env c - {newSubject (kac_Namespace kac) KubeArchiveVacuumName})
         \<and> (\<not> guarded req c' \<and> vacuum_binding env c = None \<longrightarrow>
              vacuum_subjects env c' = {newSubject (kac_Namespace kac) KubeArchiveVacuumName})"
  using assms terminating_run [of c req kac env err c'] by (auto simp: guarded_def)

text \<open>The defect by itself: cleaning up when the vacuum's binding is missing creates it, with the
  vacuum of the namespace that is being removed as its subject.\<close>

theorem cleanup_creates_missing_binding:
  assumes "gomap_get (cl_kacs c) req = Some kac" and "\<not> is_zero_time (kac_DeletionTimestamp kac)"
    and "guarded req c" and "vacuum_binding env c = None" and "kac_Reconcile env req c = (None, c')"
  shows "vacuum_subjects env c' = {newSubject (kac_Namespace kac) KubeArchiveVacuumName}"
  using assms terminating_run [of c req kac env None c'] by (auto simp: guarded_def)

section \<open>At concrete inputs\<close>

definition sample_kac :: "go_time option \<Rightarrow> string list \<Rightarrow> kubeArchiveConfig" where
  "sample_kac deleted finalizers =
     \<lparr>kac_Name = ''kubearchive'', kac_Namespace = ''ns'', kac_DeletionTimestamp = deleted, kac_Finalizers = finalizers,
      kac_Resources = Some [\<lparr>kr_Selector = \<lparr>avk_Kind = ''Pod'', avk_APIVersion = ''v1''\<rparr>, kr_ArchiveWhen = ''true'',
        kr_DeleteWhen = [], kr_ArchiveOnDelete = [], kr_KeepLastWhen = None\<rparr>]\<rparr>"

definition sample_cluster :: "kubeArchiveConfig \<Rightarrow> rbac_binding option \<Rightarrow> cluster" where
  "sample_cluster kac b =
     \<lparr>cl_calls = 0, cl_roles = [],
      cl_roleBindings = (case b of None \<Rightarrow> [] | Some x \<Rightarrow> [((''kubearchive'', KubeArchiveVacuumName), x)]),
      cl_serviceAccounts = [], cl_clusterRoles = [], cl_clusterRoleBindings = [], cl_sinkFilters = [],
      cl_kacs = [((''ns'', KubeArchiveConfigResourceName), kac)], cl_ckacs = []\<rparr>"

definition sample_renv :: reconcile_env where
  "sample_renv =
     \<lparr>re_fails = \<lambda>_. False, re_mapping = \<lambda>g k v. Some \<lparr>gvr_Group = g, gvr_Version = v, gvr_Resource = ''Pods''\<rparr>,
      re_namespace = ''kubearchive'', re_setOwner = \<lambda>_. True\<rparr>"

lemma sample_facts:
  "healthy sample_renv"
  "gomap_get (cl_kacs (sample_cluster kac b)) (''ns'', KubeArchiveConfigResourceName) = Some kac"
  "is_zero_time (kac_DeletionTimestamp (sample_kac None fs))" "\<not> is_zero_time (kac_DeletionTimestamp (sample_kac (Some 5) fs))"
  "kac_Namespace (sample_kac d fs) = ''ns''" "roles_named (sample_cluster kac b)"
  "guarded (''ns'', KubeArchiveConfigResourceName) (sample_cluster (sample_kac d [resourceFinalizerName]) b)"
  "vacuum_binding sample_renv (sample_cluster kac b) = b"
  by (auto simp: healthy_def sample_renv_def sample_cluster_def sample_kac_def is_zero_time_def roles_named_def guarded_def
      vacuum_binding_def split: option.split)

lemma sample_run: "kac_Reconcile sample_renv req c = (None, snd (kac_Reconcile sample_renv req c))"
  using healthy_run [OF sample_facts(1), of req c] by (metis prod.collapse)

theorem reconcile_updates_own_namespace_witness:
  "let c = sample_cluster (sample_kac None []) None; c' = snd (kac_Reconcile sample_renv (''ns'', KubeArchiveConfigResourceName) c)
   in filter_ns sample_renv c ''ns'' = None \<and> filter_ns sample_renv c' ''ns'' = kac_Resources (sample_kac None [])
      \<and> guarded (''ns'', KubeArchiveConfigResourceName) c'"
  using reconcile_updates_own_namespace [OF sample_facts(2) sample_run, of "sample_kac None []" None] sample_facts(3,5)
  by (simp add: filter_ns_def sample_cluster_def)

theorem finalizer_guards_cleanup_witness:
  "let b = desiredRoleBinding ''kubearchive'' KubeArchiveVacuumName ''Role'' [newSubject ''ns'' KubeArchiveVacuumName];
       c = sample_cluster (sample_kac (Some 5) [resourceFinalizerName]) (Some b);
       c' = snd (kac_Reconcile sample_renv (''ns'', KubeArchiveConfigResourceName) c)
   in newSubject ''ns'' KubeArchiveVacuumName \<in> vacuum_subjects sample_renv c
      \<and> newSubject ''ns'' KubeArchiveVacuumName \<notin> vacuum_subjects sample_renv c' \<and> filter_ns sample_renv c' ''ns'' = None"
  using finalizer_guards_cleanup [OF sample_facts(2,4,7) sample_run] sample_facts(5,8)
  by (simp add: vacuum_subjects_def desiredRoleBinding_def)

theorem cleanup_creates_missing_binding_witness:
  "let c = sample_cluster (sample_kac (Some 5) [resourceFinalizerName]) None;
       c' = snd (kac_Reconcile sample_renv (''ns'', KubeArchiveConfigResourceName) c)
   in vacuum_subjects sample_renv c = {} \<and> newSubject ''ns'' KubeArchiveVacuumName \<in> vacuum_subjects sample_renv c'"
  using cleanup_creates_missing_binding [OF sample_facts(2,4,7,8) sample_run] sample_facts(5,8)
  by (simp add: vacuum_subjects_def)

theorem sink_may_delete_exactly_witness:
  "\<exists>role. gomap_get (cl_roles (snd (kac_Reconcile sample_renv (''ns'', KubeArchiveConfigResourceName) (sample_cluster (sample_kac None []) None))))
            (''ns'', KubeArchiveSinkName) = Some role
     \<and> allows (ro_Rules role) [] ''pods'' ''delete'' \<and> \<not> allows (ro_Rules role) [] ''pods'' ''list''"
proof -
  have sel: "archived_selectors (sample_kac None []) (sample_cluster (sample_kac None []) None) = [\<lparr>avk_Kind = ''Pod'', avk_APIVersion = ''v1''\<rparr>]"
    by (simp add: archived_selectors_def sample_kac_def sample_cluster_def kacResources_def)
  have gv: "rule_gv ''v1'' = ([], ''v1'')" by (simp add: rule_gv_def)
  have low: "map lower_char ''Pods'' = ''pods''" by code_simp
  show ?thesis
    using sink_may_delete_exactly [OF sample_facts(1,2,3,6) refl, of "[]" None] sample_facts(5)
    by (auto simp: sel gv sample_renv_def low simp del: list.map)
qed

theorem sinkfilter_converges_witness:
  "let c = sample_cluster (sample_kac None []) None;
       rs = [KacRun (\<lambda>n. n = 3) (''ns'', KubeArchiveConfigResourceName), CkacRun (\<lambda>_. False) ckac_key,
             KacRun (\<lambda>_. False) (''ns'', KubeArchiveConfigResourceName)];
       c' = snd (run_all sample_renv rs c)
   in filter_ns sample_renv c' ''ns'' = kac_Resources (sample_kac None [])"
proof -
  let ?c = "sample_cluster (sample_kac None []) None"
  let ?k = "(''ns'', KubeArchiveConfigResourceName)"
  let ?rs = "[KacRun (\<lambda>n. n = 3) ?k, CkacRun (\<lambda>_. False) ckac_key, KacRun (\<lambda>_. False) ?k]"
  have valid: "configs_valid ?c"
    by (auto simp: configs_valid_def sample_cluster_def sample_kac_def is_zero_time_def SinkFilterGlobalNamespace_def)
  have "healthy (sample_renv\<lparr>re_fails := \<lambda>_. False\<rparr>)" by (simp add: healthy_def sample_renv_def)
  from healthy_run [OF this] have "last_ok (is_kac_run ?k) (fst (run_all sample_renv ?rs ?c))"
    by (simp add: last_ok_def last_entry_def split: prod.split) (metis fst_conv)
  with sinkfilter_converges [OF valid, of sample_renv ?rs] sample_facts(2,5) show ?thesis
    by (metis prod.collapse)
qed

end
