(* ===== verification/Watches.thy ===== *)
theory Watches
  imports Cluster_Api Cel_Filters
begin

text \<open>
  \<^verbatim>\<open>sinkfilter_controller.go\<close>, \<^verbatim>\<open>configuration.go\<close> and \<^verbatim>\<open>pkg/cloudevents\<close>: the controller
  that keeps one watch per kind the SinkFilter names, follows the event stream of each watch with
  its resource version, decides for every event whether to archive or delete, and sends it to the
  sink.

  The REST mapper, the parser of API versions, the event streams, the work queue and the HTTP
  client are libraries or services. Their answers are arguments; the calls on the queue are
  recorded.
\<close>

section \<open>Sending events\<close>

text \<open>\<^verbatim>\<open>pkg/cloudevents\<close>. A type assertion on a missing field panics.\<close>

datatype ce_result = Ack | Nack | Undelivered

record sent_event =
  se_source :: string
  se_type :: string
  se_data :: unstructured
  se_apiversion :: string
  se_kind :: string
  se_name :: string
  se_namespace :: string

text \<open>
  The object of a message is a \<^verbatim>\<open>map[string]interface{}\<close>, which need not have the shape the code counts
  on: it may be nil, its \<^verbatim>\<open>metadata\<close> may be missing or no map, its \<^verbatim>\<open>apiVersion\<close> or \<^verbatim>\<open>kind\<close> may hold
  something else than a string. An \<open>unstructured\<close> is what the getters of such an object return, which
  answer with the empty value where the shape is wrong; the first flaw the code would meet goes beside
  it, \<open>None\<close> when there is none.
\<close>

datatype map_flaw = NilMap | TypedAPIVersion | TypedKind | NoMetadata

datatype send_outcome = SendPanic | Sent sent_event ce_result | NotEncoded

definition retriableStatus :: "nat \<Rightarrow> bool" where
  "retriableStatus statusCode \<longleftrightarrow> statusCode \<in> {404, 413, 425, 429, 500, 502, 503, 504}"

definition Send ::
    "string \<Rightarrow> (unstructured \<Rightarrow> bool) \<Rightarrow> (sent_event \<Rightarrow> ce_result) \<Rightarrow> string \<Rightarrow> map_flaw option \<Rightarrow> unstructured \<Rightarrow> send_outcome" where
  "Send source encodes deliver eventType flaw resource =
     (if \<not> encodes resource then NotEncoded
      else case (flaw, u_apiVersion resource, u_kind resource) of
             (None, Some v, Some k) \<Rightarrow>
               let ev = \<lparr>se_source = source, se_type = eventType, se_data = resource, se_apiversion = v, se_kind = k,
                         se_name = u_name resource, se_namespace = u_namespace resource\<rparr>
               in Sent ev (deliver ev)
           | _ \<Rightarrow> SendPanic)"

definition getSinkServiceUrl :: "string \<Rightarrow> string" where
  "getSinkServiceUrl namespace = ''http://'' @ KubeArchiveSinkName @ ''.'' @ namespace @ ''.svc.cluster.local:80''"

section \<open>The workers of a kind\<close>

record resourceConfig =
  rc_Selector :: apiVersionKind
  rc_Workers :: int

datatype config_file = FileMissing | FileUnreadable | FileEmpty | FileMalformed | FileHolds "resourceConfig list"

definition LoadConfiguration :: "config_file \<Rightarrow> (string, resourceConfig) gomap option" where
  "LoadConfiguration file =
     (case file of
        FileMissing \<Rightarrow> Some []
      | FileUnreadable \<Rightarrow> None
      | FileEmpty \<Rightarrow> Some []
      | FileMalformed \<Rightarrow> None
      | FileHolds rcs \<Rightarrow> Some (foldl (\<lambda>m rc. gomap_set m (Key (rc_Selector rc)) rc) [] rcs))"

text \<open>The argument is \<open>None\<close> while no configuration is loaded.\<close>

definition GetResourceConfig :: "(string, resourceConfig) gomap option \<Rightarrow> apiVersionKind \<Rightarrow> resourceConfig option" where
  "GetResourceConfig config selector =
     (case config of
        None \<Rightarrow> None
      | Some m \<Rightarrow>
          (case gomap_get m (Key selector) of
             Some rc \<Rightarrow> Some rc
           | None \<Rightarrow> gomap_get m (Key \<lparr>avk_Kind = ''--all--'', avk_APIVersion = ''--all--''\<rparr>)))"

section \<open>Watches\<close>

datatype watch_type = WatchAdded | WatchModified | WatchDeleted | WatchBookmark | WatchError

text \<open>An object with or without a flaw is an \<^verbatim>\<open>Unstructured\<close> of the code.\<close>

datatype watch_object = ObjUnstructured unstructured | ObjFlawed map_flaw unstructured | ObjStatus int string | ObjOther

fun object_of :: "watch_object \<Rightarrow> (map_flaw option \<times> unstructured) option" where
  "object_of (ObjUnstructured obj) = Some (None, obj)"
| "object_of (ObjFlawed flaw obj) = Some (Some flaw, obj)"
| "object_of _ = None"

record watch_event =
  we_Type :: watch_type
  we_Object :: watch_object

record 'p watchInfo =
  wi_GVR :: gvr
  wi_KindSelector :: apiVersionKind
  wi_ClusterCel :: "'p celExpressions option"
  wi_Namespaces :: "(string, 'p celExpressions) gomap"
  wi_ResourceVersion :: string
  wi_Workers :: int

text \<open>The watches by key, and those that were stopped: the stop channel is closed, the queue shut
  down and the workers have ended.\<close>

record 'p sf_reconciler =
  sr_watches :: "(string, 'p watchInfo) gomap"
  sr_stopped :: "string list"

definition parseKindAndAPIVersionFromKey :: "string \<Rightarrow> string \<times> string" where
  "parseKindAndAPIVersionFromKey key =
     (let parts = split_on CHR ''-'' key
      in if 2 \<le> length parts then (parts ! 0, join_with ''-'' (drop 1 parts)) else ([], []))"

definition getGVRFromKindAndAPIVersion ::
    "(string \<Rightarrow> (string \<times> string) option) \<Rightarrow> rest_mapping \<Rightarrow> string \<Rightarrow> string \<Rightarrow> gvr option" where
  "getGVRFromKindAndAPIVersion parseGroupVersion mapping kind apiVersion =
     (if apiVersion = [] then None
      else case parseGroupVersion apiVersion of
             None \<Rightarrow> None
           | Some (grp, version) \<Rightarrow> mapping grp kind version)"

definition findWatchesToStop :: "(string, 'p watchInfo) gomap \<Rightarrow> (string, unit) gomap \<Rightarrow> (string, unit) gomap" where
  "findWatchesToStop watches allKinds =
     foldl (\<lambda>m k. if gomap_get allKinds k = None then gomap_set m k () else m) [] (gomap_keys watches)"

definition findWatchesToCreate :: "(string, 'p watchInfo) gomap \<Rightarrow> (string, unit) gomap \<Rightarrow> (string, unit) gomap" where
  "findWatchesToCreate watches allKinds =
     foldl (\<lambda>m k. if gomap_get watches k = None then gomap_set m k () else m) [] (gomap_keys allKinds)"

definition findWatchesToUpdate ::
    "(string, 'p watchInfo) gomap \<Rightarrow> (string, unit) gomap \<Rightarrow> (string, unit) gomap \<Rightarrow> (string, unit) gomap" where
  "findWatchesToUpdate watches allKinds toStop =
     foldl (\<lambda>m k. if gomap_get allKinds k \<noteq> None \<and> gomap_get toStop k = None then gomap_set m k () else m)
       [] (gomap_keys watches)"

record watch_env =
  wn_parse :: "string \<Rightarrow> (string \<times> string) option"
  wn_mapping :: rest_mapping
  wn_config :: "(string, resourceConfig) gomap option"

definition createWatchForGVR ::
    "watch_env \<Rightarrow> string \<Rightarrow> gvr \<Rightarrow> 'p celExpressions option \<Rightarrow> (string, 'p celExpressions) gomap \<Rightarrow>
      'p sf_reconciler \<Rightarrow> 'p sf_reconciler" where
  "createWatchForGVR env key gvr clusterCel namespaces r =
     (case parseKindAndAPIVersionFromKey key of (kind, apiVersion) \<Rightarrow>
        let kindSelector = \<lparr>avk_Kind = kind, avk_APIVersion = apiVersion\<rparr>;
            workers = (case GetResourceConfig (wn_config env) kindSelector of None \<Rightarrow> 0 | Some rc \<Rightarrow> rc_Workers rc)
        in r\<lparr>sr_watches := gomap_set (sr_watches r) key
              \<lparr>wi_GVR = gvr, wi_KindSelector = kindSelector, wi_ClusterCel = clusterCel, wi_Namespaces = namespaces,
               wi_ResourceVersion = [], wi_Workers = workers\<rparr>\<rparr>)"

text \<open>The bodies of the three loops of \<^verbatim>\<open>generateWatches\<close>.\<close>

definition stop_watch :: "'p sf_reconciler \<Rightarrow> string \<Rightarrow> 'p sf_reconciler" where
  "stop_watch r key =
     (if gomap_get (sr_watches r) key = None then r
      else r\<lparr>sr_watches := gomap_del (sr_watches r) key, sr_stopped := sr_stopped r @ [key]\<rparr>)"

definition update_watch ::
    "(string, 'p celExpressions) gomap \<Rightarrow> 'p kind_filters \<Rightarrow> 'p sf_reconciler \<Rightarrow> string \<Rightarrow> 'p sf_reconciler" where
  "update_watch clusterFilters namespacesByKinds r key =
     (case gomap_get (sr_watches r) key of
        None \<Rightarrow> r
      | Some w \<Rightarrow> r\<lparr>sr_watches := gomap_set (sr_watches r) key
                      (w\<lparr>wi_ClusterCel := gomap_get clusterFilters key,
                         wi_Namespaces := gomap_get0 [] namespacesByKinds key\<rparr>)\<rparr>)"

definition create_watch ::
    "watch_env \<Rightarrow> (string, 'p celExpressions) gomap \<Rightarrow> 'p kind_filters \<Rightarrow> 'p sf_reconciler \<Rightarrow> string \<Rightarrow> 'p sf_reconciler" where
  "create_watch env clusterFilters namespacesByKinds r key =
     (case parseKindAndAPIVersionFromKey key of (kind, apiVersion) \<Rightarrow>
        (case getGVRFromKindAndAPIVersion (wn_parse env) (wn_mapping env) kind apiVersion of
           None \<Rightarrow> r
         | Some gvr \<Rightarrow> createWatchForGVR env key gvr (gomap_get clusterFilters key) (gomap_get0 [] namespacesByKinds key) r))"

definition generateWatches ::
    "watch_env \<Rightarrow> (string, 'p celExpressions) gomap \<Rightarrow> 'p kind_filters \<Rightarrow> 'p sf_reconciler \<Rightarrow> 'p sf_reconciler" where
  "generateWatches env clusterFilters namespacesByKinds r =
     (let allKinds = foldl (\<lambda>m k. gomap_set m k ()) (foldl (\<lambda>m k. gomap_set m k ()) [] (gomap_keys clusterFilters))
                       (gomap_keys namespacesByKinds);
          toStop = findWatchesToStop (sr_watches r) allKinds;
          toCreate = findWatchesToCreate (sr_watches r) allKinds;
          toUpdate = findWatchesToUpdate (sr_watches r) allKinds toStop;
          r1 = foldl stop_watch r (gomap_keys toStop);
          r2 = foldl (update_watch clusterFilters namespacesByKinds) r1 (gomap_keys toUpdate)
      in foldl (create_watch env clusterFilters namespacesByKinds) r2 (gomap_keys toCreate))"

section \<open>Handling an event\<close>

record 'p handler_env =
  he_eval :: "'p cel_eval"
  he_encodes :: "unstructured \<Rightarrow> bool"
  he_deliver :: "sent_event \<Rightarrow> ce_result"

datatype handle_outcome = Handled "sent_event option" | HandleFailed "sent_event option" | HandlePanic

text \<open>The object with the fields that the API server may have left out.\<close>

definition completed :: "'p watchInfo \<Rightarrow> unstructured \<Rightarrow> unstructured" where
  "completed w obj =
     (let o1 = (if u_apiVersion obj = None
                then obj\<lparr>u_apiVersion := Some (if gvr_Group (wi_GVR w) = [] then gvr_Version (wi_GVR w)
                                              else gvr_Group (wi_GVR w) @ ''/'' @ gvr_Version (wi_GVR w))\<rparr>
                else obj)
      in if u_kind o1 = None \<and> avk_Kind (wi_KindSelector w) \<noteq> []
         then o1\<lparr>u_kind := Some (avk_Kind (wi_KindSelector w))\<rparr> else o1)"

text \<open>The publisher is there unless it could not be created. The assignment of the missing API version
  panics when the map is nil.\<close>

definition sendCloudEvent ::
    "'p handler_env \<Rightarrow> bool \<Rightarrow> string \<Rightarrow> map_flaw option \<Rightarrow> unstructured \<Rightarrow> 'p watchInfo \<Rightarrow> handle_outcome" where
  "sendCloudEvent env publisher eventType flaw obj w =
     (if \<not> publisher then HandleFailed None
      else if flaw = Some NilMap then HandlePanic
      else case Send ''kubearchive.org/sinkfilter-controller'' (he_encodes env) (he_deliver env)
                  (''org.kubearchive.sinkfilters.resource.'' @ eventType) flaw (completed w obj) of
             SendPanic \<Rightarrow> HandlePanic
           | NotEncoded \<Rightarrow> HandleFailed None
           | Sent ev result \<Rightarrow> if result = Ack then Handled (Some ev) else HandleFailed (Some ev))"

definition cel_holds :: "'p handler_env \<Rightarrow> ('p celExpressions \<Rightarrow> 'p option) \<Rightarrow> 'p celExpressions option \<Rightarrow> unstructured \<Rightarrow> bool" where
  "cel_holds env sel cel obj = (case cel of None \<Rightarrow> False | Some e \<Rightarrow> ExecuteBooleanCEL (he_eval env) (sel e) obj)"

definition handleWatchEvent :: "'p handler_env \<Rightarrow> bool \<Rightarrow> watch_event \<Rightarrow> 'p watchInfo \<Rightarrow> handle_outcome" where
  "handleWatchEvent env publisher event w =
     (case object_of (we_Object event) of
        None \<Rightarrow> HandleFailed None
      | Some (flaw, obj) \<Rightarrow>
          let namespaceCel = gomap_get (wi_Namespaces w) (u_namespace obj); clusterCel = wi_ClusterCel w
          in if clusterCel = None \<and> namespaceCel = None then Handled None
             else if we_Type event = WatchAdded \<or> we_Type event = WatchModified then
               if cel_holds env ce_DeleteWhen clusterCel obj \<or> cel_holds env ce_DeleteWhen namespaceCel obj
               then sendCloudEvent env publisher ''delete-when'' flaw obj w
               else if cel_holds env ce_ArchiveWhen clusterCel obj \<or> cel_holds env ce_ArchiveWhen namespaceCel obj
               then sendCloudEvent env publisher ''archive-when'' flaw obj w
               else Handled None
             else if we_Type event = WatchDeleted then
               if cel_holds env ce_ArchiveOnDelete clusterCel obj \<or> cel_holds env ce_ArchiveOnDelete namespaceCel obj
               then sendCloudEvent env publisher ''archive-on-delete'' flaw obj w
               else Handled None
             else Handled None)"

text \<open>One turn of a worker on an event the queue handed out: the calls it makes on the queue and the
  values of the metric's result attribute.\<close>

datatype queue_call = QueueAdd watch_event | QueueAddRateLimited watch_event | QueueForget watch_event | QueueDone watch_event

definition runWorker :: "'p handler_env \<Rightarrow> bool \<Rightarrow> watch_event \<Rightarrow> 'p watchInfo \<Rightarrow> (queue_call list \<times> string list) option" where
  "runWorker env publisher event w =
     (case handleWatchEvent env publisher event w of
        HandlePanic \<Rightarrow> None
      | HandleFailed _ \<Rightarrow> Some ([QueueAddRateLimited event, QueueDone event], [''delivered'', ''failed''])
      | Handled _ \<Rightarrow> Some ([QueueForget event, QueueDone event], [''delivered'']))"

section \<open>Following the event stream\<close>

definition shouldClearResourceVersion :: "watch_event \<Rightarrow> bool" where
  "shouldClearResourceVersion event =
     (case we_Object event of ObjStatus code reason \<Rightarrow> reason = ''Gone'' \<or> code = 410 | _ \<Rightarrow> False)"

text \<open>What the \<^verbatim>\<open>select\<close> of \<^verbatim>\<open>processWatchEvents\<close> receives; the loop ends on a stop, a closed
  channel and an error event. The list holds what has arrived so far.\<close>

datatype chan_item = ChanStop | ChanClosed | ChanEvent watch_event

fun processWatchEvents :: "string \<Rightarrow> chan_item list \<Rightarrow> string \<times> watch_event list" where
  "processWatchEvents rv [] = (rv, [])"
| "processWatchEvents rv (ChanStop # items) = (rv, [])"
| "processWatchEvents rv (ChanClosed # items) = (rv, [])"
| "processWatchEvents rv (ChanEvent event # items) =
     (if we_Type event = WatchError
      then (if shouldClearResourceVersion event then [] else rv, [])
      else let rv' = (case object_of (we_Object event) of
                        Some (_, obj) \<Rightarrow> if u_resourceVersion obj \<noteq> [] then u_resourceVersion obj else rv
                      | None \<Rightarrow> rv)
           in case processWatchEvents rv' items of (rv'', added) \<Rightarrow> (rv'', event # added))"

text \<open>\<open>None\<close> stands for a failed read of the random source, on which \<^verbatim>\<open>Int64\<close> of nil panics.\<close>

definition randomTimeout :: "int option \<Rightarrow> int option" where
  "randomTimeout r = map_option (\<lambda>n. n + 300) r"

text \<open>Durations are nanoseconds. The product with \<open>1.5\<close> is exact in a \<^verbatim>\<open>float64\<close> for the values that
  occur, which are below \<open>2 ^ 52\<close>, and the conversion truncates.\<close>

definition second :: int where "second = 1000000000"
definition maxBackoff :: int where "maxBackoff = 5 * 60 * second"

definition next_backoff :: "int \<Rightarrow> int" where
  "next_backoff backoff = min ((3 * backoff) div 2) maxBackoff"

record loop_state =
  ls_rv :: string
  ls_backoff :: int
  ls_running :: bool
  ls_queued :: "watch_event list"
  ls_requests :: "string list"

definition loop_init :: loop_state where
  "loop_init = \<lparr>ls_rv = [], ls_backoff = second, ls_running = True, ls_queued = [], ls_requests = []\<rparr>"

text \<open>What one round of \<^verbatim>\<open>watchLoop\<close> meets: the stop channel is closed; or the API server refuses the
  watch, and the loop waits or is stopped while waiting; or a session runs on what its channel
  delivers until \<^verbatim>\<open>processWatchEvents\<close> returns. Every request for a watch carries the resource
  version of the moment.\<close>

datatype loop_answer = StopSeen | CreateFailed | StoppedWaiting | Session "chan_item list"

inductive watchLoop :: "loop_answer \<Rightarrow> loop_state \<Rightarrow> loop_state \<Rightarrow> bool" where
  stopped: "ls_running s \<Longrightarrow> watchLoop StopSeen s (s\<lparr>ls_running := False\<rparr>)"
| retry: "ls_running s \<Longrightarrow>
    watchLoop CreateFailed s (s\<lparr>ls_requests := ls_requests s @ [ls_rv s], ls_backoff := next_backoff (ls_backoff s)\<rparr>)"
| stopped_waiting: "ls_running s \<Longrightarrow>
    watchLoop StoppedWaiting s (s\<lparr>ls_requests := ls_requests s @ [ls_rv s], ls_running := False\<rparr>)"
| session: "ls_running s \<Longrightarrow> processWatchEvents (ls_rv s) items = (rv', added) \<Longrightarrow>
    watchLoop (Session items) s (s\<lparr>ls_requests := ls_requests s @ [ls_rv s], ls_backoff := second, ls_rv := rv',
                   ls_queued := ls_queued s @ added\<rparr>)"

inductive_cases watchLoopE: "watchLoop a s s'"

text \<open>The rounds of the loop since it was started, with what each of them met.\<close>

inductive watch_trace :: "loop_answer list \<Rightarrow> loop_state \<Rightarrow> bool" where
  start: "watch_trace [] loop_init"
| step: "watch_trace rounds s \<Longrightarrow> watchLoop a s s' \<Longrightarrow> watch_trace (rounds @ [a]) s'"

section \<open>Reconciling the SinkFilter\<close>

definition extractResources :: "sinkFilter \<Rightarrow> apiVersionKind list" where
  "extractResources sf =
     (let m1 = foldl (\<lambda>m res. gomap_set m (cr_Selector res) ()) [] (sf_Cluster sf)
      in gomap_keys (foldl (\<lambda>m (_, rs). foldl (\<lambda>m res. gomap_set m (kr_Selector res) ()) m rs) m1 (sfNamespaces sf)))"

definition role_key :: nsname where
  "role_key = ([], KubeArchiveSinkFilterName)"

definition reconcileClusterRole :: "faults \<Rightarrow> rest_mapping \<Rightarrow> sinkFilter \<Rightarrow> cluster \<Rightarrow> unit answer" where
  "reconcileClusterRole fails mapping sf c =
     (let rules = createPolicyRules mapping (extractResources sf) [''get'', ''list'', ''watch'']
      in case api_get fails cl_clusterRoles role_key c of
           (Inl ApiNotFound, c1) \<Rightarrow>
             and_then (api_create fails cl_clusterRoles cl_clusterRoles_update role_key
               (desiredClusterRole KubeArchiveSinkFilterName rules) c1) (\<lambda>_ c2. (Inr (), c2))
         | (Inl e, c1) \<Rightarrow> (Inl e, c1)
         | (Inr existing, c1) \<Rightarrow>
             (case equalPolicyRules (ro_Rules existing) rules of (same, _, rules') \<Rightarrow>
                if \<not> same
                then and_then (api_update fails cl_clusterRoles cl_clusterRoles_update role_key
                       (existing\<lparr>ro_Rules := rules'\<rparr>) c1) (\<lambda>_ c2. (Inr (), c2))
                else (Inr (), c1)))"

definition reconcileClusterRoleBinding :: "faults \<Rightarrow> string \<Rightarrow> cluster \<Rightarrow> unit answer" where
  "reconcileClusterRoleBinding fails namespace c =
     (let desired = desiredClusterRoleBinding KubeArchiveSinkFilterName ''ClusterRole''
                      [\<lparr>sb_Kind = ''ServiceAccount'', sb_Name = KubeArchiveOperatorName, sb_Namespace = namespace\<rparr>]
      in case api_get fails cl_clusterRoleBindings role_key c of
           (Inl ApiNotFound, c1) \<Rightarrow>
             and_then (api_create fails cl_clusterRoleBindings cl_clusterRoleBindings_update role_key desired c1) (\<lambda>_ c2. (Inr (), c2))
         | (Inl e, c1) \<Rightarrow> (Inl e, c1)
         | (Inr existing, c1) \<Rightarrow>
             if rb_Subjects existing \<noteq> rb_Subjects desired \<or> rb_RoleRef existing \<noteq> rb_RoleRef desired
             then and_then (api_update fails cl_clusterRoleBindings cl_clusterRoleBindings_update role_key
                    (existing\<lparr>rb_Subjects := rb_Subjects desired, rb_RoleRef := rb_RoleRef desired\<rparr>) c1) (\<lambda>_ c2. (Inr (), c2))
             else (Inr (), c1))"

definition sf_Reconcile ::
    "faults \<Rightarrow> string \<Rightarrow> watch_env \<Rightarrow> 'p cel_compile \<Rightarrow> nsname \<Rightarrow> cluster \<Rightarrow> 'p sf_reconciler \<Rightarrow>
      api_error option \<times> cluster \<times> 'p sf_reconciler" where
  "sf_Reconcile fails namespace env compile req c r =
     (case api_get fails cl_sinkFilters req c of
        (Inl ApiNotFound, c1) \<Rightarrow> (None, c1, generateWatches env [] [] r)
      | (Inl e, c1) \<Rightarrow> (Some e, c1, r)
      | (Inr sf, c1) \<Rightarrow>
          (case and_then (reconcileClusterRole fails (wn_mapping env) sf c1) (\<lambda>_. reconcileClusterRoleBinding fails namespace) of
             (Inl e, c2) \<Rightarrow> (Some e, c2, r)
           | (Inr _, c2) \<Rightarrow>
               (None, c2, generateWatches env (ExtractClusterCELExpressionsByKind compile sf Controller)
                            (ExtractNamespacesByKind compile sf Controller) r)))"

section \<open>The watches after generateWatches\<close>

lemma set_keys_foldl_set: "set (gomap_keys (foldl (\<lambda>m k. gomap_set m k ()) m ks)) = set (gomap_keys m) \<union> set ks"
  by (induction ks arbitrary: m) (auto simp: dom_update)

lemma keys_foldl_if:
  "set (gomap_keys (foldl (\<lambda>m k. if P k then gomap_set m k () else m) m ks)) = set (gomap_keys m) \<union> {k \<in> set ks. P k}"
  by (induction ks arbitrary: m) (auto simp: dom_update)

lemma distinct_foldl_if:
  "gomap_ok m \<Longrightarrow> gomap_ok (foldl (\<lambda>m k. if P k then gomap_set m k () else m) m ks)"
  by (induction ks arbitrary: m) auto

lemma get_None_keys: "gomap_get m k = None \<longleftrightarrow> k \<notin> set (gomap_keys m)"
  by (simp add: map_of_eq_None_iff)

lemma stop_watches_get:
  "gomap_get (sr_watches (foldl stop_watch r ks)) key = (if key \<in> set ks then None else gomap_get (sr_watches r) key)"
  by (induction ks arbitrary: r) (auto simp: stop_watch_def)

lemma stop_watches_stopped:
  "distinct ks \<Longrightarrow> set ks \<subseteq> set (gomap_keys (sr_watches r)) \<Longrightarrow> sr_stopped (foldl stop_watch r ks) = sr_stopped r @ ks"
proof (induction ks arbitrary: r)
  case (Cons k ks)
  from Cons.prems have k: "gomap_get (sr_watches r) k \<noteq> None" by (simp only: get_None_keys) simp
  have "set ks \<subseteq> set (gomap_keys (sr_watches (stop_watch r k)))"
  proof
    fix x assume "x \<in> set ks"
    with Cons.prems have "gomap_get (sr_watches r) x \<noteq> None" "x \<noteq> k" by (auto simp only: get_None_keys, auto)
    then have "gomap_get (sr_watches (stop_watch r k)) x \<noteq> None" by (simp add: stop_watch_def)
    then show "x \<in> set (gomap_keys (sr_watches (stop_watch r k)))" by (simp only: get_None_keys not_not)
  qed
  with Cons.IH [of "stop_watch r k"] Cons.prems k show ?case by (simp add: stop_watch_def split: if_splits)
qed simp

lemma update_watches_get:
  "gomap_get (sr_watches (foldl (update_watch cf nf) r ks)) key =
     (if key \<in> set ks then map_option (\<lambda>w. w\<lparr>wi_ClusterCel := gomap_get cf key, wi_Namespaces := gomap_get0 [] nf key\<rparr>)
                             (gomap_get (sr_watches r) key)
      else gomap_get (sr_watches r) key)"
proof (induction ks arbitrary: r)
  case (Cons k ks)
  have "gomap_get (sr_watches (update_watch cf nf r k)) key =
      (if key = k then map_option (\<lambda>w. w\<lparr>wi_ClusterCel := gomap_get cf key, wi_Namespaces := gomap_get0 [] nf key\<rparr>)
                             (gomap_get (sr_watches r) key)
       else gomap_get (sr_watches r) key)"
    by (auto simp: update_watch_def split: option.split)
  with Cons.IH [of "update_watch cf nf r k"] show ?case
    by (cases "key = k"; cases "gomap_get (sr_watches r) key") simp_all
qed simp

lemma update_watch_stopped [simp]: "sr_stopped (foldl (update_watch cf nf) r ks) = sr_stopped r"
  by (induction ks arbitrary: r) (simp_all add: update_watch_def split: option.split)

lemma create_watch_stopped [simp]: "sr_stopped (foldl (create_watch env cf nf) r ks) = sr_stopped r"
  by (induction ks arbitrary: r) (simp_all add: create_watch_def createWatchForGVR_def Let_def split: option.split prod.split)

text \<open>The watch that is created for a key, when its kind is known to the API server.\<close>

definition new_watch :: "watch_env \<Rightarrow> (string, 'p celExpressions) gomap \<Rightarrow> 'p kind_filters \<Rightarrow> string \<Rightarrow> 'p watchInfo option" where
  "new_watch env cf nf key =
     gomap_get (sr_watches (create_watch env cf nf \<lparr>sr_watches = [], sr_stopped = []\<rparr> key)) key"

lemma create_watches_get:
  "gomap_get (sr_watches (foldl (create_watch env cf nf) r ks)) key =
     (if key \<in> set ks \<and> new_watch env cf nf key \<noteq> None then new_watch env cf nf key else gomap_get (sr_watches r) key)"
proof (induction ks arbitrary: r)
  case (Cons k ks)
  have "gomap_get (sr_watches (create_watch env cf nf r k)) key =
      (if key = k \<and> new_watch env cf nf key \<noteq> None then new_watch env cf nf key else gomap_get (sr_watches r) key)"
    by (auto simp: create_watch_def new_watch_def createWatchForGVR_def Let_def split: option.splits prod.split)
  with Cons.IH [of "create_watch env cf nf r k"] show ?case by (cases "key = k") auto
qed simp

abbreviation needed :: "(string, 'p celExpressions) gomap \<Rightarrow> 'p kind_filters \<Rightarrow> string set" where
  "needed cf nf \<equiv> set (gomap_keys cf) \<union> set (gomap_keys nf)"

lemma generateWatches_get:
  "gomap_get (sr_watches (generateWatches env cf nf r)) key =
     (if key \<notin> needed cf nf then None
      else case gomap_get (sr_watches r) key of
             Some w \<Rightarrow> Some (w\<lparr>wi_ClusterCel := gomap_get cf key, wi_Namespaces := gomap_get0 [] nf key\<rparr>)
           | None \<Rightarrow> new_watch env cf nf key)"
proof -
  let ?all = "foldl (\<lambda>m k. gomap_set m k ()) (foldl (\<lambda>m k. gomap_set m k ()) [] (gomap_keys cf)) (gomap_keys nf)"
  let ?w = "sr_watches r"
  have all: "set (gomap_keys ?all) = needed cf nf" unfolding set_keys_foldl_set by simp
  have stop: "set (gomap_keys (findWatchesToStop ?w ?all)) = set (gomap_keys ?w) - needed cf nf"
    unfolding findWatchesToStop_def keys_foldl_if get_None_keys all by auto
  have create: "set (gomap_keys (findWatchesToCreate ?w ?all)) = needed cf nf - set (gomap_keys ?w)"
    unfolding findWatchesToCreate_def keys_foldl_if get_None_keys all by auto
  have upd: "set (gomap_keys (findWatchesToUpdate ?w ?all (findWatchesToStop ?w ?all))) = set (gomap_keys ?w) \<inter> needed cf nf"
    unfolding findWatchesToUpdate_def keys_foldl_if get_None_keys all stop by auto
  show ?thesis
    unfolding generateWatches_def Let_def create_watches_get update_watches_get stop_watches_get stop create upd
    using get_None_keys [of ?w key] by (cases "gomap_get ?w key") auto
qed

lemma generateWatches_stopped:
  assumes "gomap_ok (sr_watches r)"
  shows "\<exists>ks. sr_stopped (generateWatches env cf nf r) = sr_stopped r @ ks \<and> distinct ks
          \<and> set ks = set (gomap_keys (sr_watches r)) - needed cf nf"
proof -
  let ?all = "foldl (\<lambda>m k. gomap_set m k ()) (foldl (\<lambda>m k. gomap_set m k ()) [] (gomap_keys cf)) (gomap_keys nf)"
  let ?ks = "gomap_keys (findWatchesToStop (sr_watches r) ?all)"
  have all: "set (gomap_keys ?all) = needed cf nf" unfolding set_keys_foldl_set by simp
  have stop: "set ?ks = set (gomap_keys (sr_watches r)) - needed cf nf"
    unfolding findWatchesToStop_def keys_foldl_if get_None_keys all by auto
  moreover have d: "distinct ?ks" unfolding findWatchesToStop_def by (rule distinct_foldl_if) simp
  moreover have "sr_stopped (generateWatches env cf nf r) = sr_stopped r @ ?ks"
    unfolding generateWatches_def Let_def create_watch_stopped update_watch_stopped
    by (rule stop_watches_stopped [OF d]) (use stop in blast)
  ultimately show ?thesis by blast
qed

end
