(* ===== verification/Watch_Decisions.thy ===== *)
theory Watch_Decisions
  imports Watches
begin

text \<open>
  What the SinkFilter controller achieves: after a reconciliation there is a watch for exactly the
  kinds the filter names, every event is decided by the expressions of the filter, a worker panics
  exactly on a malformed object that is to be sent, and a watch that is opened again resumes at the
  last event that has been queued.
\<close>

section \<open>Kinds of the filter\<close>

definition filtered_kinds :: "sinkFilter \<Rightarrow> string set" where
  "filtered_kinds sf =
     (\<lambda>r. Key (cr_Selector r)) ` set (sf_Cluster sf)
     \<union> (\<Union>(ns, rs) \<in> set (sfNamespaces sf). (\<lambda>r. Key (kr_Selector r)) ` set rs)"

definition cluster_entry :: "'p cel_compile \<Rightarrow> sinkFilter \<Rightarrow> string \<Rightarrow> 'p celExpressions option" where
  "cluster_entry compile sf key =
     map_option (clusterCelExpr compile Controller) (last_entry (\<lambda>r. Key (cr_Selector r) = key) (sf_Cluster sf))"

lemma cluster_get:
  "gomap_get (ExtractClusterCELExpressionsByKind compile sf Controller) key = cluster_entry compile sf key"
  by (simp add: ExtractClusterCELExpressionsByKind_def cluster_entry_def map_of_foldl_set Key_def split: option.split)

lemma cluster_keys:
  "set (gomap_keys (ExtractClusterCELExpressionsByKind compile sf Controller)) = (\<lambda>r. Key (cr_Selector r)) ` set (sf_Cluster sf)"
proof -
  have "key \<in> set (gomap_keys (ExtractClusterCELExpressionsByKind compile sf Controller)) \<longleftrightarrow>
      last_entry (\<lambda>r. Key (cr_Selector r) = key) (sf_Cluster sf) \<noteq> None" for key
    using get_None_keys [of "ExtractClusterCELExpressionsByKind compile sf Controller" key]
    by (auto simp: cluster_get cluster_entry_def)
  then have k: "key \<in> set (gomap_keys (ExtractClusterCELExpressionsByKind compile sf Controller)) \<longleftrightarrow>
      (\<exists>r\<in>set (sf_Cluster sf). Key (cr_Selector r) = key)" for key
    unfolding last_entry_None by blast
  show ?thesis by (rule set_eqI) (unfold k image_iff, blast)
qed

lemma add_namespace_keys: "set (gomap_keys (add_namespace_expr m key ns e)) = insert key (set (gomap_keys m))"
  by (auto simp: add_namespace_expr_def dom_update split: option.split)

lemma add_resources_keys:
  "set (gomap_keys (foldl (\<lambda>m res. add_namespace_expr m (f res) ns (g res)) m rs)) = set (gomap_keys m) \<union> f ` set rs"
proof (induction rs arbitrary: m)
  case (Cons r rs)
  show ?case unfolding foldl.simps Cons.IH add_namespace_keys by auto
qed simp

lemma extract_keys:
  "set (gomap_keys (extractNamespacesByKindsList compile sf nss ft)) =
     (\<Union>ns \<in> set nss. case gomap_get (sfNamespaces sf) ns of None \<Rightarrow> {} | Some rs \<Rightarrow> (\<lambda>r. Key (kr_Selector r)) ` set rs)"
proof -
  have "set (gomap_keys (foldl (\<lambda>m ns. case gomap_get (sfNamespaces sf) ns of None \<Rightarrow> m
      | Some resources \<Rightarrow> foldl (\<lambda>m res. add_namespace_expr m (Key (kr_Selector res)) ns (namespaceCelExpr compile ft res)) m resources) m nss)) =
      set (gomap_keys m) \<union> (\<Union>ns \<in> set nss. case gomap_get (sfNamespaces sf) ns of None \<Rightarrow> {} | Some rs \<Rightarrow> (\<lambda>r. Key (kr_Selector r)) ` set rs)"
    for m :: "'a kind_filters"
  proof (induction nss arbitrary: m)
    case (Cons n nss)
    show ?case
    proof (cases "gomap_get (sfNamespaces sf) n")
      case None
      then show ?thesis unfolding foldl.simps Cons.IH by simp
    next
      case (Some rs)
      then show ?thesis unfolding foldl.simps Cons.IH by (simp only: option.case add_resources_keys) auto
    qed
  qed simp
  from this [of "[]"] show ?thesis by (simp add: extractNamespacesByKindsList_def)
qed

lemma needed_filtered:
  assumes "gomap_ok (sfNamespaces sf)"
  shows "needed (ExtractClusterCELExpressionsByKind compile sf Controller) (ExtractNamespacesByKind compile sf Controller) = filtered_kinds sf"
proof -
  have "(\<Union>ns \<in> set (gomap_keys (sfNamespaces sf)). case gomap_get (sfNamespaces sf) ns of None \<Rightarrow> {} | Some rs \<Rightarrow> (\<lambda>r. Key (kr_Selector r)) ` set rs)
      = (\<Union>(ns, rs) \<in> set (sfNamespaces sf). (\<lambda>r. Key (kr_Selector r)) ` set rs)"
  proof (intro set_eqI iffI)
    fix key
    assume "key \<in> (\<Union>ns \<in> set (gomap_keys (sfNamespaces sf)). case gomap_get (sfNamespaces sf) ns of None \<Rightarrow> {} | Some rs \<Rightarrow> (\<lambda>r. Key (kr_Selector r)) ` set rs)"
    then obtain ns rs where "gomap_get (sfNamespaces sf) ns = Some rs" "key \<in> (\<lambda>r. Key (kr_Selector r)) ` set rs"
      by (auto split: option.splits)
    then show "key \<in> (\<Union>(ns, rs) \<in> set (sfNamespaces sf). (\<lambda>r. Key (kr_Selector r)) ` set rs)"
      by (auto dest!: map_of_SomeD)
  next
    fix key
    assume "key \<in> (\<Union>(ns, rs) \<in> set (sfNamespaces sf). (\<lambda>r. Key (kr_Selector r)) ` set rs)"
    then obtain ns rs where "(ns, rs) \<in> set (sfNamespaces sf)" and k: "key \<in> (\<lambda>r. Key (kr_Selector r)) ` set rs" by auto
    with assms have "gomap_get (sfNamespaces sf) ns = Some rs" by simp
    with k gomap_get_in_keys [OF this]
    show "key \<in> (\<Union>ns \<in> set (gomap_keys (sfNamespaces sf)). case gomap_get (sfNamespaces sf) ns of None \<Rightarrow> {} | Some rs \<Rightarrow> (\<lambda>r. Key (kr_Selector r)) ` set rs)"
      by (intro UN_I [where a = ns]) simp_all
  qed
  then show ?thesis
    unfolding cluster_keys ExtractNamespacesByKind_def extract_keys filtered_kinds_def by simp
qed

definition mappable :: "watch_env \<Rightarrow> string \<Rightarrow> bool" where
  "mappable env key \<longleftrightarrow>
     (case parseKindAndAPIVersionFromKey key of (kind, apiVersion) \<Rightarrow>
        getGVRFromKindAndAPIVersion (wn_parse env) (wn_mapping env) kind apiVersion \<noteq> None)"

lemma new_watch_mappable: "new_watch env cf nf key \<noteq> None \<longleftrightarrow> mappable env key"
  by (auto simp: new_watch_def create_watch_def createWatchForGVR_def mappable_def Let_def split: option.split prod.split)

lemma new_watch_fields:
  assumes "new_watch env cf nf key = Some w"
  shows "wi_ClusterCel w = gomap_get cf key" "wi_Namespaces w = gomap_get0 [] nf key" "wi_ResourceVersion w = []"
    "wi_KindSelector w = \<lparr>avk_Kind = fst (parseKindAndAPIVersionFromKey key), avk_APIVersion = snd (parseKindAndAPIVersionFromKey key)\<rparr>"
  using assms by (auto simp: new_watch_def create_watch_def createWatchForGVR_def Let_def split: option.splits prod.splits)

lemma sf_Reconcile_found:
  assumes "gomap_get (cl_sinkFilters c) req = Some sf" and "sf_Reconcile fails namespace env compile req c r = (None, c', r')"
  shows "r' = generateWatches env (ExtractClusterCELExpressionsByKind compile sf Controller) (ExtractNamespacesByKind compile sf Controller) r"
  using assms by (auto simp: sf_Reconcile_def api_get_def split: if_splits sum.splits prod.splits)

section \<open>Decisions\<close>

definition holds_any ::
    "'p handler_env \<Rightarrow> ('p celExpressions \<Rightarrow> 'p option) \<Rightarrow> 'p cel_compile \<Rightarrow> sinkFilter \<Rightarrow> string \<Rightarrow> unstructured \<Rightarrow> bool" where
  "holds_any env sel compile sf key obj \<longleftrightarrow>
     cel_holds env sel (cluster_entry compile sf key) obj
     \<or> cel_holds env sel (namespace_entry compile sf Controller key (u_namespace obj)) obj"

text \<open>What a SinkFilter asks to do with an object of a kind, by the type of the event.\<close>

definition wanted_action ::
    "'p handler_env \<Rightarrow> 'p cel_compile \<Rightarrow> sinkFilter \<Rightarrow> string \<Rightarrow> watch_type \<Rightarrow> unstructured \<Rightarrow> string option" where
  "wanted_action env compile sf key ty obj =
     (if ty = WatchAdded \<or> ty = WatchModified then
        if holds_any env ce_DeleteWhen compile sf key obj then Some ''delete-when''
        else if holds_any env ce_ArchiveWhen compile sf key obj then Some ''archive-when'' else None
      else if ty = WatchDeleted \<and> holds_any env ce_ArchiveOnDelete compile sf key obj then Some ''archive-on-delete''
      else None)"

lemma handle_wanted:
  assumes "wi_ClusterCel w = cluster_entry compile sf key"
    and "\<And>ns. gomap_get (wi_Namespaces w) ns = namespace_entry compile sf Controller key ns"
    and "object_of (we_Object event) = Some (flaw, obj)"
  shows "handleWatchEvent env publisher event w =
     (case wanted_action env compile sf key (we_Type event) obj of
        None \<Rightarrow> Handled None
      | Some t \<Rightarrow> sendCloudEvent env publisher t flaw obj w)"
  unfolding handleWatchEvent_def Let_def assms holds_any_def wanted_action_def
  by (auto simp: cel_holds_def)

lemma reconciled_watch:
  assumes "gomap_ok (sfNamespaces sf)"
    and "gomap_get (sr_watches (generateWatches env (ExtractClusterCELExpressionsByKind compile sf Controller)
           (ExtractNamespacesByKind compile sf Controller) r)) key = Some w"
  shows "wi_ClusterCel w = cluster_entry compile sf key"
    and "gomap_get (wi_Namespaces w) ns = namespace_entry compile sf Controller key ns"
proof -
  let ?cf = "ExtractClusterCELExpressionsByKind compile sf Controller"
  let ?nf = "ExtractNamespacesByKind compile sf Controller"
  have "wi_ClusterCel w = gomap_get ?cf key \<and> wi_Namespaces w = gomap_get0 [] ?nf key"
    using assms(2) new_watch_fields(1,2) [of env ?cf ?nf key w]
    by (auto simp: generateWatches_get split: if_splits option.splits)
  moreover have "gomap_get (gomap_get0 [] ?nf key) ns = kind_ns_get ?nf key ns"
    by (simp add: gomap_get0_def kind_ns_get_def split: option.split)
  ultimately show "wi_ClusterCel w = cluster_entry compile sf key"
    and "gomap_get (wi_Namespaces w) ns = namespace_entry compile sf Controller key ns"
    by (simp_all add: cluster_get ExtractNamespacesByKind_get [OF assms(1)])
qed

section \<open>Keys\<close>

lemma parse_Key:
  assumes "CHR ''-'' \<notin> set (avk_Kind a)"
  shows "parseKindAndAPIVersionFromKey (Key a) = (avk_Kind a, avk_APIVersion a)"
proof -
  have "split_on CHR ''-'' (Key a) = avk_Kind a # split_on CHR ''-'' (avk_APIVersion a)" by (rule Key_split [OF assms])
  moreover have "1 \<le> length (split_on CHR ''-'' (avk_APIVersion a))" by (simp add: length_split_on)
  ultimately show ?thesis by (simp add: parseKindAndAPIVersionFromKey_def Let_def join_split_on)
qed

section \<open>When a worker panics\<close>

text \<open>Whether the expressions of a watch ask to send an event on an object.\<close>

definition asks :: "'p handler_env \<Rightarrow> 'p watchInfo \<Rightarrow> watch_type \<Rightarrow> unstructured \<Rightarrow> bool" where
  "asks env w ty obj \<longleftrightarrow>
     (let holds = (\<lambda>sel. cel_holds env sel (wi_ClusterCel w) obj
                        \<or> cel_holds env sel (gomap_get (wi_Namespaces w) (u_namespace obj)) obj)
      in if ty = WatchDeleted then holds ce_ArchiveOnDelete
         else (ty = WatchAdded \<or> ty = WatchModified) \<and> (holds ce_DeleteWhen \<or> holds ce_ArchiveWhen))"

text \<open>A watch whose selector names a kind fills in both fields that \<^verbatim>\<open>Send\<close> insists on.\<close>

lemma completed_fields:
  assumes "avk_Kind (wi_KindSelector w) \<noteq> []"
  obtains v k where "u_apiVersion (completed w obj) = Some v" and "u_kind (completed w obj) = Some k"
  using assms by (cases "u_apiVersion obj"; cases "u_kind obj") (simp_all add: completed_def Let_def)

lemma send_panics:
  assumes "avk_Kind (wi_KindSelector w) \<noteq> []"
  shows "sendCloudEvent env publisher t flaw obj w = HandlePanic \<longleftrightarrow>
     publisher \<and> (flaw = Some NilMap \<or> flaw \<noteq> None \<and> he_encodes env (completed w obj))"
proof -
  obtain v k where "u_apiVersion (completed w obj) = Some v" "u_kind (completed w obj) = Some k"
    by (rule completed_fields [OF assms])
  then show ?thesis by (simp add: sendCloudEvent_def Send_def Let_def split: option.split)
qed

lemma handle_panics:
  assumes "avk_Kind (wi_KindSelector w) \<noteq> []"
  shows "handleWatchEvent env publisher event w = HandlePanic \<longleftrightarrow>
     (\<exists>flaw obj. object_of (we_Object event) = Some (flaw, obj) \<and> asks env w (we_Type event) obj
        \<and> publisher \<and> (flaw = Some NilMap \<or> flaw \<noteq> None \<and> he_encodes env (completed w obj)))"
proof (cases "object_of (we_Object event)")
  case (Some x)
  obtain flaw obj where x: "x = (flaw, obj)" by (cases x)
  have "handleWatchEvent env publisher event w = HandlePanic \<longleftrightarrow> asks env w (we_Type event) obj
      \<and> publisher \<and> (flaw = Some NilMap \<or> flaw \<noteq> None \<and> he_encodes env (completed w obj))"
    using Some send_panics [OF assms]
    by (auto simp: handleWatchEvent_def asks_def cel_holds_def Let_def x)
  then show ?thesis by (simp add: Some x)
qed (simp add: handleWatchEvent_def)

lemma object_of_flawed:
  "object_of x = Some (flaw, obj) \<longleftrightarrow> flaw = None \<and> x = ObjUnstructured obj \<or> (\<exists>f. flaw = Some f \<and> x = ObjFlawed f obj)"
  by (cases x) auto

text \<open>Every watch carries the selector its key spells.\<close>

definition watches_ok :: "'p sf_reconciler \<Rightarrow> bool" where
  "watches_ok r \<longleftrightarrow> gomap_ok (sr_watches r)
     \<and> (\<forall>key w. gomap_get (sr_watches r) key = Some w \<longrightarrow>
          (avk_Kind (wi_KindSelector w), avk_APIVersion (wi_KindSelector w)) = parseKindAndAPIVersionFromKey key)"

lemma gomap_ok_generateWatches:
  "gomap_ok (sr_watches r) \<Longrightarrow> gomap_ok (sr_watches (generateWatches env cf nf r))"
proof -
  have s: "gomap_ok (sr_watches r) \<Longrightarrow> gomap_ok (sr_watches (foldl stop_watch r ks))" for r :: "'a sf_reconciler" and ks
    by (induction ks arbitrary: r) (simp_all add: stop_watch_def)
  have u: "gomap_ok (sr_watches r) \<Longrightarrow> gomap_ok (sr_watches (foldl (update_watch cf nf) r ks))" for r and ks
    by (induction ks arbitrary: r) (simp_all add: update_watch_def split: option.split)
  have c: "gomap_ok (sr_watches r) \<Longrightarrow> gomap_ok (sr_watches (foldl (create_watch env cf nf) r ks))" for r and ks
    by (induction ks arbitrary: r) (simp_all add: create_watch_def createWatchForGVR_def Let_def split: option.split prod.split)
  show "gomap_ok (sr_watches r) \<Longrightarrow> ?thesis"
    unfolding generateWatches_def Let_def by (intro c u s)
qed

lemma watches_ok_generateWatches:
  assumes "watches_ok r"
  shows "watches_ok (generateWatches env cf nf r)"
  unfolding watches_ok_def
proof (intro conjI allI impI)
  show "gomap_ok (sr_watches (generateWatches env cf nf r))"
    using assms by (simp add: watches_ok_def gomap_ok_generateWatches)
  fix key w assume "gomap_get (sr_watches (generateWatches env cf nf r)) key = Some w"
  then show "(avk_Kind (wi_KindSelector w), avk_APIVersion (wi_KindSelector w)) = parseKindAndAPIVersionFromKey key"
    using assms new_watch_fields(4) [of env cf nf key w]
    by (auto simp: generateWatches_get watches_ok_def split: if_splits option.splits)
qed

section \<open>Resource versions\<close>

definition version_of :: "watch_event \<Rightarrow> string" where
  "version_of event = (case object_of (we_Object event) of Some (_, obj) \<Rightarrow> u_resourceVersion obj | None \<Rightarrow> [])"

fun is_plain :: "chan_item \<Rightarrow> bool" where
  "is_plain (ChanEvent event) = (we_Type event \<noteq> WatchError)"
| "is_plain _ = False"

fun chan_event :: "chan_item \<Rightarrow> watch_event list" where
  "chan_event (ChanEvent event) = [event]"
| "chan_event _ = []"

text \<open>The events of a session before what ends it, and whether it ends because the resource version is
  too old.\<close>

definition session_events :: "chan_item list \<Rightarrow> watch_event list" where
  "session_events items = concat (map chan_event (takeWhile is_plain items))"

fun ends_gone :: "chan_item list \<Rightarrow> bool" where
  "ends_gone [] = False"
| "ends_gone (ChanEvent event # items) =
     (if we_Type event = WatchError then shouldClearResourceVersion event else ends_gone items)"
| "ends_gone (_ # items) = False"

definition last_version :: "string \<Rightarrow> watch_event list \<Rightarrow> string" where
  "last_version rv events = foldl (\<lambda>rv e. if version_of e = [] then rv else version_of e) rv events"

lemma last_version_Cons [simp]:
  "last_version rv [] = rv"
  "last_version rv (e # es) = last_version (if version_of e = [] then rv else version_of e) es"
  by (simp_all add: last_version_def)

lemma last_version_append: "last_version rv (es @ fs) = last_version (last_version rv es) fs"
  by (simp add: last_version_def)

lemma last_version_entry:
  "last_version rv es = (case last_entry (\<lambda>e. version_of e \<noteq> []) es of None \<Rightarrow> rv | Some e \<Rightarrow> version_of e)"
  by (induction es rule: rev_induct) (simp_all add: last_version_append last_entry_snoc)

lemma process_session:
  "processWatchEvents rv items = (if ends_gone items then [] else last_version rv (session_events items), session_events items)"
proof (induction rv items rule: processWatchEvents.induct)
  case (4 rv event items)
  have "(case object_of (we_Object event) of Some (_, obj) \<Rightarrow> if u_resourceVersion obj \<noteq> [] then u_resourceVersion obj else rv | None \<Rightarrow> rv) =
      (if version_of event = [] then rv else version_of event)"
    by (simp add: version_of_def split: option.split)
  then show ?case using 4 by (cases "we_Type event = WatchError") (simp_all add: session_events_def Let_def)
qed (simp_all add: session_events_def)

text \<open>What the rounds of the loop queue, whether one of them ends because the version is gone, and the
  version from which the next request has to go on: that of the last event with one since the
  server last reported that a version is gone, or none.\<close>

fun round_events :: "loop_answer \<Rightarrow> watch_event list" where
  "round_events (Session items) = session_events items"
| "round_events _ = []"

fun round_gone :: "loop_answer \<Rightarrow> bool" where
  "round_gone (Session items) = ends_gone items"
| "round_gone _ = False"

definition queued_events :: "loop_answer list \<Rightarrow> watch_event list" where
  "queued_events rounds = concat (map round_events rounds)"

definition since_gone :: "loop_answer list \<Rightarrow> loop_answer list" where
  "since_gone rounds = rev (takeWhile (\<lambda>a. \<not> round_gone a) (rev rounds))"

definition resume_version :: "loop_answer list \<Rightarrow> string" where
  "resume_version rounds =
     (case last_entry (\<lambda>e. version_of e \<noteq> []) (queued_events (since_gone rounds)) of None \<Rightarrow> [] | Some e \<Rightarrow> version_of e)"

definition round_requests :: "loop_answer list \<Rightarrow> string list" where
  "round_requests rounds =
     map (\<lambda>i. resume_version (take i rounds)) (filter (\<lambda>i. rounds ! i \<noteq> StopSeen) [0..<length rounds])"

text \<open>The failures since the last session.\<close>

definition failed_rounds :: "loop_answer list \<Rightarrow> nat" where
  "failed_rounds rounds = length (takeWhile (\<lambda>a. a = CreateFailed) (rev rounds))"

definition not_stopped :: "loop_answer list \<Rightarrow> bool" where
  "not_stopped rounds \<longleftrightarrow> StopSeen \<notin> set rounds \<and> StoppedWaiting \<notin> set rounds"

lemma resume_snoc:
  "resume_version (rounds @ [a]) =
     (if round_gone a then [] else last_version (resume_version rounds) (round_events a))"
  unfolding resume_version_def last_version_entry [symmetric]
  by (simp add: since_gone_def queued_events_def last_version_append)

lemma round_requests_snoc:
  "round_requests (rounds @ [a]) = round_requests rounds @ (if a = StopSeen then [] else [resume_version rounds])"
  by (auto simp: round_requests_def nth_append intro!: map_cong filter_cong)

lemma session_round:
  assumes "processWatchEvents rv items = (rv', added)"
  shows "added = round_events (Session items)"
    and "rv' = (if round_gone (Session items) then [] else last_version rv (round_events (Session items)))"
  using assms by (auto simp: process_session split: if_splits)

lemma backoff_bounds: "second \<le> b \<Longrightarrow> b \<le> maxBackoff \<Longrightarrow> second \<le> next_backoff b \<and> next_backoff b \<le> maxBackoff"
  unfolding next_backoff_def second_def maxBackoff_def by linarith

lemma backoff_power: "second \<le> (next_backoff ^^ n) second \<and> (next_backoff ^^ n) second \<le> maxBackoff"
  by (induction n) (simp_all add: backoff_bounds, simp add: second_def maxBackoff_def)

lemma trace_running: "watch_trace rounds s \<Longrightarrow> ls_running s \<longleftrightarrow> not_stopped rounds"
  by (induction rule: watch_trace.induct) (auto simp: loop_init_def not_stopped_def elim!: watchLoopE)

lemma trace_queued: "watch_trace rounds s \<Longrightarrow> ls_queued s = queued_events rounds"
  by (induction rule: watch_trace.induct)
     (auto simp: loop_init_def queued_events_def dest: session_round elim!: watchLoopE)

lemma trace_version: "watch_trace rounds s \<Longrightarrow> ls_rv s = resume_version rounds"
proof (induction rule: watch_trace.induct)
  case start
  show ?case by (simp add: loop_init_def resume_version_def since_gone_def queued_events_def)
next
  case (step rounds s a s')
  from step.hyps(2) step.IH show ?case by cases (auto simp: resume_snoc dest: session_round(2))
qed

lemma trace_requests: "watch_trace rounds s \<Longrightarrow> ls_requests s = round_requests rounds"
proof (induction rule: watch_trace.induct)
  case start
  show ?case by (simp add: loop_init_def round_requests_def)
next
  case (step rounds s a s')
  from step.hyps(2) step.IH trace_version [OF step.hyps(1)] show ?case by cases (simp_all add: round_requests_snoc)
qed

lemma trace_backoff: "watch_trace rounds s \<Longrightarrow> ls_running s \<Longrightarrow> ls_backoff s = (next_backoff ^^ failed_rounds rounds) second"
proof (induction rule: watch_trace.induct)
  case start
  show ?case by (simp add: loop_init_def failed_rounds_def)
next
  case (step rounds s a s')
  from step.hyps(2) step.IH step.prems show ?case by cases (simp_all add: failed_rounds_def)
qed

section \<open>Properties\<close>

text \<open>C20: after a reconciliation that found the SinkFilter there is a watch for exactly those kinds the
  filter names that were watched before or that the API server maps; a watch that was there keeps
  its resource version, and exactly the watches of the other kinds were stopped, once each.\<close>

theorem watches_follow_filter:
  assumes "gomap_ok (sfNamespaces sf)" and "gomap_ok (sr_watches r)"
    and "gomap_get (cl_sinkFilters c) req = Some sf"
    and "sf_Reconcile fails namespace env compile req c r = (None, c', r')"
  shows "set (gomap_keys (sr_watches r')) =
           {key \<in> filtered_kinds sf. key \<in> set (gomap_keys (sr_watches r)) \<or> mappable env key}
         \<and> (\<forall>key w w'. gomap_get (sr_watches r) key = Some w \<and> gomap_get (sr_watches r') key = Some w' \<longrightarrow>
              wi_ResourceVersion w' = wi_ResourceVersion w \<and> wi_GVR w' = wi_GVR w)
         \<and> (\<exists>ks. sr_stopped r' = sr_stopped r @ ks \<and> distinct ks
              \<and> set ks = set (gomap_keys (sr_watches r)) - filtered_kinds sf)"
proof (intro conjI allI impI)
  let ?cf = "ExtractClusterCELExpressionsByKind compile sf Controller"
  let ?nf = "ExtractNamespacesByKind compile sf Controller"
  have r': "r' = generateWatches env ?cf ?nf r" by (rule sf_Reconcile_found [OF assms(3,4)])
  note need = needed_filtered [OF assms(1), of compile]
  have get: "gomap_get (sr_watches r') key =
      (if key \<notin> filtered_kinds sf then None
       else case gomap_get (sr_watches r) key of
              Some w \<Rightarrow> Some (w\<lparr>wi_ClusterCel := gomap_get ?cf key, wi_Namespaces := gomap_get0 [] ?nf key\<rparr>)
            | None \<Rightarrow> new_watch env ?cf ?nf key)" for key
    unfolding r' generateWatches_get need ..
  have "gomap_get (sr_watches r') key \<noteq> None \<longleftrightarrow>
      key \<in> filtered_kinds sf \<and> (gomap_get (sr_watches r) key \<noteq> None \<or> mappable env key)" for key
    unfolding get using new_watch_mappable [of env ?cf ?nf key] by (cases "gomap_get (sr_watches r) key") simp_all
  then have "key \<in> set (gomap_keys (sr_watches r')) \<longleftrightarrow>
      key \<in> filtered_kinds sf \<and> (key \<in> set (gomap_keys (sr_watches r)) \<or> mappable env key)" for key
    unfolding get_None_keys by blast
  then show "set (gomap_keys (sr_watches r')) =
      {key \<in> filtered_kinds sf. key \<in> set (gomap_keys (sr_watches r)) \<or> mappable env key}" by blast
  fix key w w' assume "gomap_get (sr_watches r) key = Some w \<and> gomap_get (sr_watches r') key = Some w'"
  then show "wi_ResourceVersion w' = wi_ResourceVersion w" "wi_GVR w' = wi_GVR w"
    using get [of key] by (auto split: if_splits)
next
  show "\<exists>ks. sr_stopped r' = sr_stopped r @ ks \<and> distinct ks \<and> set ks = set (gomap_keys (sr_watches r)) - filtered_kinds sf"
    unfolding sf_Reconcile_found [OF assms(3,4)] needed_filtered [OF assms(1), of compile, symmetric]
    by (rule generateWatches_stopped [OF assms(2)])
qed

text \<open>C19: after such a reconciliation an event on an object is decided by the filter: what its
  \<^verbatim>\<open>deleteWhen\<close>, \<^verbatim>\<open>archiveWhen\<close> and \<^verbatim>\<open>archiveOnDelete\<close> expressions for the kind, those of the
  cluster and those of the namespace of the object, ask for is what is sent, deletion first, and
  nothing is sent when none of them holds. The expressions of the cluster count in every namespace,
  also in one that has no KubeArchiveConfig; the documentation says that they have no effect there.\<close>

theorem event_decided_by_filter:
  assumes "gomap_ok (sfNamespaces sf)" and "gomap_get (cl_sinkFilters c) req = Some sf"
    and "sf_Reconcile fails namespace env compile req c r = (None, c', r')"
    and "gomap_get (sr_watches r') key = Some w"
    and "object_of (we_Object event) = Some (flaw, obj)"
  shows "handleWatchEvent henv publisher event w =
     (case wanted_action henv compile sf key (we_Type event) obj of
        None \<Rightarrow> Handled None
      | Some t \<Rightarrow> sendCloudEvent henv publisher t flaw obj w)"
proof -
  note w = assms(4) [unfolded sf_Reconcile_found [OF assms(2,3)]]
  show ?thesis by (rule handle_wanted [OF _ _ assms(5)]) (rule reconciled_watch [OF assms(1) w])+
qed

text \<open>The expressions of the cluster take part in every namespace: for the deletion of an object in a
  namespace that the SinkFilter does not list, as there is no KubeArchiveConfig in it, the
  \<^verbatim>\<open>archiveOnDelete\<close> expression of the cluster alone decides.\<close>

theorem cluster_filters_everywhere:
  assumes "gomap_get (sfNamespaces sf) (u_namespace obj) = None"
  shows "wanted_action henv compile sf key WatchDeleted obj = Some ''archive-on-delete'' \<longleftrightarrow>
     cel_holds henv ce_ArchiveOnDelete (cluster_entry compile sf key) obj"
  using assms by (simp add: wanted_action_def holds_any_def cel_holds_def namespace_entry_def)

text \<open>A key spells its selector: parsing the key of a kind without a dash gives back kind and API
  version, dashes in the API version included.\<close>

theorem key_round_trip:
  "CHR ''-'' \<notin> set (avk_Kind a) \<Longrightarrow> parseKindAndAPIVersionFromKey (Key a) = (avk_Kind a, avk_APIVersion a)"
  by (rule parse_Key)

text \<open>C37: reconciliations keep the watches well formed, whatever happens, and a worker of the watch of
  a proper kind panics exactly when the expressions of the watch ask to send an object that lacks
  the shape \<^verbatim>\<open>Send\<close> counts on (a nil map, an API version or a kind that is no string, no map of
  metadata) and there is a publisher; an object that is not nil must be encodable to get there. On
  a well-formed object, a status or anything else no worker panics.\<close>

theorem workers_panic_exactly:
  assumes "watches_ok r" and "sf_Reconcile fails namespace env compile req c r = (err, c', r')"
  shows "watches_ok r'
         \<and> (\<forall>a w event. gomap_get (sr_watches r') (Key a) = Some w \<and> avk_Kind a \<noteq> [] \<and> CHR ''-'' \<notin> set (avk_Kind a) \<longrightarrow>
              (runWorker henv publisher event w = None \<longleftrightarrow>
                 publisher \<and> (\<exists>flaw obj. we_Object event = ObjFlawed flaw obj \<and> asks henv w (we_Type event) obj
                   \<and> (flaw = NilMap \<or> he_encodes henv (completed w obj)))))"
proof -
  have "r' = r \<or> (\<exists>cf nf. r' = generateWatches env cf nf r)"
    using assms(2) unfolding sf_Reconcile_def by (auto split: prod.splits sum.splits api_error.splits)
  then have ok: "watches_ok r'" using assms(1) watches_ok_generateWatches by blast
  moreover have "runWorker henv publisher event w = None \<longleftrightarrow>
      publisher \<and> (\<exists>flaw obj. we_Object event = ObjFlawed flaw obj \<and> asks henv w (we_Type event) obj
        \<and> (flaw = NilMap \<or> he_encodes henv (completed w obj)))"
    if "gomap_get (sr_watches r') (Key a) = Some w" "avk_Kind a \<noteq> []" "CHR ''-'' \<notin> set (avk_Kind a)" for a w event
  proof -
    from ok that(1) have "(avk_Kind (wi_KindSelector w), avk_APIVersion (wi_KindSelector w)) = parseKindAndAPIVersionFromKey (Key a)"
      by (simp add: watches_ok_def)
    with parse_Key [OF that(3)] that(2) have k: "avk_Kind (wi_KindSelector w) \<noteq> []" by simp
    have "runWorker henv publisher event w = None \<longleftrightarrow> handleWatchEvent henv publisher event w = HandlePanic"
      by (simp add: runWorker_def split: handle_outcome.split)
    then show ?thesis unfolding handle_panics [OF k] object_of_flawed by auto
  qed
  ultimately show ?thesis by blast
qed

text \<open>A session queues every event that arrives before it ends, in order, and leaves the version of
  the last of them that has one to resume at, or none at all when the server reports that the
  version is gone.\<close>

theorem session_queues_all:
  "processWatchEvents rv items =
     (if ends_gone items then [] else last_version rv (session_events items), session_events items)"
  by (rule process_session)

text \<open>C27: whatever the rounds of a watch loop meet, the events of all its sessions are queued, in
  order and none left out; the version to resume at is always that of the last queued event that
  has one, and empty only when there is none since the server last reported that a version is gone;
  every request carried exactly the version for the rounds before it. While the loop runs, its wait
  has grown by a half for every failure since the last session, from a second to at most five
  minutes, and it runs until it is stopped.\<close>

theorem watch_resumes_at_queued_event:
  assumes "watch_trace rounds s"
  shows "ls_queued s = queued_events rounds
         \<and> ls_rv s = resume_version rounds
         \<and> ls_requests s = round_requests rounds
         \<and> (ls_running s \<longleftrightarrow> not_stopped rounds)
         \<and> (ls_running s \<longrightarrow> ls_backoff s = (next_backoff ^^ failed_rounds rounds) second
              \<and> second \<le> ls_backoff s \<and> ls_backoff s \<le> maxBackoff)"
  using trace_queued [OF assms] trace_version [OF assms] trace_requests [OF assms] trace_running [OF assms]
    trace_backoff [OF assms] backoff_power [of "failed_rounds rounds"]
  by simp

section \<open>At concrete inputs\<close>

definition sample_filter :: sinkFilter where
  "sample_filter =
     \<lparr>sf_Name = ''sink-filters'', sf_Namespace = ''kubearchive'',
      sf_Namespaces = Some [(''ns'', [\<lparr>kr_Selector = \<lparr>avk_Kind = ''Pod'', avk_APIVersion = ''v1''\<rparr>, kr_ArchiveWhen = ''true'',
        kr_DeleteWhen = ''false'', kr_ArchiveOnDelete = [], kr_KeepLastWhen = None\<rparr>])],
      sf_Cluster = []\<rparr>"

definition filter_cluster_state :: cluster where
  "filter_cluster_state =
     \<lparr>cl_calls = 0, cl_roles = [], cl_roleBindings = [], cl_serviceAccounts = [], cl_clusterRoles = [],
      cl_clusterRoleBindings = [], cl_sinkFilters = [((''kubearchive'', ''sink-filters''), sample_filter)], cl_kacs = [], cl_ckacs = []\<rparr>"

definition sample_wenv :: watch_env where
  "sample_wenv =
     \<lparr>wn_parse = \<lambda>v. Some ([], v), wn_mapping = \<lambda>g k v. Some \<lparr>gvr_Group = g, gvr_Version = v, gvr_Resource = ''pods''\<rparr>,
      wn_config = Some []\<rparr>"

definition sample_henv :: "string handler_env" where
  "sample_henv = \<lparr>he_eval = \<lambda>p obj. CelBool (p = ''true''), he_encodes = \<lambda>_. True, he_deliver = \<lambda>_. Ack\<rparr>"

definition old_watch :: "string watchInfo" where
  "old_watch =
     \<lparr>wi_GVR = \<lparr>gvr_Group = [], gvr_Version = ''v1'', gvr_Resource = ''secrets''\<rparr>,
      wi_KindSelector = \<lparr>avk_Kind = ''Secret'', avk_APIVersion = ''v1''\<rparr>, wi_ClusterCel = None, wi_Namespaces = [],
      wi_ResourceVersion = ''7'', wi_Workers = 3\<rparr>"

definition sample_rec :: "string sf_reconciler" where
  "sample_rec = \<lparr>sr_watches = [(''Secret-v1'', old_watch)], sr_stopped = []\<rparr>"

abbreviation sample_run :: "api_error option \<times> cluster \<times> string sf_reconciler" where
  "sample_run \<equiv> sf_Reconcile (\<lambda>_. False) ''kubearchive'' sample_wenv Some (''kubearchive'', ''sink-filters'') filter_cluster_state sample_rec"

lemma sample_run_facts:
  "fst sample_run = None" "gomap_ok (sfNamespaces sample_filter)" "gomap_ok (sr_watches sample_rec)" "watches_ok sample_rec"
  "gomap_get (cl_sinkFilters filter_cluster_state) (''kubearchive'', ''sink-filters'') = Some sample_filter"
  "filtered_kinds sample_filter = {''Pod-v1''}" "mappable sample_wenv ''Pod-v1''"
  by (simp_all add: sf_Reconcile_def filter_cluster_state_def api_get_def reconcileClusterRole_def reconcileClusterRoleBinding_def
      api_create_def called_def Let_def sample_filter_def sfNamespaces_def sample_rec_def filtered_kinds_def Key_def
      mappable_def parseKindAndAPIVersionFromKey_def getGVRFromKindAndAPIVersion_def sample_wenv_def watches_ok_def old_watch_def)

lemma sample_run_eq: "sample_run = (None, fst (snd sample_run), snd (snd sample_run))"
  using sample_run_facts(1) by (metis prod.collapse)

lemma sample_watch:
  obtains w where "gomap_get (sr_watches (snd (snd sample_run))) ''Pod-v1'' = Some w"
proof -
  let ?cf = "ExtractClusterCELExpressionsByKind Some sample_filter Controller :: (string, string celExpressions) gomap"
  let ?nf = "ExtractNamespacesByKind Some sample_filter Controller :: string kind_filters"
  have "''Pod-v1'' \<in> needed ?cf ?nf" unfolding needed_filtered [OF sample_run_facts(2)] sample_run_facts(6) by simp
  then have "gomap_get (sr_watches (snd (snd sample_run))) ''Pod-v1'' = new_watch sample_wenv ?cf ?nf ''Pod-v1''"
    unfolding sf_Reconcile_found [OF sample_run_facts(5) sample_run_eq] generateWatches_get
    by (simp add: sample_rec_def del: set_map)
  moreover obtain w where "new_watch sample_wenv ?cf ?nf ''Pod-v1'' = Some w"
    using new_watch_mappable [of sample_wenv ?cf ?nf "''Pod-v1''"] sample_run_facts(7) by blast
  ultimately show thesis by (intro that) (rule trans)
qed

theorem watches_follow_filter_witness:
  "set (gomap_keys (sr_watches (snd (snd sample_run)))) = {''Pod-v1''} \<and> sr_stopped (snd (snd sample_run)) = [''Secret-v1'']"
proof -
  note t = watches_follow_filter [OF sample_run_facts(2,3,5) sample_run_eq]
  have "set (gomap_keys (sr_watches (snd (snd sample_run)))) = {''Pod-v1''}"
    unfolding conjunct1 [OF t] sample_run_facts(6) using sample_run_facts(7) by blast
  moreover obtain ks where ks: "sr_stopped (snd (snd sample_run)) = sr_stopped sample_rec @ ks" "distinct ks"
      "set ks = set (gomap_keys (sr_watches sample_rec)) - filtered_kinds sample_filter"
    using conjunct2 [OF conjunct2 [OF t]] by blast
  then have "set ks = {''Secret-v1''}" by (simp add: sample_run_facts(6) sample_rec_def)
  with ks(2) have "ks = [''Secret-v1'']" by (cases ks; cases "tl ks") auto
  ultimately show ?thesis using ks(1) by (simp add: sample_rec_def)
qed

lemma sample_entry:
  "namespace_entry Some sample_filter Controller ''Pod-v1'' ''ns'' =
     Some \<lparr>ce_ArchiveWhen = Some ''true'', ce_DeleteWhen = Some ''false'', ce_ArchiveOnDelete = None, ce_KeepLastWhen = []\<rparr>"
  by (simp add: namespace_entry_def sample_filter_def sfNamespaces_def last_entry_def Key_def namespaceCelExpr_def
      CompileCELExpression_def Let_def)

theorem event_decided_by_filter_witness:
  "\<exists>w ev. gomap_get (sr_watches (snd (snd sample_run))) ''Pod-v1'' = Some w
     \<and> handleWatchEvent sample_henv True \<lparr>we_Type = WatchAdded, we_Object = ObjUnstructured (sample_obj ''Pod'' ''a'' ''u'' 1)\<rparr> w = Handled (Some ev)
     \<and> se_type ev = ''org.kubearchive.sinkfilters.resource.archive-when''"
proof -
  obtain w where w: "gomap_get (sr_watches (snd (snd sample_run))) ''Pod-v1'' = Some w" by (rule sample_watch)
  let ?obj = "sample_obj ''Pod'' ''a'' ''u'' 1"
  have act: "wanted_action sample_henv Some sample_filter ''Pod-v1'' WatchAdded ?obj = Some ''archive-when''"
    by (simp add: wanted_action_def holds_any_def cluster_entry_def cel_holds_def sample_henv_def ExecuteBooleanCEL_def
        ExecuteCEL_def sample_entry [unfolded sample_filter_def] sample_filter_def last_entry_def)
  have "sendCloudEvent sample_henv True ''archive-when'' None ?obj w = Handled (Some
      \<lparr>se_source = ''kubearchive.org/sinkfilter-controller'', se_type = ''org.kubearchive.sinkfilters.resource.'' @ ''archive-when'',
       se_data = ?obj, se_apiversion = ''v1'', se_kind = ''Pod'', se_name = ''a'', se_namespace = ''ns''\<rparr>)"
    by (simp add: sendCloudEvent_def completed_def Send_def sample_obj_def sample_henv_def Let_def)
  with event_decided_by_filter [OF sample_run_facts(2,5) sample_run_eq w, of "\<lparr>we_Type = WatchAdded, we_Object = ObjUnstructured ?obj\<rparr>"
      None ?obj sample_henv True] act w
  show ?thesis by simp
qed

theorem key_round_trip_witness:
  "parseKindAndAPIVersionFromKey ''Kind-my-group.io/v1'' = (''Kind'', ''my-group.io/v1'')"
  using key_round_trip [of "\<lparr>avk_Kind = ''Kind'', avk_APIVersion = ''my-group.io/v1''\<rparr>"] by (simp add: Key_def)

text \<open>The worker goes on after an object the filter asks to archive, and panics on the same object
  without metadata.\<close>

theorem workers_panic_exactly_witness:
  "\<exists>w. gomap_get (sr_watches (snd (snd sample_run))) ''Pod-v1'' = Some w
     \<and> runWorker sample_henv True \<lparr>we_Type = WatchAdded, we_Object = ObjUnstructured (sample_obj ''Pod'' ''a'' ''u'' 1)\<rparr> w \<noteq> None
     \<and> runWorker sample_henv True \<lparr>we_Type = WatchAdded, we_Object = ObjFlawed NoMetadata (sample_obj ''Pod'' ''a'' ''u'' 1)\<rparr> w = None"
proof -
  obtain w where w: "gomap_get (sr_watches (snd (snd sample_run))) ''Pod-v1'' = Some w" by (rule sample_watch)
  let ?a = "\<lparr>avk_Kind = ''Pod'', avk_APIVersion = ''v1''\<rparr>" and ?obj = "sample_obj ''Pod'' ''a'' ''u'' 1"
  have k: "Key ?a = ''Pod-v1''" by (simp add: Key_def)
  from w have "gomap_get (wi_Namespaces w) ''ns'' = namespace_entry Some sample_filter Controller ''Pod-v1'' ''ns''"
    unfolding sf_Reconcile_found [OF sample_run_facts(5) sample_run_eq] by (rule reconciled_watch(2) [OF sample_run_facts(2)])
  then have "asks sample_henv w WatchAdded ?obj"
    by (simp add: asks_def cel_holds_def sample_entry sample_henv_def ExecuteBooleanCEL_def ExecuteCEL_def sample_obj_def)
  with workers_panic_exactly [OF sample_run_facts(4) sample_run_eq, of sample_henv True] w
  have "runWorker sample_henv True \<lparr>we_Type = WatchAdded, we_Object = x\<rparr> w = None \<longleftrightarrow> x = ObjFlawed NoMetadata ?obj"
    if "x = ObjUnstructured ?obj \<or> x = ObjFlawed NoMetadata ?obj" for x
    using that by (elim conjE allE [where x = ?a] allE [where x = w] allE [where x = "\<lparr>we_Type = WatchAdded, we_Object = x\<rparr>"])
      (auto simp: k sample_henv_def)
  with w show ?thesis by (intro exI [of _ w]) simp
qed

text \<open>A refused watch, a session that queues an event with version 1 and one without a version, a refused
  watch that asks from version 1, a session that is told that the version is gone, and a last one.\<close>

definition watched_event :: "string \<Rightarrow> watch_event" where
  "watched_event rv = \<lparr>we_Type = WatchAdded, we_Object = ObjUnstructured ((sample_obj ''Pod'' ''a'' ''u'' 1)\<lparr>u_resourceVersion := rv\<rparr>)\<rparr>"

definition sample_rounds :: "loop_answer list" where
  "sample_rounds =
     [CreateFailed, Session [ChanEvent (watched_event ''1''), ChanEvent (watched_event []), ChanClosed], CreateFailed,
      Session [ChanEvent (watched_event ''2''), ChanEvent \<lparr>we_Type = WatchError, we_Object = ObjStatus 410 ''Expired''\<rparr>],
      Session [ChanEvent (watched_event ''3''), ChanClosed], CreateFailed]"

text \<open>Every sequence of failures and sessions is one the loop can meet.\<close>

lemma trace_exists:
  "\<forall>a\<in>set rounds. a = CreateFailed \<or> (\<exists>items. a = Session items) \<Longrightarrow> \<exists>s. watch_trace rounds s \<and> ls_running s"
proof (induction rounds rule: rev_induct)
  case Nil
  show ?case using watch_trace.start by (force simp: loop_init_def)
next
  case (snoc a rounds)
  then obtain s where s: "watch_trace rounds s" "ls_running s" by auto
  from snoc.prems have "a = CreateFailed \<or> (\<exists>items. a = Session items)" by simp
  then obtain s' where "watchLoop a s s'" "ls_running s'"
  proof (elim disjE exE)
    assume a: "a = CreateFailed"
    from that [OF watchLoop.retry [OF s(2), folded a]] s(2) show thesis by simp
  next
    fix items assume a: "a = Session items"
    obtain rv' added where "processWatchEvents (ls_rv s) items = (rv', added)" by fastforce
    from that [OF watchLoop.session [OF s(2) this, folded a]] s(2) show thesis by simp
  qed
  with s(1) show ?case by (blast intro: watch_trace.step)
qed

theorem watch_resumes_at_queued_event_witness:
  "\<exists>s. watch_trace sample_rounds s \<and> ls_requests s = [[], [], ''1'', ''1'', [], ''3''] \<and> ls_rv s = ''3''
     \<and> map version_of (ls_queued s) = [''1'', [], ''2'', ''3''] \<and> ls_backoff s = 1500000000"
proof -
  obtain s where s: "watch_trace sample_rounds s" using trace_exists [of sample_rounds] by (auto simp: sample_rounds_def)
  have "round_requests sample_rounds = [[], [], ''1'', ''1'', [], ''3'']" by code_simp
  moreover have "resume_version sample_rounds = ''3''" by code_simp
  moreover have "map version_of (queued_events sample_rounds) = [''1'', [], ''2'', ''3'']" by code_simp
  moreover have "not_stopped sample_rounds" "(next_backoff ^^ failed_rounds sample_rounds) second = 1500000000" by code_simp+
  ultimately show ?thesis using s watch_resumes_at_queued_event [OF s] by (intro exI [of _ s]) simp
qed

end
