(* ===== verification/Webhooks.thy ===== *)
theory Webhooks
  imports Cel_Filters Cluster_Api
begin

text \<open>
  \<^verbatim>\<open>cmd/operator/api/v1/*_webhook.go\<close>: the admission webhooks. A validator answers with the list of
  its errors, empty when the object is accepted (\<^verbatim>\<open>errors.Join\<close> of no errors is nil).

  Compiling CEL is an argument, as is whether evaluating a program on an empty object ends with
  the error that the string is no duration. What the webhooks fetch from the API server is an
  argument too. White space is that of ASCII.
\<close>

section \<open>Errors\<close>

datatype config_error =
    WrongType
  | InvalidName string
  | WrongNamespace string
  | CompileError string
  | InvalidDuration string
  | WhenRequired nat
  | WhenInvalid nat config_error
  | WhenDuplicate nat nat
  | WhenDuplicatesRule nat string
  | NegativeCount nat
  | NameRequired nat
  | NameDuplicate nat nat
  | MatchesClusterRule nat string
  | ClusterConfigNotFound
  | FetchFailed
  | NoClusterResource nat
  | OverrideNameRequired nat
  | OverrideNegative nat
  | OverrideUnknown nat string
  | OverrideTooLarge nat int string int
  | NotConfigured apiVersionKind string

record 'p webhook_env =
  wh_compile :: "'p cel_compile"
  wh_badDuration :: "'p \<Rightarrow> bool"
  wh_namespace :: string

section \<open>Durations\<close>

text \<open>The regular expression \<^verbatim>\<open>duration *\(\<close> at the head of a string: what follows the match.\<close>

definition match_duration :: "string \<Rightarrow> string option" where
  "match_duration s =
     (if has_prefix s ''duration'' then
        (case dropWhile (\<lambda>c. c = CHR '' '') (drop 8 s) of
           [] \<Rightarrow> None
         | c # rest \<Rightarrow> if c = CHR ''('' then Some rest else None)
      else None)"

text \<open>The text up to the parenthesis that closes \<open>n\<close> open ones.\<close>

fun close_paren :: "nat \<Rightarrow> string \<Rightarrow> string option" where
  "close_paren n [] = None"
| "close_paren n (c # cs) =
     (let n' = (if c = CHR ''('' then Suc n else if c = CHR '')'' then n - 1 else n)
      in if n' = 0 then Some [c] else map_option ((#) c) (close_paren n' cs))"

lemma length_match_duration: "match_duration s = Some rest \<Longrightarrow> length rest < length s"
proof -
  assume "match_duration s = Some rest"
  then have "dropWhile (\<lambda>c. c = CHR '' '') (drop 8 s) = CHR ''('' # rest"
    by (auto simp: match_duration_def split: if_splits list.splits)
  then have "Suc (length rest) = length (dropWhile (\<lambda>c. c = CHR '' '') (drop 8 s))" by simp
  also have "\<dots> \<le> length (drop 8 s)" by (rule length_dropWhile_le)
  also have "\<dots> \<le> length s" by simp
  finally show ?thesis by simp
qed

text \<open>Matches do not overlap: the search goes on after a match.\<close>

function getDurationCalls :: "string \<Rightarrow> string list" where
  "getDurationCalls s =
     (case s of
        [] \<Rightarrow> []
      | c # cs \<Rightarrow>
          (case match_duration s of
             None \<Rightarrow> getDurationCalls cs
           | Some rest \<Rightarrow>
               (case close_paren 1 rest of None \<Rightarrow> [] | Some t \<Rightarrow> [take (length s - length rest) s @ t])
               @ getDurationCalls rest))"
  by pat_completeness auto
termination
  by (relation "measure length") (use length_match_duration in \<open>fastforce+\<close>)

declare getDurationCalls.simps [simp del]

definition validateDurationString :: "'p webhook_env \<Rightarrow> string \<Rightarrow> config_error list" where
  "validateDurationString env expr =
     concat (map (\<lambda>call. case wh_compile env call of
                           None \<Rightarrow> [CompileError call]
                         | Some prg \<Rightarrow> if wh_badDuration env prg then [InvalidDuration call] else [])
       (getDurationCalls expr))"

definition normalizeString :: "string \<Rightarrow> string" where
  "normalizeString s = join_with '' '' (Prelude.fields s)"

section \<open>Expressions\<close>

text \<open>The check of one expression, repeated in the validators: it compiles and its durations are
  durations; an expression that is not there is fine.\<close>

definition compiles :: "'p webhook_env \<Rightarrow> string \<Rightarrow> config_error list" where
  "compiles env expr =
     (if wh_compile env expr = None then [CompileError expr] else validateDurationString env expr)"

definition validateExpr :: "'p webhook_env \<Rightarrow> string \<Rightarrow> config_error list" where
  "validateExpr env expr = (if expr \<noteq> [] then compiles env expr else [])"

section \<open>ClusterKubeArchiveConfig\<close>

definition defaultSortBy :: string where
  "defaultSortBy = ''metadata.creationTimestamp''"

definition ckac_Default :: "clusterKubeArchiveConfig \<Rightarrow> clusterKubeArchiveConfig" where
  "ckac_Default ckac =
     ckac\<lparr>ckac_Resources := map (\<lambda>r. r\<lparr>cr_KeepLastWhen :=
        map (\<lambda>k. if ck_SortBy k = [] then k\<lparr>ck_SortBy := defaultSortBy\<rparr> else k) (cr_KeepLastWhen r)\<rparr>) (ckac_Resources ckac)\<rparr>"

fun validateClusterRules ::
    "'p webhook_env \<Rightarrow> nat \<Rightarrow> (string, nat) gomap \<Rightarrow> (string, string) gomap \<Rightarrow> clusterKeepLastRule list \<Rightarrow> config_error list" where
  "validateClusterRules env i seenNames seenCELs [] = []"
| "validateClusterRules env i seenNames seenCELs (rule # rules) =
     (let nameErrs = (if ck_Name rule = [] then [NameRequired i]
                      else case gomap_get seenNames (ck_Name rule) of Some j \<Rightarrow> [NameDuplicate i j] | None \<Rightarrow> []);
          seenNames' = (if ck_Name rule \<noteq> [] \<and> gomap_get seenNames (ck_Name rule) = None
                        then gomap_set seenNames (ck_Name rule) i else seenNames);
          when = normalizeString (ck_When rule);
          whenErrs = (if when = [] then [WhenRequired i]
                      else map (WhenInvalid i) (compiles env when)
                           @ (case gomap_get seenCELs when of Some n \<Rightarrow> [WhenDuplicatesRule i n] | None \<Rightarrow> []));
          seenCELs' = (if when \<noteq> [] \<and> gomap_get seenCELs when = None then gomap_set seenCELs when (ck_Name rule) else seenCELs);
          countErrs = (if ck_Count rule < 0 then [NegativeCount i] else [])
      in nameErrs @ whenErrs @ countErrs @ validateClusterRules env (Suc i) seenNames' seenCELs' rules)"

definition ckac_validateKAC :: "'p webhook_env \<Rightarrow> clusterKubeArchiveConfig \<Rightarrow> config_error list" where
  "ckac_validateKAC env ckac =
     (if ckac_Name ckac \<noteq> ''kubearchive'' then [InvalidName (ckac_Name ckac)] else [])
     @ concat (map (\<lambda>r. validateExpr env (cr_ArchiveWhen r) @ validateExpr env (cr_DeleteWhen r)
                        @ validateExpr env (cr_ArchiveOnDelete r)
                        @ validateClusterRules env 0 [] [] (cr_KeepLastWhen r)) (ckac_Resources ckac))"

section \<open>KubeArchiveConfig\<close>

definition kac_Default :: "kubeArchiveConfig \<Rightarrow> kubeArchiveConfig" where
  "kac_Default kac =
     kac\<lparr>kac_Resources := map_option (map (\<lambda>r. r\<lparr>kr_KeepLastWhen :=
        map_option (\<lambda>k. k\<lparr>kw_Keep := map (\<lambda>x. if kk_SortBy x = [] then x\<lparr>kk_SortBy := defaultSortBy\<rparr> else x) (kw_Keep k)\<rparr>)
          (kr_KeepLastWhen r)\<rparr>)) (kac_Resources kac)\<rparr>"

fun validateKeepRules :: "'p webhook_env \<Rightarrow> nat \<Rightarrow> (string, nat) gomap \<Rightarrow> keepLastKeepRule list \<Rightarrow> config_error list" where
  "validateKeepRules env i seen [] = []"
| "validateKeepRules env i seen (rule # rules) =
     (let when = normalizeString (kk_When rule);
          whenErrs = (if when = [] then [WhenRequired i]
                      else map (WhenInvalid i) (compiles env when)
                           @ (case gomap_get seen when of Some j \<Rightarrow> [WhenDuplicate i j] | None \<Rightarrow> []));
          seen' = (if when \<noteq> [] \<and> gomap_get seen when = None then gomap_set seen when i else seen);
          countErrs = (if kk_Count rule < 0 then [NegativeCount i] else [])
      in whenErrs @ countErrs @ validateKeepRules env (Suc i) seen' rules)"

definition matchingClusterResource :: "clusterKubeArchiveConfig \<Rightarrow> apiVersionKind \<Rightarrow> clusterKubeArchiveConfigResource option" where
  "matchingClusterResource ckac sel =
     List.find (\<lambda>r. avk_Kind (cr_Selector r) = avk_Kind sel \<and> avk_APIVersion (cr_Selector r) = avk_APIVersion sel) (ckac_Resources ckac)"

definition validateAgainstCluster :: "clusterKubeArchiveConfigResource \<Rightarrow> keepLastKeepRule list \<Rightarrow> config_error list" where
  "validateAgainstCluster res keep =
     (let clusterRuleCELs = foldl (\<lambda>m r. gomap_set m (normalizeString (ck_When r)) (ck_Name r)) [] (cr_KeepLastWhen res)
      in concat (map (\<lambda>(i, r). case gomap_get clusterRuleCELs (normalizeString (kk_When r)) of
                                 Some n \<Rightarrow> [MatchesClusterRule i n] | None \<Rightarrow> []) (List.enumerate 0 keep)))"

definition validateOverrides :: "clusterKubeArchiveConfigResource \<Rightarrow> keepLastOverrideRule list \<Rightarrow> config_error list" where
  "validateOverrides res overrides =
     (let clusterRules = foldl (\<lambda>m r. gomap_set m (ck_Name r) (ck_Count r)) [] (cr_KeepLastWhen res)
      in concat (map (\<lambda>(i, o'). if ko_Name o' = [] then [OverrideNameRequired i]
                               else if ko_Count o' < 0 then [OverrideNegative i]
                               else case gomap_get clusterRules (ko_Name o') of
                                      None \<Rightarrow> [OverrideUnknown i (ko_Name o')]
                                    | Some clusterCount \<Rightarrow>
                                        if clusterCount < ko_Count o'
                                        then [OverrideTooLarge i (ko_Count o') (ko_Name o') clusterCount] else [])
           (List.enumerate 0 overrides)))"

definition validateKeepLastWhen ::
    "'p webhook_env \<Rightarrow> api_error + clusterKubeArchiveConfig \<Rightarrow> nat \<Rightarrow> apiVersionKind \<Rightarrow> keepLastWhenConfig \<Rightarrow> config_error list" where
  "validateKeepLastWhen env ckac idx sel k =
     validateKeepRules env 0 [] (kw_Keep k)
     @ (case ckac of
          Inl _ \<Rightarrow> []
        | Inr c \<Rightarrow> (case matchingClusterResource c sel of None \<Rightarrow> [] | Some res \<Rightarrow> validateAgainstCluster res (kw_Keep k)))
     @ (if kw_Override k = [] then []
        else case ckac of
          Inl ApiNotFound \<Rightarrow> [ClusterConfigNotFound]
        | Inl _ \<Rightarrow> [FetchFailed]
        | Inr c \<Rightarrow> (case matchingClusterResource c sel of None \<Rightarrow> [NoClusterResource idx]
                   | Some res \<Rightarrow> validateOverrides res (kw_Override k)))"

text \<open>\<open>fetched\<close> is the answer to the request for the ClusterKubeArchiveConfig.\<close>

definition kac_validateKAC ::
    "'p webhook_env \<Rightarrow> api_error + clusterKubeArchiveConfig \<Rightarrow> kubeArchiveConfig \<Rightarrow> config_error list" where
  "kac_validateKAC env fetched kac =
     (if kac_Namespace kac = wh_namespace env then [WrongNamespace (kac_Namespace kac)]
      else if (\<exists>r\<in>set (kacResources kac). kr_KeepLastWhen r \<noteq> None)
              \<and> (case fetched of Inl ApiNotFound \<Rightarrow> False | Inl _ \<Rightarrow> True | Inr _ \<Rightarrow> False)
      then [FetchFailed]
      else (if kac_Name kac \<noteq> ''kubearchive'' then [InvalidName (kac_Name kac)] else [])
           @ concat (map (\<lambda>(idx, r). validateExpr env (kr_ArchiveWhen r) @ validateExpr env (kr_DeleteWhen r)
                              @ validateExpr env (kr_ArchiveOnDelete r)
                              @ (case kr_KeepLastWhen r of None \<Rightarrow> []
                                 | Some k \<Rightarrow> validateKeepLastWhen env fetched idx (kr_Selector r) k))
               (List.enumerate 0 (kacResources kac))))"

text \<open>The three entry points; an object of another type is an error, and deletion is always allowed.\<close>

datatype admission = AdmitCreate | AdmitUpdate | AdmitDelete

definition kac_Validate ::
    "'p webhook_env \<Rightarrow> api_error + clusterKubeArchiveConfig \<Rightarrow> admission \<Rightarrow> kubeArchiveConfig option \<Rightarrow> config_error list" where
  "kac_Validate env fetched op obj =
     (case obj of
        None \<Rightarrow> [WrongType]
      | Some kac \<Rightarrow> if op = AdmitDelete then [] else kac_validateKAC env fetched kac)"

definition ckac_Validate :: "'p webhook_env \<Rightarrow> admission \<Rightarrow> clusterKubeArchiveConfig option \<Rightarrow> config_error list" where
  "ckac_Validate env op obj =
     (case obj of None \<Rightarrow> [WrongType] | Some ckac \<Rightarrow> if op = AdmitDelete then [] else ckac_validateKAC env ckac)"

section \<open>SinkFilter\<close>

definition sf_expr :: "'p webhook_env \<Rightarrow> string \<Rightarrow> config_error list" where
  "sf_expr env expr = (if expr \<noteq> [] \<and> wh_compile env expr = None then [CompileError expr] else [])"

definition validateSinkFilter :: "'p webhook_env \<Rightarrow> sinkFilter \<Rightarrow> config_error list" where
  "validateSinkFilter env sf =
     (if sf_Name sf \<noteq> SinkFilterResourceName then [InvalidName (sf_Name sf)] else [])
     @ (if sf_Namespace sf \<noteq> wh_namespace env then [WrongNamespace (sf_Namespace sf)] else [])
     @ concat (map (\<lambda>(_, rs). concat (map (\<lambda>r. sf_expr env (kr_ArchiveWhen r) @ sf_expr env (kr_DeleteWhen r)
                                             @ sf_expr env (kr_ArchiveOnDelete r)) rs)) (sfNamespaces sf))"

section \<open>Vacuum configurations\<close>

text \<open>What the dynamic client answers: the cluster configuration, and the configuration of a
  namespace; \<open>Inl\<close> stands for an error of the request or of the conversion.\<close>

record config_client =
  cc_cluster :: "api_error + clusterKubeArchiveConfig"
  cc_namespace :: "string \<Rightarrow> api_error + kubeArchiveConfig"

definition getGlobalResourceSet :: "config_client \<Rightarrow> config_error + apiVersionKind list" where
  "getGlobalResourceSet client =
     (case cc_cluster client of
        Inl ApiNotFound \<Rightarrow> Inr []
      | Inl _ \<Rightarrow> Inl FetchFailed
      | Inr ckac \<Rightarrow> Inr (map cr_Selector (ckac_Resources ckac)))"

definition getNamespaceResourceSet :: "config_client \<Rightarrow> string \<Rightarrow> config_error + apiVersionKind list" where
  "getNamespaceResourceSet client ns =
     (case cc_namespace client ns of
        Inl _ \<Rightarrow> Inl FetchFailed
      | Inr kac \<Rightarrow> Inr (map kr_Selector (kacResources kac)))"

definition validateResources :: "config_client \<Rightarrow> string \<Rightarrow> apiVersionKind list \<Rightarrow> config_error list" where
  "validateResources client ns resources =
     (case getGlobalResourceSet client of
        Inl e \<Rightarrow> [e]
      | Inr gres \<Rightarrow>
          (case getNamespaceResourceSet client ns of
             Inl e \<Rightarrow> [e]
           | Inr nres \<Rightarrow>
               concat (map (\<lambda>r. if r \<notin> set gres \<and> r \<notin> set nres then [NotConfigured r ns] else []) resources)))"

definition validateNamespaceVacuumConfig :: "config_client \<Rightarrow> namespaceVacuumConfig \<Rightarrow> config_error list" where
  "validateNamespaceVacuumConfig client cv = validateResources client (nvc_Namespace cv) (nvc_Resources cv)"

definition validateClusterVacuumConfig :: "'p webhook_env \<Rightarrow> config_client \<Rightarrow> clusterVacuumConfig \<Rightarrow> config_error list" where
  "validateClusterVacuumConfig env client cv =
     (if cvc_Namespace cv \<noteq> wh_namespace env then [WrongNamespace (cvc_Namespace cv)] else [])
     @ concat (map (\<lambda>(ns, resources). if ns \<noteq> ClusterVacuumAllNamespaces then validateResources client ns resources else [])
         (cvc_Namespaces cv))"

section \<open>The other entry points\<close>

text \<open>As for the configurations, an object of another type is an error and deletion is allowed. The
  defaulters check the type and leave the object as it is.\<close>

definition sf_Default :: "sinkFilter option \<Rightarrow> config_error + sinkFilter" where
  "sf_Default obj = (case obj of None \<Rightarrow> Inl WrongType | Some sf \<Rightarrow> Inr sf)"

definition sf_Validate :: "'p webhook_env \<Rightarrow> admission \<Rightarrow> sinkFilter option \<Rightarrow> config_error list" where
  "sf_Validate env op obj =
     (case obj of None \<Rightarrow> [WrongType] | Some sf \<Rightarrow> if op = AdmitDelete then [] else validateSinkFilter env sf)"

definition nvc_Default :: "namespaceVacuumConfig option \<Rightarrow> config_error + namespaceVacuumConfig" where
  "nvc_Default obj = (case obj of None \<Rightarrow> Inl WrongType | Some cv \<Rightarrow> Inr cv)"

definition nvc_Validate :: "config_client \<Rightarrow> admission \<Rightarrow> namespaceVacuumConfig option \<Rightarrow> config_error list" where
  "nvc_Validate client op obj =
     (case obj of None \<Rightarrow> [WrongType] | Some cv \<Rightarrow> if op = AdmitDelete then [] else validateNamespaceVacuumConfig client cv)"

definition cvc_Default :: "clusterVacuumConfig option \<Rightarrow> config_error + clusterVacuumConfig" where
  "cvc_Default obj = (case obj of None \<Rightarrow> Inl WrongType | Some cv \<Rightarrow> Inr cv)"

definition cvc_Validate :: "'p webhook_env \<Rightarrow> config_client \<Rightarrow> admission \<Rightarrow> clusterVacuumConfig option \<Rightarrow> config_error list" where
  "cvc_Validate env client op obj =
     (case obj of None \<Rightarrow> [WrongType] | Some cv \<Rightarrow> if op = AdmitDelete then [] else validateClusterVacuumConfig env client cv)"

section \<open>What the validators accept\<close>

definition expr_ok :: "'p webhook_env \<Rightarrow> string \<Rightarrow> bool" where
  "expr_ok env expr \<longleftrightarrow> wh_compile env expr \<noteq> None
     \<and> (\<forall>call\<in>set (getDurationCalls expr). \<exists>prg. wh_compile env call = Some prg \<and> \<not> wh_badDuration env prg)"

definition opt_expr_ok :: "'p webhook_env \<Rightarrow> string \<Rightarrow> bool" where
  "opt_expr_ok env expr \<longleftrightarrow> expr = [] \<or> expr_ok env expr"

text \<open>A rule of a namespace or of the cluster, by its normalized expression and its count.\<close>

definition rule_ok :: "'p webhook_env \<Rightarrow> string \<Rightarrow> int \<Rightarrow> bool" where
  "rule_ok env when cnt \<longleftrightarrow> when \<noteq> [] \<and> expr_ok env when \<and> 0 \<le> cnt"

definition overrides_ok :: "clusterKubeArchiveConfigResource \<Rightarrow> keepLastOverrideRule list \<Rightarrow> bool" where
  "overrides_ok res overrides \<longleftrightarrow>
     (\<forall>x\<in>set overrides. ko_Name x \<noteq> [] \<and> 0 \<le> ko_Count x
        \<and> (\<exists>r. last_entry (\<lambda>r. ck_Name r = ko_Name x) (cr_KeepLastWhen res) = Some r \<and> ko_Count x \<le> ck_Count r))"

definition keep_acceptable ::
    "'p webhook_env \<Rightarrow> api_error + clusterKubeArchiveConfig \<Rightarrow> apiVersionKind \<Rightarrow> keepLastWhenConfig \<Rightarrow> bool" where
  "keep_acceptable env fetched sel k \<longleftrightarrow>
     (\<forall>r\<in>set (kw_Keep k). rule_ok env (normalizeString (kk_When r)) (kk_Count r))
     \<and> distinct (map (\<lambda>r. normalizeString (kk_When r)) (kw_Keep k))
     \<and> (\<forall>c res. fetched = Inr c \<and> matchingClusterResource c sel = Some res \<longrightarrow>
          (\<forall>r\<in>set (kw_Keep k). \<forall>x\<in>set (cr_KeepLastWhen res). normalizeString (kk_When r) \<noteq> normalizeString (ck_When x)))
     \<and> (kw_Override k \<noteq> [] \<longrightarrow>
          (\<exists>c res. fetched = Inr c \<and> matchingClusterResource c sel = Some res \<and> overrides_ok res (kw_Override k)))"

definition kac_acceptable :: "'p webhook_env \<Rightarrow> api_error + clusterKubeArchiveConfig \<Rightarrow> kubeArchiveConfig \<Rightarrow> bool" where
  "kac_acceptable env fetched kac \<longleftrightarrow>
     kac_Namespace kac \<noteq> wh_namespace env \<and> kac_Name kac = ''kubearchive''
     \<and> (\<forall>r\<in>set (kacResources kac).
          opt_expr_ok env (kr_ArchiveWhen r) \<and> opt_expr_ok env (kr_DeleteWhen r) \<and> opt_expr_ok env (kr_ArchiveOnDelete r)
          \<and> (\<forall>k. kr_KeepLastWhen r = Some k \<longrightarrow>
               fetched \<in> {Inl ApiNotFound} \<union> range Inr \<and> keep_acceptable env fetched (kr_Selector r) k))"

definition ckac_acceptable :: "'p webhook_env \<Rightarrow> clusterKubeArchiveConfig \<Rightarrow> bool" where
  "ckac_acceptable env ckac \<longleftrightarrow>
     ckac_Name ckac = ''kubearchive''
     \<and> (\<forall>r\<in>set (ckac_Resources ckac).
          opt_expr_ok env (cr_ArchiveWhen r) \<and> opt_expr_ok env (cr_DeleteWhen r) \<and> opt_expr_ok env (cr_ArchiveOnDelete r)
          \<and> (\<forall>x\<in>set (cr_KeepLastWhen r). ck_Name x \<noteq> [] \<and> rule_ok env (normalizeString (ck_When x)) (ck_Count x))
          \<and> distinct (map ck_Name (cr_KeepLastWhen r))
          \<and> distinct (map (\<lambda>x. normalizeString (ck_When x)) (cr_KeepLastWhen r)))"

subsection \<open>Lemmas\<close>

lemma compiles_Nil: "compiles env expr = [] \<longleftrightarrow> expr_ok env expr"
  by (auto simp: compiles_def expr_ok_def validateDurationString_def split: option.splits if_splits)

lemma validateExpr_Nil: "validateExpr env expr = [] \<longleftrightarrow> opt_expr_ok env expr"
  by (simp add: validateExpr_def opt_expr_ok_def compiles_Nil)

lemma concat_enumerate_Nil:
  assumes "\<And>i x. f (i, x) = [] \<longleftrightarrow> P x"
  shows "concat (map f (List.enumerate n xs)) = [] \<longleftrightarrow> (\<forall>x\<in>set xs. P x)"
  by (induction xs arbitrary: n) (simp_all add: assms)

lemma get_set_None: "gomap_get (gomap_set m k v) x = None \<longleftrightarrow> k \<noteq> x \<and> gomap_get m x = None"
  by auto

lemma validateKeepRules_Nil:
  "validateKeepRules env i seen rules = [] \<longleftrightarrow>
     (\<forall>r\<in>set rules. rule_ok env (normalizeString (kk_When r)) (kk_Count r) \<and> gomap_get seen (normalizeString (kk_When r)) = None)
     \<and> distinct (map (\<lambda>r. normalizeString (kk_When r)) rules)"
proof (induction rules arbitrary: i seen)
  case (Cons rule rules)
  let ?n = "normalizeString (kk_When rule)"
  have step: "validateKeepRules env i seen (rule # rules) = [] \<longleftrightarrow>
      rule_ok env ?n (kk_Count rule) \<and> gomap_get seen ?n = None \<and> validateKeepRules env (Suc i) (gomap_set seen ?n i) rules = []"
    by (cases "gomap_get seen ?n") (auto simp: Let_def rule_ok_def compiles_Nil)
  show ?case unfolding step Cons.IH get_set_None list.simps distinct.simps set_map image_iff by auto
qed simp

lemma validateClusterRules_Nil:
  "validateClusterRules env i seenN seenC rules = [] \<longleftrightarrow>
     (\<forall>x\<in>set rules. ck_Name x \<noteq> [] \<and> rule_ok env (normalizeString (ck_When x)) (ck_Count x)
        \<and> gomap_get seenN (ck_Name x) = None \<and> gomap_get seenC (normalizeString (ck_When x)) = None)
     \<and> distinct (map ck_Name rules) \<and> distinct (map (\<lambda>x. normalizeString (ck_When x)) rules)"
proof (induction rules arbitrary: i seenN seenC)
  case (Cons rule rules)
  let ?n = "normalizeString (ck_When rule)"
  have step: "validateClusterRules env i seenN seenC (rule # rules) = [] \<longleftrightarrow>
      ck_Name rule \<noteq> [] \<and> rule_ok env ?n (ck_Count rule) \<and> gomap_get seenN (ck_Name rule) = None \<and> gomap_get seenC ?n = None
      \<and> validateClusterRules env (Suc i) (gomap_set seenN (ck_Name rule) i) (gomap_set seenC ?n (ck_Name rule)) rules = []"
    by (cases "gomap_get seenN (ck_Name rule)"; cases "gomap_get seenC ?n") (auto simp: Let_def rule_ok_def compiles_Nil)
  show ?case unfolding step Cons.IH get_set_None list.simps distinct.simps set_map image_iff by auto
qed simp

lemma validateAgainstCluster_Nil:
  "validateAgainstCluster res keep = [] \<longleftrightarrow>
     (\<forall>r\<in>set keep. \<forall>x\<in>set (cr_KeepLastWhen res). normalizeString (kk_When r) \<noteq> normalizeString (ck_When x))"
  unfolding validateAgainstCluster_def Let_def map_of_foldl_set
proof (rule concat_enumerate_Nil)
  fix i r
  show "(case (i, r) of (i, r) \<Rightarrow>
      case case last_entry (\<lambda>x. normalizeString (ck_When x) = normalizeString (kk_When r)) (cr_KeepLastWhen res) of
             Some x \<Rightarrow> Some (ck_Name x) | None \<Rightarrow> gomap_get [] (normalizeString (kk_When r)) of
        Some n \<Rightarrow> [MatchesClusterRule i n] | None \<Rightarrow> []) = [] \<longleftrightarrow>
      (\<forall>x\<in>set (cr_KeepLastWhen res). normalizeString (kk_When r) \<noteq> normalizeString (ck_When x))"
    using last_entry_None [of "\<lambda>x. normalizeString (ck_When x) = normalizeString (kk_When r)" "cr_KeepLastWhen res"]
    by (cases "last_entry (\<lambda>x. normalizeString (ck_When x) = normalizeString (kk_When r)) (cr_KeepLastWhen res)")
      (simp_all, metis+)
qed

lemma validateOverrides_Nil: "validateOverrides res overrides = [] \<longleftrightarrow> overrides_ok res overrides"
  unfolding validateOverrides_def overrides_ok_def Let_def map_of_foldl_set
  by (rule concat_enumerate_Nil) (auto split: option.split)

lemma validateKeepLastWhen_Nil:
  assumes "fetched \<in> {Inl ApiNotFound} \<union> range Inr"
  shows "validateKeepLastWhen env fetched idx sel k = [] \<longleftrightarrow> keep_acceptable env fetched sel k"
proof (cases fetched)
  case (Inl e)
  with assms have e: "e = ApiNotFound" by auto
  show ?thesis
    unfolding validateKeepLastWhen_def keep_acceptable_def Inl e by (simp add: validateKeepRules_Nil)
next
  case (Inr c)
  show ?thesis
    unfolding validateKeepLastWhen_def keep_acceptable_def Inr
    by (cases "matchingClusterResource c sel") (simp_all add: validateKeepRules_Nil validateAgainstCluster_Nil validateOverrides_Nil)
qed

lemma kac_validate_iff: "kac_validateKAC env fetched kac = [] \<longleftrightarrow> kac_acceptable env fetched kac"
proof (cases "fetched \<in> {Inl ApiNotFound} \<union> range Inr")
  case True
  then have f: "\<not> (case fetched of Inl ApiNotFound \<Rightarrow> False | Inl _ \<Rightarrow> True | Inr _ \<Rightarrow> False)" by auto
  have "concat (map (\<lambda>(idx, r). validateExpr env (kr_ArchiveWhen r) @ validateExpr env (kr_DeleteWhen r)
          @ validateExpr env (kr_ArchiveOnDelete r)
          @ (case kr_KeepLastWhen r of None \<Rightarrow> [] | Some k \<Rightarrow> validateKeepLastWhen env fetched idx (kr_Selector r) k))
        (List.enumerate 0 (kacResources kac))) = [] \<longleftrightarrow>
      (\<forall>r\<in>set (kacResources kac). opt_expr_ok env (kr_ArchiveWhen r) \<and> opt_expr_ok env (kr_DeleteWhen r) \<and> opt_expr_ok env (kr_ArchiveOnDelete r)
          \<and> (\<forall>k. kr_KeepLastWhen r = Some k \<longrightarrow> fetched \<in> {Inl ApiNotFound} \<union> range Inr \<and> keep_acceptable env fetched (kr_Selector r) k))"
    using True by (intro concat_enumerate_Nil) (auto simp: validateExpr_Nil validateKeepLastWhen_Nil [OF True] split: option.split)
  with f show ?thesis by (simp add: kac_validateKAC_def kac_acceptable_def)
next
  case False
  then have f: "case fetched of Inl ApiNotFound \<Rightarrow> False | Inl _ \<Rightarrow> True | Inr _ \<Rightarrow> False"
    by (auto split: sum.split api_error.split)
  show ?thesis
  proof (cases "\<exists>r\<in>set (kacResources kac). kr_KeepLastWhen r \<noteq> None")
    case True
    with f False show ?thesis by (auto simp: kac_validateKAC_def kac_acceptable_def)
  next
    case none: False
    have "concat (map (\<lambda>(idx, r). validateExpr env (kr_ArchiveWhen r) @ validateExpr env (kr_DeleteWhen r)
          @ validateExpr env (kr_ArchiveOnDelete r)
          @ (case kr_KeepLastWhen r of None \<Rightarrow> [] | Some k \<Rightarrow> validateKeepLastWhen env fetched idx (kr_Selector r) k))
        (List.enumerate n rs)) = [] \<longleftrightarrow>
      (\<forall>r\<in>set rs. opt_expr_ok env (kr_ArchiveWhen r) \<and> opt_expr_ok env (kr_DeleteWhen r) \<and> opt_expr_ok env (kr_ArchiveOnDelete r))"
      if "\<forall>r\<in>set rs. kr_KeepLastWhen r = None" for rs n
      using that by (induction rs arbitrary: n) (simp_all add: validateExpr_Nil)
    from this [of "kacResources kac" 0] none show ?thesis by (auto simp: kac_validateKAC_def kac_acceptable_def)
  qed
qed

lemma ckac_validate_iff: "ckac_validateKAC env ckac = [] \<longleftrightarrow> ckac_acceptable env ckac"
  by (auto simp: ckac_validateKAC_def ckac_acceptable_def validateExpr_Nil validateClusterRules_Nil)

section \<open>Duration calls\<close>

text \<open>The number of open parentheses less the closed ones.\<close>

definition paren_depth :: "string \<Rightarrow> int" where
  "paren_depth s = int (count_list s CHR ''('') - int (count_list s CHR '')'')"

lemma paren_depth_simps [simp]:
  "paren_depth [] = 0"
  "paren_depth (c # cs) = (if c = CHR ''('' then 1 else if c = CHR '')'' then -1 else 0) + paren_depth cs"
  by (auto simp: paren_depth_def)

lemma paren_depth_append [simp]: "paren_depth (s @ t) = paren_depth s + paren_depth t"
  by (simp add: paren_depth_def count_list_append)

lemma close_paren_prefix: "close_paren n s = Some t \<Longrightarrow> prefix t s"
  by (induction n s arbitrary: t rule: close_paren.induct) (auto simp: Let_def split: if_splits)

lemma close_paren_depth:
  "close_paren n s = Some t \<Longrightarrow> 0 < n \<Longrightarrow>
     paren_depth t = - int n \<and> (\<forall>u. strict_prefix u t \<longrightarrow> - int n < paren_depth u)"
proof (induction n s arbitrary: t rule: close_paren.induct)
  case (2 n c cs)
  let ?n' = "if c = CHR ''('' then Suc n else if c = CHR '')'' then n - 1 else n"
  show ?case
  proof (cases "?n' = 0")
    case True
    with "2.prems" have "t = [c]" "c = CHR '')''" "n = 1" by (auto split: if_splits)
    then show ?thesis by (auto simp: strict_prefix_def prefix_Cons)
  next
    case False
    with "2.prems"(1) obtain t' where t': "close_paren ?n' cs = Some t'" "t = c # t'" by (auto simp: Let_def split: if_splits)
    have IH: "paren_depth t' = - int ?n'" "\<And>u. strict_prefix u t' \<Longrightarrow> - int ?n' < paren_depth u"
      using "2.IH" [OF refl False t'(1)] False by blast+
    have n': "int n = int ?n' - (if c = CHR ''('' then 1 else if c = CHR '')'' then -1 else 0)" using "2.prems"(2) by auto
    have "paren_depth t = - int n" using IH(1) n' t'(2) by simp
    moreover have "- int n < paren_depth u" if "strict_prefix u t" for u
    proof (cases u)
      case Nil
      with "2.prems"(2) show ?thesis by simp
    next
      case (Cons x v)
      with that t'(2) have "x = c" "strict_prefix v t'" by auto
      from IH(2) [OF this(2)] n' Cons \<open>x = c\<close> show ?thesis by simp
    qed
    ultimately show ?thesis by blast
  qed
qed simp

lemma match_duration_split:
  assumes "match_duration s = Some rest"
  obtains k where "s = ''duration'' @ replicate k CHR '' '' @ CHR ''('' # rest"
proof -
  from assms obtain u where s: "s = ''duration'' @ u" and d: "dropWhile (\<lambda>c. c = CHR '' '') u = CHR ''('' # rest"
    by (auto simp: match_duration_def prefix_def split: if_splits list.splits)
  have "takeWhile (\<lambda>c. c = CHR '' '') u = replicate (length (takeWhile (\<lambda>c. c = CHR '' '') u)) CHR '' ''"
    by (rule replicate_length_same [symmetric]) (auto dest: set_takeWhileD)
  with takeWhile_dropWhile_id [of "\<lambda>c. c = CHR '' ''" u] s d have
    "s = ''duration'' @ replicate (length (takeWhile (\<lambda>c. c = CHR '' '') u)) CHR '' '' @ CHR ''('' # rest" by metis
  then show thesis by (rule that)
qed

lemma paren_depth_spaces [simp]: "paren_depth (replicate k CHR '' '') = 0"
  by (induction k) simp_all

definition duration_call :: "string \<Rightarrow> bool" where
  "duration_call d \<longleftrightarrow>
     (\<exists>k t. d = ''duration'' @ replicate k CHR '' '' @ CHR ''('' # t \<and> t \<noteq> [] \<and> paren_depth d = 0
        \<and> (\<forall>u. strict_prefix u t \<longrightarrow> - 1 < paren_depth u))"

lemma duration_calls:
  "d \<in> set (getDurationCalls s) \<Longrightarrow> duration_call d \<and> sublist d s"
proof (induction s rule: getDurationCalls.induct)
  case (1 s)
  show ?case
  proof (cases s)
    case Nil
    with "1.prems" show ?thesis by (simp add: getDurationCalls.simps [of "[]"])
  next
    case (Cons c cs)
    show ?thesis
    proof (cases "match_duration s")
      case None
      with "1.prems" Cons have "d \<in> set (getDurationCalls cs)" by (simp add: getDurationCalls.simps [of "c # cs"])
      with "1.IH"(1) [OF Cons None] Cons show ?thesis by (simp add: sublist_Cons_right)
    next
      case (Some rest)
      obtain k where k: "s = ''duration'' @ replicate k CHR '' '' @ CHR ''('' # rest" by (rule match_duration_split [OF Some])
      show ?thesis
      proof (cases "d \<in> set (getDurationCalls rest)")
        case True
        with "1.IH"(2) [OF Cons Some] have "duration_call d" "sublist d rest" by blast+
        moreover have "sublist rest s" unfolding k by (simp add: sublist_append_leftI sublist_appendI suffix_imp_sublist suffix_def)
        ultimately show ?thesis by (meson sublist_order.order.trans)
      next
        case False
        with "1.prems" Cons Some obtain t where t: "close_paren 1 rest = Some t" "d = take (length s - length rest) s @ t"
          by (cases "close_paren 1 rest") (simp_all add: getDurationCalls.simps [of "c # cs"])
        define p where "p = ''duration'' @ replicate k CHR '' '' @ ''(''"
        have "s = p @ rest" unfolding k p_def by simp
        then have "d = p @ t" unfolding t(2) by simp
        then have d: "d = ''duration'' @ replicate k CHR '' '' @ CHR ''('' # t" by (simp add: p_def)
        from close_paren_depth [OF t(1)] have "paren_depth t = - 1" "\<forall>u. strict_prefix u t \<longrightarrow> - 1 < paren_depth u" by simp_all
        moreover from this(1) have "t \<noteq> []" by auto
        ultimately have "duration_call d" unfolding duration_call_def d by (intro exI conjI) simp_all
        moreover from close_paren_prefix [OF t(1)] have "prefix d s" unfolding d k by simp
        ultimately show ?thesis by (simp add: prefix_imp_sublist)
      qed
    qed
  qed
qed

section \<open>Properties\<close>

text \<open>C26: the validators of both configurations accept exactly the acceptable ones: the name and
  namespace are right, every expression compiles and its durations are durations, every keep rule
  has an expression and a count that is not negative, no two rules of a resource share a
  normalized expression or a name, a namespace repeats no rule of the cluster, and overrides name
  a rule of the cluster and do not raise its count.\<close>

theorem validators_accept_exactly:
  "(kac_validateKAC env fetched kac = [] \<longleftrightarrow> kac_acceptable env fetched kac)
   \<and> (ckac_validateKAC env ckac = [] \<longleftrightarrow> ckac_acceptable env ckac)"
  by (simp add: kac_validate_iff ckac_validate_iff)

text \<open>The duration calls found in an expression are parts of it that begin with the call and end
  at the parenthesis that closes it.\<close>

theorem duration_calls_balanced:
  "d \<in> set (getDurationCalls s) \<Longrightarrow> duration_call d \<and> sublist d s"
  by (rule duration_calls)

theorem duration_calls_balanced_witness:
  "duration_call ''duration (f(x))'' \<and> sublist ''duration (f(x))'' ''now() - duration (f(x)) > y''"
proof (rule duration_calls_balanced)
  show "''duration (f(x))'' \<in> set (getDurationCalls ''now() - duration (f(x)) > y'')"
    by (simp add: getDurationCalls.simps match_duration_def Let_def)
qed

text \<open>C38: what a webhook has accepted the controllers can compile: for every resource of an accepted
  configuration of a namespace or of the cluster, each of its three expressions that is there has
  a program when the filters are extracted for the controller.\<close>

theorem accepted_expressions_compile:
  assumes "kac_Validate env fetched op (Some kac) = []" and "ckac_Validate env op (Some ckac) = []" and "op \<noteq> AdmitDelete"
  shows "(\<forall>r\<in>set (kacResources kac). let e = namespaceCelExpr (wh_compile env) Controller r in
            (kr_ArchiveWhen r \<noteq> [] \<longrightarrow> ce_ArchiveWhen e \<noteq> None) \<and> (kr_DeleteWhen r \<noteq> [] \<longrightarrow> ce_DeleteWhen e \<noteq> None)
            \<and> (kr_ArchiveOnDelete r \<noteq> [] \<longrightarrow> ce_ArchiveOnDelete e \<noteq> None))
       \<and> (\<forall>r\<in>set (ckac_Resources ckac). let e = clusterCelExpr (wh_compile env) Controller r in
            (cr_ArchiveWhen r \<noteq> [] \<longrightarrow> ce_ArchiveWhen e \<noteq> None) \<and> (cr_DeleteWhen r \<noteq> [] \<longrightarrow> ce_DeleteWhen e \<noteq> None)
            \<and> (cr_ArchiveOnDelete r \<noteq> [] \<longrightarrow> ce_ArchiveOnDelete e \<noteq> None))"
proof -
  from assms have k: "kac_acceptable env fetched kac" and c: "ckac_acceptable env ckac"
    by (simp_all add: kac_Validate_def ckac_Validate_def kac_validate_iff ckac_validate_iff)
  have p: "opt_expr_ok env e \<Longrightarrow> e \<noteq> [] \<Longrightarrow> CompileCELExpression (wh_compile env) e \<noteq> None" for e
    by (auto simp: opt_expr_ok_def expr_ok_def CompileCELExpression_def)
  show ?thesis
  proof (intro conjI ballI)
    fix r assume "r \<in> set (kacResources kac)"
    with k have "opt_expr_ok env (kr_ArchiveWhen r)" "opt_expr_ok env (kr_DeleteWhen r)" "opt_expr_ok env (kr_ArchiveOnDelete r)"
      by (auto simp: kac_acceptable_def)
    then show "let e = namespaceCelExpr (wh_compile env) Controller r in
        (kr_ArchiveWhen r \<noteq> [] \<longrightarrow> ce_ArchiveWhen e \<noteq> None) \<and> (kr_DeleteWhen r \<noteq> [] \<longrightarrow> ce_DeleteWhen e \<noteq> None)
        \<and> (kr_ArchiveOnDelete r \<noteq> [] \<longrightarrow> ce_ArchiveOnDelete e \<noteq> None)"
      using p by (simp add: namespaceCelExpr_def Let_def)
  next
    fix r assume "r \<in> set (ckac_Resources ckac)"
    with c have "opt_expr_ok env (cr_ArchiveWhen r)" "opt_expr_ok env (cr_DeleteWhen r)" "opt_expr_ok env (cr_ArchiveOnDelete r)"
      by (auto simp: ckac_acceptable_def)
    then show "let e = clusterCelExpr (wh_compile env) Controller r in
        (cr_ArchiveWhen r \<noteq> [] \<longrightarrow> ce_ArchiveWhen e \<noteq> None) \<and> (cr_DeleteWhen r \<noteq> [] \<longrightarrow> ce_DeleteWhen e \<noteq> None)
        \<and> (cr_ArchiveOnDelete r \<noteq> [] \<longrightarrow> ce_ArchiveOnDelete e \<noteq> None)"
      using p by (simp add: clusterCelExpr_def Let_def)
  qed
qed

definition sample_whenv :: "string webhook_env" where
  "sample_whenv = \<lparr>wh_compile = \<lambda>e. if e = ''bad'' then None else Some e, wh_badDuration = \<lambda>_. False, wh_namespace = ''kubearchive''\<rparr>"

definition sample_config :: kubeArchiveConfig where
  "sample_config =
     \<lparr>kac_Name = ''kubearchive'', kac_Namespace = ''ns'', kac_DeletionTimestamp = None, kac_Finalizers = [],
      kac_Resources = Some [\<lparr>kr_Selector = \<lparr>avk_Kind = ''Pod'', avk_APIVersion = ''v1''\<rparr>, kr_ArchiveWhen = ''ok'',
        kr_DeleteWhen = [], kr_ArchiveOnDelete = [], kr_KeepLastWhen = None\<rparr>]\<rparr>"

definition sample_cluster_config :: clusterKubeArchiveConfig where
  "sample_cluster_config =
     \<lparr>ckac_Name = ''kubearchive'', ckac_DeletionTimestamp = None, ckac_Finalizers = [], ckac_Resources = []\<rparr>"

theorem accepted_expressions_compile_witness:
  "ce_ArchiveWhen (namespaceCelExpr (wh_compile sample_whenv) Controller (hd (kacResources sample_config))) \<noteq> None"
proof -
  have "kac_Validate sample_whenv (Inl ApiNotFound) AdmitCreate (Some sample_config) = []"
    by (simp add: kac_Validate_def kac_validateKAC_def sample_config_def sample_whenv_def kacResources_def validateExpr_def
        compiles_def validateDurationString_def getDurationCalls.simps match_duration_def)
  moreover have "ckac_Validate sample_whenv AdmitCreate (Some sample_cluster_config) = []"
    by (simp add: ckac_Validate_def ckac_validateKAC_def sample_cluster_config_def)
  ultimately show ?thesis
    using accepted_expressions_compile [of sample_whenv "Inl ApiNotFound" AdmitCreate sample_config sample_cluster_config]
    by (simp add: sample_config_def kacResources_def)
qed

text \<open>A vacuum configuration is accepted exactly when the cluster configuration can be read, every
  namespace it names has a configuration, and each resource is configured there or for the
  cluster; the entry for all namespaces is not looked at. So a namespace without a configuration
  of its own is refused even when the cluster configures the resource.\<close>

theorem vacuum_configs_accepted_iff:
  "(validateClusterVacuumConfig env client cv = [] \<longleftrightarrow>
      cvc_Namespace cv = wh_namespace env
      \<and> (\<forall>(ns, resources)\<in>set (cvc_Namespaces cv). ns \<noteq> ClusterVacuumAllNamespaces \<longrightarrow>
           validateNamespaceVacuumConfig client \<lparr>nvc_Name = n, nvc_Namespace = ns, nvc_Resources = resources\<rparr> = []))
   \<and> (validateNamespaceVacuumConfig client nv = [] \<longleftrightarrow>
      (\<exists>kac. cc_namespace client (nvc_Namespace nv) = Inr kac
        \<and> (cc_cluster client = Inl ApiNotFound \<and> set (nvc_Resources nv) \<subseteq> kr_Selector ` set (kacResources kac)
           \<or> (\<exists>ckac. cc_cluster client = Inr ckac
                \<and> set (nvc_Resources nv) \<subseteq> cr_Selector ` set (ckac_Resources ckac) \<union> kr_Selector ` set (kacResources kac)))))"
proof
  show "validateClusterVacuumConfig env client cv = [] \<longleftrightarrow>
      cvc_Namespace cv = wh_namespace env
      \<and> (\<forall>(ns, resources)\<in>set (cvc_Namespaces cv). ns \<noteq> ClusterVacuumAllNamespaces \<longrightarrow>
           validateNamespaceVacuumConfig client \<lparr>nvc_Name = n, nvc_Namespace = ns, nvc_Resources = resources\<rparr> = [])"
    unfolding validateClusterVacuumConfig_def validateNamespaceVacuumConfig_def by (auto split: if_splits)
next
  let ?ns = "nvc_Namespace nv"
  let ?rs = "nvc_Resources nv"
  show "validateNamespaceVacuumConfig client nv = [] \<longleftrightarrow>
      (\<exists>kac. cc_namespace client ?ns = Inr kac
        \<and> (cc_cluster client = Inl ApiNotFound \<and> set ?rs \<subseteq> kr_Selector ` set (kacResources kac)
           \<or> (\<exists>ckac. cc_cluster client = Inr ckac
                \<and> set ?rs \<subseteq> cr_Selector ` set (ckac_Resources ckac) \<union> kr_Selector ` set (kacResources kac))))"
    unfolding validateNamespaceVacuumConfig_def validateResources_def getGlobalResourceSet_def getNamespaceResourceSet_def
    by (cases "cc_cluster client"; cases "cc_namespace client ?ns")
      (auto split: api_error.splits)
qed

theorem vacuum_configs_accepted_iff_witness:
  "let pod = \<lparr>avk_Kind = ''Pod'', avk_APIVersion = ''v1''\<rparr>;
       client = \<lparr>cc_cluster = Inl ApiNotFound, cc_namespace = (\<lambda>ns. if ns = ''ns'' then Inr sample_config else Inl ApiNotFound)\<rparr>;
       cv = \<lambda>ns. \<lparr>cvc_Name = ''v'', cvc_Namespace = ''kubearchive'', cvc_Namespaces = [(ns, [pod])]\<rparr>
   in validateClusterVacuumConfig sample_whenv client (cv ''ns'') = [] \<and> validateClusterVacuumConfig sample_whenv client (cv ''other'') \<noteq> []"
proof -
  have "kacResources sample_config = [\<lparr>kr_Selector = \<lparr>avk_Kind = ''Pod'', avk_APIVersion = ''v1''\<rparr>, kr_ArchiveWhen = ''ok'',
      kr_DeleteWhen = [], kr_ArchiveOnDelete = [], kr_KeepLastWhen = None\<rparr>]"
    by (simp add: sample_config_def kacResources_def)
  then show ?thesis
    unfolding Let_def
      conjunct1 [OF vacuum_configs_accepted_iff [of sample_whenv _ _ "''v''" "\<lparr>nvc_Name = [], nvc_Namespace = [], nvc_Resources = []\<rparr>"]]
      conjunct2 [OF vacuum_configs_accepted_iff [of sample_whenv _ "\<lparr>cvc_Name = [], cvc_Namespace = [], cvc_Namespaces = []\<rparr>" "''v''"]]
    by (simp add: sample_whenv_def ClusterVacuumAllNamespaces_def)
qed

end
