(* ===== verification/Filter_Admission.thy ===== *)
theory Filter_Admission
  imports Config_Runs Webhooks
begin

text \<open>
  The operator and its own admission webhooks: the SinkFilter that the controllers write on behalf of
  accepted configurations is one that the webhook of the SinkFilter accepts.
\<close>

section \<open>Accepted filters\<close>

definition resource_compiles :: "'p webhook_env \<Rightarrow> kubeArchiveConfigResource \<Rightarrow> bool" where
  "resource_compiles wenv r \<longleftrightarrow> sf_expr wenv (kr_ArchiveWhen r) = [] \<and> sf_expr wenv (kr_DeleteWhen r) = [] \<and> sf_expr wenv (kr_ArchiveOnDelete r) = []"

lemma validateSinkFilter_Nil:
  "validateSinkFilter wenv sf = [] \<longleftrightarrow>
     sf_Name sf = SinkFilterResourceName \<and> sf_Namespace sf = wh_namespace wenv
     \<and> (\<forall>(ns, rs)\<in>set (sfNamespaces sf). \<forall>r\<in>set rs. resource_compiles wenv r)"
  by (auto simp: validateSinkFilter_def resource_compiles_def split: if_splits)

lemma accepted_compiles:
  assumes "kac_Validate wenv fetched op (Some kac) = []" "op \<noteq> AdmitDelete" "r \<in> set (kacResources kac)"
  shows "resource_compiles wenv r"
proof -
  have "kac_acceptable wenv fetched kac" using assms(1,2) by (simp add: kac_Validate_def kac_validate_iff split: if_splits)
  then have "opt_expr_ok wenv (kr_ArchiveWhen r)" "opt_expr_ok wenv (kr_DeleteWhen r)" "opt_expr_ok wenv (kr_ArchiveOnDelete r)"
    using assms(3) by (auto simp: kac_acceptable_def)
  then show ?thesis by (auto simp: resource_compiles_def sf_expr_def opt_expr_ok_def expr_ok_def)
qed

lemma set_gomap_set: "x \<in> set (gomap_set m k v) \<Longrightarrow> x = (k, v) \<or> x \<in> set m"
  by (induction m) (auto split: if_splits)

lemma set_gomap_del: "x \<in> set (gomap_del m k) \<Longrightarrow> x \<in> set m"
  by (induction m) (auto split: if_splits)

lemma desired_namespace_accepted:
  assumes "case sf of None \<Rightarrow> True | Some x \<Rightarrow> validateSinkFilter wenv x = []" "wh_namespace wenv = re_namespace env"
    and "\<forall>rs. resources = Some rs \<longrightarrow> (\<forall>r\<in>set rs. resource_compiles wenv r)"
  shows "validateSinkFilter wenv (desiredSinkFilterNamespace env sf ns resources) = []"
  using assms unfolding validateSinkFilter_Nil
  by (auto simp: desiredSinkFilterNamespace_def new_filter_def Let_def sfNamespaces_def validateSinkFilter_Nil
      split: option.splits dest!: set_gomap_set set_gomap_del)

lemma desired_cluster_accepted:
  assumes "case sf of None \<Rightarrow> True | Some x \<Rightarrow> validateSinkFilter wenv x = []" "wh_namespace wenv = re_namespace env"
  shows "validateSinkFilter wenv (desiredSinkFilterCluster env sf resources) = []"
  using assms unfolding validateSinkFilter_Nil
  by (auto simp: desiredSinkFilterCluster_def new_filter_def Let_def sfNamespaces_def validateSinkFilter_Nil
      split: option.splits dest!: set_gomap_del)

section \<open>The invariant\<close>

text \<open>The stored SinkFilter, if there is one, is accepted. It depends on the SinkFilters of the cluster only.\<close>

definition filter_accepted :: "'p webhook_env \<Rightarrow> reconcile_env \<Rightarrow> cluster \<Rightarrow> bool" where
  "filter_accepted wenv env c \<longleftrightarrow>
     (\<forall>sf. gomap_get (cl_sinkFilters c) (filter_key env) = Some sf \<longrightarrow> validateSinkFilter wenv sf = [])"

lemma accepted_view: "cl_sinkFilters c' = cl_sinkFilters c \<Longrightarrow> filter_accepted wenv env c' = filter_accepted wenv env c"
  by (simp add: filter_accepted_def)

lemma accepted_called [simp]: "filter_accepted wenv env (called c) = filter_accepted wenv env c"
  by (rule accepted_view) simp

lemma accepted_finish [simp]: "snd (finish p) = snd p"
  by (cases p; cases "fst p") (auto simp: finish_def)

lemma accepted_and_then:
  assumes "filter_accepted wenv env (snd p)" "\<And>a c. filter_accepted wenv env c \<Longrightarrow> filter_accepted wenv env (snd (f a c))"
  shows "filter_accepted wenv env (snd (and_then p f))"
  using assms by (cases "(p, f)" rule: and_then.cases) auto

lemma accepted_upsert:
  assumes "filter_accepted wenv env c" "validateSinkFilter wenv fresh = []"
    and "\<And>sf. validateSinkFilter wenv sf = [] \<Longrightarrow> validateSinkFilter wenv (nxt sf) = []"
  shows "filter_accepted wenv env (snd (upsert fails cl_sinkFilters cl_sinkFilters_update (filter_key env) fresh nxt c))"
proof (cases "upsert fails cl_sinkFilters cl_sinkFilters_update (filter_key env) fresh nxt c")
  case (Pair r c')
  show ?thesis
  proof (cases r)
    case (Inl e)
    from sinkFilters.upsert_fails [OF Pair [unfolded Inl]] assms(1) Pair show ?thesis by auto
  next
    case (Inr v)
    from sinkFilters.upsert_stores [OF Pair [unfolded Inr]] assms Pair show ?thesis
      by (auto simp: filter_accepted_def split: option.splits)
  qed
qed

lemma accepted_namespace:
  assumes "filter_accepted wenv env c" "wh_namespace wenv = re_namespace env"
    and "\<forall>rs. resources = Some rs \<longrightarrow> (\<forall>r\<in>set rs. resource_compiles wenv r)"
  shows "filter_accepted wenv env (snd (updateSinkFilterNamespace env ns resources c))"
  unfolding updateSinkFilterNamespace_def
  by (rule accepted_upsert [OF assms(1)]; rule desired_namespace_accepted) (use assms in auto)

lemma accepted_cluster:
  assumes "filter_accepted wenv env c" "wh_namespace wenv = re_namespace env"
  shows "filter_accepted wenv env (snd (updateSinkFilterCluster env resources c))"
  unfolding updateSinkFilterCluster_def
  by (rule accepted_upsert [OF assms(1)]; rule desired_cluster_accepted) (use assms in auto)

lemma accepted_kac_update [simp]:
  "filter_accepted wenv env (snd (api_update fails cl_kacs cl_kacs_update k v c)) = filter_accepted wenv env c"
  "filter_accepted wenv env (snd (api_update fails cl_ckacs cl_ckacs_update k w c)) = filter_accepted wenv env c"
  by (simp_all add: api_update_def filter_accepted_def)

lemma accepted_config_view: "config_view c' = config_view c \<Longrightarrow> filter_accepted wenv env c' = filter_accepted wenv env c"
  by (rule accepted_view) (simp add: config_view_def)

lemma accepted_live:
  assumes "filter_accepted wenv env c" "wh_namespace wenv = re_namespace env"
    and "\<forall>r\<in>set (kacResources kac). resource_compiles wenv r"
  shows "filter_accepted wenv env (snd (reconcile_live env kac c))"
  unfolding reconcile_live_alt
proof (rule accepted_and_then)
  show "filter_accepted wenv env (snd (updateSinkFilterNamespace env (kac_Namespace kac) (kac_Resources kac) c))"
    using assms by (intro accepted_namespace) (auto simp: kacResources_def)
  show "filter_accepted wenv env (snd (rbac_live env kac c))" if "filter_accepted wenv env c" for c
    using that accepted_config_view [OF view_rbac_live] by blast
qed

lemma accepted_kac_Reconcile:
  assumes "filter_accepted wenv env c" "wh_namespace wenv = re_namespace env"
    and "\<And>kac r. gomap_get (cl_kacs c) req = Some kac \<Longrightarrow> r \<in> set (kacResources kac) \<Longrightarrow> resource_compiles wenv r"
  shows "filter_accepted wenv env (snd (kac_Reconcile env req c))"
proof (cases "re_fails env (cl_calls c) \<or> gomap_get (cl_kacs c) req = None")
  case True
  then show ?thesis using assms(1) by (auto simp: kac_Reconcile_def api_get_def)
next
  case False
  then obtain kac where k: "gomap_get (cl_kacs c) req = Some kac" "\<not> re_fails env (cl_calls c)" by auto
  have live: "filter_accepted wenv env (snd (reconcile_live env (kac\<lparr>kac_Finalizers := fs\<rparr>) c1))" if "filter_accepted wenv env c1" for fs c1
    using that assms(2) by (rule accepted_live) (use assms(3) [OF k(1)] in \<open>auto simp: kacResources_def\<close>)
  have live': "filter_accepted wenv env (snd (reconcile_live env kac c1))" if "filter_accepted wenv env c1" for c1
    using that assms(2) by (rule accepted_live) (use assms(3) [OF k(1)] in auto)
  have unbind: "filter_accepted wenv env (snd (reconcileKubeArchiveVacuumRoleBinding env kac False c1)) = filter_accepted wenv env c1" for c1
    by (rule accepted_config_view) (simp add: reconcileKubeArchiveVacuumRoleBinding_def)
  have add: "filter_accepted wenv env (snd (and_then (api_update (re_fails env) cl_kacs cl_kacs_update req k' (called c))
      (\<lambda>_. reconcile_live env (kac\<lparr>kac_Finalizers := fs\<rparr>))))" for k' fs
    by (rule accepted_and_then) (simp_all add: assms(1) live)
  have remove: "filter_accepted wenv env (snd (and_then (updateSinkFilterNamespace env (kac_Namespace kac) None (called c))
      (\<lambda>_ c2. and_then (reconcileKubeArchiveVacuumRoleBinding env kac False c2) (\<lambda>_. api_update (re_fails env) cl_kacs cl_kacs_update req k'))))" for k'
    by (intro accepted_and_then accepted_namespace) (simp_all add: assms(1,2) unbind)
  show ?thesis using k assms(1) live' add remove by (simp add: kac_Reconcile_def api_get_def Let_def)
qed

lemma accepted_ckac_Reconcile:
  assumes "filter_accepted wenv env c" "wh_namespace wenv = re_namespace env"
  shows "filter_accepted wenv env (snd (ckac_Reconcile env req c))"
proof (cases "re_fails env (cl_calls c) \<or> gomap_get (cl_ckacs c) req = None")
  case True
  then show ?thesis using assms(1) by (auto simp: ckac_Reconcile_def api_get_def)
next
  case False
  then obtain ckac where k: "gomap_get (cl_ckacs c) req = Some ckac" "\<not> re_fails env (cl_calls c)" by auto
  have add: "filter_accepted wenv env (snd (and_then (api_update (re_fails env) cl_ckacs cl_ckacs_update req k' (called c))
      (\<lambda>_. updateSinkFilterCluster env rs)))" for k' rs
    by (intro accepted_and_then accepted_cluster) (simp_all add: assms)
  have remove: "filter_accepted wenv env (snd (and_then (updateSinkFilterCluster env rs (called c))
      (\<lambda>_. api_update (re_fails env) cl_ckacs cl_ckacs_update req k')))" for k' rs
    by (intro accepted_and_then accepted_cluster) (simp_all add: assms)
  have upd: "filter_accepted wenv env (snd (updateSinkFilterCluster env rs (called c)))" for rs
    by (rule accepted_cluster) (simp_all add: assms)
  show ?thesis using k assms(1) add remove upd by (simp add: ckac_Reconcile_def api_get_def Let_def)
qed

lemma accepted_fails [simp]: "filter_accepted wenv (env\<lparr>re_fails := f\<rparr>) = filter_accepted wenv env"
  by (simp add: filter_accepted_def filter_key_def fun_eq_iff)

text \<open>The stored configurations have been accepted, as the specifications show, which no run changes.\<close>

definition configs_accepted :: "'p webhook_env \<Rightarrow> cluster \<Rightarrow> bool" where
  "configs_accepted wenv c \<longleftrightarrow>
     (\<forall>req kac. gomap_get (cl_kacs c) req = Some kac \<longrightarrow> (\<exists>fetched op. op \<noteq> AdmitDelete \<and> kac_Validate wenv fetched op (Some kac) = []))"

lemma configs_compile:
  assumes "configs_accepted wenv c" "specs c' = specs c" "gomap_get (cl_kacs c') req = Some kac" "r \<in> set (kacResources kac)"
  shows "resource_compiles wenv r"
proof -
  from assms(2,3) obtain k where k: "gomap_get (cl_kacs c) req = Some k" "kac_Resources k = kac_Resources kac" by (rule specs_lookup)
  with assms(1) obtain fetched op where "op \<noteq> AdmitDelete" "kac_Validate wenv fetched op (Some k) = []"
    unfolding configs_accepted_def by blast
  with k(2) assms(4) show ?thesis using accepted_compiles by (metis kacResources_def)
qed

lemma accepted_run_one:
  assumes "configs_accepted wenv c" "specs c1 = specs c" "filter_accepted wenv env c1" "wh_namespace wenv = re_namespace env"
  shows "filter_accepted wenv env (snd (run_one env r c1))"
proof (cases r)
  case (KacRun f req)
  have "filter_accepted wenv (env\<lparr>re_fails := f\<rparr>) (snd (kac_Reconcile (env\<lparr>re_fails := f\<rparr>) req c1))"
    by (rule accepted_kac_Reconcile) (use assms configs_compile [OF assms(1,2)] in auto)
  with KacRun show ?thesis by simp
next
  case (CkacRun f req)
  have "filter_accepted wenv (env\<lparr>re_fails := f\<rparr>) (snd (ckac_Reconcile (env\<lparr>re_fails := f\<rparr>) req c1))"
    by (rule accepted_ckac_Reconcile) (use assms in auto)
  with CkacRun show ?thesis by simp
qed

lemma accepted_run_all:
  assumes "configs_accepted wenv c" "wh_namespace wenv = re_namespace env"
  shows "specs c1 = specs c \<Longrightarrow> filter_accepted wenv env c1 \<Longrightarrow> filter_accepted wenv env (snd (run_all env rs c1))"
proof (induction rs arbitrary: c1)
  case (Cons r rs)
  obtain err c2 where r: "run_one env r c1 = (err, c2)" by (metis prod.exhaust)
  have "specs c2 = specs c" using specs_run_one [of env r c1] Cons.prems(1) r by simp
  moreover have "filter_accepted wenv env c2" using accepted_run_one [OF assms(1) Cons.prems assms(2), of r] r by simp
  ultimately have "filter_accepted wenv env (snd (run_all env rs c2))" by (rule Cons.IH)
  then show ?case using r by (auto split: prod.split)
qed simp

section \<open>Properties\<close>

text \<open>C6: the operator never writes a SinkFilter that its own webhook refuses: when every stored
  configuration was accepted by the webhook, with whatever cluster configuration it saw, and the
  stored filter, if any, is accepted, then under any interleaving of runs of both controllers with
  faults of their own the filter stays accepted, for creation and for update.\<close>

theorem written_filter_accepted:
  assumes "configs_accepted wenv c" and "wh_namespace wenv = re_namespace env"
    and "\<forall>sf. gomap_get (cl_sinkFilters c) (filter_key env) = Some sf \<longrightarrow> validateSinkFilter wenv sf = []"
    and "run_all env runs c = (log, c')"
  shows "\<forall>sf op. gomap_get (cl_sinkFilters c') (filter_key env) = Some sf \<longrightarrow> sf_Validate wenv op (Some sf) = []"
proof -
  have "filter_accepted wenv env c" using assms(3) by (simp add: filter_accepted_def)
  from accepted_run_all [OF assms(1,2) refl this, of runs] assms(4) show ?thesis
    by (simp add: filter_accepted_def sf_Validate_def)
qed

text \<open>The configuration of the example is accepted, and the filter is written for it.\<close>

definition accepting_env :: "unit webhook_env" where
  "accepting_env = \<lparr>wh_compile = (\<lambda>e. if e = ''bad'' then None else Some ()), wh_badDuration = (\<lambda>_. False), wh_namespace = ''kubearchive''\<rparr>"

theorem written_filter_accepted_witness:
  "\<exists>sf. gomap_get (cl_sinkFilters (snd (run_all sample_renv [KacRun (\<lambda>_. False) (''ns'', KubeArchiveConfigResourceName)]
            (sample_cluster (sample_kac None []) None)))) (filter_key sample_renv) = Some sf
      \<and> gomap_get (sfNamespaces sf) ''ns'' \<noteq> None \<and> sf_Validate accepting_env AdmitCreate (Some sf) = []"
proof -
  let ?c = "sample_cluster (sample_kac None []) None" and ?runs = "[KacRun (\<lambda>_. False) (''ns'', KubeArchiveConfigResourceName)]"
  obtain log c' where run: "run_all sample_renv ?runs ?c = (log, c')" by (metis prod.exhaust)
  have k: "kac_Validate accepting_env (Inl ApiNotFound) AdmitCreate (Some (sample_kac None [])) = []" by code_simp
  have "configs_accepted accepting_env ?c"
    unfolding configs_accepted_def
  proof (intro allI impI exI conjI)
    fix req kac assume "gomap_get (cl_kacs ?c) req = Some kac"
    then have "kac = sample_kac None []" by (simp add: sample_cluster_def split: if_splits)
    then show "kac_Validate accepting_env (Inl ApiNotFound) AdmitCreate (Some kac) = []" using k by simp
  qed simp
  moreover have "wh_namespace accepting_env = re_namespace sample_renv" by (simp add: accepting_env_def sample_renv_def)
  moreover have "\<forall>sf. gomap_get (cl_sinkFilters ?c) (filter_key sample_renv) = Some sf \<longrightarrow> validateSinkFilter accepting_env sf = []"
    by (simp add: sample_cluster_def)
  ultimately have ok: "\<forall>sf op. gomap_get (cl_sinkFilters c') (filter_key sample_renv) = Some sf \<longrightarrow> sf_Validate accepting_env op (Some sf) = []"
    using run by (rule written_filter_accepted)
  have same: "sample_renv\<lparr>re_fails := \<lambda>_. False\<rparr> = sample_renv" by (simp add: sample_renv_def)
  have c': "c' = snd (kac_Reconcile sample_renv (''ns'', KubeArchiveConfigResourceName) ?c)"
    using run by (simp add: same split: prod.splits)
  have "filter_ns sample_renv c' ''ns'' \<noteq> None"
    using live_run [OF sample_facts(2) sample_facts(3) [of "[]"] sample_run, of None] unfolding c' by (simp add: sample_kac_def)
  then have "\<exists>sf. gomap_get (cl_sinkFilters c') (filter_key sample_renv) = Some sf \<and> gomap_get (sfNamespaces sf) ''ns'' \<noteq> None"
    unfolding filter_ns_def by (metis bind.bind_lzero option.exhaust bind.bind_lunit)
  then show ?thesis using ok unfolding run snd_conv by blast
qed

end
