(* ===== verification/Go_Url.thy ===== *)
theory Go_Url
  imports Prelude
begin

text \<open>
  The part of Go's \<^verbatim>\<open>net/url\<close> and \<^verbatim>\<open>net/http\<close> that builds requests: escaping, \<^verbatim>\<open>url.Parse\<close>,
  \<^verbatim>\<open>URL.String\<close>, query strings and \<^verbatim>\<open>http.NewRequest\<close>. Strings are bytes.

  The lemmas show that escaping can be undone, that an encoded query string is read back, and that
  a URL printed and parsed again keeps its host. Which bracketed hosts are IPv6 literals
  (\<^verbatim>\<open>netip.ParseAddr\<close>) is an argument: nothing here depends on the answer.
\<close>

section \<open>Escaping\<close>

datatype url_mode =
    EncodePath | EncodePathSegment | EncodeHost | EncodeZone | EncodeUserPassword | EncodeQueryComponent | EncodeFragment

definition is_alnum :: "char \<Rightarrow> bool" where
  "is_alnum c \<longleftrightarrow> (let n = of_char c :: nat in 97 \<le> n \<and> n \<le> 122 \<or> 65 \<le> n \<and> n \<le> 90 \<or> 48 \<le> n \<and> n \<le> 57)"

definition shouldEscape :: "url_mode \<Rightarrow> char \<Rightarrow> bool" where
  "shouldEscape mode c =
     (if is_alnum c then False
      else if (mode = EncodeHost \<or> mode = EncodeZone)
              \<and> c \<in> set ''!$&()*+,;=:[]<>'' \<union> {CHR 0x27, CHR 0x22} then False
      else if c \<in> set ''-_.~'' then False
      else if c \<in> set ''$&+,/:;=?@'' then
        (case mode of
           EncodePath \<Rightarrow> c = CHR ''?''
         | EncodePathSegment \<Rightarrow> c \<in> set ''/;,?''
         | EncodeUserPassword \<Rightarrow> c \<in> set ''@/?:''
         | EncodeQueryComponent \<Rightarrow> True
         | EncodeFragment \<Rightarrow> False
         | EncodeHost \<Rightarrow> True
         | EncodeZone \<Rightarrow> True)
      else \<not> (mode = EncodeFragment \<and> c \<in> set ''!()*''))"

definition hex_char :: "nat \<Rightarrow> char" where
  "hex_char n = ''0123456789ABCDEF'' ! n"

definition escape_char :: "url_mode \<Rightarrow> char \<Rightarrow> string" where
  "escape_char mode c =
     (if \<not> shouldEscape mode c then [c]
      else if c = CHR '' '' \<and> mode = EncodeQueryComponent then ''+''
      else let n = of_char c :: nat in [CHR ''%'', hex_char (n div 16), hex_char (n mod 16)])"

definition escape :: "url_mode \<Rightarrow> string \<Rightarrow> string" where
  "escape mode s = concat (map (escape_char mode) s)"

text \<open>
  In a host only bytes that are not ASCII may be escaped, and the percent sign itself; in the zone
  of an IPv6 literal also what a host may contain, and a space.
\<close>

definition escape_refused :: "url_mode \<Rightarrow> nat \<Rightarrow> nat \<Rightarrow> bool" where
  "escape_refused mode x y \<longleftrightarrow>
     mode = EncodeHost \<and> x < 8 \<and> \<not> (x = 2 \<and> y = 5)
     \<or> mode = EncodeZone \<and> \<not> (x = 2 \<and> y = 5) \<and> \<not> (x = 2 \<and> y = 0) \<and> shouldEscape EncodeHost (char_of (x * 16 + y))"

fun unescape :: "url_mode \<Rightarrow> string \<Rightarrow> string option" where
  "unescape mode [] = Some []"
| "unescape mode (c # s) =
     (if c = CHR ''%'' then
        (case s of
           a # b # r \<Rightarrow>
             (case (hex_digit a, hex_digit b) of
                (Some x, Some y) \<Rightarrow>
                  if escape_refused mode x y then None
                  else map_option (\<lambda>t. char_of (x * 16 + y) # t) (unescape mode r)
              | _ \<Rightarrow> None)
         | _ \<Rightarrow> None)
      else if c = CHR ''+'' then map_option (\<lambda>t. (if mode = EncodeQueryComponent then CHR '' '' else c) # t) (unescape mode s)
      else if (mode = EncodeHost \<or> mode = EncodeZone) \<and> (of_char c :: nat) < 128 \<and> shouldEscape mode c then None
      else map_option (\<lambda>t. c # t) (unescape mode s))"

abbreviation QueryEscape :: "string \<Rightarrow> string" where
  "QueryEscape \<equiv> escape EncodeQueryComponent"

abbreviation QueryUnescape :: "string \<Rightarrow> string option" where
  "QueryUnescape \<equiv> unescape EncodeQueryComponent"

definition validEncoded :: "url_mode \<Rightarrow> string \<Rightarrow> bool" where
  "validEncoded mode s \<longleftrightarrow> list_all (\<lambda>c. c \<in> set ''!$&()*+,;=:@[]%'' \<union> {CHR 0x27} \<or> \<not> shouldEscape mode c) s"

section \<open>URLs\<close>

record go_userinfo =
  us_username :: string
  us_password :: "string option"

record go_url =
  ur_Scheme :: string
  ur_Opaque :: string
  ur_User :: "go_userinfo option"
  ur_Host :: string
  ur_Path :: string
  ur_RawPath :: string
  ur_OmitHost :: bool
  ur_ForceQuery :: bool
  ur_RawQuery :: string
  ur_Fragment :: string
  ur_RawFragment :: string

definition empty_url :: go_url where
  "empty_url =
     \<lparr>ur_Scheme = [], ur_Opaque = [], ur_User = None, ur_Host = [], ur_Path = [], ur_RawPath = [], ur_OmitHost = False,
      ur_ForceQuery = False, ur_RawQuery = [], ur_Fragment = [], ur_RawFragment = []\<rparr>"

definition is_alpha :: "char \<Rightarrow> bool" where
  "is_alpha c \<longleftrightarrow> (let n = of_char c :: nat in 97 \<le> n \<and> n \<le> 122 \<or> 65 \<le> n \<and> n \<le> 90)"

definition scheme_char :: "char \<Rightarrow> bool" where
  "scheme_char c \<longleftrightarrow> is_alnum c \<or> c \<in> set ''+-.''"

text \<open>The scheme and the rest; \<open>None\<close> is the error of a missing scheme.\<close>

definition getScheme :: "string \<Rightarrow> (string \<times> string) option" where
  "getScheme raw =
     (let s = takeWhile scheme_char raw; rest = dropWhile scheme_char raw
      in if s \<noteq> [] \<and> \<not> is_alpha (hd s) then Some ([], raw)
         else if rest \<noteq> [] \<and> hd rest = CHR '':'' then (if s = [] then None else Some (s, tl rest))
         else Some ([], raw))"

definition validOptionalPort :: "string \<Rightarrow> bool" where
  "validOptionalPort port \<longleftrightarrow>
     port = [] \<or> hd port = CHR '':'' \<and> list_all (\<lambda>c. char_digit c \<noteq> None) (tl port)"

text \<open>\<^verbatim>\<open>strings.Index\<close> of \<open>%25\<close>: what stands before it and what starts with it.\<close>

fun cut_zone :: "string \<Rightarrow> (string \<times> string) option" where
  "cut_zone [] = None"
| "cut_zone (c # s) =
     (if has_prefix (c # s) ''%25'' then Some ([], c # s)
      else map_option (\<lambda>(a, b). (c # a, b)) (cut_zone s))"

definition unescape_literal :: "string \<Rightarrow> string option" where
  "unescape_literal hostname =
     (case cut_zone hostname of
        None \<Rightarrow> unescape EncodeHost hostname
      | Some (h, z) \<Rightarrow>
          (case (unescape EncodeHost h, unescape EncodeZone z) of (Some a, Some b) \<Rightarrow> Some (a @ b) | _ \<Rightarrow> None))"

definition parseHost :: "(string \<Rightarrow> bool) \<Rightarrow> string \<Rightarrow> string option" where
  "parseHost ip6 host =
     (case cut_last (CHR ''['') host of
        Some (_, inner) \<Rightarrow>
          (case cut_last (CHR '']'') inner of
             None \<Rightarrow> None
           | Some (hostname, colonPort) \<Rightarrow>
               if \<not> validOptionalPort colonPort then None
               else (case (unescape EncodeHost colonPort, unescape_literal hostname) of
                       (Some port, Some name) \<Rightarrow> if ip6 name then Some (''['' @ name @ '']'' @ port) else None
                     | _ \<Rightarrow> None))
      | None \<Rightarrow>
          (case cut_last (CHR '':'') host of
             Some (_, port) \<Rightarrow> if validOptionalPort (CHR '':'' # port) then unescape EncodeHost host else None
           | None \<Rightarrow> unescape EncodeHost host))"

definition validUserinfo :: "string \<Rightarrow> bool" where
  "validUserinfo s \<longleftrightarrow> list_all (\<lambda>c. is_alnum c \<or> c \<in> set ''-._:~!$&()*+,;=%@'' \<union> {CHR 0x27}) s"

definition parse_userinfo :: "string \<Rightarrow> go_userinfo option" where
  "parse_userinfo userinfo =
     (if \<not> validUserinfo userinfo then None
      else case cut_at (CHR '':'') userinfo of
             (_, _, False) \<Rightarrow>
               map_option (\<lambda>n. \<lparr>us_username = n, us_password = None\<rparr>) (unescape EncodeUserPassword userinfo)
           | (username, password, True) \<Rightarrow>
               (case (unescape EncodeUserPassword username, unescape EncodeUserPassword password) of
                  (Some n, Some p) \<Rightarrow> Some \<lparr>us_username = n, us_password = Some p\<rparr>
                | _ \<Rightarrow> None))"

definition parseAuthority :: "(string \<Rightarrow> bool) \<Rightarrow> string \<Rightarrow> (go_userinfo option \<times> string) option" where
  "parseAuthority ip6 authority =
     (case cut_last (CHR ''@'') authority of
        None \<Rightarrow> map_option (\<lambda>h. (None, h)) (parseHost ip6 authority)
      | Some (userinfo, host) \<Rightarrow>
          (case parseHost ip6 host of
             None \<Rightarrow> None
           | Some h \<Rightarrow> map_option (\<lambda>u. (Some u, h)) (parse_userinfo userinfo)))"

definition setPath :: "string \<Rightarrow> go_url \<Rightarrow> go_url option" where
  "setPath p u =
     (case unescape EncodePath p of
        None \<Rightarrow> None
      | Some path \<Rightarrow> Some (u\<lparr>ur_Path := path, ur_RawPath := (if p = escape EncodePath path then [] else p)\<rparr>))"

definition setFragment :: "string \<Rightarrow> go_url \<Rightarrow> go_url option" where
  "setFragment f u =
     (case unescape EncodeFragment f of
        None \<Rightarrow> None
      | Some frag \<Rightarrow> Some (u\<lparr>ur_Fragment := frag, ur_RawFragment := (if f = escape EncodeFragment frag then [] else f)\<rparr>))"

definition is_ctl :: "char \<Rightarrow> bool" where
  "is_ctl c \<longleftrightarrow> (let n = of_char c :: nat in n < 32 \<or> n = 127)"

text \<open>The query string is cut off; a lone question mark at the end is remembered.\<close>

definition cut_query :: "string \<Rightarrow> go_url \<Rightarrow> string \<times> go_url" where
  "cut_query rest u =
     (if has_suffix rest ''?'' \<and> count_list rest (CHR ''?'') = 1 then (butlast rest, u\<lparr>ur_ForceQuery := True\<rparr>)
      else case cut_at (CHR ''?'') rest of (a, q, _) \<Rightarrow> (a, u\<lparr>ur_RawQuery := q\<rparr>))"

definition parse_hierarchy :: "(string \<Rightarrow> bool) \<Rightarrow> string \<Rightarrow> go_url \<Rightarrow> go_url option" where
  "parse_hierarchy ip6 rest u =
     (if (ur_Scheme u \<noteq> [] \<or> \<not> has_prefix rest ''///'') \<and> has_prefix rest ''//'' then
        (let authority = takeWhile (\<lambda>c. c \<noteq> CHR ''/'') (drop 2 rest);
             path = dropWhile (\<lambda>c. c \<noteq> CHR ''/'') (drop 2 rest)
         in case parseAuthority ip6 authority of
              None \<Rightarrow> None
            | Some (user, host) \<Rightarrow> setPath path (u\<lparr>ur_User := user, ur_Host := host\<rparr>))
      else if ur_Scheme u \<noteq> [] \<and> has_prefix rest ''/'' then setPath rest (u\<lparr>ur_OmitHost := True\<rparr>)
      else setPath rest u)"

definition parse_no_fragment :: "(string \<Rightarrow> bool) \<Rightarrow> string \<Rightarrow> go_url option" where
  "parse_no_fragment ip6 raw =
     (if list_ex is_ctl raw then None
      else if raw = ''*'' then Some (empty_url\<lparr>ur_Path := ''*''\<rparr>)
      else case getScheme raw of
             None \<Rightarrow> None
           | Some (scheme, rest) \<Rightarrow>
               (case cut_query rest (empty_url\<lparr>ur_Scheme := to_lower scheme\<rparr>) of
                  (rest, u) \<Rightarrow>
                    if \<not> has_prefix rest ''/'' \<and> ur_Scheme u \<noteq> [] then Some (u\<lparr>ur_Opaque := rest\<rparr>)
                    else if \<not> has_prefix rest ''/'' \<and> CHR '':'' \<in> set (fst (cut_at (CHR ''/'') rest)) then None
                    else parse_hierarchy ip6 rest u))"

definition url_Parse :: "(string \<Rightarrow> bool) \<Rightarrow> string \<Rightarrow> go_url option" where
  "url_Parse ip6 raw =
     (case cut_at (CHR ''#'') raw of
        (u, frag, _) \<Rightarrow>
          (case parse_no_fragment ip6 u of
             None \<Rightarrow> None
           | Some url \<Rightarrow> if frag = [] then Some url else setFragment frag url))"

definition EscapedPath :: "go_url \<Rightarrow> string" where
  "EscapedPath u =
     (if ur_RawPath u \<noteq> [] \<and> validEncoded EncodePath (ur_RawPath u) \<and> unescape EncodePath (ur_RawPath u) = Some (ur_Path u)
      then ur_RawPath u
      else if ur_Path u = ''*'' then ''*''
      else escape EncodePath (ur_Path u))"

definition EscapedFragment :: "go_url \<Rightarrow> string" where
  "EscapedFragment u =
     (if ur_RawFragment u \<noteq> [] \<and> validEncoded EncodeFragment (ur_RawFragment u)
         \<and> unescape EncodeFragment (ur_RawFragment u) = Some (ur_Fragment u)
      then ur_RawFragment u
      else escape EncodeFragment (ur_Fragment u))"

definition userinfo_String :: "go_userinfo \<Rightarrow> string" where
  "userinfo_String i =
     (case us_password i of
        None \<Rightarrow> escape EncodeUserPassword (us_username i)
      | Some p \<Rightarrow> escape EncodeUserPassword (us_username i) @ '':'' @ escape EncodeUserPassword p)"

definition url_authority :: "go_url \<Rightarrow> string" where
  "url_authority u =
     (if (ur_Scheme u \<noteq> [] \<or> ur_Host u \<noteq> [] \<or> ur_User u \<noteq> None)
         \<and> \<not> (ur_OmitHost u \<and> ur_Host u = [] \<and> ur_User u = None)
      then (if ur_Host u \<noteq> [] \<or> ur_Path u \<noteq> [] \<or> ur_User u \<noteq> None then ''//'' else [])
           @ (case ur_User u of None \<Rightarrow> [] | Some i \<Rightarrow> userinfo_String i @ ''@'')
           @ escape EncodeHost (ur_Host u)
      else [])"

definition url_String :: "go_url \<Rightarrow> string" where
  "url_String u =
     (let scheme = (if ur_Scheme u \<noteq> [] then ur_Scheme u @ '':'' else []);
          path = EscapedPath u;
          front = scheme @ url_authority u @ (if path \<noteq> [] \<and> hd path \<noteq> CHR ''/'' \<and> ur_Host u \<noteq> [] then ''/'' else [])
      in (if ur_Opaque u \<noteq> [] then scheme @ ur_Opaque u
          else front
               @ (if front = [] \<and> CHR '':'' \<in> set (fst (cut_at (CHR ''/'') path)) then ''./'' else [])
               @ path)
         @ (if ur_ForceQuery u \<or> ur_RawQuery u \<noteq> [] then ''?'' @ ur_RawQuery u else [])
         @ (if ur_Fragment u \<noteq> [] then ''#'' @ EscapedFragment u else []))"

text \<open>\<^verbatim>\<open>Hostname\<close>: without a valid port and without the brackets of an IPv6 literal.\<close>

definition strip_port :: "string \<Rightarrow> string" where
  "strip_port host =
     (case cut_last (CHR '':'') host of
        Some (h, port) \<Rightarrow> if validOptionalPort (CHR '':'' # port) then h else host
      | None \<Rightarrow> host)"

definition url_Hostname :: "go_url \<Rightarrow> string" where
  "url_Hostname u =
     (let h = strip_port (ur_Host u)
      in if has_prefix h ''['' \<and> has_suffix h '']'' then butlast (tl h) else h)"

section \<open>Query strings\<close>

type_synonym url_values = "(string, string list) gomap"

definition add_value :: "url_values \<Rightarrow> string \<Rightarrow> string \<Rightarrow> url_values" where
  "add_value m k v = gomap_set m k (gomap_get0 [] m k @ [v])"

definition parse_pair :: "url_values \<Rightarrow> string \<Rightarrow> url_values" where
  "parse_pair m p =
     (if CHR '';'' \<in> set p \<or> p = [] then m
      else case cut_at (CHR ''='') p of
             (k, v, _) \<Rightarrow>
               (case (QueryUnescape k, QueryUnescape v) of
                  (Some k, Some v) \<Rightarrow> add_value m k v
                | _ \<Rightarrow> m))"

definition parseQuery :: "string \<Rightarrow> url_values" where
  "parseQuery q = foldl parse_pair [] (split_on (CHR ''&'') q)"

abbreviation url_Query :: "go_url \<Rightarrow> url_values" where
  "url_Query u \<equiv> parseQuery (ur_RawQuery u)"

definition encode_pair :: "string \<times> string \<Rightarrow> string" where
  "encode_pair kv = QueryEscape (fst kv) @ ''='' @ QueryEscape (snd kv)"

text \<open>The keys are sorted.\<close>

definition value_pairs :: "url_values \<Rightarrow> (string \<times> string) list" where
  "value_pairs m = concat (map (\<lambda>k. map (Pair k) (gomap_get0 [] m k)) (sort (gomap_keys m)))"

definition values_Encode :: "url_values \<Rightarrow> string" where
  "values_Encode m = join_with ''&'' (map encode_pair (value_pairs m))"

section \<open>Requests\<close>

record http_request =
  hr_Method :: string
  hr_URL :: go_url
  hr_Header :: "(string, string) gomap"
  hr_Body :: "string option"

definition token_char :: "char \<Rightarrow> bool" where
  "token_char c \<longleftrightarrow> is_alnum c \<or> c \<in> set ''!#$%&*+-.^_`|~'' \<union> {CHR 0x27}"

definition removeEmptyPort :: "string \<Rightarrow> string" where
  "removeEmptyPort host =
     (case cut_last (CHR '':'') host of
        Some (h, port) \<Rightarrow> if CHR '']'' \<notin> set port then trim_suffix '':'' host else host
      | None \<Rightarrow> host)"

definition NewRequest :: "(string \<Rightarrow> bool) \<Rightarrow> string \<Rightarrow> string \<Rightarrow> string option \<Rightarrow> http_request option" where
  "NewRequest ip6 mthd url body =
     (let mthd = (if mthd = [] then ''GET'' else mthd)
      in if \<not> list_all token_char mthd then None
         else case url_Parse ip6 url of
                None \<Rightarrow> None
              | Some u \<Rightarrow> Some \<lparr>hr_Method = mthd, hr_URL = u\<lparr>ur_Host := removeEmptyPort (ur_Host u)\<rparr>, hr_Header = [], hr_Body = body\<rparr>)"

text \<open>\<^verbatim>\<open>Header.Set\<close> writes the canonical form of a header name.\<close>

fun canonical_from :: "bool \<Rightarrow> string \<Rightarrow> string" where
  "canonical_from upper [] = []"
| "canonical_from upper (c # s) =
     (if upper then upper_char c else lower_char c) # canonical_from (c = CHR ''-'') s"

definition canonical_header :: "string \<Rightarrow> string" where
  "canonical_header k = (if list_all token_char k then canonical_from True k else k)"

definition header_set :: "(string, string) gomap \<Rightarrow> string \<Rightarrow> string \<Rightarrow> (string, string) gomap" where
  "header_set hs k v = gomap_set hs (canonical_header k) v"

section \<open>Lemmas: escaping\<close>

lemma hex_digit_hex_char [simp]: "n < 16 \<Longrightarrow> hex_digit (hex_char n) = Some n"
proof -
  assume "n < 16"
  then have "n \<in> set [0..<16]" by simp
  moreover have "list_all (\<lambda>n. hex_digit (hex_char n) = Some n) [0..<16]" by code_simp
  ultimately show ?thesis by (auto simp: list_all_iff)
qed

lemma shouldEscape_percent [simp]: "shouldEscape mode (CHR ''%'')"
  by (cases mode) (simp_all add: shouldEscape_def is_alnum_def)

lemma of_char_split [simp]: "char_of ((of_char c :: nat) div 16 * 16 + of_char c mod 16) = (c :: char)"
  by (simp add: div_mult_mod_eq)

lemma of_char_halves [simp]: "(of_char (c :: char) :: nat) div 16 < 16" "(of_char c :: nat) mod 16 < 16"
proof -
  have "(of_char c :: nat) mod 256 < 256" by simp
  then have "(of_char c :: nat) < 256" by (simp only: of_char_mod_256)
  then show "(of_char c :: nat) div 16 < 16" by (intro less_mult_imp_div_less) simp
  show "(of_char c :: nat) mod 16 < 16" by simp
qed

lemma unescape_escape_char:
  assumes "mode \<noteq> EncodeQueryComponent" "mode' \<noteq> EncodeQueryComponent"
    and "unescape mode' (escape_char mode c @ s) = Some t"
  shows "\<exists>u. unescape mode' s = Some u \<and> t = c # u"
proof (cases "shouldEscape mode c")
  case True
  then show ?thesis using assms by (auto simp: escape_char_def Let_def split: if_splits)
next
  case False
  then have "c \<noteq> CHR ''%''" by auto
  then show ?thesis using assms False by (auto simp: escape_char_def split: if_splits)
qed

text \<open>Whatever reads an escaped string reads the string.\<close>

lemma unescape_escape_eq:
  assumes "mode \<noteq> EncodeQueryComponent" "mode' \<noteq> EncodeQueryComponent"
    and "unescape mode' (escape mode s) = Some t"
  shows "t = s"
  using assms(3)
proof (induction s arbitrary: t)
  case (Cons c s)
  then show ?case
    using unescape_escape_char [OF assms(1,2), of c "escape mode s" t] by (auto simp: escape_def)
qed (simp add: escape_def)

lemma unescape_append:
  "unescape mode s = Some a \<Longrightarrow> unescape mode t = Some b \<Longrightarrow> unescape mode (s @ t) = Some (a @ b)"
  by (induction mode s arbitrary: a rule: unescape.induct) (auto split: if_splits list.splits option.splits)

lemma unescape_percent:
  "unescape mode (CHR ''%'' # hex_char (of_char c div 16) # hex_char (of_char c mod 16) # s) =
     (if escape_refused mode (of_char c div 16) (of_char c mod 16) then None else map_option ((#) c) (unescape mode s))"
  by simp

lemma unescape_plain:
  assumes "c \<noteq> CHR ''%''" "c = CHR ''+'' \<Longrightarrow> mode \<noteq> EncodeQueryComponent" "mode \<noteq> EncodeHost" "mode \<noteq> EncodeZone"
  shows "unescape mode (c # s) = map_option ((#) c) (unescape mode s)"
  using assms by simp

lemma shouldEscape_query [simp]:
  "shouldEscape EncodeQueryComponent (CHR ''+'')" "shouldEscape EncodeQueryComponent (CHR '' '')"
  "shouldEscape EncodeQueryComponent (CHR ''&'')" "shouldEscape EncodeQueryComponent (CHR ''='')"
  "shouldEscape EncodeQueryComponent (CHR '';'')"
  by (simp_all add: shouldEscape_def is_alnum_def)

theorem unescape_escape:
  assumes "mode \<noteq> EncodeHost" "mode \<noteq> EncodeZone"
  shows "unescape mode (escape mode s) = Some s"
proof (induction s)
  case (Cons c s)
  have free: "escape_refused mode x y = False" for x y using assms by (auto simp: escape_refused_def)
  have esc: "escape mode (c # s) = escape_char mode c @ escape mode s" by (simp add: escape_def)
  consider (plain) "\<not> shouldEscape mode c" | (space) "shouldEscape mode c" "c = CHR '' ''" "mode = EncodeQueryComponent"
    | (coded) "shouldEscape mode c" "\<not> (c = CHR '' '' \<and> mode = EncodeQueryComponent)" by blast
  then show ?case
  proof cases
    case plain
    then have "c \<noteq> CHR ''%''" "c = CHR ''+'' \<Longrightarrow> mode \<noteq> EncodeQueryComponent" by auto
    from unescape_plain [OF this assms] plain esc Cons show ?thesis by (simp only: escape_char_def) simp
  next
    case space
    with esc Cons show ?thesis by (simp add: escape_char_def)
  next
    case coded
    with esc have "escape mode (c # s) = CHR ''%'' # hex_char (of_char c div 16) # hex_char (of_char c mod 16) # escape mode s"
      by (simp only: escape_char_def if_False if_True Let_def append_Cons append_Nil not_True_eq_False simp_thms)
    with Cons show ?thesis by (simp only: unescape_percent free if_False) simp
  qed
qed (simp add: escape_def)


lemma escape_append: "escape mode (s @ t) = escape mode s @ escape mode t"
  by (simp add: escape_def)

lemma escape_Cons: "escape mode (c # s) = escape_char mode c @ escape mode s"
  by (simp add: escape_def)

lemma hex_char_alnum: "n < 16 \<Longrightarrow> is_alnum (hex_char n)"
proof -
  assume "n < 16"
  then have "n \<in> set [0..<16]" by simp
  moreover have "list_all (\<lambda>n. is_alnum (hex_char n)) [0..<16]" by code_simp
  ultimately show ?thesis by (auto simp: list_all_iff)
qed

lemma escape_char_set:
  "d \<in> set (escape_char mode c) \<Longrightarrow> d = c \<and> \<not> shouldEscape mode c \<or> d = CHR ''%'' \<or> d = CHR ''+'' \<or> is_alnum d"
  using hex_char_alnum [OF of_char_halves(1), of c] hex_char_alnum [OF of_char_halves(2), of c]
  by (auto simp: escape_char_def Let_def split: if_splits)

lemma escape_avoids:
  assumes "shouldEscape mode d" "d \<noteq> CHR ''%''" "d \<noteq> CHR ''+''"
  shows "d \<notin> set (escape mode s)"
proof
  assume "d \<in> set (escape mode s)"
  then obtain c where "d \<in> set (escape_char mode c)" by (auto simp: escape_def)
  from escape_char_set [OF this] assms show False by (auto simp: shouldEscape_def)
qed

lemma escape_keeps:
  assumes "\<not> shouldEscape mode d" "\<not> is_alnum d" "d \<noteq> CHR ''+''"
  shows "d \<in> set (escape mode s) \<longleftrightarrow> d \<in> set s"
proof
  assume "d \<in> set (escape mode s)"
  then obtain c where c: "c \<in> set s" "d \<in> set (escape_char mode c)" by (auto simp: escape_def)
  have "d \<noteq> CHR ''%''" using assms(1) by auto
  with escape_char_set [OF c(2)] assms c(1) show "d \<in> set s" by auto
next
  assume "d \<in> set s"
  moreover have "d \<in> set (escape_char mode d)" using assms by (simp add: escape_char_def)
  ultimately show "d \<in> set (escape mode s)" by (auto simp: escape_def)
qed

lemma escape_split:
  "\<not> shouldEscape mode d \<Longrightarrow> escape mode (a @ d # b) = escape mode a @ d # escape mode b"
  by (simp add: escape_def escape_char_def)

lemma host_chars [simp]:
  "\<not> shouldEscape EncodeHost (CHR ''['')" "\<not> shouldEscape EncodeHost (CHR '']'')" "\<not> is_alnum (CHR ''['')"
  "\<not> is_alnum (CHR '']'')"
  "shouldEscape EncodeHost (CHR ''#'')" "shouldEscape EncodeHost (CHR ''?'')" "shouldEscape EncodeHost (CHR ''/'')"
  "shouldEscape EncodeHost (CHR ''@'')"
  "shouldEscape EncodeUserPassword (CHR ''#'')" "shouldEscape EncodeUserPassword (CHR ''?'')"
  "shouldEscape EncodeUserPassword (CHR ''/'')" "shouldEscape EncodeUserPassword (CHR ''@'')"
  by (simp_all add: shouldEscape_def is_alnum_def)

section \<open>Lemmas: hosts\<close>

lemma cut_last_None [simp]: "cut_last c s = None \<longleftrightarrow> c \<notin> set s"
  by (simp add: cut_last_def)

lemma cut_last_split: "c \<notin> set b \<Longrightarrow> cut_last c (a @ c # b) = Some (a, b)"
  by (simp add: cut_last_def takeWhile_append dropWhile_append)

lemma unescape_as_path:
  "mode \<noteq> EncodeQueryComponent \<Longrightarrow> unescape mode s = Some t \<Longrightarrow> unescape EncodePath s = Some t"
  by (induction mode s arbitrary: t rule: unescape.induct)
     (auto simp: escape_refused_def split: if_splits list.splits option.splits)

lemma cut_zone_append: "cut_zone s = Some (h, z) \<Longrightarrow> s = h @ z"
  by (induction s arbitrary: h) (auto split: if_splits)

lemma unescape_literal_as_path:
  assumes "unescape_literal s = Some t"
  shows "unescape EncodePath s = Some t"
proof (cases "cut_zone s")
  case None
  with assms show ?thesis by (intro unescape_as_path [of EncodeHost]) (simp_all add: unescape_literal_def)
next
  case (Some hz)
  obtain h z where hz: "hz = (h, z)" by fastforce
  from assms Some hz obtain a b where ab: "unescape EncodeHost h = Some a" "unescape EncodeZone z = Some b" "t = a @ b"
    by (auto simp: unescape_literal_def split: option.splits)
  from ab(1) have "unescape EncodePath h = Some a" by (intro unescape_as_path [of EncodeHost]) simp_all
  moreover from ab(2) have "unescape EncodePath z = Some b" by (intro unescape_as_path [of EncodeZone]) simp_all
  ultimately show ?thesis using cut_zone_append [of s h z] Some hz ab(3) by (simp add: unescape_append)
qed

lemma parseHost_escape:
  assumes "CHR ''['' \<notin> set (tl h)" and "parseHost ip6 (escape EncodeHost h) = Some h'"
  shows "h' = h"
proof (cases "CHR ''['' \<in> set h")
  case False
  then have "CHR ''['' \<notin> set (escape EncodeHost h)" by (simp add: escape_keeps)
  then have "unescape EncodeHost (escape EncodeHost h) = Some h'"
    using assms(2) by (auto simp: parseHost_def cut_last_def split: if_splits)
  then show ?thesis by (rule unescape_escape_eq [rotated 2]) simp_all
next
  case True
  then obtain r where h: "h = CHR ''['' # r" using assms(1) by (cases h) auto
  from assms(1) h have nb: "CHR ''['' \<notin> set (escape EncodeHost r)" by (simp add: escape_keeps)
  have "escape EncodeHost h = [] @ CHR ''['' # escape EncodeHost r" using h escape_split [of EncodeHost _ "[]" r] by (simp add: escape_def)
  with nb have cut: "cut_last (CHR ''['') (escape EncodeHost h) = Some ([], escape EncodeHost r)"
    using cut_last_split [of _ "escape EncodeHost r" "[]"] by simp
  with assms(2) have "cut_last (CHR '']'') (escape EncodeHost r) \<noteq> None"
    by (cases "cut_last (CHR '']'') (escape EncodeHost r)") (simp_all add: parseHost_def del: cut_last_None)
  then have "CHR '']'' \<in> set r" by (simp add: escape_keeps)
  then obtain a b where r: "r = a @ CHR '']'' # b" "CHR '']'' \<notin> set b" by (meson split_list_last)
  have cut2: "cut_last (CHR '']'') (escape EncodeHost r) = Some (escape EncodeHost a, escape EncodeHost b)"
    using r by (simp add: escape_split cut_last_split escape_keeps)
  from assms(2) cut cut2 obtain p n where pn: "unescape EncodeHost (escape EncodeHost b) = Some p"
      "unescape_literal (escape EncodeHost a) = Some n" "h' = ''['' @ n @ '']'' @ p"
    by (auto simp: parseHost_def split: option.splits if_splits)
  from pn(1) have "p = b" by (rule unescape_escape_eq [rotated 2]) simp_all
  moreover from unescape_literal_as_path [OF pn(2)] have "n = a" by (rule unescape_escape_eq [rotated 2]) simp_all
  ultimately show ?thesis using pn(3) h r by simp
qed


text \<open>A URL with a host, as \<open>url_Parse\<close> returns it.\<close>

definition hosted :: "go_url \<Rightarrow> bool" where
  "hosted u \<longleftrightarrow> ur_Opaque u = [] \<and> ur_Host u \<noteq> []
     \<and> (ur_Scheme u \<noteq> [] \<longrightarrow> list_all scheme_char (ur_Scheme u) \<and> is_alpha (hd (ur_Scheme u)) \<and> to_lower (ur_Scheme u) = ur_Scheme u)"

lemma lower_char_idem [simp]: "lower_char (lower_char c) = lower_char c"
  by (auto simp: lower_char_def Let_def)

lemma scheme_char_lower: "scheme_char c \<Longrightarrow> scheme_char (lower_char c)"
  by (auto simp: scheme_char_def is_alnum_def lower_char_def Let_def)

lemma is_alpha_lower: "is_alpha c \<Longrightarrow> is_alpha (lower_char c)"
  by (auto simp: is_alpha_def lower_char_def Let_def)

lemma getScheme_scheme:
  assumes "getScheme raw = Some (s, rest)" "s \<noteq> []"
  shows "list_all scheme_char s \<and> is_alpha (hd s)"
  using assms by (auto simp: getScheme_def Let_def list_all_iff split: if_splits dest: set_takeWhileD)

lemma cut_query_fields:
  "ur_Scheme (snd (cut_query rest u)) = ur_Scheme u" "ur_Opaque (snd (cut_query rest u)) = ur_Opaque u"
  "ur_Host (snd (cut_query rest u)) = ur_Host u"
  by (simp_all add: cut_query_def split_beta)

lemma setPath_fields:
  "setPath p u = Some v \<Longrightarrow> ur_Scheme v = ur_Scheme u \<and> ur_Opaque v = ur_Opaque u \<and> ur_Host v = ur_Host u"
  by (auto simp: setPath_def split: option.splits)

lemma setFragment_fields:
  "setFragment p u = Some v \<Longrightarrow> ur_Scheme v = ur_Scheme u \<and> ur_Opaque v = ur_Opaque u \<and> ur_Host v = ur_Host u"
  by (auto simp: setFragment_def split: option.splits)

lemma parse_hierarchy_fields:
  "parse_hierarchy ip6 rest u = Some v \<Longrightarrow> ur_Scheme v = ur_Scheme u \<and> ur_Opaque v = ur_Opaque u"
  by (auto simp: parse_hierarchy_def Let_def split: if_splits option.splits dest!: setPath_fields)

lemma parse_no_fragment_hosted:
  assumes "parse_no_fragment ip6 raw = Some u" "ur_Host u \<noteq> []"
  shows "hosted u"
proof -
  obtain s rest where sch: "getScheme raw = Some (s, rest)"
    using assms by (cases "getScheme raw") (auto simp: parse_no_fragment_def empty_url_def split: if_splits)
  let ?c = "cut_query rest (empty_url\<lparr>ur_Scheme := to_lower s\<rparr>)"
  have hier: "parse_hierarchy ip6 (fst ?c) (snd ?c) = Some u"
    using assms sch by (auto simp: parse_no_fragment_def empty_url_def cut_query_fields split_beta split: if_splits)
  have "ur_Opaque u = []" "ur_Scheme u = to_lower s"
    using parse_hierarchy_fields [OF hier] by (simp_all add: cut_query_fields empty_url_def)
  moreover have "s \<noteq> [] \<Longrightarrow> list_all scheme_char (to_lower s) \<and> is_alpha (hd (to_lower s))"
    using getScheme_scheme [OF sch] by (cases s) (auto simp: list_all_iff scheme_char_lower is_alpha_lower)
  ultimately show ?thesis using assms(2) by (auto simp: hosted_def)
qed

lemma url_Parse_hosted:
  assumes "url_Parse ip6 raw = Some u" "ur_Host u \<noteq> []"
  shows "hosted u"
proof -
  obtain w where w: "parse_no_fragment ip6 (fst (cut_at (CHR ''#'') raw)) = Some w"
      "u = w \<or> setFragment (fst (snd (cut_at (CHR ''#'') raw))) w = Some u"
    using assms(1) by (auto simp: url_Parse_def split_beta split: option.splits if_splits)
  from w(2) have f: "ur_Host u = ur_Host w \<and> ur_Scheme u = ur_Scheme w \<and> ur_Opaque u = ur_Opaque w"
    by (auto dest!: setFragment_fields)
  with assms(2) parse_no_fragment_hosted [OF w(1)] show ?thesis by (simp add: hosted_def)
qed

lemma hosted_query [simp]: "hosted (u\<lparr>ur_RawQuery := q\<rparr>) = hosted u"
  by (simp add: hosted_def)

lemma takeWhile_until: "c \<notin> set a \<Longrightarrow> takeWhile (\<lambda>x. x \<noteq> c) (a @ b) = a @ takeWhile (\<lambda>x. x \<noteq> c) b"
  by (induction a) auto

lemma takeWhile_until_end: "c \<notin> set a \<Longrightarrow> takeWhile (\<lambda>x. x \<noteq> c) a = a"
  using takeWhile_until [of c a "[]"] by simp

lemma cut_at_fst: "fst (cut_at c s) = takeWhile (\<lambda>x. x \<noteq> c) s"
  by (simp add: cut_at_def takeWhile_until_end)

lemma cut_query_fst: "fst (cut_query rest u) = takeWhile (\<lambda>x. x \<noteq> CHR ''?'') rest"
proof (cases "has_suffix rest ''?'' \<and> count_list rest (CHR ''?'') = 1")
  case True
  then obtain r where r: "rest = r @ ''?''" by (auto simp: suffix_def)
  with True have "CHR ''?'' \<notin> set r" by (simp add: count_list_0_iff)
  then have "takeWhile (\<lambda>x. x \<noteq> CHR ''?'') rest = r" using r by (simp add: takeWhile_until)
  with True r show ?thesis by (simp add: cut_query_def)
next
  case False
  then show ?thesis by (simp only: cut_query_def split_beta cut_at_fst if_False fst_conv)
qed


lemma authority_chars:
  assumes "d \<in> {CHR ''#'', CHR ''?'', CHR ''/''}"
  shows "d \<notin> set (escape EncodeHost h)" "d \<notin> set (userinfo_String i)"
proof -
  have h: "shouldEscape EncodeHost d" and p: "shouldEscape EncodeUserPassword d" and "d \<noteq> CHR ''%''" "d \<noteq> CHR ''+''" "d \<noteq> CHR '':''"
    using assms by auto
  then show "d \<notin> set (escape EncodeHost h)" "d \<notin> set (userinfo_String i)"
    using escape_avoids [OF h] escape_avoids [OF p] by (auto simp: userinfo_String_def split: option.splits)
qed

definition auth_text :: "go_url \<Rightarrow> string" where
  "auth_text u = (case ur_User u of None \<Rightarrow> [] | Some i \<Rightarrow> userinfo_String i @ ''@'') @ escape EncodeHost (ur_Host u)"

definition scheme_text :: "go_url \<Rightarrow> string" where
  "scheme_text u = (if ur_Scheme u \<noteq> [] then ur_Scheme u @ '':'' else [])"

lemma auth_text_chars:
  assumes "d \<in> {CHR ''#'', CHR ''?'', CHR ''/''}"
  shows "d \<notin> set (auth_text u)"
proof -
  have "d \<noteq> CHR ''@''" using assms by auto
  then show ?thesis using authority_chars [OF assms] by (auto simp: auth_text_def split: option.splits)
qed

lemma scheme_text_hash: "hosted u \<Longrightarrow> CHR ''#'' \<notin> set (scheme_text u)"
  by (auto simp: hosted_def scheme_text_def list_all_iff scheme_char_def is_alnum_def)

lemma url_String_hosted:
  assumes "hosted u"
  obtains rest where "url_String u = scheme_text u @ ''//'' @ auth_text u @ rest"
    and "rest = [] \<or> hd rest \<in> {CHR ''/'', CHR ''?'', CHR ''#''}"
proof -
  let ?p = "(if EscapedPath u \<noteq> [] \<and> hd (EscapedPath u) \<noteq> CHR ''/'' then ''/'' else []) @ EscapedPath u"
  let ?rest = "?p @ (if ur_ForceQuery u \<or> ur_RawQuery u \<noteq> [] then ''?'' @ ur_RawQuery u else [])
     @ (if ur_Fragment u \<noteq> [] then ''#'' @ EscapedFragment u else [])"
  have auth: "url_authority u = ''//'' @ auth_text u"
    using assms by (simp add: hosted_def url_authority_def auth_text_def)
  have "url_String u = scheme_text u @ ''//'' @ auth_text u @ ?rest"
    using assms by (simp add: url_String_def Let_def hosted_def auth scheme_text_def)
  moreover have "?p = [] \<or> hd ?p = CHR ''/''" by auto
  then have "?rest = [] \<or> hd ?rest \<in> {CHR ''/'', CHR ''?'', CHR ''#''}" by (auto simp: hd_append)
  ultimately show ?thesis by (rule that)
qed

lemma scheme_char_colon [simp]: "\<not> scheme_char (CHR '':'')" "\<not> scheme_char (CHR ''/'')"
  by (simp_all add: scheme_char_def is_alnum_def)

lemma getScheme_text:
  assumes "hosted u"
  shows "getScheme (scheme_text u @ ''//'' @ t) = Some (ur_Scheme u, ''//'' @ t)"
proof (cases "ur_Scheme u = []")
  case True
  then show ?thesis by (simp add: scheme_text_def getScheme_def)
next
  case False
  with assms have "list_all scheme_char (ur_Scheme u)" "is_alpha (hd (ur_Scheme u))" by (auto simp: hosted_def)
  then have "takeWhile scheme_char (ur_Scheme u @ '':'' @ ''//'' @ t) = ur_Scheme u"
    "dropWhile scheme_char (ur_Scheme u @ '':'' @ ''//'' @ t) = '':'' @ ''//'' @ t"
    by (simp_all add: list_all_iff takeWhile_append2 dropWhile_append2)
  with False \<open>is_alpha _\<close> show ?thesis by (simp add: scheme_text_def getScheme_def)
qed

lemma auth_text_nonempty: "hosted u \<Longrightarrow> auth_text u \<noteq> []"
  by (cases "ur_Host u") (auto simp: hosted_def auth_text_def escape_def escape_char_def Let_def)

text \<open>What may follow the authority of a URL does not change its host.\<close>

lemma parse_authority_text:
  assumes "hosted u" and end1: "t = [] \<or> hd t \<in> {CHR ''/'', CHR ''?''}"
    and parse: "parse_no_fragment ip6 (scheme_text u @ ''//'' @ auth_text u @ t) = Some v"
  shows "\<exists>user. parseAuthority ip6 (auth_text u) = Some (user, ur_Host v)"
proof -
  define t' where "t' = takeWhile (\<lambda>x. x \<noteq> CHR ''?'') t"
  have t': "t' = [] \<or> hd t' = CHR ''/''" using end1 by (cases t) (auto simp: t'_def)
  have noq: "CHR ''?'' \<notin> set (auth_text u)" and nos: "CHR ''/'' \<notin> set (auth_text u)"
    by (rule auth_text_chars, simp)+
  let ?w = "empty_url\<lparr>ur_Scheme := to_lower (ur_Scheme u)\<rparr>"
  let ?c = "cut_query (''//'' @ auth_text u @ t) ?w"
  have cut: "fst ?c = ''//'' @ auth_text u @ t'" using noq by (simp add: cut_query_fst takeWhile_until t'_def)
  have star: "scheme_text u @ ''//'' @ auth_text u @ t \<noteq> ''*''"
    by (auto simp: scheme_text_def Cons_eq_append_conv append_eq_Cons_conv)
  have hier: "parse_hierarchy ip6 (''//'' @ auth_text u @ t') (snd ?c) = Some v"
  proof -
    obtain r w where rw: "?c = (r, w)" by fastforce
    have r: "has_prefix r ''/''" using cut rw by simp
    have "\<not> list_ex is_ctl (scheme_text u @ ''//'' @ auth_text u @ t)"
      using parse by (auto simp: parse_no_fragment_def split: if_splits)
    then have "parse_no_fragment ip6 (scheme_text u @ ''//'' @ auth_text u @ t) = parse_hierarchy ip6 r w"
      using star r unfolding parse_no_fragment_def getScheme_text [OF assms(1)] option.case prod.case rw by (simp only: if_False simp_thms)
    moreover have "r = ''//'' @ auth_text u @ t'" using cut unfolding rw fst_conv .
    ultimately show ?thesis using parse unfolding rw snd_conv by simp
  qed
  obtain a as where a: "auth_text u = a # as" "a \<noteq> CHR ''/''"
    using auth_text_nonempty [OF assms(1)] nos by (cases "auth_text u") auto
  have tw: "takeWhile (\<lambda>c. c \<noteq> CHR ''/'') (auth_text u @ t') = auth_text u"
    using t' nos by (cases t') (auto simp: takeWhile_until takeWhile_until_end)
  have "\<not> has_prefix (''//'' @ auth_text u @ t') ''///''" using a by simp
  then obtain user host where "parseAuthority ip6 (auth_text u) = Some (user, host)"
      "setPath (dropWhile (\<lambda>c. c \<noteq> CHR ''/'') (auth_text u @ t')) ((snd ?c)\<lparr>ur_User := user, ur_Host := host\<rparr>) = Some v"
    using hier tw by (auto simp: parse_hierarchy_def Let_def split: option.splits)
  then show ?thesis by (auto dest!: setPath_fields)
qed

lemma parseAuthority_auth_text:
  assumes "CHR ''['' \<notin> set (tl (ur_Host u))" "parseAuthority ip6 (auth_text u) = Some (user, h)"
  shows "h = ur_Host u"
proof -
  have no: "CHR ''@'' \<notin> set (escape EncodeHost (ur_Host u))" by (rule escape_avoids) simp_all
  have "parseHost ip6 (escape EncodeHost (ur_Host u)) = Some h"
  proof (cases "ur_User u")
    case None
    with no assms(2) show ?thesis by (auto simp: auth_text_def parseAuthority_def cut_last_def)
  next
    case (Some i)
    then have "auth_text u = userinfo_String i @ CHR ''@'' # escape EncodeHost (ur_Host u)" by (simp add: auth_text_def)
    with assms(2) cut_last_split [OF no, of "userinfo_String i"] show ?thesis
      by (auto simp: parseAuthority_def split: option.splits)
  qed
  with assms(1) show ?thesis by (rule parseHost_escape)
qed

theorem url_String_host:
  assumes "hosted u" "CHR ''['' \<notin> set (tl (ur_Host u))" and "url_Parse ip6 (url_String u) = Some v"
  shows "ur_Host v = ur_Host u"
proof -
  obtain rest where str: "url_String u = scheme_text u @ ''//'' @ auth_text u @ rest"
      and rest: "rest = [] \<or> hd rest \<in> {CHR ''/'', CHR ''?'', CHR ''#''}"
    using url_String_hosted [OF assms(1)] by blast
  define t where "t = takeWhile (\<lambda>x. x \<noteq> CHR ''#'') rest"
  have t: "t = [] \<or> hd t \<in> {CHR ''/'', CHR ''?''}" using rest by (cases rest) (auto simp: t_def)
  have cut: "fst (cut_at (CHR ''#'') (url_String u)) = scheme_text u @ ''//'' @ auth_text u @ t"
    using scheme_text_hash [OF assms(1)] auth_text_chars [of "CHR ''#''" u]
    by (simp add: str cut_at_fst takeWhile_until t_def)
  obtain w where w: "parse_no_fragment ip6 (scheme_text u @ ''//'' @ auth_text u @ t) = Some w" "ur_Host v = ur_Host w"
    using assms(3) cut by (auto simp: url_Parse_def split_beta split: option.splits if_splits dest!: setFragment_fields)
  from parse_authority_text [OF assms(1) t w(1)] obtain user where "parseAuthority ip6 (auth_text u) = Some (user, ur_Host w)" by blast
  from parseAuthority_auth_text [OF assms(2) this] w(2) show ?thesis by simp
qed


section \<open>Lemmas: query strings\<close>

lemma split_on_join:
  "xs \<noteq> [] \<Longrightarrow> (\<And>x. x \<in> set xs \<Longrightarrow> c \<notin> set x) \<Longrightarrow> split_on c (join_with [c] xs) = xs"
proof (induction "[c]" xs rule: join_with.induct)
  case (2 p)
  then show ?case by (simp add: split_on_none)
next
  case (3 p q ps)
  then show ?case by (simp add: split_on_cons)
qed simp

lemma QueryEscape_avoids [simp]:
  "CHR ''&'' \<notin> set (QueryEscape s)" "CHR ''='' \<notin> set (QueryEscape s)" "CHR '';'' \<notin> set (QueryEscape s)"
  by (rule escape_avoids; simp)+

lemma cut_at_split: "c \<notin> set a \<Longrightarrow> cut_at c (a @ c # b) = (a, b, True)"
  by (induction a) (auto simp: cut_at_def)

lemma parse_encode_pair: "parse_pair m (encode_pair kv) = add_value m (fst kv) (snd kv)"
  by (simp add: parse_pair_def encode_pair_def cut_at_split unescape_escape)

lemma parseQuery_pairs:
  "parseQuery (join_with ''&'' (map encode_pair ps)) = foldl (\<lambda>m kv. add_value m (fst kv) (snd kv)) [] ps"
proof (cases "ps = []")
  case False
  have "CHR ''&'' \<notin> set x" if "x \<in> set (map encode_pair ps)" for x
    using that by (auto simp: encode_pair_def)
  with False have "split_on (CHR ''&'') (join_with ''&'' (map encode_pair ps)) = map encode_pair ps"
    by (intro split_on_join) auto
  then show ?thesis by (simp add: parseQuery_def foldl_map parse_encode_pair)
qed (simp add: parseQuery_def parse_pair_def)

lemma add_values_get:
  "gomap_get0 [] (foldl (\<lambda>m kv. add_value m (fst kv) (snd kv)) m ps) k =
     gomap_get0 [] m k @ map snd (filter (\<lambda>kv. fst kv = k) ps)"
  by (induction ps arbitrary: m) (auto simp: add_value_def)

lemma filter_value_pairs:
  "distinct ks \<Longrightarrow>
     map snd (filter (\<lambda>kv. fst kv = k) (concat (map (\<lambda>k. map (Pair k) (f k)) ks))) = (if k \<in> set ks then f k else [])"
proof (induction ks)
  case (Cons k' ks)
  have "map snd (filter (\<lambda>kv. fst kv = k) (map (Pair k') (f k'))) = (if k = k' then f k' else [])"
    by (auto simp: filter_map o_def)
  with Cons show ?case by auto
qed simp

lemma values_Encode_get:
  assumes "gomap_ok m"
  shows "gomap_get0 [] (parseQuery (values_Encode m)) k = gomap_get0 [] m k"
proof -
  have "k \<notin> set (gomap_keys m) \<Longrightarrow> gomap_get0 [] m k = []"
    by (auto simp: gomap_get0_def split: option.splits dest: gomap_get_in_keys)
  then show ?thesis
    using assms by (simp add: values_Encode_def parseQuery_pairs add_values_get value_pairs_def filter_value_pairs)
      (simp add: gomap_get0_def)
qed

lemma parseQuery_ok: "gomap_ok (parseQuery q)"
proof -
  have "gomap_ok m \<Longrightarrow> gomap_ok (foldl parse_pair m ps)" for m ps
    by (induction ps arbitrary: m) (auto simp: parse_pair_def add_value_def split: option.splits prod.splits)
  then show ?thesis by (simp add: parseQuery_def)
qed

end
