(* ===== verification/Label_Filters.thy ===== *)
theory Label_Filters
  imports Sql_Store
begin

text \<open>
  \<^verbatim>\<open>pkg/models/labels.go\<close> and the label filters of \<^verbatim>\<open>pkg/database/sql/postgresql.go\<close>: label
  requirements are collected into \<open>labelFilters\<close>, keys and labels are resolved to identifiers,
  and the filters become \<^verbatim>\<open>WHERE\<close> conditions over the label tables.

  A condition is a value of \<open>sql_cond\<close> with the meaning of its subquery. Each of the three
  resolving queries may fail.
\<close>

section \<open>Filters\<close>

datatype selection_op =
  OpExists | OpDoesNotExist | OpEquals | OpNotEquals | OpIn | OpNotIn | OpDoubleEquals | OpGreaterThan | OpLessThan

record requirement =
  rq_Key :: string
  rq_Operator :: selection_op
  rq_Values :: "string list"

record labelFilters =
  lf_Exists :: "string list"
  lf_NotExists :: "string list"
  lf_Equals :: "(string, string) gomap"
  lf_NotEquals :: "(string, string) gomap"
  lf_In :: "(string, string list) gomap"
  lf_NotIn :: "(string, string list) gomap"

datatype label_filter_error = UnsupportedOperator selection_op | NoValue

definition empty_filters :: labelFilters where
  "empty_filters = \<lparr>lf_Exists = [], lf_NotExists = [], lf_Equals = [], lf_NotEquals = [], lf_In = [], lf_NotIn = []\<rparr>"

text \<open>\<^verbatim>\<open>ValuesUnsorted()[0]\<close> panics without a value.\<close>

fun add_requirement :: "labelFilters \<Rightarrow> requirement \<Rightarrow> label_filter_error + labelFilters" where
  "add_requirement lf r =
     (case rq_Operator r of
        OpExists \<Rightarrow> Inr (lf\<lparr>lf_Exists := lf_Exists lf @ [rq_Key r]\<rparr>)
      | OpDoesNotExist \<Rightarrow> Inr (lf\<lparr>lf_NotExists := lf_NotExists lf @ [rq_Key r]\<rparr>)
      | OpEquals \<Rightarrow> (case rq_Values r of [] \<Rightarrow> Inl NoValue
                    | v # _ \<Rightarrow> Inr (lf\<lparr>lf_Equals := gomap_set (lf_Equals lf) (rq_Key r) v\<rparr>))
      | OpNotEquals \<Rightarrow> (case rq_Values r of [] \<Rightarrow> Inl NoValue
                    | v # _ \<Rightarrow> Inr (lf\<lparr>lf_NotEquals := gomap_set (lf_NotEquals lf) (rq_Key r) v\<rparr>))
      | OpIn \<Rightarrow> Inr (lf\<lparr>lf_In := gomap_set (lf_In lf) (rq_Key r) (rq_Values r)\<rparr>)
      | OpNotIn \<Rightarrow> Inr (lf\<lparr>lf_NotIn := gomap_set (lf_NotIn lf) (rq_Key r) (rq_Values r)\<rparr>)
      | op1 \<Rightarrow> Inl (UnsupportedOperator op1))"

fun add_requirements :: "labelFilters \<Rightarrow> requirement list \<Rightarrow> label_filter_error + labelFilters" where
  "add_requirements lf [] = Inr lf"
| "add_requirements lf (r # rs) =
     (case add_requirement lf r of Inl e \<Rightarrow> Inl e | Inr lf' \<Rightarrow> add_requirements lf' rs)"

definition NewLabelFilters :: "requirement list \<Rightarrow> label_filter_error + labelFilters" where
  "NewLabelFilters rs = add_requirements empty_filters rs"

definition IsEmpty :: "labelFilters \<Rightarrow> bool" where
  "IsEmpty lf \<longleftrightarrow>
     lf_Exists lf = [] \<and> lf_NotExists lf = [] \<and> lf_Equals lf = [] \<and> lf_NotEquals lf = [] \<and> lf_In lf = [] \<and> lf_NotIn lf = []"

section \<open>Resolving identifiers\<close>

datatype query_error = QueryFailed

type_synonym ids = "(string, int) gomap"

definition resolveKeyIDs :: "bool \<Rightarrow> label_tables \<Rightarrow> string list \<Rightarrow> query_error + ids" where
  "resolveKeyIDs fails lt keys =
     (if keys = [] then Inr []
      else if fails then Inl QueryFailed
      else Inr (foldl (\<lambda>m (key, i). gomap_set m key i) [] (filter (\<lambda>(key, i). key \<in> set keys) (fst (lt_key lt)))))"

text \<open>The join of \<^verbatim>\<open>label_key_value\<close> with its keys and values, restricted to the wanted pairs.\<close>

definition label_rows :: "label_tables \<Rightarrow> (string \<times> string \<times> int) list" where
  "label_rows lt =
     [(k, v, l). ((a, b), l) \<leftarrow> fst (lt_pair lt), (k, a') \<leftarrow> fst (lt_key lt), a' = a, (v, b') \<leftarrow> fst (lt_value lt), b' = b]"

definition label_name :: "string \<times> string \<Rightarrow> string" where
  "label_name kv = fst kv @ ''='' @ snd kv"

definition resolve_pairs :: "bool \<Rightarrow> label_tables \<Rightarrow> (string \<times> string) list \<Rightarrow> query_error + ids" where
  "resolve_pairs fails lt wanted =
     (if fails then Inl QueryFailed
      else Inr (foldl (\<lambda>m r. gomap_set m (label_name (fst r, fst (snd r))) (snd (snd r))) []
             (filter (\<lambda>r. (fst r, fst (snd r)) \<in> set wanted) (label_rows lt))))"

definition resolveLabelIDs :: "bool \<Rightarrow> label_tables \<Rightarrow> (string, string) gomap \<Rightarrow> query_error + ids" where
  "resolveLabelIDs fails lt labels =
     (if labels = [] then Inr []
      else resolve_pairs fails lt (map (\<lambda>key. (key, gomap_get0 [] labels key)) (sort (gomap_keys labels))))"

definition resolveLabelIDsMulti :: "bool \<Rightarrow> label_tables \<Rightarrow> (string, string list) gomap \<Rightarrow> query_error + ids" where
  "resolveLabelIDsMulti fails lt labels =
     (if labels = [] then Inr []
      else resolve_pairs fails lt
             (concat (map (\<lambda>key. map (\<lambda>v. (key, v)) (gomap_get0 [] labels key)) (sort (gomap_keys labels)))))"

section \<open>Conditions\<close>

datatype sql_cond =
    CondFalse
  | CondHasKey int
  | CondHasLabel int
  | CondHasLabelIn "int list"
  | CondNoKeyIn "int list"
  | CondNoLabelIn "int list"
  | CondAllKeys "int list" nat

definition key_ids :: "label_tables \<Rightarrow> int \<Rightarrow> int set" where
  "key_ids lt rid = set (map (fst \<circ> fst) (filter (\<lambda>r. snd r \<in> resource_labels lt rid) (fst (lt_pair lt))))"

fun cond_holds :: "label_tables \<Rightarrow> int \<Rightarrow> sql_cond \<Rightarrow> bool" where
  "cond_holds lt rid CondFalse = False"
| "cond_holds lt rid (CondHasKey a) = (a \<in> key_ids lt rid)"
| "cond_holds lt rid (CondHasLabel l) = (l \<in> resource_labels lt rid)"
| "cond_holds lt rid (CondHasLabelIn ls) = (set ls \<inter> resource_labels lt rid \<noteq> {})"
| "cond_holds lt rid (CondNoKeyIn as) = (set as \<inter> key_ids lt rid = {})"
| "cond_holds lt rid (CondNoLabelIn ls) = (set ls \<inter> resource_labels lt rid = {})"
| "cond_holds lt rid (CondAllKeys as n) =
     (set as \<inter> key_ids lt rid \<noteq> {} \<and> card (set as \<inter> key_ids lt rid) = n)"

definition applyExistsFilter :: "ids \<Rightarrow> string list \<Rightarrow> sql_cond list" where
  "applyExistsFilter keyIDs keys = map (\<lambda>key. CondHasKey (gomap_get0 0 keyIDs key)) (sort keys)"

definition applyEqualsFilter :: "ids \<Rightarrow> (string, string) gomap \<Rightarrow> sql_cond list" where
  "applyEqualsFilter labelIDs labels =
     map (\<lambda>key. CondHasLabel (gomap_get0 0 labelIDs (label_name (key, gomap_get0 [] labels key)))) (sort (gomap_keys labels))"

definition applyInFilter :: "ids \<Rightarrow> (string, string list) gomap \<Rightarrow> sql_cond list" where
  "applyInFilter labelIDs labels =
     map (\<lambda>key. CondHasLabelIn (List.map_filter (\<lambda>v. gomap_get labelIDs (label_name (key, v))) (gomap_get0 [] labels key)))
       (sort (gomap_keys labels))"

definition applyNotExistsFilter :: "ids \<Rightarrow> string list \<Rightarrow> sql_cond list" where
  "applyNotExistsFilter keyIDs keys =
     (let vars = List.map_filter (gomap_get keyIDs) keys in if vars = [] then [] else [CondNoKeyIn vars])"

definition applyNotEqualsFilter :: "ids \<Rightarrow> (string, string) gomap \<Rightarrow> sql_cond list" where
  "applyNotEqualsFilter labelIDs labels =
     (let vars = List.map_filter (\<lambda>key. gomap_get labelIDs (label_name (key, gomap_get0 [] labels key))) (sort (gomap_keys labels))
      in if vars = [] then [] else [CondNoLabelIn vars])"

definition applyNotInFilter :: "ids \<Rightarrow> ids \<Rightarrow> (string, string list) gomap \<Rightarrow> sql_cond list" where
  "applyNotInFilter keyIDs labelIDs labels =
     (let keys = sort (gomap_keys labels);
          forbidden = concat (map (\<lambda>key. List.map_filter (\<lambda>v. gomap_get labelIDs (label_name (key, v))) (gomap_get0 [] labels key)) keys)
      in CondAllKeys (List.map_filter (gomap_get keyIDs) keys) (length keys)
         # (if forbidden = [] then [] else [CondNoLabelIn forbidden]))"

text \<open>\<^verbatim>\<open>maps.Copy(dst, src)\<close>, and the loop that appends the values of each key.\<close>

definition maps_copy :: "('k, 'v) gomap \<Rightarrow> ('k, 'v) gomap \<Rightarrow> ('k, 'v) gomap" where
  "maps_copy dst src = foldl (\<lambda>m (k, v). gomap_set m k v) dst src"

definition maps_append :: "('k, 'v list) gomap \<Rightarrow> ('k, 'v list) gomap \<Rightarrow> ('k, 'v list) gomap" where
  "maps_append dst src = foldl (\<lambda>m (k, v). gomap_set m k (gomap_get0 [] m k @ v)) dst src"

record resolve_faults =
  rf_keys :: bool
  rf_labels :: bool
  rf_multi :: bool

text \<open>The second half of \<^verbatim>\<open>ApplyLabelFilters\<close>: the conditions, with the early returns on \<^verbatim>\<open>1=0\<close>.\<close>

definition filter_conditions :: "labelFilters \<Rightarrow> ids \<Rightarrow> ids \<Rightarrow> ids \<Rightarrow> sql_cond list" where
  "filter_conditions lf keyIDs labelIDs multiLabelIDs =
     (if lf_Exists lf \<noteq> [] \<and> list_ex (\<lambda>key. gomap_get keyIDs key = None) (lf_Exists lf) then [CondFalse]
      else let c1 = (if lf_Exists lf \<noteq> [] then applyExistsFilter keyIDs (lf_Exists lf) else []) in
      if lf_Equals lf \<noteq> [] \<and> list_ex (\<lambda>key. gomap_get labelIDs (label_name (key, gomap_get0 [] (lf_Equals lf) key)) = None)
           (sort (gomap_keys (lf_Equals lf))) then c1 @ [CondFalse]
      else let c2 = c1 @ (if lf_Equals lf \<noteq> [] then applyEqualsFilter labelIDs (lf_Equals lf) else []) in
      if lf_In lf \<noteq> [] \<and> list_ex (\<lambda>key. \<not> list_ex (\<lambda>v. gomap_get multiLabelIDs (label_name (key, v)) \<noteq> None)
           (gomap_get0 [] (lf_In lf) key)) (sort (gomap_keys (lf_In lf))) then c2 @ [CondFalse]
      else let c3 = c2 @ (if lf_In lf \<noteq> [] then applyInFilter multiLabelIDs (lf_In lf) else []);
               c4 = c3 @ (if lf_NotExists lf \<noteq> [] then applyNotExistsFilter keyIDs (lf_NotExists lf) else []);
               c5 = c4 @ (if lf_NotEquals lf \<noteq> [] then applyNotEqualsFilter labelIDs (lf_NotEquals lf) else [])
           in c5 @ (if lf_NotIn lf = [] then []
                    else if list_all (\<lambda>key. gomap_get keyIDs key \<noteq> None) (sort (gomap_keys (lf_NotIn lf)))
                    then applyNotInFilter keyIDs multiLabelIDs (lf_NotIn lf) else [CondFalse]))"

definition ApplyLabelFilters :: "resolve_faults \<Rightarrow> label_tables \<Rightarrow> labelFilters \<Rightarrow> query_error + sql_cond list" where
  "ApplyLabelFilters flt lt lf =
     (let allKeys = sort (remdups (lf_Exists lf @ lf_NotExists lf @ gomap_keys (lf_NotIn lf)));
          allEqualsLabels = maps_copy (maps_copy [] (lf_Equals lf)) (lf_NotEquals lf);
          allMultiLabels = maps_append (maps_append [] (lf_In lf)) (lf_NotIn lf)
      in case (if allKeys = [] then Inr [] else resolveKeyIDs (rf_keys flt) lt allKeys) of
           Inl e \<Rightarrow> Inl e
         | Inr keyIDs \<Rightarrow>
             (case (if allEqualsLabels = [] then Inr [] else resolveLabelIDs (rf_labels flt) lt allEqualsLabels) of
                Inl e \<Rightarrow> Inl e
              | Inr labelIDs \<Rightarrow>
                  (case (if allMultiLabels = [] then Inr [] else resolveLabelIDsMulti (rf_multi flt) lt allMultiLabels) of
                     Inl e \<Rightarrow> Inl e
                   | Inr multiLabelIDs \<Rightarrow> Inr (filter_conditions lf keyIDs labelIDs multiLabelIDs))))"

section \<open>Lemmas: resolving\<close>

lemma map_of_foldl_pairs:
  "gomap_ok rows \<Longrightarrow> map_of (foldl (\<lambda>m (key, i). gomap_set m key i) m0 rows) k =
     (case map_of rows k of None \<Rightarrow> map_of m0 k | Some v \<Rightarrow> Some v)"
proof (induction rows arbitrary: m0)
  case (Cons r rows)
  obtain a b where r: "r = (a, b)" by (cases r)
  from Cons.prems r have "map_of rows a = None" by (simp add: map_of_eq_None_iff)
  with Cons r show ?case by (cases "k = a") (simp_all split: option.split)
qed simp

lemma filter_keys_ok: "gomap_ok rows \<Longrightarrow> gomap_ok (filter P rows)"
  by (rule distinct_map_filter)

lemma map_of_filter_key: "map_of (filter (\<lambda>(key, i). key \<in> A) rows) k = (if k \<in> A then map_of rows k else None)"
  by (induction rows) auto

lemma resolveKeyIDs_get:
  assumes "tables_ok lt" and "resolveKeyIDs fails lt keys = Inr m"
  shows "map_of m k = (if k \<in> set keys then row_id (lt_key lt) k else None)"
proof -
  have "gomap_ok (fst (lt_key lt))" using assms(1) by (simp add: tables_ok_def serial_ok_def)
  with assms(2) show ?thesis
    by (auto simp: resolveKeyIDs_def map_of_foldl_pairs filter_keys_ok map_of_filter_key split: if_splits option.splits)
qed

lemma row_id_iff: "serial_ok t \<Longrightarrow> row_id t k = Some i \<longleftrightarrow> (k, i) \<in> set (fst t)"
  by (simp add: serial_ok_def)

lemma label_rows_iff:
  assumes "tables_ok lt"
  shows "(k, v, l) \<in> set (label_rows lt) \<longleftrightarrow> label_id lt (k, v) = Some l"
proof -
  have ok: "serial_ok (lt_key lt)" "serial_ok (lt_value lt)" "serial_ok (lt_pair lt)"
    using assms by (simp_all add: tables_ok_def)
  have "(k, v, l) \<in> set (label_rows lt) \<longleftrightarrow>
      (\<exists>a b. row_id (lt_key lt) k = Some a \<and> row_id (lt_value lt) v = Some b \<and> row_id (lt_pair lt) (a, b) = Some l)"
    unfolding row_id_iff [OF ok(1)] row_id_iff [OF ok(2)] row_id_iff [OF ok(3)]
    by (auto simp: label_rows_def)
  also have "\<dots> \<longleftrightarrow> label_id lt (k, v) = Some l"
    by (auto simp: label_id_def pair_key_def split: option.splits)
  finally show ?thesis .
qed

lemma label_name_inj:
  assumes "label_name kv = label_name kv'" and "CHR ''='' \<notin> set (fst kv)" and "CHR ''='' \<notin> set (fst kv')"
  shows "kv = kv'"
proof -
  have "split_on CHR ''='' (label_name kv) = split_on CHR ''='' (label_name kv')" using assms(1) by simp
  then have "fst kv = fst kv'" using assms(2,3) by (simp add: label_name_def split_on_cons)
  with assms(1) show ?thesis by (simp add: label_name_def prod_eq_iff)
qed

definition clean_keys :: "(string \<times> string) set \<Rightarrow> bool" where
  "clean_keys A \<longleftrightarrow> (\<forall>kv\<in>A. CHR ''='' \<notin> set (fst kv))"

lemma resolve_pairs_get:
  assumes ok: "tables_ok lt" and res: "resolve_pairs fails lt wanted = Inr m"
    and clean: "clean_keys (set wanted)" "CHR ''='' \<notin> set (fst kv)"
  shows "map_of m (label_name kv) = (if kv \<in> set wanted then label_id lt kv else None)"
proof -
  let ?rows = "filter (\<lambda>r. (fst r, fst (snd r)) \<in> set wanted) (label_rows lt)"
  let ?P = "\<lambda>r. label_name (fst r, fst (snd r)) = label_name kv"
  have m: "map_of m (label_name kv) = (case last_entry ?P ?rows of Some r \<Rightarrow> Some (snd (snd r)) | None \<Rightarrow> None)"
  proof -
    have "m = foldl (\<lambda>m r. gomap_set m (label_name (fst r, fst (snd r))) (snd (snd r))) [] ?rows"
      using res by (auto simp: resolve_pairs_def split: if_splits)
    then show ?thesis by (simp only: map_of_foldl_set map_of.simps)
  qed
  have P: "?P r \<longleftrightarrow> (fst r, fst (snd r)) = kv" if "r \<in> set ?rows" for r
    using that clean label_name_inj [of "(fst r, fst (snd r))" kv] by (auto simp: clean_keys_def)
  show ?thesis
  proof (cases "last_entry ?P ?rows")
    case None
    then have "\<forall>r\<in>set ?rows. (fst r, fst (snd r)) \<noteq> kv" using P by (auto simp: last_entry_None)
    then have "kv \<notin> set wanted \<or> label_id lt kv = None"
      using label_rows_iff [OF ok, of "fst kv" "snd kv"] by (cases "label_id lt kv") fastforce+
    with None m show ?thesis by auto
  next
    case (Some r)
    from last_entry_Some [OF this] have r: "r \<in> set ?rows" "?P r" by blast+
    with P have kv: "(fst r, fst (snd r)) = kv" by blast
    with r(1) have "kv \<in> set wanted" "(fst kv, snd kv, snd (snd r)) \<in> set (label_rows lt)" by auto
    with label_rows_iff [OF ok] m Some show ?thesis by simp
  qed
qed

section \<open>Lemmas: what the identifiers say of a resource\<close>

lemma key_ids_set: "key_ids lt rid = {a. \<exists>b l. ((a, b), l) \<in> set (fst (lt_pair lt)) \<and> l \<in> resource_labels lt rid}"
  by (force simp: key_ids_def)

lemma key_ids_iff:
  assumes ok: "tables_ok lt" and sync: "label_sync lt rid obj" and k: "row_id (lt_key lt) k = Some a"
  shows "a \<in> key_ids lt rid \<longleftrightarrow> k \<in> fst ` set (label_list obj)"
proof
  have oks: "serial_ok (lt_key lt)" "serial_ok (lt_pair lt)" using ok by (simp_all add: tables_ok_def)
  { assume "a \<in> key_ids lt rid"
    then obtain b l where b: "row_id (lt_pair lt) (a, b) = Some l" "l \<in> resource_labels lt rid"
      unfolding key_ids_set using row_id_iff [OF oks(2)] by blast
    then obtain kv where kv: "kv \<in> set (label_list obj)" "label_id lt kv = Some l"
      using sync unfolding label_sync_def by blast
    then obtain a' b' where ab: "row_id (lt_key lt) (fst kv) = Some a'" "row_id (lt_pair lt) (a', b') = Some l"
      by (auto simp: label_id_def pair_key_def split: option.splits)
    from row_id_inj [OF oks(2) b(1) ab(2)] have "a = a'" by simp
    with row_id_inj [OF oks(1) k] ab(1) have "k = fst kv" by simp
    with kv(1) show "k \<in> fst ` set (label_list obj)" by simp }
  { assume "k \<in> fst ` set (label_list obj)"
    then obtain kv where kv: "kv \<in> set (label_list obj)" "k = fst kv" by auto
    with sync obtain l where l: "label_id lt kv = Some l" unfolding label_sync_def by auto
    with kv k obtain b where "row_id (lt_pair lt) (a, b) = Some l"
      by (auto simp: label_id_def pair_key_def split: option.splits)
    moreover have "l \<in> resource_labels lt rid" using sync kv(1) l unfolding label_sync_def by blast
    ultimately show "a \<in> key_ids lt rid" unfolding key_ids_set using row_id_iff [OF oks(2)] by blast }
qed

lemma key_unknown:
  assumes "label_sync lt rid obj" "row_id (lt_key lt) k = None"
  shows "k \<notin> fst ` set (label_list obj)"
proof
  assume "k \<in> fst ` set (label_list obj)"
  then obtain kv where "kv \<in> set (label_list obj)" "k = fst kv" by auto
  with assms show False by (auto simp: label_sync_def label_id_def pair_key_def)
qed

lemma label_unknown:
  assumes "label_sync lt rid obj" "label_id lt kv = None"
  shows "kv \<notin> set (label_list obj)"
  using assms by (auto simp: label_sync_def)

section \<open>Lemmas: the conditions\<close>

text \<open>What the filters ask of the labels \<open>L\<close> of a resource. \<open>NotIn\<close> asks for the key too, as the SQL
  does.\<close>

definition label_matches :: "labelFilters \<Rightarrow> (string \<times> string) set \<Rightarrow> bool" where
  "label_matches lf L \<longleftrightarrow>
     (\<forall>k\<in>set (lf_Exists lf). k \<in> fst ` L)
     \<and> (\<forall>kv\<in>set (lf_Equals lf). kv \<in> L)
     \<and> (\<forall>p\<in>set (lf_In lf). \<exists>v\<in>set (snd p). (fst p, v) \<in> L)
     \<and> (\<forall>k\<in>set (lf_NotExists lf). k \<notin> fst ` L)
     \<and> (\<forall>kv\<in>set (lf_NotEquals lf). kv \<notin> L)
     \<and> (\<forall>p\<in>set (lf_NotIn lf). fst p \<in> fst ` L \<and> (\<forall>v\<in>set (snd p). (fst p, v) \<notin> L))"

definition all_hold :: "label_tables \<Rightarrow> int \<Rightarrow> sql_cond list \<Rightarrow> bool" where
  "all_hold lt rid cs \<longleftrightarrow> (\<forall>c\<in>set cs. cond_holds lt rid c)"

lemma all_hold_simps [simp]:
  "all_hold lt rid []" "all_hold lt rid (c # cs) \<longleftrightarrow> cond_holds lt rid c \<and> all_hold lt rid cs"
  "all_hold lt rid (cs @ ds) \<longleftrightarrow> all_hold lt rid cs \<and> all_hold lt rid ds"
  by (auto simp: all_hold_def)

lemma gomap_get0_in: "gomap_ok m \<Longrightarrow> (k, v) \<in> set m \<Longrightarrow> gomap_get0 z m k = v"
  by (simp add: gomap_get0_def)

lemma gomap_all_keys: "gomap_ok m \<Longrightarrow> (\<forall>k\<in>set (gomap_keys m). P k (gomap_get0 z m k)) \<longleftrightarrow> (\<forall>p\<in>set m. P (fst p) (snd p))"
  by (auto simp: gomap_get0_in)

lemma gomap_ex_keys: "gomap_ok m \<Longrightarrow> list_ex (\<lambda>k. P k (gomap_get0 z m k)) (sort (gomap_keys m)) \<longleftrightarrow> (\<exists>p\<in>set m. P (fst p) (snd p))"
  using gomap_all_keys [of m "\<lambda>k v. \<not> P k v" z] by (auto simp: list_ex_iff)

lemma exists_filter:
  assumes ok: "tables_ok lt" and sync: "label_sync lt rid obj"
    and "\<forall>k\<in>set keys. map_of keyIDs k = row_id (lt_key lt) k"
  shows "(if list_ex (\<lambda>k. map_of keyIDs k = None) keys then False else all_hold lt rid (applyExistsFilter keyIDs keys))
    \<longleftrightarrow> (\<forall>k\<in>set keys. k \<in> fst ` set (label_list obj))"
proof (cases "list_ex (\<lambda>k. map_of keyIDs k = None) keys")
  case True
  then obtain k where "k \<in> set keys" "row_id (lt_key lt) k = None" using assms(3) by (auto simp: list_ex_iff)
  with True key_unknown [OF sync] show ?thesis by auto
next
  case False
  have "cond_holds lt rid (CondHasKey (gomap_get0 0 keyIDs k)) \<longleftrightarrow> k \<in> fst ` set (label_list obj)" if "k \<in> set keys" for k
  proof -
    from that False assms(3) obtain a where "row_id (lt_key lt) k = Some a" "map_of keyIDs k = Some a"
      by (auto simp: list_ex_iff)
    with key_ids_iff [OF ok sync] show ?thesis by (simp add: gomap_get0_def)
  qed
  with False show ?thesis by (simp add: applyExistsFilter_def all_hold_def)
qed

lemma label_held:
  assumes ok: "tables_ok lt" and sync: "label_sync lt rid obj"
  shows "map_of labelIDs (label_name kv) = label_id lt kv \<Longrightarrow> map_of labelIDs (label_name kv) = Some l \<Longrightarrow>
     l \<in> resource_labels lt rid \<longleftrightarrow> kv \<in> set (label_list obj)"
  using label_sync_label [OF ok sync] by simp

lemma equals_filter:
  assumes ok: "tables_ok lt" and sync: "label_sync lt rid obj"
    and "gomap_ok m" and "\<forall>kv\<in>set m. map_of labelIDs (label_name kv) = label_id lt kv"
  shows "(if list_ex (\<lambda>key. map_of labelIDs (label_name (key, gomap_get0 [] m key)) = None) (sort (gomap_keys m)) then False
      else all_hold lt rid (applyEqualsFilter labelIDs m)) \<longleftrightarrow> (\<forall>kv\<in>set m. kv \<in> set (label_list obj))"
proof -
  have ex: "list_ex (\<lambda>key. map_of labelIDs (label_name (key, gomap_get0 [] m key)) = None) (sort (gomap_keys m))
      \<longleftrightarrow> (\<exists>kv\<in>set m. label_id lt kv = None)"
    using assms(4) gomap_ex_keys [OF assms(3), of "\<lambda>k v. map_of labelIDs (label_name (k, v)) = None" "[]"] by auto
  show ?thesis
  proof (cases "\<exists>kv\<in>set m. label_id lt kv = None")
    case True
    with ex label_unknown [OF sync] show ?thesis by auto
  next
    case False
    have "cond_holds lt rid (CondHasLabel (gomap_get0 0 labelIDs (label_name kv))) \<longleftrightarrow> kv \<in> set (label_list obj)"
      if "kv \<in> set m" for kv
      using that False assms(4) label_held [OF ok sync, of labelIDs kv] by (auto simp: gomap_get0_def)
    then have "(\<forall>p\<in>set m. cond_holds lt rid (CondHasLabel (gomap_get0 0 labelIDs (label_name (fst p, snd p)))))
        \<longleftrightarrow> (\<forall>kv\<in>set m. kv \<in> set (label_list obj))" by simp
    moreover have "all_hold lt rid (applyEqualsFilter labelIDs m) \<longleftrightarrow>
        (\<forall>p\<in>set m. cond_holds lt rid (CondHasLabel (gomap_get0 0 labelIDs (label_name (fst p, snd p)))))"
      using gomap_all_keys [OF assms(3), of "\<lambda>k v. cond_holds lt rid (CondHasLabel (gomap_get0 0 labelIDs (label_name (k, v))))" "[]"]
      by (simp add: applyEqualsFilter_def all_hold_def)
    ultimately show ?thesis using ex False by auto
  qed
qed

lemma in_held:
  assumes ok: "tables_ok lt" and sync: "label_sync lt rid obj"
    and "\<forall>v\<in>set vs. map_of labelIDs (label_name (k, v)) = label_id lt (k, v)"
  shows "set (List.map_filter (\<lambda>v. map_of labelIDs (label_name (k, v))) vs) \<inter> resource_labels lt rid \<noteq> {}
    \<longleftrightarrow> (\<exists>v\<in>set vs. (k, v) \<in> set (label_list obj))"
proof -
  have "(\<exists>l. label_id lt (k, v) = Some l \<and> l \<in> resource_labels lt rid) \<longleftrightarrow> (k, v) \<in> set (label_list obj)" for v
    using label_sync_label [OF ok sync, of "(k, v)"] label_unknown [OF sync, of "(k, v)"]
    by (cases "label_id lt (k, v)") auto
  moreover have "set (List.map_filter (\<lambda>v. map_of labelIDs (label_name (k, v))) vs) =
      {l. \<exists>v\<in>set vs. label_id lt (k, v) = Some l}" using assms(3) by (auto simp: map_filter_set)
  ultimately show ?thesis by blast
qed

lemma in_filter:
  assumes ok: "tables_ok lt" and sync: "label_sync lt rid obj"
    and "gomap_ok m" and "\<forall>p\<in>set m. \<forall>v\<in>set (snd p). map_of labelIDs (label_name (fst p, v)) = label_id lt (fst p, v)"
  shows "(if list_ex (\<lambda>key. \<not> list_ex (\<lambda>v. map_of labelIDs (label_name (key, v)) \<noteq> None) (gomap_get0 [] m key)) (sort (gomap_keys m))
      then False else all_hold lt rid (applyInFilter labelIDs m))
    \<longleftrightarrow> (\<forall>p\<in>set m. \<exists>v\<in>set (snd p). (fst p, v) \<in> set (label_list obj))"
proof -
  have ex: "list_ex (\<lambda>key. \<not> list_ex (\<lambda>v. map_of labelIDs (label_name (key, v)) \<noteq> None) (gomap_get0 [] m key)) (sort (gomap_keys m))
      \<longleftrightarrow> \<not> (\<forall>p\<in>set m. \<exists>v\<in>set (snd p). map_of labelIDs (label_name (fst p, v)) \<noteq> None)"
    using gomap_ex_keys [OF assms(3), of "\<lambda>k vs. \<not> list_ex (\<lambda>v. map_of labelIDs (label_name (k, v)) \<noteq> None) vs" "[]"]
    by (simp only: list_ex_iff) blast
  have hold: "all_hold lt rid (applyInFilter labelIDs m) \<longleftrightarrow>
      (\<forall>p\<in>set m. \<exists>v\<in>set (snd p). (fst p, v) \<in> set (label_list obj))"
    using gomap_all_keys [OF assms(3), of "\<lambda>k vs. set (List.map_filter (\<lambda>v. map_of labelIDs (label_name (k, v))) vs)
        \<inter> resource_labels lt rid \<noteq> {}" "[]"] assms(4) in_held [OF ok sync]
    by (simp add: applyInFilter_def all_hold_def)
  have "\<exists>v\<in>set (snd p). map_of labelIDs (label_name (fst p, v)) \<noteq> None"
    if "p \<in> set m" "\<exists>v\<in>set (snd p). (fst p, v) \<in> set (label_list obj)" for p
    using that assms(4) label_unknown [OF sync] by fastforce
  with ex hold show ?thesis by (simp only: if_bool_eq_conj) blast
qed

lemma not_exists_filter:
  assumes ok: "tables_ok lt" and sync: "label_sync lt rid obj"
    and "\<forall>k\<in>set keys. map_of keyIDs k = row_id (lt_key lt) k"
  shows "all_hold lt rid (applyNotExistsFilter keyIDs keys) \<longleftrightarrow> (\<forall>k\<in>set keys. k \<notin> fst ` set (label_list obj))"
proof -
  let ?vars = "List.map_filter (map_of keyIDs) keys"
  have "(\<exists>a. map_of keyIDs k = Some a \<and> a \<in> key_ids lt rid) \<longleftrightarrow> k \<in> fst ` set (label_list obj)" if "k \<in> set keys" for k
    using that assms key_ids_iff [OF ok sync, of k] key_unknown [OF sync, of k] by (cases "row_id (lt_key lt) k") auto
  then have "set ?vars \<inter> key_ids lt rid = {} \<longleftrightarrow> (\<forall>k\<in>set keys. k \<notin> fst ` set (label_list obj))"
    unfolding map_filter_set by blast
  then show ?thesis by (auto simp: applyNotExistsFilter_def Let_def)
qed

lemma not_equals_filter:
  assumes ok: "tables_ok lt" and sync: "label_sync lt rid obj"
    and "gomap_ok m" and "\<forall>kv\<in>set m. map_of labelIDs (label_name kv) = label_id lt kv"
  shows "all_hold lt rid (applyNotEqualsFilter labelIDs m) \<longleftrightarrow> (\<forall>kv\<in>set m. kv \<notin> set (label_list obj))"
proof -
  let ?vars = "List.map_filter (\<lambda>key. map_of labelIDs (label_name (key, gomap_get0 [] m key))) (sort (gomap_keys m))"
  have one: "(\<exists>l. map_of labelIDs (label_name kv) = Some l \<and> l \<in> resource_labels lt rid) \<longleftrightarrow> kv \<in> set (label_list obj)"
    if "kv \<in> set m" for kv
    using that assms(4) label_held [OF ok sync, of labelIDs kv] label_unknown [OF sync, of kv] by (cases "label_id lt kv") auto
  have "set ?vars \<inter> resource_labels lt rid = {} \<longleftrightarrow>
      (\<forall>k\<in>set (gomap_keys m). \<not> (\<exists>l. map_of labelIDs (label_name (k, gomap_get0 [] m k)) = Some l \<and> l \<in> resource_labels lt rid))"
    unfolding map_filter_set by (auto simp: disjoint_iff)
  also have "\<dots> \<longleftrightarrow> (\<forall>p\<in>set m. \<not> (\<exists>l. map_of labelIDs (label_name (fst p, snd p)) = Some l \<and> l \<in> resource_labels lt rid))"
    by (rule gomap_all_keys [OF assms(3)])
  also have "\<dots> \<longleftrightarrow> (\<forall>kv\<in>set m. kv \<notin> set (label_list obj))" using one by simp
  finally show ?thesis by (auto simp: applyNotEqualsFilter_def Let_def)
qed

lemma not_in_filter:
  assumes ok: "tables_ok lt" and sync: "label_sync lt rid obj"
    and m: "gomap_ok m" "m \<noteq> []" and keys: "\<forall>k\<in>set (gomap_keys m). map_of keyIDs k = row_id (lt_key lt) k"
    and "\<forall>p\<in>set m. \<forall>v\<in>set (snd p). map_of labelIDs (label_name (fst p, v)) = label_id lt (fst p, v)"
  shows "(if list_all (\<lambda>key. map_of keyIDs key \<noteq> None) (sort (gomap_keys m)) then all_hold lt rid (applyNotInFilter keyIDs labelIDs m) else False)
    \<longleftrightarrow> (\<forall>p\<in>set m. fst p \<in> fst ` set (label_list obj) \<and> (\<forall>v\<in>set (snd p). (fst p, v) \<notin> set (label_list obj)))"
proof -
  let ?K = "set (gomap_keys m)" and ?L = "set (label_list obj)"
  let ?as = "List.map_filter (map_of keyIDs) (sort (gomap_keys m))"
  let ?forbidden = "concat (map (\<lambda>key. List.map_filter (\<lambda>v. map_of labelIDs (label_name (key, v))) (gomap_get0 [] m key)) (sort (gomap_keys m)))"
  have forb: "set ?forbidden \<inter> resource_labels lt rid = {} \<longleftrightarrow> (\<forall>p\<in>set m. \<forall>v\<in>set (snd p). (fst p, v) \<notin> ?L)"
  proof -
    have "set ?forbidden \<inter> resource_labels lt rid = {} \<longleftrightarrow>
        (\<forall>k\<in>?K. \<not> set (List.map_filter (\<lambda>v. map_of labelIDs (label_name (k, v))) (gomap_get0 [] m k)) \<inter> resource_labels lt rid \<noteq> {})"
      by auto
    also have "\<dots> \<longleftrightarrow> (\<forall>p\<in>set m. \<not> set (List.map_filter (\<lambda>v. map_of labelIDs (label_name (fst p, v))) (snd p)) \<inter> resource_labels lt rid \<noteq> {})"
      by (rule gomap_all_keys [OF m(1)])
    also have "\<dots> \<longleftrightarrow> (\<forall>p\<in>set m. \<forall>v\<in>set (snd p). (fst p, v) \<notin> ?L)"
      using assms(6) in_held [OF ok sync] by blast
    finally show ?thesis .
  qed
  have all: "list_all (\<lambda>key. map_of keyIDs key \<noteq> None) (sort (gomap_keys m)) \<longleftrightarrow> (\<forall>k\<in>?K. row_id (lt_key lt) k \<noteq> None)"
    using keys by (simp add: list_all_iff)
  show ?thesis
  proof (cases "\<forall>k\<in>?K. row_id (lt_key lt) k \<noteq> None")
    case False
    then obtain k where "k \<in> ?K" "k \<notin> fst ` ?L" using key_unknown [OF sync] by blast
    then have "\<not> (\<forall>p\<in>set m. fst p \<in> fst ` ?L)" by auto
    moreover from False all have "\<not> list_all (\<lambda>key. map_of keyIDs key \<noteq> None) (sort (gomap_keys m))" by blast
    ultimately show ?thesis by (simp only: if_False) blast
  next
    case True
    let ?id = "\<lambda>k. the (row_id (lt_key lt) k)"
    have id: "row_id (lt_key lt) k = Some (?id k)" if "k \<in> ?K" for k using True that by auto
    have inj: "inj_on ?id ?K"
      using row_id_inj [of "lt_key lt"] id ok by (intro inj_onI) (metis tables_ok_def)
    have kid: "map_of keyIDs k = Some (?id k)" if "k \<in> ?K" for k using keys that id [OF that] by metis
    have "?id k \<in> key_ids lt rid \<longleftrightarrow> k \<in> fst ` ?L" if "k \<in> ?K" for k
      using key_ids_iff [OF ok sync id [OF that]] .
    then have image: "?id ` ?K \<inter> key_ids lt rid = ?id ` (?K \<inter> fst ` ?L)" by blast
    have "set ?as = {y. \<exists>k\<in>?K. map_of keyIDs k = Some y}" by (simp add: map_filter_set)
    also have "\<dots> = {y. \<exists>k\<in>?K. y = ?id k}"
      by (intro Collect_cong bex_cong refl) (simp only: kid option.inject eq_commute)
    finally have "set ?as = ?id ` ?K" by blast
    with image have as: "set ?as \<inter> key_ids lt rid = ?id ` (?K \<inter> fst ` ?L)" by simp
    have card: "card (set ?as \<inter> key_ids lt rid) = card (?K \<inter> fst ` ?L)"
      unfolding as using inj by (intro card_image) (auto intro: inj_on_subset)
    have len: "length (sort (gomap_keys m)) = card ?K" using m(1) by (simp add: distinct_card flip: set_map)
    have "cond_holds lt rid (CondAllKeys ?as (length (sort (gomap_keys m)))) \<longleftrightarrow> ?K \<subseteq> fst ` ?L"
    proof
      assume "cond_holds lt rid (CondAllKeys ?as (length (sort (gomap_keys m))))"
      then have "card (?K \<inter> fst ` ?L) = card ?K" using card len by simp
      then have "?K \<inter> fst ` ?L = ?K" by (intro card_subset_eq) simp_all
      then show "?K \<subseteq> fst ` ?L" by blast
    next
      assume sub: "?K \<subseteq> fst ` ?L"
      then have "?K \<inter> fst ` ?L = ?K" by blast
      moreover have "?K \<noteq> {}" using m(2) by simp
      ultimately show "cond_holds lt rid (CondAllKeys ?as (length (sort (gomap_keys m))))"
        using card len as by (simp del: set_map length_sort)
    qed
    then have "all_hold lt rid (applyNotInFilter keyIDs labelIDs m) \<longleftrightarrow>
        ?K \<subseteq> fst ` ?L \<and> set ?forbidden \<inter> resource_labels lt rid = {}"
      by (auto simp: applyNotInFilter_def Let_def simp del: cond_holds.simps(7))
    with forb all True show ?thesis by auto
  qed
qed

text \<open>The resolved identifiers cover every key and label of the filters.\<close>

definition filters_ok :: "labelFilters \<Rightarrow> bool" where
  "filters_ok lf \<longleftrightarrow>
     gomap_ok (lf_Equals lf) \<and> gomap_ok (lf_NotEquals lf) \<and> gomap_ok (lf_In lf) \<and> gomap_ok (lf_NotIn lf)
     \<and> (\<forall>k\<in>set (gomap_keys (lf_Equals lf) @ gomap_keys (lf_NotEquals lf) @ gomap_keys (lf_In lf) @ gomap_keys (lf_NotIn lf)).
          CHR ''='' \<notin> set k)
     \<and> (\<forall>k v w. (k, v) \<in> set (lf_Equals lf) \<and> (k, w) \<in> set (lf_NotEquals lf) \<longrightarrow> v = w)"

lemma maps_copy_get:
  "gomap_ok s \<Longrightarrow> map_of (maps_copy d s) k = (case map_of s k of None \<Rightarrow> map_of d k | Some v \<Rightarrow> Some v)"
  unfolding maps_copy_def by (rule map_of_foldl_pairs)

lemma maps_append_get:
  "gomap_ok s \<Longrightarrow> gomap_get0 [] (maps_append d s) k = gomap_get0 [] d k @ gomap_get0 [] s k"
proof (induction s arbitrary: d)
  case (Cons p s)
  obtain a b where p: "p = (a, b)" by (cases p)
  from Cons.prems p have "map_of s a = None" by (simp add: map_of_eq_None_iff)
  then have "gomap_get0 [] s a = []" by (simp add: gomap_get0_def)
  with Cons p show ?case by (cases "k = a") (simp_all add: maps_append_def gomap_get0_def)
qed (simp add: maps_append_def gomap_get0_def)

lemma maps_append_keys: "set (gomap_keys (maps_append d s)) = set (gomap_keys d) \<union> set (gomap_keys s)"
  unfolding maps_append_def
proof (induction s arbitrary: d)
  case (Cons p s)
  obtain a b where p: "p = (a, b)" by (cases p)
  show ?case using Cons.IH [of "gomap_set d a (gomap_get0 [] d a @ b)"] p by (auto simp: gomap_keys_dom simp del: set_map)
qed simp

lemma key_ids_resolved:
  assumes "tables_ok lt"
  shows "\<exists>m. (if allKeys = [] then Inr [] else resolveKeyIDs False lt allKeys) = Inr m
    \<and> (\<forall>k\<in>set allKeys. map_of m k = row_id (lt_key lt) k)"
proof (cases "allKeys = []")
  case False
  then obtain m where m: "resolveKeyIDs False lt allKeys = Inr m" by (simp add: resolveKeyIDs_def)
  with resolveKeyIDs_get [OF assms m] False show ?thesis by auto
qed simp

lemma label_ids_resolved:
  assumes ok: "tables_ok lt" and all: "all = maps_copy (maps_copy [] eqs) neqs"
    and maps: "gomap_ok eqs" "gomap_ok neqs" "\<forall>k v w. (k, v) \<in> set eqs \<and> (k, w) \<in> set neqs \<longrightarrow> v = w"
    and clean: "\<forall>k\<in>set (gomap_keys eqs @ gomap_keys neqs). CHR ''='' \<notin> set k"
  shows "\<exists>m. (if all = [] then Inr [] else resolveLabelIDs False lt all) = Inr m
    \<and> (\<forall>kv\<in>set eqs \<union> set neqs. map_of m (label_name kv) = label_id lt kv)"
proof -
  have get: "map_of all k = (case map_of neqs k of None \<Rightarrow> map_of eqs k | Some v \<Rightarrow> Some v)" for k
    using maps by (simp add: all maps_copy_get split: option.split)
  have wanted: "map_of all (fst kv) = Some (snd kv)" if "kv \<in> set eqs \<union> set neqs" for kv
  proof (cases "map_of neqs (fst kv)")
    case None
    with that have "kv \<in> set eqs" using maps(2) by (auto simp: map_of_eq_None_iff)
    with None get maps(1) show ?thesis by (cases kv) simp
  next
    case (Some w)
    have "w = snd kv" using that
    proof
      assume "kv \<in> set eqs"
      with maps(3) map_of_SomeD [OF Some] show ?thesis by (metis prod.collapse)
    next
      assume "kv \<in> set neqs"
      with maps(2) Some show ?thesis by (metis map_of_is_SomeI option.inject prod.collapse)
    qed
    with Some get show ?thesis by simp
  qed
  have keys: "k \<in> set (gomap_keys all) \<Longrightarrow> CHR ''='' \<notin> set k" for k
  proof -
    assume "k \<in> set (gomap_keys all)"
    then have "map_of all k \<noteq> None" unfolding gomap_keys_dom by (simp add: domIff)
    then have "map_of neqs k \<noteq> None \<or> map_of eqs k \<noteq> None" unfolding get [of k] by (simp split: option.splits)
    then have "k \<in> set (gomap_keys eqs) \<union> set (gomap_keys neqs)" unfolding gomap_keys_dom by (auto simp: domIff)
    with clean show "CHR ''='' \<notin> set k" by (metis set_append)
  qed
  show ?thesis
  proof (cases "all = []")
    case True
    then have "eqs = [] \<and> neqs = []" using wanted by (metis Un_iff empty_iff last_in_set map_of.simps(1) option.distinct(1))
    with True show ?thesis by simp
  next
    case False
    let ?w = "map (\<lambda>key. (key, gomap_get0 [] all key)) (sort (gomap_keys all))"
    obtain m where m: "resolve_pairs False lt ?w = Inr m" by (auto simp: resolve_pairs_def)
    have "clean_keys (set ?w)" using keys by (auto simp: clean_keys_def)
    from resolve_pairs_get [OF ok m this]
    have m': "CHR ''='' \<notin> set (fst kv) \<Longrightarrow> map_of m (label_name kv) = (if kv \<in> set ?w then label_id lt kv else None)" for kv .
    have "map_of m (label_name kv) = label_id lt kv" if "kv \<in> set eqs \<union> set neqs" for kv
    proof -
      note w = wanted [OF that]
      then have k: "fst kv \<in> set (gomap_keys all)" by (rule gomap_get_in_keys)
      with w have "kv \<in> set ?w" by (auto simp: gomap_get0_def image_iff prod_eq_iff)
      with m' keys [OF k] show ?thesis by simp
    qed
    with False m show ?thesis by (simp add: resolveLabelIDs_def)
  qed
qed

lemma multi_ids_resolved:
  assumes ok: "tables_ok lt" and all: "all = maps_append (maps_append [] ins) notins"
    and maps: "gomap_ok ins" "gomap_ok notins"
    and clean: "\<forall>k\<in>set (gomap_keys ins @ gomap_keys notins). CHR ''='' \<notin> set k"
  shows "\<exists>m. (if all = [] then Inr [] else resolveLabelIDsMulti False lt all) = Inr m
    \<and> (\<forall>p\<in>set ins \<union> set notins. \<forall>v\<in>set (snd p). map_of m (label_name (fst p, v)) = label_id lt (fst p, v))"
proof -
  have get: "gomap_get0 [] all k = gomap_get0 [] ins k @ gomap_get0 [] notins k" for k
    using maps by (simp add: all maps_append_get) (simp add: gomap_get0_def)
  have keys: "set (gomap_keys all) = set (gomap_keys ins) \<union> set (gomap_keys notins)"
    unfolding all maps_append_keys by simp
  show ?thesis
  proof (cases "all = []")
    case True
    with keys have "ins = [] \<and> notins = []" by simp
    with True show ?thesis by simp
  next
    case False
    let ?w = "concat (map (\<lambda>key. map (\<lambda>v. (key, v)) (gomap_get0 [] all key)) (sort (gomap_keys all)))"
    obtain m where m: "resolve_pairs False lt ?w = Inr m" by (auto simp: resolve_pairs_def)
    have "fst kv \<in> set (gomap_keys all)" if "kv \<in> set ?w" for kv
    proof -
      from that obtain k where "k \<in> set (sort (gomap_keys all))" "kv \<in> set (map (\<lambda>v. (k, v)) (gomap_get0 [] all k))"
        by (auto simp del: set_sort)
      moreover from this(2) have "fst kv = k" by auto
      ultimately show ?thesis by (simp only: set_sort)
    qed
    moreover have "\<forall>k\<in>set (gomap_keys all). CHR ''='' \<notin> set k" using keys clean by (simp only: set_append)
    ultimately have "clean_keys (set ?w)" unfolding clean_keys_def by blast
    from resolve_pairs_get [OF ok m this]
    have m': "CHR ''='' \<notin> set (fst kv) \<Longrightarrow> map_of m (label_name kv) = (if kv \<in> set ?w then label_id lt kv else None)" for kv .
    have "map_of m (label_name (fst p, v)) = label_id lt (fst p, v)" if p: "p \<in> set ins \<union> set notins" "v \<in> set (snd p)" for p v
    proof -
      have "v \<in> set (gomap_get0 [] all (fst p))"
        using p maps gomap_get0_in [of ins "fst p" "snd p" "[]"] gomap_get0_in [of notins "fst p" "snd p" "[]"] by (auto simp: get)
      moreover have k: "fst p \<in> set (gomap_keys all)" using p(1) keys by auto
      ultimately have "(fst p, v) \<in> set ?w"
        unfolding set_concat set_map [of _ "sort _"] set_sort by (intro UN_I [of "map (\<lambda>v. (fst p, v)) (gomap_get0 [] all (fst p))"] imageI) simp_all
      moreover have "CHR ''='' \<notin> set (fst p)" using k keys clean by auto
      ultimately show ?thesis using m' [of "(fst p, v)"] by simp
    qed
    with False m show ?thesis by (simp add: resolveLabelIDsMulti_def)
  qed
qed

lemma filter_conditions_hold_iff:
  "all_hold lt rid (filter_conditions lf keyIDs labelIDs multi) \<longleftrightarrow>
     (if list_ex (\<lambda>key. map_of keyIDs key = None) (lf_Exists lf) then False
      else all_hold lt rid (applyExistsFilter keyIDs (lf_Exists lf)))
     \<and> (if list_ex (\<lambda>key. map_of labelIDs (label_name (key, gomap_get0 [] (lf_Equals lf) key)) = None) (sort (gomap_keys (lf_Equals lf)))
        then False else all_hold lt rid (applyEqualsFilter labelIDs (lf_Equals lf)))
     \<and> (if list_ex (\<lambda>key. \<not> list_ex (\<lambda>v. map_of multi (label_name (key, v)) \<noteq> None) (gomap_get0 [] (lf_In lf) key)) (sort (gomap_keys (lf_In lf)))
        then False else all_hold lt rid (applyInFilter multi (lf_In lf)))
     \<and> all_hold lt rid (applyNotExistsFilter keyIDs (lf_NotExists lf))
     \<and> all_hold lt rid (applyNotEqualsFilter labelIDs (lf_NotEquals lf))
     \<and> (lf_NotIn lf = []
        \<or> (if list_all (\<lambda>key. map_of keyIDs key \<noteq> None) (sort (gomap_keys (lf_NotIn lf)))
           then all_hold lt rid (applyNotInFilter keyIDs multi (lf_NotIn lf)) else False))"
proof -
  have ex: "xs \<noteq> [] \<and> list_ex P xs \<longleftrightarrow> list_ex P xs" "m \<noteq> [] \<and> list_ex Q (sort (gomap_keys m)) \<longleftrightarrow> list_ex Q (sort (gomap_keys m))"
    for P xs Q and m :: "(string, 'c) gomap"
    by auto
  have e: "applyExistsFilter keyIDs [] = []" "applyEqualsFilter labelIDs [] = []" "applyInFilter multi [] = []"
    "applyNotExistsFilter keyIDs [] = []" "applyNotEqualsFilter labelIDs [] = []"
    by (simp_all add: applyExistsFilter_def applyEqualsFilter_def applyInFilter_def applyNotExistsFilter_def
        applyNotEqualsFilter_def List.map_filter_simps)
  have g: "(if lf_Exists lf \<noteq> [] then applyExistsFilter keyIDs (lf_Exists lf) else []) = applyExistsFilter keyIDs (lf_Exists lf)"
    "(if lf_Equals lf \<noteq> [] then applyEqualsFilter labelIDs (lf_Equals lf) else []) = applyEqualsFilter labelIDs (lf_Equals lf)"
    "(if lf_In lf \<noteq> [] then applyInFilter multi (lf_In lf) else []) = applyInFilter multi (lf_In lf)"
    "(if lf_NotExists lf \<noteq> [] then applyNotExistsFilter keyIDs (lf_NotExists lf) else []) = applyNotExistsFilter keyIDs (lf_NotExists lf)"
    "(if lf_NotEquals lf \<noteq> [] then applyNotEqualsFilter labelIDs (lf_NotEquals lf) else []) = applyNotEqualsFilter labelIDs (lf_NotEquals lf)"
    using e by (metis (full_types))+
  show ?thesis
    unfolding filter_conditions_def Let_def ex g by (simp add: if_distrib [of "all_hold lt rid"] cong: if_cong)
qed

lemma filter_conditions_hold:
  assumes ok: "tables_ok lt" and sync: "label_sync lt rid obj" and lf: "filters_ok lf"
    and k: "\<forall>k\<in>set (lf_Exists lf @ lf_NotExists lf @ gomap_keys (lf_NotIn lf)). map_of keyIDs k = row_id (lt_key lt) k"
    and l: "\<forall>kv\<in>set (lf_Equals lf) \<union> set (lf_NotEquals lf). map_of labelIDs (label_name kv) = label_id lt kv"
    and mu: "\<forall>p\<in>set (lf_In lf) \<union> set (lf_NotIn lf). \<forall>v\<in>set (snd p). map_of multi (label_name (fst p, v)) = label_id lt (fst p, v)"
  shows "all_hold lt rid (filter_conditions lf keyIDs labelIDs multi) \<longleftrightarrow> label_matches lf (set (label_list obj))"
proof -
  have maps: "gomap_ok (lf_Equals lf)" "gomap_ok (lf_NotEquals lf)" "gomap_ok (lf_In lf)" "gomap_ok (lf_NotIn lf)"
    using lf by (simp_all add: filters_ok_def)
  have ks: "\<forall>k\<in>set (lf_Exists lf). map_of keyIDs k = row_id (lt_key lt) k"
      "\<forall>k\<in>set (lf_NotExists lf). map_of keyIDs k = row_id (lt_key lt) k"
      "\<forall>k\<in>set (gomap_keys (lf_NotIn lf)). map_of keyIDs k = row_id (lt_key lt) k" using k by simp_all
  have ls: "\<forall>kv\<in>set (lf_Equals lf). map_of labelIDs (label_name kv) = label_id lt kv"
      "\<forall>kv\<in>set (lf_NotEquals lf). map_of labelIDs (label_name kv) = label_id lt kv" using l by simp_all
  have ms: "\<forall>p\<in>set (lf_In lf). \<forall>v\<in>set (snd p). map_of multi (label_name (fst p, v)) = label_id lt (fst p, v)"
      "\<forall>p\<in>set (lf_NotIn lf). \<forall>v\<in>set (snd p). map_of multi (label_name (fst p, v)) = label_id lt (fst p, v)"
    using mu by simp_all
  have notin: "(lf_NotIn lf = []
        \<or> (if list_all (\<lambda>key. map_of keyIDs key \<noteq> None) (sort (gomap_keys (lf_NotIn lf)))
           then all_hold lt rid (applyNotInFilter keyIDs multi (lf_NotIn lf)) else False))
    \<longleftrightarrow> (\<forall>p\<in>set (lf_NotIn lf). fst p \<in> fst ` set (label_list obj) \<and> (\<forall>v\<in>set (snd p). (fst p, v) \<notin> set (label_list obj)))"
    using not_in_filter [OF ok sync maps(4) _ ks(3) ms(2)] by (cases "lf_NotIn lf = []") simp_all
  show ?thesis
    unfolding filter_conditions_hold_iff label_matches_def
      exists_filter [OF ok sync ks(1)] equals_filter [OF ok sync maps(1) ls(1)] in_filter [OF ok sync maps(3) ms(1)]
      not_exists_filter [OF ok sync ks(2)] not_equals_filter [OF ok sync maps(2) ls(2)] notin ..
qed

definition no_resolve_faults :: resolve_faults where
  "no_resolve_faults = \<lparr>rf_keys = False, rf_labels = False, rf_multi = False\<rparr>"

text \<open>The conditions do not depend on the resource, so one list serves every row.\<close>

lemma ApplyLabelFilters_ok:
  assumes ok: "tables_ok lt" and lf: "filters_ok lf"
  shows "\<exists>cs. ApplyLabelFilters no_resolve_faults lt lf = Inr cs
    \<and> (\<forall>rid obj. label_sync lt rid obj \<longrightarrow> (all_hold lt rid cs \<longleftrightarrow> label_matches lf (set (label_list obj))))"
proof -
  let ?keys = "sort (remdups (lf_Exists lf @ lf_NotExists lf @ gomap_keys (lf_NotIn lf)))"
  let ?eqs = "maps_copy (maps_copy [] (lf_Equals lf)) (lf_NotEquals lf)"
  let ?multi = "maps_append (maps_append [] (lf_In lf)) (lf_NotIn lf)"
  from key_ids_resolved [OF ok, of ?keys] obtain k where
    k: "(if ?keys = [] then Inr [] else resolveKeyIDs False lt ?keys) = Inr k" "\<forall>x\<in>set ?keys. map_of k x = row_id (lt_key lt) x"
    by blast
  have lfs: "gomap_ok (lf_Equals lf)" "gomap_ok (lf_NotEquals lf)" "gomap_ok (lf_In lf)" "gomap_ok (lf_NotIn lf)"
    "\<forall>k v w. (k, v) \<in> set (lf_Equals lf) \<and> (k, w) \<in> set (lf_NotEquals lf) \<longrightarrow> v = w"
    "\<forall>k\<in>set (gomap_keys (lf_Equals lf) @ gomap_keys (lf_NotEquals lf)). CHR ''='' \<notin> set k"
    "\<forall>k\<in>set (gomap_keys (lf_In lf) @ gomap_keys (lf_NotIn lf)). CHR ''='' \<notin> set k"
    using lf unfolding filters_ok_def by (auto simp only: set_append)
  from label_ids_resolved [OF ok refl lfs(1,2,5,6)] obtain l where
    l: "(if ?eqs = [] then Inr [] else resolveLabelIDs False lt ?eqs) = Inr l"
       "\<forall>kv\<in>set (lf_Equals lf) \<union> set (lf_NotEquals lf). map_of l (label_name kv) = label_id lt kv"
    by blast
  from multi_ids_resolved [OF ok refl lfs(3,4,7)] obtain m where
    m: "(if ?multi = [] then Inr [] else resolveLabelIDsMulti False lt ?multi) = Inr m"
       "\<forall>p\<in>set (lf_In lf) \<union> set (lf_NotIn lf). \<forall>v\<in>set (snd p). map_of m (label_name (fst p, v)) = label_id lt (fst p, v)"
    by blast
  have "ApplyLabelFilters no_resolve_faults lt lf = Inr (filter_conditions lf k l m)"
    using k(1) l(1) m(1) unfolding ApplyLabelFilters_def no_resolve_faults_def Let_def
    by (simp only: resolve_faults.simps sum.case)
  moreover have "\<forall>x\<in>set (lf_Exists lf @ lf_NotExists lf @ gomap_keys (lf_NotIn lf)). map_of k x = row_id (lt_key lt) x"
    using k(2) by simp
  ultimately show ?thesis using filter_conditions_hold [OF ok _ lf _ l(2) m(2)] by blast
qed

section \<open>Lemmas: collecting requirements\<close>

fun req_matches :: "(string \<times> string) set \<Rightarrow> requirement \<Rightarrow> bool" where
  "req_matches L r =
     (case rq_Operator r of
        OpExists \<Rightarrow> rq_Key r \<in> fst ` L
      | OpDoesNotExist \<Rightarrow> rq_Key r \<notin> fst ` L
      | OpEquals \<Rightarrow> (rq_Key r, hd (rq_Values r)) \<in> L
      | OpNotEquals \<Rightarrow> (rq_Key r, hd (rq_Values r)) \<notin> L
      | OpIn \<Rightarrow> (\<exists>v\<in>set (rq_Values r). (rq_Key r, v) \<in> L)
      | OpNotIn \<Rightarrow> rq_Key r \<in> fst ` L \<and> (\<forall>v\<in>set (rq_Values r). (rq_Key r, v) \<notin> L)
      | _ \<Rightarrow> False)"

definition req_id :: "requirement \<Rightarrow> selection_op \<times> string" where
  "req_id r = (rq_Operator r, rq_Key r)"

text \<open>The operator and key pairs whose value in the filters a later requirement would overwrite.\<close>

definition filter_ids :: "labelFilters \<Rightarrow> (selection_op \<times> string) set" where
  "filter_ids lf =
     {p. fst p = OpEquals \<and> snd p \<in> set (gomap_keys (lf_Equals lf)) \<or> fst p = OpNotEquals \<and> snd p \<in> set (gomap_keys (lf_NotEquals lf))
       \<or> fst p = OpIn \<and> snd p \<in> set (gomap_keys (lf_In lf)) \<or> fst p = OpNotIn \<and> snd p \<in> set (gomap_keys (lf_NotIn lf))}"

lemma update_fresh: "k \<notin> fst ` set m \<Longrightarrow> gomap_set m k v = m @ [(k, v)]"
  by (induction m) auto

lemma add_requirement_matches:
  assumes add: "add_requirement lf r = Inr lf'" and new: "req_id r \<notin> filter_ids lf"
  shows "label_matches lf' L \<longleftrightarrow> label_matches lf L \<and> req_matches L r"
    and "filter_ids lf' \<subseteq> insert (req_id r) (filter_ids lf)"
proof -
  have fresh: "rq_Operator r = OpEquals \<Longrightarrow> rq_Key r \<notin> fst ` set (lf_Equals lf)"
    "rq_Operator r = OpNotEquals \<Longrightarrow> rq_Key r \<notin> fst ` set (lf_NotEquals lf)"
    "rq_Operator r = OpIn \<Longrightarrow> rq_Key r \<notin> fst ` set (lf_In lf)"
    "rq_Operator r = OpNotIn \<Longrightarrow> rq_Key r \<notin> fst ` set (lf_NotIn lf)"
    using new by (simp_all add: req_id_def filter_ids_def)
  have "(label_matches lf' L \<longleftrightarrow> label_matches lf L \<and> req_matches L r) \<and> filter_ids lf' \<subseteq> insert (req_id r) (filter_ids lf)"
  proof (cases "rq_Operator r")
    case OpEquals
    with add obtain v vs where v: "rq_Values r = v # vs" "lf' = lf\<lparr>lf_Equals := lf_Equals lf @ [(rq_Key r, v)]\<rparr>"
      by (auto simp: update_fresh [OF fresh(1) [OF OpEquals]] split: list.splits)
    show ?thesis by (simp add: v OpEquals label_matches_def filter_ids_def req_id_def) (auto simp: prod_eq_iff)
  next
    case OpNotEquals
    with add obtain v vs where v: "rq_Values r = v # vs" "lf' = lf\<lparr>lf_NotEquals := lf_NotEquals lf @ [(rq_Key r, v)]\<rparr>"
      by (auto simp: update_fresh [OF fresh(2) [OF OpNotEquals]] split: list.splits)
    show ?thesis by (simp add: v OpNotEquals label_matches_def filter_ids_def req_id_def) (auto simp: prod_eq_iff)
  next
    case OpIn
    with add have v: "lf' = lf\<lparr>lf_In := lf_In lf @ [(rq_Key r, rq_Values r)]\<rparr>"
      by (simp add: update_fresh [OF fresh(3) [OF OpIn]])
    show ?thesis by (simp add: v OpIn label_matches_def filter_ids_def req_id_def) (auto simp: prod_eq_iff)
  next
    case OpNotIn
    with add have v: "lf' = lf\<lparr>lf_NotIn := lf_NotIn lf @ [(rq_Key r, rq_Values r)]\<rparr>"
      by (simp add: update_fresh [OF fresh(4) [OF OpNotIn]])
    show ?thesis by (simp add: v OpNotIn label_matches_def filter_ids_def req_id_def) (auto simp: prod_eq_iff)
  next
    case OpExists
    with add have v: "lf' = lf\<lparr>lf_Exists := lf_Exists lf @ [rq_Key r]\<rparr>" by simp
    show ?thesis by (simp add: v OpExists label_matches_def filter_ids_def) blast
  next
    case OpDoesNotExist
    with add have v: "lf' = lf\<lparr>lf_NotExists := lf_NotExists lf @ [rq_Key r]\<rparr>" by simp
    show ?thesis by (simp add: v OpDoesNotExist label_matches_def filter_ids_def) blast
  qed (use add in simp_all)
  then show "label_matches lf' L \<longleftrightarrow> label_matches lf L \<and> req_matches L r"
    and "filter_ids lf' \<subseteq> insert (req_id r) (filter_ids lf)" by blast+
qed

lemma add_requirements_matches:
  assumes "add_requirements lf rs = Inr lf'" and "distinct (map req_id rs)" and "req_id ` set rs \<inter> filter_ids lf = {}"
  shows "label_matches lf' L \<longleftrightarrow> label_matches lf L \<and> (\<forall>r\<in>set rs. req_matches L r)"
  using assms
proof (induction rs arbitrary: lf)
  case (Cons r rs)
  from Cons.prems(1) obtain lf1 where one: "add_requirement lf r = Inr lf1" and rest: "add_requirements lf1 rs = Inr lf'"
    by (simp del: add_requirement.simps split: sum.splits)
  have new: "req_id r \<notin> filter_ids lf" using Cons.prems(3) by auto
  have "req_id ` set rs \<inter> filter_ids lf1 = {}"
  proof -
    have "req_id r \<notin> req_id ` set rs" using Cons.prems(2) by simp
    moreover have "req_id ` set rs \<inter> filter_ids lf = {}" using Cons.prems(3) by simp
    ultimately have "req_id ` set rs \<inter> insert (req_id r) (filter_ids lf) = {}" by simp
    then show ?thesis using Int_mono [OF subset_refl [of "req_id ` set rs"] add_requirement_matches(2) [OF one new]] by simp
  qed
  with Cons.IH [OF rest] Cons.prems(2) add_requirement_matches(1) [OF one new] show ?case
    by (simp del: req_matches.simps)
qed simp

section \<open>Properties\<close>

text \<open>What the selector means in the Kubernetes API: \<open>NotIn\<close> also holds for a resource that does not have
  the key. KubeArchive differs in this point only: its \<open>NotIn\<close> asks for the key as well.\<close>

definition kubernetes_matches :: "labelFilters \<Rightarrow> (string \<times> string) set \<Rightarrow> bool" where
  "kubernetes_matches lf L \<longleftrightarrow>
     (\<forall>k\<in>set (lf_Exists lf). k \<in> fst ` L) \<and> (\<forall>kv\<in>set (lf_Equals lf). kv \<in> L)
     \<and> (\<forall>p\<in>set (lf_In lf). \<exists>v\<in>set (snd p). (fst p, v) \<in> L)
     \<and> (\<forall>k\<in>set (lf_NotExists lf). k \<notin> fst ` L) \<and> (\<forall>kv\<in>set (lf_NotEquals lf). kv \<notin> L)
     \<and> (\<forall>p\<in>set (lf_NotIn lf). \<forall>v\<in>set (snd p). (fst p, v) \<notin> L)"

theorem notin_asks_for_key:
  "label_matches lf L \<longleftrightarrow> kubernetes_matches lf L \<and> fst ` set (lf_NotIn lf) \<subseteq> fst ` L"
  by (auto simp: label_matches_def kubernetes_matches_def)

text \<open>C23: in a consistent database the conditions built from the label filters select exactly
  the resources whose labels match: existing keys, missing keys, equal and different values, sets
  of values. Here \<open>NotIn\<close> asks for the key and for none of its values, so it leaves out resources
  without the key, unlike Kubernetes and what the API page, the design page and a comment say (see
  \<open>notin_asks_for_key\<close>). The claim is about filters whose keys hold no equals sign, as Kubernetes
  label keys do not, and that do not ask for two different values of one key in \<open>Equals\<close> and
  \<open>NotEquals\<close> (\<open>filters_ok\<close>).\<close>

theorem label_filter_correct:
  assumes "db_ok db" and "filters_ok lf" and "row \<in> set (db_resource db)"
  shows "\<exists>cs. ApplyLabelFilters no_resolve_faults (db_labels db) lf = Inr cs
    \<and> (all_hold (db_labels db) (rr_id row) cs \<longleftrightarrow> label_matches lf (set (label_list (jd_labels (rr_data row)))))"
  using ApplyLabelFilters_ok [of "db_labels db" lf] assms unfolding db_ok_def by blast

definition sample_filters :: labelFilters where
  "sample_filters = empty_filters\<lparr>lf_Equals := [(''app'', ''web'')], lf_NotIn := [(''tier'', [''db''])]\<rparr>"

theorem label_filter_correct_witness:
  "let db = written (sample_obj ''Job'' ''j'' ''u1'' 10) sample_json 20 [] empty_db
   in \<exists>cs. ApplyLabelFilters no_resolve_faults (db_labels db) sample_filters = Inr cs
        \<and> \<not> all_hold (db_labels db) 1 cs"
proof -
  let ?db = "written (sample_obj ''Job'' ''j'' ''u1'' 10) sample_json 20 [] empty_db"
  let ?row = "new_row (sample_obj ''Job'' ''j'' ''u1'' 10) sample_json 20 1"
  have "?row \<in> set (db_resource ?db)"
    by (simp add: written_def Let_def upsert_new empty_db_def find_uuid_def)
  moreover have "filters_ok sample_filters"
    by (simp add: filters_ok_def sample_filters_def empty_filters_def)
  moreover have "\<not> label_matches sample_filters (set (label_list (jd_labels (rr_data ?row))))"
    by (simp add: label_matches_def sample_filters_def empty_filters_def sample_json_def label_list_def)
  ultimately show ?thesis
    using label_filter_correct [OF written_ok [OF empty_db_ok], of sample_filters ?row] by (auto simp: Let_def)
qed

text \<open>Collecting label requirements keeps their meaning: when no operator is used twice on one
  key, labels match the filters exactly when they satisfy every requirement.\<close>

theorem requirements_collected:
  assumes "NewLabelFilters rs = Inr lf" and "distinct (map req_id rs)"
  shows "label_matches lf L \<longleftrightarrow> (\<forall>r\<in>set rs. req_matches L r)"
  using add_requirements_matches [of empty_filters rs lf L] assms
  by (simp add: NewLabelFilters_def filter_ids_def empty_filters_def label_matches_def)

theorem requirements_collected_witness:
  "label_matches sample_filters {(''app'', ''web''), (''tier'', ''front'')}"
proof -
  let ?rs = "[\<lparr>rq_Key = ''app'', rq_Operator = OpEquals, rq_Values = [''web'']\<rparr>,
    \<lparr>rq_Key = ''tier'', rq_Operator = OpNotIn, rq_Values = [''db'']\<rparr>]"
  have "NewLabelFilters ?rs = Inr sample_filters"
    by (simp add: NewLabelFilters_def sample_filters_def empty_filters_def)
  from requirements_collected [OF this, of "{(''app'', ''web''), (''tier'', ''front'')}"] show ?thesis
    by (simp add: req_id_def)
qed

text \<open>A selector that asks for a value of a key and excludes another value of the same key,
  like \<open>a=1,a!=2\<close>, selects nothing in any database, although labels can match it: both label maps
  are merged by key before the identifiers are resolved, so the wanted one is never resolved.\<close>

theorem equals_and_not_equals_conflict:
  assumes "tables_ok lt" and "v \<noteq> w" and "CHR ''='' \<notin> set k"
  shows "ApplyLabelFilters no_resolve_faults lt (empty_filters\<lparr>lf_Equals := [(k, v)], lf_NotEquals := [(k, w)]\<rparr>) = Inr [CondFalse]
    \<and> label_matches (empty_filters\<lparr>lf_Equals := [(k, v)], lf_NotEquals := [(k, w)]\<rparr>) {(k, v)}"
proof -
  obtain m where m: "resolve_pairs False lt [(k, w)] = Inr m" by (auto simp: resolve_pairs_def)
  have "map_of m (label_name (k, v)) = None"
    using resolve_pairs_get [OF assms(1) m, of "(k, v)"] assms(2,3) by (simp add: clean_keys_def)
  with m assms(2) show ?thesis
    by (simp add: ApplyLabelFilters_def empty_filters_def maps_copy_def maps_append_def resolveLabelIDs_def gomap_get0_def
        no_resolve_faults_def filter_conditions_def applyExistsFilter_def label_matches_def Let_def)
qed

theorem equals_and_not_equals_conflict_witness:
  "ApplyLabelFilters no_resolve_faults (db_labels empty_db)
     (empty_filters\<lparr>lf_Equals := [(''a'', ''1'')], lf_NotEquals := [(''a'', ''2'')]\<rparr>) = Inr [CondFalse]"
  by (rule equals_and_not_equals_conflict [THEN conjunct1])
     (use empty_db_ok in \<open>simp_all add: db_ok_def\<close>)

end
