(* ===== verification/Reader.thy ===== *)
theory Reader
  imports Label_Filters
begin

text \<open>
  The reading half of \<^verbatim>\<open>pkg/database/sql\<close>: the conditions and the order the select builders
  produce for PostgreSQL, the list, stream and lookup queries, and the search for the log link of
  a resource through the resources it owns.

  A time of the query string is its RFC 3339 text, which is what the filters compare. A query
  fails when the server refuses it or when a selected row has no creation timestamp, which cannot
  be scanned into a string. \<open>read_faults\<close> says which queries the server refuses.
\<close>

section \<open>Conditions on rows\<close>

datatype row_cond =
    KindApiVersionFilter string string
  | NamespaceFilter string
  | NameFilter string
  | NameWildcardFilter string
  | UuidFilter string
  | CreationTSAndIDFilter string int
  | CreationTimestampAfterFilter string
  | CreationTimestampBeforeFilter string
  | OwnerFilter "string list"
  | LabelCond sql_cond

text \<open>\<^verbatim>\<open>ILIKE\<close>: percent, underscore and backslash are special, letters match in both cases. At a backslash
  that ends the pattern the database may report an error; that is one of the failures of a query
  (\<open>rd_query\<close>). When the query is answered such a pattern matches nothing.\<close>

function like_match :: "string \<Rightarrow> string \<Rightarrow> bool" where
  "like_match [] s = (s = [])"
| "like_match (p # ps) s =
     (if p = CHR ''%'' then like_match ps s \<or> (case s of [] \<Rightarrow> False | _ # cs \<Rightarrow> like_match (p # ps) cs)
      else if p = CHR ''_'' then (case s of [] \<Rightarrow> False | _ # cs \<Rightarrow> like_match ps cs)
      else if p = CHR 0x5C then
        (case ps of [] \<Rightarrow> False | q # qs \<Rightarrow> (case s of [] \<Rightarrow> False | c # cs \<Rightarrow> lower_char c = lower_char q \<and> like_match qs cs))
      else (case s of [] \<Rightarrow> False | c # cs \<Rightarrow> lower_char c = lower_char p \<and> like_match ps cs))"
  by pat_completeness auto
termination by (relation "measure (\<lambda>(p, s). length p + length s)") auto

definition created :: "resource_row \<Rightarrow> string option" where
  "created r = jd_creationTimestamp (rr_data r)"

text \<open>A comparison with a missing timestamp is not true.\<close>

fun row_holds :: "label_tables \<Rightarrow> resource_row \<Rightarrow> row_cond \<Rightarrow> bool" where
  "row_holds lt r (KindApiVersionFilter k v) = (rr_kind r = k \<and> rr_apiVersion r = v)"
| "row_holds lt r (NamespaceFilter n) = (rr_namespace r = n)"
| "row_holds lt r (NameFilter n) = (rr_name r = n)"
| "row_holds lt r (NameWildcardFilter p) = like_match p (rr_name r)"
| "row_holds lt r (UuidFilter u) = (rr_uuid r = u)"
| "row_holds lt r (CreationTSAndIDFilter date i) =
     (case created r of None \<Rightarrow> False | Some c \<Rightarrow> c < date \<or> c = date \<and> rr_id r < i)"
| "row_holds lt r (CreationTimestampAfterFilter t) = (case created r of None \<Rightarrow> False | Some c \<Rightarrow> t < c)"
| "row_holds lt r (CreationTimestampBeforeFilter t) = (case created r of None \<Rightarrow> False | Some c \<Rightarrow> c < t)"
| "row_holds lt r (OwnerFilter us) = (set (jd_owners (rr_data r)) \<inter> set us \<noteq> {})"
| "row_holds lt r (LabelCond c) = cond_holds lt (rr_id r) c"

section \<open>Order\<close>

text \<open>
  \<^verbatim>\<open>ORDER BY creationTimestamp DESC, id DESC\<close>: the key of a row, on which a missing timestamp is
  the greatest, so that it comes first in a descending order.
\<close>

datatype cursor_key = CursorKey "string option" int

instantiation cursor_key :: linorder
begin

fun less_eq_cursor_key :: "cursor_key \<Rightarrow> cursor_key \<Rightarrow> bool" where
  "less_eq_cursor_key (CursorKey (Some a) i) (CursorKey (Some b) j) = (a < b \<or> a = b \<and> i \<le> j)"
| "less_eq_cursor_key (CursorKey (Some a) i) (CursorKey None j) = True"
| "less_eq_cursor_key (CursorKey None i) (CursorKey (Some b) j) = False"
| "less_eq_cursor_key (CursorKey None i) (CursorKey None j) = (i \<le> j)"

definition less_cursor_key :: "cursor_key \<Rightarrow> cursor_key \<Rightarrow> bool" where
  "less_cursor_key a b \<longleftrightarrow> a \<le> b \<and> \<not> b \<le> a"

instance
proof
  fix x y z :: cursor_key
  show "x < y \<longleftrightarrow> x \<le> y \<and> \<not> y \<le> x" by (rule less_cursor_key_def)
  obtain a i b j c l where k: "x = CursorKey a i" "y = CursorKey b j" "z = CursorKey c l"
    by (metis cursor_key.exhaust)
  show "x \<le> x" by (cases a) (auto simp: k)
  show "x \<le> y \<Longrightarrow> y \<le> z \<Longrightarrow> x \<le> z" by (cases a; cases b; cases c) (auto simp: k)
  show "x \<le> y \<Longrightarrow> y \<le> x \<Longrightarrow> x = y"
    by (induction x y rule: less_eq_cursor_key.induct) auto
  show "x \<le> y \<or> y \<le> x"
    by (induction x y rule: less_eq_cursor_key.induct) auto
qed

end

definition row_key :: "resource_row \<Rightarrow> cursor_key" where
  "row_key r = CursorKey (created r) (rr_id r)"

definition CreationTSAndIDSorter :: "resource_row list \<Rightarrow> resource_row list" where
  "CreationTSAndIDSorter rows = rev (sort_key row_key rows)"

section \<open>Queries\<close>

record resource =
  re_Date :: string
  re_Id :: int
  re_Uuid :: string
  re_Data :: json_data

record list_query =
  lq_where :: "row_cond list"
  lq_sorted :: bool
  lq_limit :: "int option"

datatype read_error = ServerError | ScanError | ResourceNotFound | DecodeError | NoContainers | CallbackError

definition select_rows :: "db_state \<Rightarrow> list_query \<Rightarrow> resource_row list" where
  "select_rows db q =
     (let rows = filter (\<lambda>r. list_all (row_holds (db_labels db) r) (lq_where q)) (db_resource db);
          rows = (if lq_sorted q then CreationTSAndIDSorter rows else rows)
      in case lq_limit q of None \<Rightarrow> rows | Some n \<Rightarrow> take (nat n) rows)"

definition scan_row :: "resource_row \<Rightarrow> resource option" where
  "scan_row r =
     (case created r of None \<Rightarrow> None
      | Some c \<Rightarrow> Some \<lparr>re_Date = c, re_Id = rr_id r, re_Uuid = rr_uuid r, re_Data = rr_data r\<rparr>)"

fun scan_rows :: "resource_row list \<Rightarrow> read_error + resource list" where
  "scan_rows [] = Inr []"
| "scan_rows (r # rs) =
     (case scan_row r of None \<Rightarrow> Inl ScanError
      | Some x \<Rightarrow> (case scan_rows rs of Inl e \<Rightarrow> Inl e | Inr xs \<Rightarrow> Inr (x # xs)))"

definition negative_limit :: "list_query \<Rightarrow> bool" where
  "negative_limit q = (case lq_limit q of None \<Rightarrow> False | Some n \<Rightarrow> n < 0)"

lemma negative_limit_iff [simp]: "negative_limit q \<longleftrightarrow> (\<exists>n. lq_limit q = Some n \<and> n < 0)"
  by (simp add: negative_limit_def split: option.split)

definition performResourceQuery :: "bool \<Rightarrow> db_state \<Rightarrow> list_query \<Rightarrow> read_error + resource list" where
  "performResourceQuery fails db q =
     (if fails \<or> negative_limit q then Inl ServerError else scan_rows (select_rows db q))"

record read_faults =
  rd_resolve :: resolve_faults
  rd_query :: bool
  rd_url :: bool
  rd_owned :: "nat \<Rightarrow> bool"

record list_args =
  la_kind :: string
  la_apiVersion :: string
  la_namespace :: string
  la_name :: string
  la_continueId :: string
  la_continueDate :: string
  la_labels :: labelFilters
  la_after :: "string option"
  la_before :: "string option"
  la_limit :: int

text \<open>The cursor identifier is sent as text; a text that is no integer makes the server refuse the query.\<close>

definition buildResourceListQuery :: "resolve_faults \<Rightarrow> db_state \<Rightarrow> list_args \<Rightarrow> read_error + list_query" where
  "buildResourceListQuery flt db a =
     (let w0 = [KindApiVersionFilter (la_kind a) (la_apiVersion a)]
             @ (if la_namespace a \<noteq> [] then [NamespaceFilter (la_namespace a)] else []);
          isWildcardQuery = (la_name a \<noteq> [] \<and> CHR ''*'' \<in> set (la_name a));
          w1 = w0 @ (if la_name a = [] then []
                     else if CHR ''*'' \<in> set (la_name a)
                     then [NameWildcardFilter (replace_all (la_name a) ''*'' ''%'')]
                     else [NameFilter (la_name a)])
      in if la_name a = [] \<or> isWildcardQuery then
           (case (if la_continueId a \<noteq> [] \<and> la_continueDate a \<noteq> []
                  then (case parse_int (la_continueId a) of
                          None \<Rightarrow> Inl ServerError
                        | Some i \<Rightarrow> Inr [CreationTSAndIDFilter (la_continueDate a) i])
                  else Inr []) of
              Inl e \<Rightarrow> Inl e
            | Inr cursor \<Rightarrow>
                let w2 = w1 @ cursor
                      @ (case la_after a of None \<Rightarrow> [] | Some t \<Rightarrow> [CreationTimestampAfterFilter t])
                      @ (case la_before a of None \<Rightarrow> [] | Some t \<Rightarrow> [CreationTimestampBeforeFilter t])
                in if IsEmpty (la_labels a)
                   then Inr \<lparr>lq_where = w2, lq_sorted = True, lq_limit = Some (la_limit a)\<rparr>
                   else (case ApplyLabelFilters flt (db_labels db) (la_labels a) of
                           Inl _ \<Rightarrow> Inl ServerError
                         | Inr cs \<Rightarrow> Inr \<lparr>lq_where = w2 @ map LabelCond cs, lq_sorted = True, lq_limit = Some (la_limit a)\<rparr>))
         else Inr \<lparr>lq_where = w1, lq_sorted = False, lq_limit = None\<rparr>)"

definition QueryResources :: "read_faults \<Rightarrow> db_state \<Rightarrow> list_args \<Rightarrow> read_error + resource list" where
  "QueryResources flt db a =
     (case buildResourceListQuery (rd_resolve flt) db a of
        Inl e \<Rightarrow> Inl e
      | Inr q \<Rightarrow> performResourceQuery (rd_query flt) db q)"

text \<open>Streaming calls \<open>fn\<close> row by row and stops at the first error; \<open>fn\<close> threads its own state.\<close>

fun performStreamQuery :: "('s \<Rightarrow> resource \<Rightarrow> 's option) \<Rightarrow> 's \<Rightarrow> resource_row list \<Rightarrow> read_error option \<times> 's" where
  "performStreamQuery fn s [] = (None, s)"
| "performStreamQuery fn s (r # rs) =
     (case scan_row r of None \<Rightarrow> (Some ScanError, s)
      | Some x \<Rightarrow> (case fn s x of None \<Rightarrow> (Some CallbackError, s) | Some s' \<Rightarrow> performStreamQuery fn s' rs))"

definition StreamResources ::
    "read_faults \<Rightarrow> db_state \<Rightarrow> list_args \<Rightarrow> ('s \<Rightarrow> resource \<Rightarrow> 's option) \<Rightarrow> 's \<Rightarrow> read_error option \<times> 's" where
  "StreamResources flt db a fn s =
     (case buildResourceListQuery (rd_resolve flt) db a of
        Inl e \<Rightarrow> (Some e, s)
      | Inr q \<Rightarrow>
          if rd_query flt \<or> negative_limit q then (Some ServerError, s)
          else performStreamQuery fn s (select_rows db q))"

definition QueryResourceByUID ::
    "read_faults \<Rightarrow> db_state \<Rightarrow> string \<Rightarrow> string \<Rightarrow> string \<Rightarrow> string \<Rightarrow> read_error + resource option" where
  "QueryResourceByUID flt db kind apiVersion namespace uid =
     (case performResourceQuery (rd_query flt) db
             \<lparr>lq_where = [KindApiVersionFilter kind apiVersion, NamespaceFilter namespace, UuidFilter uid],
              lq_sorted = False, lq_limit = None\<rparr> of
        Inl e \<Rightarrow> Inl e
      | Inr [] \<Rightarrow> Inr None
      | Inr (r # _) \<Rightarrow> Inr (Some r))"

section \<open>Log links\<close>

record logRecord =
  lo_Namespace :: string
  lo_PodName :: string
  lo_PodUUID :: string
  lo_ContainerName :: string
  lo_URL :: string
  lo_Query :: string
  lo_Start :: string
  lo_End :: string

definition defaultContainerAnnotation :: string where
  "defaultContainerAnnotation = ''kubectl.kubernetes.io/default-container''"

definition preferred_container :: "pod_view \<Rightarrow> string \<Rightarrow> read_error + string" where
  "preferred_container pod containerName =
     (if containerName \<noteq> [] then Inr containerName
      else case gomap_get (pv_annotations pod) defaultContainerAnnotation of
             Some c \<Rightarrow> if c \<noteq> [] then Inr c
                       else (case pv_containers pod of [] \<Rightarrow> Inl NoContainers | c # _ \<Rightarrow> Inr c)
           | None \<Rightarrow> (case pv_containers pod of [] \<Rightarrow> Inl NoContainers | c # _ \<Rightarrow> Inr c))"

definition getLogsForPodSelector ::
    "read_faults \<Rightarrow> db_state \<Rightarrow> list_query \<Rightarrow> string \<Rightarrow> string \<Rightarrow> read_error + logRecord" where
  "getLogsForPodSelector flt db q namespace containerName =
     (case performResourceQuery (rd_query flt) db q of
        Inl e \<Rightarrow> Inl e
      | Inr [] \<Rightarrow> Inl ResourceNotFound
      | Inr (res # _) \<Rightarrow>
          (case jd_pod (re_Data res) of
             None \<Rightarrow> Inl DecodeError
           | Some pod \<Rightarrow>
               (case preferred_container pod containerName of
                  Inl e \<Rightarrow> Inl e
                | Inr container \<Rightarrow>
                    if rd_url flt then Inl ServerError
                    else (case filter (\<lambda>l. lr_uuid l = re_Uuid res \<and> lg_ContainerName (lr_tuple l) = container) (db_log_url db) of
                            [] \<Rightarrow> Inl ResourceNotFound
                          | l # _ \<Rightarrow> Inr \<lparr>lo_Namespace = namespace, lo_PodName = pv_name pod, lo_PodUUID = re_Uuid res,
                                         lo_ContainerName = container, lo_URL = lg_Url (lr_tuple l), lo_Query = lg_Query (lr_tuple l),
                                         lo_Start = lg_Start (lr_tuple l), lo_End = lg_End (lr_tuple l)\<rparr>))))"

text \<open>The rows owned by one of the owners, as the owned resource selector returns them.\<close>

definition owned_rows :: "db_state \<Rightarrow> string list \<Rightarrow> resource_row list" where
  "owned_rows db owners = filter (\<lambda>r. row_holds (db_labels db) r (OwnerFilter owners)) (db_resource db)"

text \<open>
  The recursion follows the owner references down to the Pods; it ends only when a level has no
  resource but Pods, so not returning is the value \<open>None\<close>. \<open>n\<close> counts the queries.
\<close>

partial_function (option) getOwnedPodsUuids ::
    "(nat \<Rightarrow> bool) \<Rightarrow> nat \<Rightarrow> db_state \<Rightarrow> string list \<Rightarrow> resource_row list \<Rightarrow> (read_error + resource_row list) option" where
  "getOwnedPodsUuids fails n db owners pods =
     (if owners = [] then Some (Inr pods)
      else if fails n then Some (Inl ServerError)
      else let rows = owned_rows db owners
           in if list_ex (\<lambda>r. created r = None) rows then Some (Inl ScanError)
              else getOwnedPodsUuids fails (Suc n) db
                     (map rr_uuid (filter (\<lambda>r. rr_kind r \<noteq> ''Pod'') rows)) (pods @ filter (\<lambda>r. rr_kind r = ''Pod'') rows))"

definition sort_newest :: "resource_row list \<Rightarrow> resource_row list" where
  "sort_newest pods = rev (sort_key (\<lambda>r. case created r of None \<Rightarrow> [] | Some c \<Rightarrow> c) (rev pods))"

definition queryLogURL ::
    "read_faults \<Rightarrow> db_state \<Rightarrow> string \<Rightarrow> string \<Rightarrow> string \<Rightarrow> string \<Rightarrow> string \<Rightarrow> bool \<Rightarrow> (read_error + logRecord) option" where
  "queryLogURL flt db kind apiVersion namespace identifier containerName useUID =
     (let q = \<lparr>lq_where = [KindApiVersionFilter kind apiVersion, NamespaceFilter namespace,
                  if useUID then UuidFilter identifier else NameFilter identifier], lq_sorted = True, lq_limit = None\<rparr>
      in if kind = ''Pod'' then Some (getLogsForPodSelector flt db q namespace containerName)
         else if rd_query flt then Some (Inl ServerError)
         else case select_rows db q of
                [] \<Rightarrow> Some (Inl ResourceNotFound)
              | row # _ \<Rightarrow>
                  (case getOwnedPodsUuids (rd_owned flt) 0 db [rr_uuid row] [] of
                     None \<Rightarrow> None
                   | Some (Inl e) \<Rightarrow> Some (Inl e)
                   | Some (Inr []) \<Rightarrow> Some (Inl ResourceNotFound)
                   | Some (Inr (p # ps)) \<Rightarrow>
                       Some (getLogsForPodSelector flt db
                         \<lparr>lq_where = [UuidFilter (rr_uuid (hd (sort_newest (p # ps))))], lq_sorted = False, lq_limit = None\<rparr>
                         namespace containerName)))"

section \<open>Lemmas: order and pages\<close>

lemma sorter_filter: "CreationTSAndIDSorter (filter P rows) = filter P (CreationTSAndIDSorter rows)"
  by (simp add: CreationTSAndIDSorter_def filter_sort flip: rev_filter)

lemma set_sorter [simp]: "set (CreationTSAndIDSorter rows) = set rows"
  by (simp add: CreationTSAndIDSorter_def)

lemma row_key_distinct:
  assumes "distinct (map rr_id rows)" shows "distinct (map row_key rows)"
proof -
  have "rr_id r = (case row_key r of CursorKey _ i \<Rightarrow> i)" for r by (simp add: row_key_def)
  then have "map rr_id rows = map (\<lambda>k. case k of CursorKey _ i \<Rightarrow> i) (map row_key rows)" by simp
  with assms show ?thesis
    using distinct_map [of "\<lambda>k. case k of CursorKey _ i \<Rightarrow> i" "map row_key rows"] by argo
qed

lemma sorter_strict:
  assumes "distinct (map rr_id rows)"
  shows "sorted_wrt (\<lambda>a b. row_key b < row_key a) (CreationTSAndIDSorter rows)"
proof -
  have "distinct (map row_key (sort_key row_key rows))"
    using row_key_distinct [OF assms] by (metis distinct_map distinct_sort set_sort)
  then have "sorted_wrt (<) (map row_key (sort_key row_key rows))"
    by (simp only: strict_sorted_iff sorted_sort_key simp_thms)
  then show ?thesis by (simp add: CreationTSAndIDSorter_def sorted_wrt_rev sorted_wrt_map)
qed

text \<open>In a strictly descending list the elements below the \<open>i\<close>-th are those after it.\<close>

lemma filter_below:
  fixes f :: "'a \<Rightarrow> 'b :: linorder"
  assumes "sorted_wrt (\<lambda>a b. f b < f a) xs" and "i < length xs"
  shows "filter (\<lambda>x. f x < f (xs ! i)) xs = drop (Suc i) xs"
  using assms
proof (induction xs arbitrary: i)
  case (Cons x xs)
  show ?case
  proof (cases i)
    case 0
    with Cons.prems show ?thesis by (simp add: filter_id_conv)
  next
    case (Suc j)
    with Cons.prems have "\<not> f x < f (xs ! j)" by (simp add: less_imp_not_less)
    with Suc Cons show ?thesis by simp
  qed
qed simp

lemma cursor_holds:
  assumes "created x = Some date"
  shows "row_holds lt r (CreationTSAndIDFilter date (rr_id x)) \<longleftrightarrow> row_key r < row_key x"
  using assms by (cases "created r") (auto simp: row_key_def less_cursor_key_def)

text \<open>The query of a list without its cursor and without its limit.\<close>

definition is_list :: "list_args \<Rightarrow> bool" where
  "is_list a \<longleftrightarrow> la_name a = [] \<or> CHR ''*'' \<in> set (la_name a)"

definition no_cursor :: "list_args \<Rightarrow> list_args" where
  "no_cursor a = a\<lparr>la_continueId := [], la_continueDate := []\<rparr>"

definition all_rows :: "db_state \<Rightarrow> list_query \<Rightarrow> resource_row list" where
  "all_rows db q = select_rows db (q\<lparr>lq_limit := None\<rparr>)"

lemma build_list:
  assumes "is_list a" and "buildResourceListQuery flt db (no_cursor a) = Inr q"
  shows "lq_sorted q \<and> lq_limit q = Some (la_limit a)"
  using assms by (auto simp: buildResourceListQuery_def is_list_def no_cursor_def Let_def split: if_splits sum.splits)

lemma build_cursor:
  assumes "is_list a" and q: "buildResourceListQuery flt db (no_cursor a) = Inr q"
    and c: "la_continueId a = show_int i" "la_continueDate a \<noteq> []" "in_int64 i"
  shows "\<exists>q'. buildResourceListQuery flt db a = Inr q' \<and> lq_sorted q' \<and> lq_limit q' = Some (la_limit a)
    \<and> (\<forall>lt r. list_all (row_holds lt r) (lq_where q') \<longleftrightarrow>
          row_holds lt r (CreationTSAndIDFilter (la_continueDate a) i) \<and> list_all (row_holds lt r) (lq_where q))"
proof -
  have "parse_int (la_continueId a) = Some i" using c by (simp add: parse_int_show_int)
  moreover have "la_continueId a \<noteq> []" using c(1) by (auto simp: show_int_def)
  ultimately show ?thesis using assms(1,2) c(2)
    by (auto simp: buildResourceListQuery_def is_list_def no_cursor_def Let_def IsEmpty_def split: if_splits sum.splits)
qed

lemma page_after:
  assumes ok: "db_ok db" and l: "is_list a" and q: "buildResourceListQuery flt db (no_cursor a) = Inr q"
    and i: "i < length (all_rows db q)" and x: "x = all_rows db q ! i"
    and c: "la_continueId a = show_int (rr_id x)" "created x = Some (la_continueDate a)" "la_continueDate a \<noteq> []" "in_int64 (rr_id x)"
  shows "\<exists>q'. buildResourceListQuery flt db a = Inr q' \<and> lq_limit q' = Some (la_limit a)
    \<and> select_rows db q' = take (nat (la_limit a)) (drop (Suc i) (all_rows db q))"
proof -
  let ?lt = "db_labels db"
  from build_cursor [OF l q c(1,3,4)] obtain q' where q': "buildResourceListQuery flt db a = Inr q'" "lq_sorted q'"
    "lq_limit q' = Some (la_limit a)"
    and wh: "\<And>r. list_all (row_holds ?lt r) (lq_where q') \<longleftrightarrow>
      row_holds ?lt r (CreationTSAndIDFilter (la_continueDate a) (rr_id x)) \<and> list_all (row_holds ?lt r) (lq_where q)"
    by blast
  let ?rows = "filter (\<lambda>r. list_all (row_holds ?lt r) (lq_where q)) (db_resource db)"
  have all: "all_rows db q = CreationTSAndIDSorter ?rows"
    using build_list [OF l q] by (simp add: all_rows_def select_rows_def Let_def)
  have "distinct (map rr_id ?rows)" using ok by (auto simp: db_ok_def intro: distinct_map_filter)
  from filter_below [OF sorter_strict [OF this], of i] i x all
  have below: "filter (\<lambda>r. row_key r < row_key x) (CreationTSAndIDSorter ?rows) = drop (Suc i) (all_rows db q)" by simp
  have "filter (\<lambda>r. list_all (row_holds ?lt r) (lq_where q')) (db_resource db) = filter (\<lambda>r. row_key r < row_key x) ?rows"
    unfolding wh cursor_holds [OF c(2)] filter_filter by (rule filter_cong) auto
  with below q' have "select_rows db q' = take (nat (la_limit a)) (drop (Suc i) (all_rows db q))"
    by (simp add: select_rows_def Let_def sorter_filter)
  with q' show ?thesis by blast
qed

section \<open>Lemmas: scanning and streaming\<close>

lemma scan_rows_dated:
  "\<forall>r\<in>set rows. created r \<noteq> None \<Longrightarrow> scan_rows rows = Inr (map (\<lambda>r. the (scan_row r)) rows)"
  by (induction rows) (auto simp: scan_row_def)

lemma scan_rows_error: "scan_rows rows = Inl e \<Longrightarrow> e = ScanError"
  by (induction rows arbitrary: e) (auto split: option.splits sum.splits)

lemma stream_collects:
  "performStreamQuery (\<lambda>s x. Some (s @ [x])) s rows =
     (case scan_rows rows of
        Inr xs \<Rightarrow> (None, s @ xs)
      | Inl e \<Rightarrow> (Some ScanError, s @ map (\<lambda>r. the (scan_row r)) (takeWhile (\<lambda>r. scan_row r \<noteq> None) rows)))"
  by (induction rows arbitrary: s) (auto split: option.splits sum.splits)

section \<open>Lemmas: owned Pods\<close>

text \<open>A Pod belongs to an owner directly or through resources that are not Pods.\<close>

inductive pod_of :: "db_state \<Rightarrow> string \<Rightarrow> resource_row \<Rightarrow> bool" for db where
  direct: "r \<in> set (db_resource db) \<Longrightarrow> rr_kind r = ''Pod'' \<Longrightarrow> u \<in> set (jd_owners (rr_data r)) \<Longrightarrow> pod_of db u r"
| through: "r \<in> set (db_resource db) \<Longrightarrow> rr_kind r \<noteq> ''Pod'' \<Longrightarrow> u \<in> set (jd_owners (rr_data r)) \<Longrightarrow>
    pod_of db (rr_uuid r) p \<Longrightarrow> pod_of db u p"

inductive_simps pod_of_iff: "pod_of db u p"

definition acyclic_owners :: "db_state \<Rightarrow> (string \<Rightarrow> nat) \<Rightarrow> bool" where
  "acyclic_owners db rank \<longleftrightarrow>
     (\<forall>r\<in>set (db_resource db). \<forall>u\<in>set (jd_owners (rr_data r)). rank (rr_uuid r) < rank u)"

lemma owned_rows_iff: "r \<in> set (owned_rows db owners) \<longleftrightarrow> r \<in> set (db_resource db) \<and> (\<exists>u\<in>set owners. u \<in> set (jd_owners (rr_data r)))"
  by (auto simp: owned_rows_def)

lemma getOwnedPodsUuids_terminates:
  assumes "acyclic_owners db rank" and "\<forall>r\<in>set (db_resource db). created r \<noteq> None" and "\<And>n. \<not> fails n"
    and "\<forall>u\<in>set owners. rank u < m"
  shows "\<exists>ps. getOwnedPodsUuids fails n db owners pods = Some (Inr (pods @ ps)) \<and> set ps = {p. \<exists>u\<in>set owners. pod_of db u p}"
  using assms(4)
proof (induction m arbitrary: n owners pods)
  case 0
  then have "owners = []" by (cases owners) auto
  then show ?case by (subst getOwnedPodsUuids.simps) simp
next
  case (Suc m)
  show ?case
  proof (cases "owners = []")
    case True
    then show ?thesis by (subst getOwnedPodsUuids.simps) simp
  next
    case False
    let ?rows = "owned_rows db owners"
    let ?next = "filter (\<lambda>r. rr_kind r \<noteq> ''Pod'') ?rows" and ?here = "filter (\<lambda>r. rr_kind r = ''Pod'') ?rows"
    have dated: "\<not> list_ex (\<lambda>r. created r = None) ?rows"
      using assms(2) by (auto simp: list_ex_iff owned_rows_iff)
    have "\<forall>u\<in>set (map rr_uuid ?next). rank u < m"
    proof
      fix u assume "u \<in> set (map rr_uuid ?next)"
      then obtain r where r: "u = rr_uuid r" "r \<in> set ?rows" by auto
      then obtain o1 where o1: "o1 \<in> set owners" "o1 \<in> set (jd_owners (rr_data r))" "r \<in> set (db_resource db)"
        by (auto simp: owned_rows_iff)
      with assms(1) Suc.prems have "rank (rr_uuid r) < rank o1" "rank o1 < Suc m" by (auto simp: acyclic_owners_def)
      with r show "rank u < m" by simp
    qed
    from Suc.IH [OF this, of "Suc n" "pods @ ?here"] obtain ps where
      ps: "getOwnedPodsUuids fails (Suc n) db (map rr_uuid ?next) (pods @ ?here) = Some (Inr ((pods @ ?here) @ ps))"
        "set ps = {p. \<exists>u\<in>set (map rr_uuid ?next). pod_of db u p}" by blast
    have "getOwnedPodsUuids fails n db owners pods = Some (Inr (pods @ (?here @ ps)))"
      using False dated assms(3) [of n] ps(1) by (subst getOwnedPodsUuids.simps) (simp add: Let_def)
    moreover have "set (?here @ ps) = {p. \<exists>u\<in>set owners. pod_of db u p}"
    proof -
      have "(\<exists>u\<in>set owners. pod_of db u p) \<longleftrightarrow> p \<in> set ?here \<or> (\<exists>r\<in>set ?next. pod_of db (rr_uuid r) p)" for p
        by (subst pod_of_iff) (auto simp: owned_rows_iff)
      with ps(2) show ?thesis by auto
    qed
    ultimately show ?thesis by blast
  qed
qed

text \<open>A resource that is its own owner keeps the recursion going for ever.\<close>

definition own_owner :: "db_state \<Rightarrow> resource_row \<Rightarrow> bool" where
  "own_owner db r \<longleftrightarrow> r \<in> set (db_resource db) \<and> rr_kind r \<noteq> ''Pod'' \<and> rr_uuid r \<in> set (jd_owners (rr_data r))"

lemma getOwnedPodsUuids_cycle:
  assumes "getOwnedPodsUuids fails n db owners pods = Some res"
  shows "(\<forall>k. \<not> fails k) \<and> (\<forall>r\<in>set (db_resource db). created r \<noteq> None) \<and> own_owner db r \<longrightarrow> rr_uuid r \<notin> set owners"
proof (rule getOwnedPodsUuids.raw_induct [OF _ assms])
  fix self fails n db owners pods res
  assume IH: "\<And>fails n db owners pods res. self fails n db owners pods = Some res \<Longrightarrow>
      (\<forall>k. \<not> fails k) \<and> (\<forall>r\<in>set (db_resource db). created r \<noteq> None) \<and> own_owner db r \<longrightarrow> rr_uuid r \<notin> set owners"
    and res: "(if owners = [] then Some (Inr pods)
      else if fails n then Some (Inl ServerError)
      else let rows = owned_rows db owners
           in if list_ex (\<lambda>r. created r = None) rows then Some (Inl ScanError)
              else self fails (Suc n) db
                     (map rr_uuid (filter (\<lambda>r. rr_kind r \<noteq> ''Pod'') rows)) (pods @ filter (\<lambda>r. rr_kind r = ''Pod'') rows)) = Some res"
  let ?rows = "owned_rows db owners"
  let ?next = "map rr_uuid (filter (\<lambda>r. rr_kind r \<noteq> ''Pod'') ?rows)"
  show "(\<forall>k. \<not> fails k) \<and> (\<forall>r\<in>set (db_resource db). created r \<noteq> None) \<and> own_owner db r \<longrightarrow> rr_uuid r \<notin> set owners"
  proof (intro impI notI)
    assume h: "(\<forall>k. \<not> fails k) \<and> (\<forall>r\<in>set (db_resource db). created r \<noteq> None) \<and> own_owner db r" and own: "rr_uuid r \<in> set owners"
    then have "owners \<noteq> []" "\<not> list_ex (\<lambda>r. created r = None) ?rows" by (auto simp: list_ex_iff owned_rows_iff)
    with res h have "self fails (Suc n) db ?next (pods @ filter (\<lambda>r. rr_kind r = ''Pod'') ?rows) = Some res"
      by (simp add: Let_def)
    from IH [OF this] h have "rr_uuid r \<notin> set ?next" by blast
    moreover have "r \<in> set (filter (\<lambda>r. rr_kind r \<noteq> ''Pod'') ?rows)" using h own by (auto simp: own_owner_def owned_rows_iff)
    ultimately show False by (metis image_eqI set_map)
  qed
qed

section \<open>Properties\<close>

definition no_read_faults :: read_faults where
  "no_read_faults = \<lparr>rd_resolve = no_resolve_faults, rd_query = False, rd_url = False, rd_owned = (\<lambda>_. False)\<rparr>"

definition sample_args :: list_args where
  "sample_args = \<lparr>la_kind = ''Job'', la_apiVersion = ''v1'', la_namespace = ''ns'', la_name = [], la_continueId = [],
     la_continueDate = [], la_labels = empty_filters, la_after = None, la_before = None, la_limit = 1\<rparr>"

definition sample_db :: db_state where
  "sample_db = written (sample_obj ''Job'' ''b'' ''u2'' 20) (sample_json\<lparr>jd_creationTimestamp := Some ''2024-02-01T00:00:00Z''\<rparr>) 30 []
     (written (sample_obj ''Job'' ''a'' ''u1'' 10) sample_json 20 [] empty_db)"

lemma sample_db_ok: "db_ok sample_db"
  unfolding sample_db_def by (intro written_ok empty_db_ok)

lemma sample_db_rows:
  "db_resource sample_db =
     [new_row (sample_obj ''Job'' ''a'' ''u1'' 10) sample_json 20 1,
      new_row (sample_obj ''Job'' ''b'' ''u2'' 20) (sample_json\<lparr>jd_creationTimestamp := Some ''2024-02-01T00:00:00Z''\<rparr>) 30 2]"
  by (simp add: sample_db_def written_def Let_def upsert_new empty_db_def find_uuid_def)

text \<open>For every list query on a consistent database, the page that starts at the cursor of
  the \<open>i\<close>-th resource of the whole result is exactly the next resources of it: no resource is
  skipped or repeated between pages, also when resources share a creation timestamp.\<close>

theorem next_page_continues:
  assumes "db_ok db" and "is_list a" and "buildResourceListQuery flt db (no_cursor a) = Inr q"
    and "i < length (all_rows db q)" and "la_continueId a = show_int (rr_id (all_rows db q ! i))"
    and "created (all_rows db q ! i) = Some (la_continueDate a)" and "la_continueDate a \<noteq> []"
    and "in_int64 (rr_id (all_rows db q ! i))"
  shows "\<exists>q'. buildResourceListQuery flt db a = Inr q'
    \<and> select_rows db q' = take (nat (la_limit a)) (drop (Suc i) (all_rows db q))"
  using page_after [OF assms(1-4) refl assms(5-8)] by blast

theorem next_page_continues_witness:
  "let a = sample_args\<lparr>la_continueId := ''2'', la_continueDate := ''2024-02-01T00:00:00Z''\<rparr>
   in \<exists>q q'. buildResourceListQuery no_resolve_faults sample_db (no_cursor a) = Inr q
     \<and> buildResourceListQuery no_resolve_faults sample_db a = Inr q'
     \<and> select_rows sample_db q' = take 1 (drop (Suc 0) (all_rows sample_db q))"
proof -
  let ?a = "sample_args\<lparr>la_continueId := ''2'', la_continueDate := ''2024-02-01T00:00:00Z''\<rparr>"
  let ?q = "\<lparr>lq_where = [KindApiVersionFilter ''Job'' ''v1'', NamespaceFilter ''ns''], lq_sorted = True, lq_limit = Some 1\<rparr>"
  have q: "buildResourceListQuery no_resolve_faults sample_db (no_cursor ?a) = Inr ?q"
    by (simp add: buildResourceListQuery_def no_cursor_def sample_args_def IsEmpty_def empty_filters_def)
  have rows: "all_rows sample_db ?q =
     [new_row (sample_obj ''Job'' ''b'' ''u2'' 20) (sample_json\<lparr>jd_creationTimestamp := Some ''2024-02-01T00:00:00Z''\<rparr>) 30 2,
      new_row (sample_obj ''Job'' ''a'' ''u1'' 10) sample_json 20 1]"
    by (simp add: all_rows_def select_rows_def sample_db_rows new_row_def CreationTSAndIDSorter_def row_key_def created_def
        sample_json_def less_cursor_key_def less_char_def)
  have two: "show_int 2 = ''2''" by code_simp
  have "\<exists>q'. buildResourceListQuery no_resolve_faults sample_db ?a = Inr q'
    \<and> select_rows sample_db q' = take (nat (la_limit ?a)) (drop (Suc 0) (all_rows sample_db ?q))"
    by (rule next_page_continues [OF sample_db_ok _ q])
       (simp_all add: rows is_list_def sample_args_def two created_def new_row_def in_int64_def)
  with q show ?thesis by (auto simp: sample_args_def Let_def)
qed

text \<open>Streaming a list and collecting the rows gives exactly the result of the list query,
  and fails exactly when the query fails.\<close>

theorem stream_agrees_with_query:
  "case QueryResources flt db a of
     Inr xs \<Rightarrow> StreamResources flt db a (\<lambda>s x. Some (s @ [x])) [] = (None, xs)
   | Inl e \<Rightarrow> fst (StreamResources flt db a (\<lambda>s x. Some (s @ [x])) []) = Some e"
  by (auto simp: QueryResources_def StreamResources_def performResourceQuery_def stream_collects
      split: sum.splits dest: scan_rows_error)

text \<open>C29: when the owner references do not form a cycle, the search for the Pods of a resource
  ends and returns exactly the Pods that the resource owns directly or through other resources.\<close>

theorem owned_pods_found:
  assumes "acyclic_owners db rank" and "\<forall>r\<in>set (db_resource db). created r \<noteq> None"
  shows "\<exists>ps. getOwnedPodsUuids (\<lambda>_. False) 0 db [u] [] = Some (Inr ps) \<and> set ps = {p. pod_of db u p}"
proof -
  have "\<forall>v\<in>set [u]. rank v < Suc (rank u)" by simp
  from getOwnedPodsUuids_terminates [OF assms _ this, of "\<lambda>_. False" 0 "[]"] show ?thesis by simp
qed

text \<open>
  A Deployment \<open>u1\<close> that owns a ReplicaSet \<open>u2\<close> and a Pod \<open>u4\<close>, a Pod \<open>u3\<close> of the ReplicaSet, and a Pod
  \<open>u5\<close> that nobody owns.
\<close>

definition owned_row :: "int \<Rightarrow> string \<Rightarrow> string \<Rightarrow> string list \<Rightarrow> resource_row" where
  "owned_row i kind uid owners = new_row (sample_obj kind uid uid 10) (sample_json\<lparr>jd_owners := owners\<rparr>) 20 i"

definition family_db :: db_state where
  "family_db = empty_db\<lparr>db_resource :=
     [owned_row 1 ''Deployment'' ''u1'' [], owned_row 2 ''ReplicaSet'' ''u2'' [''u1''], owned_row 3 ''Pod'' ''u3'' [''u2''],
      owned_row 4 ''Pod'' ''u4'' [''u1''], owned_row 5 ''Pod'' ''u5'' []]\<rparr>"

lemma owned_row_simps [simp]:
  "rr_uuid (owned_row i kind uid owners) = uid" "rr_kind (owned_row i kind uid owners) = kind"
  "jd_owners (rr_data (owned_row i kind uid owners)) = owners" "created (owned_row i kind uid owners) = Some ''2024-01-01T00:00:00Z''"
  by (simp_all add: owned_row_def new_row_def sample_obj_def GetKind_def created_def sample_json_def)

lemma pod_of_rows:
  "pod_of db u p \<longleftrightarrow> p \<in> set (filter (\<lambda>r. rr_kind r = ''Pod'' \<and> u \<in> set (jd_owners (rr_data r))) (db_resource db))
    \<or> (\<exists>r\<in>set (filter (\<lambda>r. rr_kind r \<noteq> ''Pod'' \<and> u \<in> set (jd_owners (rr_data r))) (db_resource db)). pod_of db (rr_uuid r) p)"
  by (subst pod_of_iff) auto

lemma family_pods: "pod_of family_db ''u1'' p \<longleftrightarrow> p \<in> {owned_row 3 ''Pod'' ''u3'' [''u2''], owned_row 4 ''Pod'' ''u4'' [''u1'']}"
proof -
  have u2: "pod_of family_db ''u2'' p \<longleftrightarrow> p = owned_row 3 ''Pod'' ''u3'' [''u2'']"
    by (subst pod_of_rows) (simp add: family_db_def)
  have rows: "filter (\<lambda>r. rr_kind r = ''Pod'' \<and> ''u1'' \<in> set (jd_owners (rr_data r))) (db_resource family_db) = [owned_row 4 ''Pod'' ''u4'' [''u1'']]"
    "filter (\<lambda>r. rr_kind r \<noteq> ''Pod'' \<and> ''u1'' \<in> set (jd_owners (rr_data r))) (db_resource family_db) = [owned_row 2 ''ReplicaSet'' ''u2'' [''u1'']]"
    by (simp_all add: family_db_def)
  show ?thesis by (subst pod_of_rows) (simp add: rows u2 disj_commute)
qed

theorem owned_pods_found_witness:
  "\<exists>ps. getOwnedPodsUuids (\<lambda>_. False) 0 family_db [''u1''] [] = Some (Inr ps) \<and> rr_uuid ` set ps = {''u3'', ''u4''}"
proof -
  have "acyclic_owners family_db (\<lambda>u. if u = ''u1'' then 2 else if u = ''u2'' then 1 else 0)"
    "\<forall>r\<in>set (db_resource family_db). created r \<noteq> None"
    by (simp_all add: acyclic_owners_def family_db_def)
  then obtain ps where ps: "getOwnedPodsUuids (\<lambda>_. False) 0 family_db [''u1''] [] = Some (Inr ps)"
      "set ps = {p. pod_of family_db ''u1'' p}"
    using owned_pods_found [of family_db _ "''u1''"] by blast
  have "{p. pod_of family_db ''u1'' p} = {owned_row 3 ''Pod'' ''u3'' [''u2''], owned_row 4 ''Pod'' ''u4'' [''u1'']}"
    by (rule set_eqI) (simp only: mem_Collect_eq family_pods)
  with ps show ?thesis by (intro exI [of _ ps]) simp
qed

text \<open>When an archived resource that is not a Pod lists itself as its owner, the search for
  its Pods never returns.\<close>

theorem ownership_cycle_diverges:
  assumes "own_owner db r" and "\<forall>r\<in>set (db_resource db). created r \<noteq> None"
  shows "getOwnedPodsUuids (\<lambda>_. False) 0 db [rr_uuid r] [] = None"
proof (rule ccontr)
  assume "getOwnedPodsUuids (\<lambda>_. False) 0 db [rr_uuid r] [] \<noteq> None"
  then obtain res where "getOwnedPodsUuids (\<lambda>_. False) 0 db [rr_uuid r] [] = Some res" by auto
  from getOwnedPodsUuids_cycle [OF this, of r] assms show False by simp
qed

theorem ownership_cycle_diverges_witness:
  "getOwnedPodsUuids (\<lambda>_. False) 0
     (written (sample_obj ''Job'' ''j'' ''u1'' 10) (sample_json\<lparr>jd_owners := [''u1'']\<rparr>) 20 [] empty_db) [''u1''] [] = None"
proof -
  let ?db = "written (sample_obj ''Job'' ''j'' ''u1'' 10) (sample_json\<lparr>jd_owners := [''u1'']\<rparr>) 20 [] empty_db"
  let ?r = "new_row (sample_obj ''Job'' ''j'' ''u1'' 10) (sample_json\<lparr>jd_owners := [''u1'']\<rparr>) 20 1"
  have "db_resource ?db = [?r]" by (simp add: written_def Let_def upsert_new empty_db_def find_uuid_def)
  then have "own_owner ?db ?r" "\<forall>r\<in>set (db_resource ?db). created r \<noteq> None"
    by (simp_all add: own_owner_def new_row_def created_def sample_json_def)
  from ownership_cycle_diverges [OF this] show ?thesis by simp
qed

end
