(* ===== verification/Log_Requests.thy ===== *)
theory Log_Requests
  imports Go_Url Log_Urls Reader
begin

text \<open>
  The first half of \<^verbatim>\<open>cmd/api/logging/logging.go\<close>: the configuration of the log providers, its
  validation, and the HTTP request that is built from it for one log record.

  A value of a YAML document is a string or something else, of which only its printed form and its
  JSON form are used. The YAML decoder is an argument.
\<close>

section \<open>Durations\<close>

text \<open>
  \<^verbatim>\<open>time.ParseDuration\<close>, in nanoseconds. A fraction is rounded down exactly, where Go computes it
  in floating point.
\<close>

definition duration_unit :: "string \<Rightarrow> int option" where
  "duration_unit u =
     map_of [(''ns'', 1), (''us'', 1000), ([CHR 0xC2, CHR 0xB5, CHR ''s''], 1000), ([CHR 0xCE, CHR 0xBC, CHR ''s''], 1000),
             (''ms'', 1000000), (''s'', 1000000000), (''m'', 60000000000), (''h'', 3600000000000)] u"

abbreviation is_digit :: "char \<Rightarrow> bool" where
  "is_digit c \<equiv> char_digit c \<noteq> None"

definition digits_value :: "string \<Rightarrow> int" where
  "digits_value ds = foldl (\<lambda>n c. 10 * n + (case char_digit c of None \<Rightarrow> 0 | Some d \<Rightarrow> int d)) 0 ds"

text \<open>The digits before the point, the digits after it, the unit, and the rest.\<close>

definition duration_item :: "string \<Rightarrow> string \<times> string \<times> string \<times> string" where
  "duration_item s =
     (let v = takeWhile is_digit s; r = dropWhile is_digit s;
          dot = (r \<noteq> [] \<and> hd r = CHR ''.'');
          f = (if dot then takeWhile is_digit (tl r) else []);
          r = (if dot then dropWhile is_digit (tl r) else r)
      in (v, f, takeWhile (\<lambda>c. \<not> (is_digit c \<or> c = CHR ''.'')) r, dropWhile (\<lambda>c. \<not> (is_digit c \<or> c = CHR ''.'')) r))"

fun duration_items :: "nat \<Rightarrow> int \<Rightarrow> string \<Rightarrow> int option" where
  "duration_items 0 d s = None"
| "duration_items (Suc fuel) d s =
     (if s = [] then Some d
      else case duration_item s of
             (v, f, u, rest) \<Rightarrow>
               if v = [] \<and> f = [] \<or> digits_value v > 2 ^ 63 then None
               else case duration_unit u of
                      None \<Rightarrow> None
                    | Some unit \<Rightarrow>
                        let n = digits_value v * unit + digits_value f * unit div 10 ^ length f
                        in if digits_value v > 2 ^ 63 div unit \<or> n > 2 ^ 63 \<or> d + n > 2 ^ 63 then None
                           else duration_items fuel (d + n) rest)"

text \<open>Every item takes at least one byte, so that the length of the string is enough fuel.\<close>

definition ParseDuration :: "string \<Rightarrow> int option" where
  "ParseDuration s =
     (let neg = (s \<noteq> [] \<and> hd s = CHR ''-'');
          r = (if s \<noteq> [] \<and> hd s \<in> {CHR ''-'', CHR ''+''} then tl s else s)
      in if r = ''0'' then Some 0
         else if r = [] then None
         else case duration_items (Suc (length r)) 0 r of
                None \<Rightarrow> None
              | Some d \<Rightarrow> if neg then Some (- d) else if d > 2 ^ 63 - 1 then None else Some d)"

section \<open>Configuration\<close>

datatype 'v any_value = AString string | AOther 'v

record paginationConfig =
  pc_NextCursor :: string
  pc_Param :: string
  pc_CursorIncrement :: int

record 'v apiEndpoint =
  ep_Reverse :: bool
  ep_Path :: string
  ep_Method :: string
  ep_Params :: "(string, 'v any_value) gomap"
  ep_Body :: "(string, 'v any_value) gomap"
  ep_JsonPath :: string
  ep_Pagination :: "paginationConfig option"
  ep_Timeout :: string

record 'v providerConfig =
  pv_Tail :: "'v apiEndpoint option"
  pv_Full :: "'v apiEndpoint option"

definition defaultRequestTimeout :: int where
  "defaultRequestTimeout = 60 * 1000000000"

definition requestTimeout :: "'v apiEndpoint \<Rightarrow> int" where
  "requestTimeout e =
     (if ep_Timeout e = [] then defaultRequestTimeout
      else case ParseDuration (ep_Timeout e) of None \<Rightarrow> defaultRequestTimeout | Some d \<Rightarrow> d)"

datatype config_error = PathRequired | InvalidTimeout | NextCursorRequired | ParamRequired

text \<open>The endpoint with its defaults, as the pointer receiver leaves it.\<close>

definition validate :: "'v apiEndpoint \<Rightarrow> config_error + 'v apiEndpoint" where
  "validate e =
     (if ep_Path e = [] then Inl PathRequired
      else
        let e = (if ep_Method e = [] then e\<lparr>ep_Method := ''GET''\<rparr> else e);
            e = (if ep_JsonPath e = [] then e\<lparr>ep_JsonPath := ''$.''\<rparr> else e)
        in if ep_Timeout e \<noteq> [] \<and> ParseDuration (ep_Timeout e) = None then Inl InvalidTimeout
           else case ep_Pagination e of
                  None \<Rightarrow> Inr e
                | Some p \<Rightarrow>
                    if pc_NextCursor p = [] then Inl NextCursorRequired
                    else if pc_Param p = [] then Inl ParamRequired
                    else Inr e)"

definition validate_opt :: "'v apiEndpoint option \<Rightarrow> config_error + 'v apiEndpoint option" where
  "validate_opt e =
     (case e of None \<Rightarrow> Inr None | Some e \<Rightarrow> (case validate e of Inl err \<Rightarrow> Inl err | Inr e \<Rightarrow> Inr (Some e)))"

fun validate_providers ::
    "(string, 'v providerConfig) gomap \<Rightarrow> config_error + (string, 'v providerConfig) gomap" where
  "validate_providers [] = Inr []"
| "validate_providers ((url, c) # ps) =
     (case validate_opt (pv_Full c) of
        Inl e \<Rightarrow> Inl e
      | Inr full \<Rightarrow>
          (case validate_opt (pv_Tail c) of
             Inl e \<Rightarrow> Inl e
           | Inr tail \<Rightarrow>
               (case validate_providers ps of
                  Inl e \<Rightarrow> Inl e
                | Inr ps \<Rightarrow> Inr ((url, \<lparr>pv_Tail = tail, pv_Full = full\<rparr>) # ps))))"

type_synonym all_headers = "(string, (string, string) gomap) gomap"

text \<open>Nil maps are \<open>None\<close>.\<close>

definition parseLoggingConfig ::
    "(string \<Rightarrow> all_headers option) \<Rightarrow> (string \<Rightarrow> (string, 'v providerConfig) gomap option) \<Rightarrow> dir_entry list option option
     \<Rightarrow> all_headers option \<times> (string, 'v providerConfig) gomap option" where
  "parseLoggingConfig yaml_headers yaml_providers loggingDir =
     (case getKubeArchiveLoggingConfig loggingDir of
        Inl _ \<Rightarrow> (None, None)
      | Inr conf \<Rightarrow>
          let headers = (case gomap_get conf ''HEADERS'' of
                           None \<Rightarrow> None
                         | Some y \<Rightarrow> if y \<noteq> [] then yaml_headers y else None)
          in case gomap_get conf ''LOG_PROVIDERS'' of
               None \<Rightarrow> (headers, None)
             | Some y \<Rightarrow>
                 if y = [] then (headers, None)
                 else case yaml_providers y of
                        None \<Rightarrow> (headers, None)
                      | Some ps \<Rightarrow> (case validate_providers ps of Inl _ \<Rightarrow> (None, None) | Inr ps \<Rightarrow> (headers, Some ps)))"

section \<open>Requests\<close>

definition substituteVars :: "string \<Rightarrow> logRecord \<Rightarrow> (string, string) gomap \<Rightarrow> string" where
  "substituteVars s record extraVars =
     (let s = replace_all s ''${NAMESPACE}'' (lo_Namespace record);
          s = replace_all s ''${QUERY}'' (lo_Query record);
          s = replace_all s ''${START}'' (lo_Start record);
          s = replace_all s ''${END}'' (lo_End record)
      in foldl (\<lambda>s (k, v). replace_all s (''${'' @ k @ ''}'') v) s extraVars)"

definition substituteVarsInMap ::
    "(string, 'v any_value) gomap \<Rightarrow> logRecord \<Rightarrow> (string, string) gomap \<Rightarrow> (string, 'v any_value) gomap" where
  "substituteVarsInMap m record extraVars =
     map (\<lambda>(k, v). (k, case v of AString s \<Rightarrow> AString (substituteVars s record extraVars) | AOther x \<Rightarrow> AOther x)) m"

record 'v value_formats =
  vf_ip6 :: "string \<Rightarrow> bool"
  vf_sprint :: "'v \<Rightarrow> string"
  vf_marshal :: "(string, 'v any_value) gomap \<Rightarrow> string option"

definition sprint_any :: "'v value_formats \<Rightarrow> 'v any_value \<Rightarrow> string" where
  "sprint_any vf v = (case v of AString s \<Rightarrow> s | AOther x \<Rightarrow> vf_sprint vf x)"

text \<open>One parameter: already encoded values go to the raw query, the others to the parsed one.\<close>

definition add_param :: "'v value_formats \<Rightarrow> string \<times> url_values \<Rightarrow> string \<times> 'v any_value \<Rightarrow> string \<times> url_values" where
  "add_param vf acc kv =
     (case acc of
        (raw, q) \<Rightarrow>
          let val = sprint_any vf (snd kv)
          in case QueryUnescape val of
               Some decoded \<Rightarrow>
                 if decoded \<noteq> val then ((if raw \<noteq> [] then raw @ ''&'' else raw) @ QueryEscape (fst kv) @ ''='' @ val, q)
                 else (raw, gomap_set q (fst kv) [val])
             | None \<Rightarrow> (raw, gomap_set q (fst kv) [val]))"

definition params_query :: "'v value_formats \<Rightarrow> go_url \<Rightarrow> (string, 'v any_value) gomap \<Rightarrow> string" where
  "params_query vf u params =
     (case foldl (add_param vf) (ur_RawQuery u, url_Query u) params of
        (raw, q) \<Rightarrow>
          if q \<noteq> [] then (if raw \<noteq> [] then raw @ ''&'' @ values_Encode q else values_Encode q) else raw)"

datatype build_error = BadBaseURL | BadRequestURL | HostMismatch string string | BadBody | BadRequest

definition new_request ::
    "'v value_formats \<Rightarrow> string \<Rightarrow> string \<Rightarrow> string option \<Rightarrow> build_error + http_request" where
  "new_request vf mthd url body =
     (case NewRequest (vf_ip6 vf) mthd url body of None \<Rightarrow> Inl BadRequest | Some rq \<Rightarrow> Inr rq)"

definition buildProviderRequest ::
    "'v value_formats \<Rightarrow> 'v apiEndpoint \<Rightarrow> logRecord \<Rightarrow> (string, string) gomap \<Rightarrow> build_error + http_request" where
  "buildProviderRequest vf endpoint record extraVars =
     (let path = substituteVars (ep_Path endpoint) record extraVars
      in case url_Parse (vf_ip6 vf) (lo_URL record) of
           None \<Rightarrow> Inl BadBaseURL
         | Some baseURL \<Rightarrow>
             (case url_Parse (vf_ip6 vf) (lo_URL record @ path) of
                None \<Rightarrow> Inl BadRequestURL
              | Some parsedURL \<Rightarrow>
                  if ur_Host parsedURL \<noteq> ur_Host baseURL then Inl (HostMismatch (ur_Host parsedURL) (ur_Host baseURL))
                  else
                    let requestURL = url_String parsedURL;
                        mthd = to_upper (ep_Method endpoint)
                    in if mthd = ''GET'' then
                         (if ep_Params endpoint \<noteq> [] then
                            (let params = substituteVarsInMap (ep_Params endpoint) record extraVars
                             in case url_Parse (vf_ip6 vf) requestURL of
                                  None \<Rightarrow> Inl BadRequestURL
                                | Some u \<Rightarrow>
                                    new_request vf mthd (url_String (u\<lparr>ur_RawQuery := params_query vf u params\<rparr>)) None)
                          else new_request vf mthd requestURL None)
                       else
                         (case vf_marshal vf (substituteVarsInMap (ep_Body endpoint) record extraVars) of
                            None \<Rightarrow> Inl BadBody
                          | Some body \<Rightarrow>
                              (case new_request vf mthd requestURL (Some body) of
                                 Inl e \<Rightarrow> Inl e
                               | Inr rq \<Rightarrow> Inr (rq\<lparr>hr_Header := header_set (hr_Header rq) ''Content-Type'' ''application/json''\<rparr>)))))"

definition extractBaseURL :: "(string \<Rightarrow> bool) \<Rightarrow> string \<Rightarrow> string option" where
  "extractBaseURL ip6 rawURL =
     (case url_Parse ip6 rawURL of
        None \<Rightarrow> None
      | Some u \<Rightarrow> if ur_Host u = [] then None else Some (ur_Scheme u @ ''://'' @ ur_Host u))"

section \<open>Lemmas: where requests go\<close>

text \<open>A URL that, when it can be parsed, names a host that \<open>url_Parse\<close> and \<open>url_String\<close> agree on.\<close>

definition names_host :: "(string \<Rightarrow> bool) \<Rightarrow> string \<Rightarrow> string \<Rightarrow> bool" where
  "names_host ip6 raw h \<longleftrightarrow>
     (\<forall>u. url_Parse ip6 raw = Some u \<longrightarrow> ur_Host u = h) \<and> h \<noteq> [] \<and> CHR ''['' \<notin> set (tl h)"

lemma new_request_host:
  assumes "new_request vf mthd (url_String u) body = Inr rq" "hosted u" "CHR ''['' \<notin> set (tl (ur_Host u))"
  shows "ur_Host (hr_URL rq) = removeEmptyPort (ur_Host u)"
proof -
  obtain v where "url_Parse (vf_ip6 vf) (url_String u) = Some v" "ur_Host (hr_URL rq) = removeEmptyPort (ur_Host v)"
    using assms(1) by (auto simp: new_request_def NewRequest_def Let_def split: option.splits if_splits)
  with url_String_host [OF assms(2,3)] show ?thesis by simp
qed

lemma buildProviderRequest_host:
  assumes host: "names_host (vf_ip6 vf) (lo_URL record) h"
    and built: "buildProviderRequest vf endpoint record extraVars = Inr rq"
  shows "ur_Host (hr_URL rq) = removeEmptyPort h"
proof -
  let ?path = "substituteVars (ep_Path endpoint) record extraVars"
  from host built obtain b where b: "url_Parse (vf_ip6 vf) (lo_URL record) = Some b" "ur_Host b = h" "h \<noteq> []" "CHR ''['' \<notin> set (tl h)"
    by (cases "url_Parse (vf_ip6 vf) (lo_URL record)") (auto simp: names_host_def buildProviderRequest_def Let_def)
  with built obtain p where p: "url_Parse (vf_ip6 vf) (lo_URL record @ ?path) = Some p" "ur_Host p = h"
    by (auto simp: buildProviderRequest_def Let_def split: option.splits if_splits)
  have hp: "hosted p" by (rule url_Parse_hosted [OF p(1)]) (simp add: p(2) b(3))
  have same: "ur_Host u = h \<and> hosted u" if "url_Parse (vf_ip6 vf) (url_String p) = Some u" for u
    using url_String_host [OF hp _ that] url_Parse_hosted [OF that] p(2) b(3,4) by simp
  have via: "ur_Host (hr_URL r) = removeEmptyPort h" if "new_request vf m (url_String p) bd = Inr r" for m bd r
    using new_request_host [OF that hp] p(2) b(4) by simp
  have viaq: "ur_Host (hr_URL r) = removeEmptyPort h"
    if "new_request vf m (url_String (u\<lparr>ur_RawQuery := q\<rparr>)) bd = Inr r" "url_Parse (vf_ip6 vf) (url_String p) = Some u" for m bd r u q
    using new_request_host [OF that(1)] same [OF that(2)] b(4) by simp
  show ?thesis
    using built b p via viaq
    by (auto simp: buildProviderRequest_def Let_def split: option.splits if_splits sum.splits)
qed

end
