(* ===== verification/Go_Encoding.thy ===== *)
theory Go_Encoding
  imports Prelude "HOL-Library.Monad_Syntax"
begin

text \<open>
  The two text formats the API server reads and writes: \<^verbatim>\<open>base64.StdEncoding\<close> on bytes, and the
  RFC 3339 times of Go's \<^verbatim>\<open>time.Parse(time.RFC3339, _)\<close> and \<^verbatim>\<open>Format(time.RFC3339)\<close>, with the lemmas
  that reading undoes writing.
\<close>

section \<open>Base 64\<close>

definition b64_alphabet :: string where
  "b64_alphabet = ''ABCDEFGHIJKLMNOPQRSTUVWXYZabcdefghijklmnopqrstuvwxyz0123456789+/''"

definition b64_char :: "nat \<Rightarrow> char" where
  "b64_char n = b64_alphabet ! n"

fun index_of :: "'a \<Rightarrow> 'a list \<Rightarrow> nat option" where
  "index_of x [] = None"
| "index_of x (y # ys) = (if x = y then Some 0 else map_option Suc (index_of x ys))"

definition b64_val :: "char \<Rightarrow> nat option" where
  "b64_val c = index_of c b64_alphabet"

text \<open>\<^verbatim>\<open>EncodeToString\<close>: three bytes become four digits, the last group is padded.\<close>

fun b64_encode :: "string \<Rightarrow> string" where
  "b64_encode [] = []"
| "b64_encode [x] =
     (let a = of_char x :: nat in [b64_char (a div 4), b64_char (a mod 4 * 16), CHR ''='', CHR ''=''])"
| "b64_encode [x, y] =
     (let a = of_char x :: nat; b = of_char y :: nat
      in [b64_char (a div 4), b64_char (a mod 4 * 16 + b div 16), b64_char (b mod 16 * 4), CHR ''=''])"
| "b64_encode (x # y # z # s) =
     (let a = of_char x :: nat; b = of_char y :: nat; c = of_char z :: nat
      in [b64_char (a div 4), b64_char (a mod 4 * 16 + b div 16), b64_char (b mod 16 * 4 + c div 64), b64_char (c mod 64)]
         @ b64_encode s)"

text \<open>
  \<^verbatim>\<open>DecodeString\<close>: line ends are skipped, padding may only end the text, and the unused bits of the
  last digit are not looked at.
\<close>

fun b64_groups :: "string \<Rightarrow> string option" where
  "b64_groups [] = Some []"
| "b64_groups (p # q # r # s # t) =
     do {
       a \<leftarrow> b64_val p;
       b \<leftarrow> b64_val q;
       let x = char_of (a * 4 + b div 16);
       if t = [] \<and> s = CHR ''='' then
         if r = CHR ''='' then Some [x]
         else do {
           c \<leftarrow> b64_val r;
           Some [x, char_of (b mod 16 * 16 + c div 4)]
         }
       else do {
         c \<leftarrow> b64_val r;
         d \<leftarrow> b64_val s;
         rest \<leftarrow> b64_groups t;
         Some (x # char_of (b mod 16 * 16 + c div 4) # char_of (c mod 4 * 64 + d) # rest)
       }
     }"
| "b64_groups _ = None"

definition b64_decode :: "string \<Rightarrow> string option" where
  "b64_decode s = b64_groups (filter (\<lambda>c. c \<noteq> CHR 0x0A \<and> c \<noteq> CHR 0x0D) s)"

section \<open>RFC 3339 times\<close>

text \<open>The clock reading as it is written, and the offset of its zone in minutes.\<close>

record rfc_time =
  t_year :: nat
  t_month :: nat
  t_day :: nat
  t_hour :: nat
  t_minute :: nat
  t_second :: nat
  t_nanos :: nat
  t_offset :: int

definition leap_year :: "nat \<Rightarrow> bool" where
  "leap_year y \<longleftrightarrow> 4 dvd y \<and> (\<not> 100 dvd y \<or> 400 dvd y)"

definition days_in :: "nat \<Rightarrow> nat \<Rightarrow> nat" where
  "days_in m y = (if m = 2 then if leap_year y then 29 else 28 else if m \<in> {4, 6, 9, 11} then 30 else 31)"

definition guard :: "bool \<Rightarrow> unit option" where
  "guard b = (if b then Some () else None)"

text \<open>\<^verbatim>\<open>getnum\<close>: two digits, or one where the format allows it.\<close>

fun getnum :: "bool \<Rightarrow> string \<Rightarrow> (nat \<times> string) option" where
  "getnum fixed [] = None"
| "getnum fixed (c # s) =
     do {
       d \<leftarrow> char_digit c;
       case s of
         [] \<Rightarrow> if fixed then None else Some (d, s)
       | c' # s' \<Rightarrow> (case char_digit c' of
           None \<Rightarrow> if fixed then None else Some (d, s)
         | Some d' \<Rightarrow> Some (d * 10 + d', s'))
     }"

definition getyear :: "string \<Rightarrow> (nat \<times> string) option" where
  "getyear s =
     do {
       (a, s1) \<leftarrow> getnum True s;
       (b, s2) \<leftarrow> getnum True s1;
       Some (a * 100 + b, s2)
     }"

fun expect :: "char \<Rightarrow> string \<Rightarrow> string option" where
  "expect c [] = None"
| "expect c (x # s) = (if x = c then Some s else None)"

text \<open>A fraction of a second is read although the layout has none; nine digits of it count.\<close>

definition nanos :: "string \<Rightarrow> nat" where
  "nanos ds = (let ds = take 9 ds in the (read_digits 0 ds) * 10 ^ (9 - length ds))"

definition getfraction :: "string \<Rightarrow> nat \<times> string" where
  "getfraction s =
     (case s of
        c # d # r \<Rightarrow>
          if (c = CHR ''.'' \<or> c = CHR '','') \<and> char_digit d \<noteq> None
          then (let ds = takeWhile (\<lambda>x. char_digit x \<noteq> None) (d # r)
                in (nanos ds, dropWhile (\<lambda>x. char_digit x \<noteq> None) (d # r)))
          else (0, s)
      | _ \<Rightarrow> (0, s))"

definition getzone :: "string \<Rightarrow> (int \<times> string) option" where
  "getzone s =
     (case s of
        [] \<Rightarrow> None
      | c # r \<Rightarrow>
          if c = CHR ''Z'' then Some (0, r)
          else do {
            (h, r1) \<leftarrow> getnum True r;
            r2 \<leftarrow> expect (CHR '':'') r1;
            (m, r3) \<leftarrow> getnum True r2;
            guard (h \<le> 24 \<and> m \<le> 60);
            if c = CHR ''+'' then Some (int (h * 60 + m), r3)
            else if c = CHR ''-'' then Some (- int (h * 60 + m), r3)
            else None
          })"

definition rfc_parse :: "string \<Rightarrow> rfc_time option" where
  "rfc_parse s =
     do {
       (year, s) \<leftarrow> getyear s;
       s \<leftarrow> expect (CHR ''-'') s;
       (month, s) \<leftarrow> getnum True s;
       guard (1 \<le> month \<and> month \<le> 12);
       s \<leftarrow> expect (CHR ''-'') s;
       (day, s) \<leftarrow> getnum True s;
       s \<leftarrow> expect (CHR ''T'') s;
       (hour, s) \<leftarrow> getnum False s;
       guard (hour < 24);
       s \<leftarrow> expect (CHR '':'') s;
       (minute, s) \<leftarrow> getnum True s;
       guard (minute < 60);
       s \<leftarrow> expect (CHR '':'') s;
       (second, s) \<leftarrow> getnum True s;
       guard (second < 60);
       let (nsec, s) = getfraction s;
       (offset, s) \<leftarrow> getzone s;
       guard (s = [] \<and> 1 \<le> day \<and> day \<le> days_in month year);
       Some \<lparr>t_year = year, t_month = month, t_day = day, t_hour = hour, t_minute = minute, t_second = second,
             t_nanos = nsec, t_offset = offset\<rparr>
     }"

definition pad2 :: "nat \<Rightarrow> string" where
  "pad2 n = [digit_char (n div 10), digit_char (n mod 10)]"

definition zone_text :: "int \<Rightarrow> string" where
  "zone_text off =
     (if off = 0 then ''Z''
      else (if off < 0 then CHR ''-'' else CHR ''+'') # pad2 (nat \<bar>off\<bar> div 60) @ '':'' @ pad2 (nat \<bar>off\<bar> mod 60))"

definition rfc_format :: "rfc_time \<Rightarrow> string" where
  "rfc_format t =
     pad2 (t_year t div 100) @ pad2 (t_year t mod 100) @ ''-'' @ pad2 (t_month t) @ ''-'' @ pad2 (t_day t) @ ''T''
     @ pad2 (t_hour t) @ '':'' @ pad2 (t_minute t) @ '':'' @ pad2 (t_second t) @ zone_text (t_offset t)"

text \<open>The instant in nanoseconds since 0000-03-01, by which \<^verbatim>\<open>Before\<close> and \<^verbatim>\<open>Equal\<close> compare times.\<close>

definition day_number :: "nat \<Rightarrow> nat \<Rightarrow> nat \<Rightarrow> int" where
  "day_number y m d =
     (let y' = int y - (if m \<le> 2 then 1 else 0); m' = (int m + 9) mod 12
      in 365 * y' + y' div 4 - y' div 100 + y' div 400 + (153 * m' + 2) div 5 + int d - 1)"

definition instant :: "rfc_time \<Rightarrow> int" where
  "instant t =
     ((((day_number (t_year t) (t_month t) (t_day t) * 24 + int (t_hour t)) * 60 + int (t_minute t)) - t_offset t) * 60
       + int (t_second t)) * 10 ^ 9 + int (t_nanos t)"

text \<open>What the parser produces, and what can be written so that it is read again.\<close>

definition rfc_valid :: "rfc_time \<Rightarrow> bool" where
  "rfc_valid t \<longleftrightarrow> t_year t < 10000 \<and> 1 \<le> t_month t \<and> t_month t \<le> 12 \<and> 1 \<le> t_day t \<and> t_day t \<le> days_in (t_month t) (t_year t)
     \<and> t_hour t < 24 \<and> t_minute t < 60 \<and> t_second t < 60 \<and> \<bar>t_offset t\<bar> < 25 * 60"

section \<open>Lemmas: base 64\<close>

lemma index_of_nth: "distinct xs \<Longrightarrow> n < length xs \<Longrightarrow> index_of (xs ! n) xs = Some n"
proof (induction xs arbitrary: n)
  case (Cons x xs)
  then show ?case by (cases n) auto
qed simp

lemma b64_val_char [simp]: "n < 64 \<Longrightarrow> b64_val (b64_char n) = Some n"
  unfolding b64_val_def b64_char_def by (rule index_of_nth) (simp_all add: b64_alphabet_def)

lemma b64_char_mem: "n < 64 \<Longrightarrow> b64_char n \<in> set b64_alphabet"
  unfolding b64_char_def by (rule nth_mem) (simp add: b64_alphabet_def)

lemma b64_char_plain [simp]:
  "n < 64 \<Longrightarrow> b64_char n \<noteq> CHR ''=''" "n < 64 \<Longrightarrow> b64_char n \<noteq> CHR 0x0A" "n < 64 \<Longrightarrow> b64_char n \<noteq> CHR 0x0D"
  using b64_char_mem [of n] by (auto simp: b64_alphabet_def)

lemma b64_digits:
  fixes a b c :: nat
  shows "a < 256 \<Longrightarrow> a div 4 < 64" "b < 256 \<Longrightarrow> a mod 4 * 16 + b div 16 < 64" "c < 256 \<Longrightarrow> b mod 16 * 4 + c div 64 < 64"
    "a mod 4 * 16 < 64" "b mod 16 * 4 < 64"
proof -
  have "a mod 4 < 4" "b mod 16 < 16" by simp_all
  moreover have "a < 256 \<Longrightarrow> a div 4 < 64" "b < 256 \<Longrightarrow> b div 16 < 16" "c < 256 \<Longrightarrow> c div 64 < 4" by simp_all
  ultimately show "a < 256 \<Longrightarrow> a div 4 < 64" "b < 256 \<Longrightarrow> a mod 4 * 16 + b div 16 < 64"
    "c < 256 \<Longrightarrow> b mod 16 * 4 + c div 64 < 64" "a mod 4 * 16 < 64" "b mod 16 * 4 < 64" by linarith+
qed

lemma b64_high_bits:
  fixes b c :: nat
  shows "b < 256 \<Longrightarrow> b div 16 div 16 = 0" "b < 256 \<Longrightarrow> b div 16 mod 16 = b div 16"
    "c < 256 \<Longrightarrow> c div 64 div 4 = 0" "c < 256 \<Longrightarrow> c div 64 mod 4 = c div 64"
  by simp_all

lemmas b64_bits = b64_digits b64_high_bits

lemma b64_encode_plain: "c \<in> set (b64_encode s) \<Longrightarrow> c \<noteq> CHR 0x0A \<and> c \<noteq> CHR 0x0D"
  by (induction s rule: b64_encode.induct) (auto simp: Let_def b64_bits)

lemma b64_groups_encode: "b64_groups (b64_encode s) = Some s"
  by (induction s rule: b64_encode.induct) (simp_all add: Let_def b64_bits)

lemma b64_decode_encode [simp]: "b64_decode (b64_encode s) = Some s"
proof -
  have "filter (\<lambda>c. c \<noteq> CHR 0x0A \<and> c \<noteq> CHR 0x0D) (b64_encode s) = b64_encode s"
    by (rule filter_True) (auto dest: b64_encode_plain)
  then show ?thesis by (simp add: b64_decode_def b64_groups_encode)
qed

lemma b64_encode_Nil [simp]: "b64_encode s = [] \<longleftrightarrow> s = []"
  by (cases s rule: b64_encode.cases) (simp_all add: Let_def)

section \<open>Lemmas: times\<close>

lemma guard_simps [simp]: "guard True = Some ()" "guard False = None"
  by (simp_all add: guard_def)

lemma getnum_pad2 [simp]: "n < 100 \<Longrightarrow> getnum fixed (pad2 n @ s) = Some (n, s)"
  by (simp add: pad2_def)

lemma getyear_pad2 [simp]: "y < 10000 \<Longrightarrow> getyear (pad2 (y div 100) @ pad2 (y mod 100) @ s) = Some (y, s)"
  by (simp add: getyear_def)

lemma getfraction_zone [simp]: "getfraction (zone_text off) = (0, zone_text off)"
  by (auto simp: zone_text_def getfraction_def pad2_def)

lemma getzone_text [simp]:
  assumes "\<bar>off\<bar> < 25 * 60"
  shows "getzone (zone_text off) = Some (off, [])"
proof (cases "off = 0")
  case False
  let ?n = "nat \<bar>off\<bar>"
  have n: "?n div 60 < 25" "?n div 60 * 60 + ?n mod 60 = ?n" using assms by auto
  have "getnum True (pad2 (?n mod 60)) = Some (?n mod 60, [])" using getnum_pad2 [of "?n mod 60" True "[]"] by simp
  with n False show ?thesis by (simp add: zone_text_def getzone_def)
qed (simp add: zone_text_def getzone_def)

lemma days_in_le: "days_in m y \<le> 31"
  by (simp add: days_in_def)

text \<open>Reading what was written gives the time without its fraction of a second.\<close>

lemma rfc_parse_format: "rfc_valid t \<Longrightarrow> rfc_parse (rfc_format t) = Some (t\<lparr>t_nanos := 0\<rparr>)"
  using days_in_le [of "t_month t" "t_year t"]
  by (simp add: rfc_valid_def rfc_parse_def rfc_format_def)

lemma char_digit_range: "char_digit c = Some d \<Longrightarrow> d < 10"
  by (auto simp: char_digit_def Let_def split: if_splits)

lemma getnum_range:
  assumes "getnum f s = Some (n, s')"
  shows "n < 100"
proof (cases s)
  case (Cons c r)
  with assms obtain d where d: "char_digit c = Some d" by (auto simp: bind_eq_Some_conv)
  show ?thesis
  proof (cases r)
    case Nil
    with Cons d assms char_digit_range [OF d] show ?thesis by (auto split: if_split_asm)
  next
    case (Cons c' r')
    with \<open>s = c # r\<close> d assms char_digit_range [OF d] show ?thesis
      by (cases "char_digit c'") (auto split: if_split_asm dest: char_digit_range)
  qed
qed (use assms in simp)

lemma getyear_range: "getyear s = Some (y, s') \<Longrightarrow> y < 10000"
  by (auto simp: getyear_def bind_eq_Some_conv dest!: getnum_range)

lemma getzone_range: "getzone s = Some (off, s') \<Longrightarrow> \<bar>off\<bar> \<le> 25 * 60"
  by (auto simp: getzone_def guard_def bind_eq_Some_conv split: list.splits if_splits)

text \<open>Everything the parser accepts is a valid time, but for the offset of 24 hours and 60 minutes.\<close>

lemma rfc_parse_valid:
  assumes "rfc_parse s = Some t" and "\<bar>t_offset t\<bar> \<noteq> 25 * 60"
  shows "rfc_valid t"
proof -
  from assms(1) show ?thesis
    using assms(2) getyear_range [of s] getzone_range
    by (fastforce simp: rfc_parse_def rfc_valid_def guard_def bind_eq_Some_conv Let_def split_beta split: if_split_asm)
qed

text \<open>A time the API server of Kubernetes writes: UTC, without a fraction.\<close>

definition utc_stamp :: "string \<Rightarrow> bool" where
  "utc_stamp s \<longleftrightarrow> (case rfc_parse s of None \<Rightarrow> False | Some t \<Rightarrow> t_offset t = 0 \<and> rfc_format t = s)"

lemma utc_stamp_parse: "utc_stamp s \<Longrightarrow> \<exists>t. rfc_parse s = Some t \<and> rfc_format t = s"
  by (auto simp: utc_stamp_def split: option.splits)

end
