(* ===== verification/Api_Auth.thy ===== *)
theory Api_Auth
  imports Prelude
begin

text \<open>
  Who may read the archive: the cache of \<^verbatim>\<open>pkg/cache\<close>, the authentication, impersonation and
  authorization middleware of \<^verbatim>\<open>cmd/api/auth\<close>, and the discovery middleware of
  \<^verbatim>\<open>cmd/api/discovery\<close>, which share one cache.

  The environment holds what the server asks others for: the clock, the hash, the reviews of the
  Kubernetes API, its discovery, and the functions of the Kubernetes libraries. The state has a
  counter of \<^emph>\<open>moments\<close> that moves on at every clock read and at every call to the Kubernetes API,
  so that each of them may answer differently every time. Requests are served one after the other.
\<close>

section \<open>Data\<close>

record userInfo =
  ui_Name :: string
  ui_UID :: string
  ui_Groups :: "string list"
  ui_Extra :: "(string, string list) gomap"

datatype cacheValue = CBool bool | CUser userInfo | CString string

record cacheEntry =
  ce_value :: cacheValue
  ce_expiration :: int

record resourceAttributes =
  ra_Namespace :: string
  ra_Verb :: string
  ra_Group :: string
  ra_Version :: string
  ra_Resource :: string
  ra_Subresource :: string
  ra_Name :: string

record sarSpec =
  ss_User :: string
  ss_UID :: string
  ss_Groups :: "string list"
  ss_Extra :: "(string, string list) gomap"
  ss_ResourceAttributes :: resourceAttributes

datatype token_answer = TokenReviewFailed | NotAuthenticated | Authenticated userInfo

datatype sar_answer = SarFailed | SarAllowed bool

text \<open>A refused discovery request has a status; otherwise the names and kinds, when they can be decoded.\<close>

datatype discovery_answer = DiscoveryFailed int | Undecodable | APIResources "(string \<times> string) list"

record api_env =
  ev_now :: "nat \<Rightarrow> int"
  ev_sha256 :: "string \<Rightarrow> string"
  ev_tokenReview :: "nat \<Rightarrow> string \<Rightarrow> token_answer"
  ev_accessReview :: "nat \<Rightarrow> sarSpec \<Rightarrow> sar_answer"
  ev_discovery :: "nat \<Rightarrow> string \<Rightarrow> discovery_answer"
  ev_sarString :: "sarSpec \<Rightarrow> string"
  ev_splitUsername :: "string \<Rightarrow> (string \<times> string) option"
  ev_makeGroupNames :: "string \<Rightarrow> string list"
  ev_impersonate :: string
  ev_expireAuthorized :: int
  ev_expireUnauthorized :: int

record api_state =
  as_items :: "(string, cacheEntry) gomap"
  as_moment :: nat

record request =
  rq_path :: string
  rq_headers :: "(string, string list) gomap"
  rq_params :: "(string, string) gomap"
  rq_query :: "(string, string) gomap"

record request_context =
  cx_user :: "cacheValue option"
  cx_kind :: "cacheValue option"

datatype server_error =
    EmptyBearerToken | MalformedAuthorization nat | AuthenticationFailed | TokenReviewError
  | UserNotFound | UnexpectedUserType | Unauthorized | AccessReviewError | NoImpersonationData | ImpersonateUserRequired
  | CannotImpersonate | DiscoveryError | DeserializeError | NoSuchAPIResource
  | ErrBadLimit | ErrBadContinue | WildcardInPath | TwoNames | BadSelector | BadLabelFilter | NotFound
  | BadTimestamp | EmptyInterval | DatabaseError | MoreThanOne
  | NoLogLink | NoLogProvider | TailUnsupported | NoLogEndpoint | BadJsonPath | ProviderRequestError | ProviderUnreachable
  | ProviderStatus int | LogReadError | BadLogLine | NoLogsFound

type_synonym abort_reply = "int \<times> server_error"

definition tick :: "api_state \<Rightarrow> api_state" where
  "tick st = st\<lparr>as_moment := Suc (as_moment st)\<rparr>"

section \<open>Cache\<close>

abbreviation second_ns :: int where
  "second_ns \<equiv> 1000000000"

definition Cache_Set :: "api_env \<Rightarrow> string \<Rightarrow> cacheValue \<Rightarrow> int \<Rightarrow> api_state \<Rightarrow> api_state" where
  "Cache_Set env key v duration st =
     tick (st\<lparr>as_items := gomap_set (as_items st) (ev_sha256 env key)
            \<lparr>ce_value = v, ce_expiration = (ev_now env (as_moment st) + duration) div second_ns\<rparr>\<rparr>)"

definition Cache_Get :: "api_env \<Rightarrow> string \<Rightarrow> api_state \<Rightarrow> cacheValue option \<times> api_state" where
  "Cache_Get env key st =
     ((case gomap_get (as_items st) (ev_sha256 env key) of
         None \<Rightarrow> None
       | Some e \<Rightarrow> if ce_expiration e < ev_now env (as_moment st) div second_ns then None else Some (ce_value e)),
      tick st)"

section \<open>Authentication\<close>

definition header_get :: "(string, string list) gomap \<Rightarrow> string \<Rightarrow> string" where
  "header_get hs k = (case gomap_get hs k of Some (v # _) \<Rightarrow> v | _ \<Rightarrow> [])"

definition header_values :: "(string, string list) gomap \<Rightarrow> string \<Rightarrow> string list" where
  "header_values hs k = gomap_get0 [] hs k"

definition param :: "request \<Rightarrow> string \<Rightarrow> string" where
  "param rq k = gomap_get0 [] (rq_params rq) k"

definition newDefaultInfoFromAuthN :: "userInfo \<Rightarrow> userInfo" where
  "newDefaultInfoFromAuthN info =
     \<lparr>ui_Name = ui_Name info, ui_UID = ui_UID info, ui_Groups = ui_Groups info, ui_Extra = ui_Extra info\<rparr>"

definition extractBearerToken :: "string \<Rightarrow> server_error + string" where
  "extractBearerToken header =
     (if header = [] then Inl EmptyBearerToken
      else let jwtToken = split_on (CHR '' '') header
           in if length jwtToken \<noteq> 2 then Inl (MalformedAuthorization (length jwtToken))
              else Inr (jwtToken ! 1))"

definition Authentication ::
    "api_env \<Rightarrow> request \<Rightarrow> request_context \<Rightarrow> api_state \<Rightarrow> (abort_reply + request_context) \<times> api_state" where
  "Authentication env rq cx st =
     (case extractBearerToken (header_get (rq_headers rq) ''Authorization'') of
        Inl e \<Rightarrow> (Inl (400, e), st)
      | Inr token \<Rightarrow>
          (case Cache_Get env token st of
             (Some v, st) \<Rightarrow>
               if v = CBool False then (Inl (401, AuthenticationFailed), st)
               else (Inr (cx\<lparr>cx_user := Some v\<rparr>), st)
           | (None, st) \<Rightarrow>
               (case ev_tokenReview env (as_moment st) token of
                  TokenReviewFailed \<Rightarrow> (Inl (500, TokenReviewError), tick st)
                | NotAuthenticated \<Rightarrow>
                    (Inl (401, AuthenticationFailed), Cache_Set env token (CBool False) (ev_expireUnauthorized env) (tick st))
                | Authenticated info \<Rightarrow>
                    let v = CUser (newDefaultInfoFromAuthN info)
                    in (Inr (cx\<lparr>cx_user := Some v\<rparr>), Cache_Set env token v (ev_expireAuthorized env) (tick st)))))"

section \<open>Access reviews\<close>

definition sar_spec :: "userInfo \<Rightarrow> resourceAttributes \<Rightarrow> sarSpec" where
  "sar_spec u a = \<lparr>ss_User = ui_Name u, ss_UID = ui_UID u, ss_Groups = ui_Groups u, ss_Extra = ui_Extra u, ss_ResourceAttributes = a\<rparr>"

fun sar_loop :: "api_env \<Rightarrow> userInfo \<Rightarrow> resourceAttributes list \<Rightarrow> api_state \<Rightarrow> server_error option \<times> api_state" where
  "sar_loop env u [] st = (None, st)"
| "sar_loop env u (a # as) st =
     (let key = ev_sarString env (sar_spec u a)
      in case Cache_Get env key st of
           (Some allowed, st) \<Rightarrow> if allowed \<noteq> CBool True then (Some Unauthorized, st) else sar_loop env u as st
         | (None, st) \<Rightarrow>
             (case ev_accessReview env (as_moment st) (sar_spec u a) of
                SarFailed \<Rightarrow> (Some AccessReviewError, tick st)
              | SarAllowed allowed \<Rightarrow>
                  let st = Cache_Set env key (CBool allowed) (ev_expireAuthorized env) (tick st)
                  in if \<not> allowed
                     then (Some Unauthorized, Cache_Set env key (CBool allowed) (ev_expireUnauthorized env) st)
                     else sar_loop env u as st))"

text \<open>A nil slice of attributes is \<open>None\<close>.\<close>

definition doSarRequests ::
    "api_env \<Rightarrow> userInfo \<Rightarrow> resourceAttributes list option \<Rightarrow> api_state \<Rightarrow> server_error option \<times> api_state" where
  "doSarRequests env u as st =
     (case as of None \<Rightarrow> (Some NoImpersonationData, st) | Some as \<Rightarrow> sar_loop env u as st)"

section \<open>Impersonation\<close>

definition no_attributes :: resourceAttributes where
  "no_attributes = \<lparr>ra_Namespace = [], ra_Verb = [], ra_Group = [], ra_Version = [], ra_Resource = [], ra_Subresource = [], ra_Name = []\<rparr>"

definition imp_attributes :: "string \<Rightarrow> string \<Rightarrow> resourceAttributes" where
  "imp_attributes res name = no_attributes\<lparr>ra_Name := name, ra_Resource := res, ra_Verb := ''impersonate''\<rparr>"

text \<open>The attributes to review, the name and the namespace of a service account.\<close>

definition parseUser ::
    "api_env \<Rightarrow> (string, string list) gomap \<Rightarrow> resourceAttributes option \<times> string \<times> string" where
  "parseUser env hs =
     (let user = header_get hs ''Impersonate-User''
      in if user = [] then (None, [], [])
         else case ev_splitUsername env user of
                Some (namespace, _) \<Rightarrow>
                  (Some ((imp_attributes ''serviceaccounts'' user)\<lparr>ra_Namespace := namespace\<rparr>), user, namespace)
              | None \<Rightarrow> (Some (imp_attributes ''users'' user), user, []))"

definition parseGroups :: "(string, string list) gomap \<Rightarrow> resourceAttributes list \<times> string list" where
  "parseGroups hs =
     (let groups = header_values hs ''Impersonate-Group'' in (map (imp_attributes ''groups'') groups, groups))"

definition parseUID :: "(string, string list) gomap \<Rightarrow> resourceAttributes option \<times> string" where
  "parseUID hs =
     (let uid = header_get hs ''Impersonate-Uid''
      in if uid = [] then (None, [])
         else (Some ((imp_attributes ''uids'' uid)\<lparr>ra_Group := ''authentication.k8s.io''\<rparr>), uid))"

text \<open>\<^verbatim>\<open>url.PathUnescape\<close>: an incomplete escape is an error.\<close>

fun path_unescape :: "string \<Rightarrow> string option" where
  "path_unescape [] = Some []"
| "path_unescape (c # s) =
     (if c = CHR ''%'' then
        (case s of
           a # b # r \<Rightarrow>
             (case (hex_digit a, hex_digit b) of
                (Some x, Some y) \<Rightarrow> map_option (\<lambda>t. char_of (x * 16 + y) # t) (path_unescape r)
              | _ \<Rightarrow> None)
         | _ \<Rightarrow> None)
      else map_option (\<lambda>t. c # t) (path_unescape s))"

definition extraPrefix :: string where
  "extraPrefix = ''Impersonate-Extra-''"

definition extra_key :: "string \<Rightarrow> string" where
  "extra_key headerKey =
     (let encodedKey = drop (length extraPrefix) headerKey
      in case path_unescape encodedKey of None \<Rightarrow> encodedKey | Some key \<Rightarrow> key)"

definition extra_attributes :: "string \<Rightarrow> string \<Rightarrow> resourceAttributes" where
  "extra_attributes key v =
     (imp_attributes ''userextras'' v)\<lparr>ra_Group := ''authentication.k8s.io'', ra_Subresource := key\<rparr>"

definition add_extra ::
    "string \<Rightarrow> resourceAttributes list \<times> (string, string list) gomap \<Rightarrow> string \<Rightarrow> resourceAttributes list \<times> (string, string list) gomap" where
  "add_extra key acc v =
     (fst acc @ [extra_attributes key v], gomap_set (snd acc) key (gomap_get0 [] (snd acc) key @ [v]))"

definition parseExtras ::
    "(string, string list) gomap \<Rightarrow> resourceAttributes list \<times> (string, string list) gomap" where
  "parseExtras hs =
     foldl (\<lambda>acc (headerKey, headerValues).
         if has_prefix headerKey extraPrefix then foldl (add_extra (extra_key headerKey)) acc headerValues else acc)
       ([], []) hs"

definition newImpersonatedData ::
    "api_env \<Rightarrow> (string, string list) gomap \<Rightarrow> server_error + resourceAttributes list \<times> userInfo" where
  "newImpersonatedData env hs =
     (let (userAtt, user, namespace) = parseUser env hs;
          (groupAtts, groups) = parseGroups hs;
          (uidAtt, uid) = parseUID hs;
          (extraAtts, extras) = parseExtras hs;
          atts = (case userAtt of None \<Rightarrow> [] | Some a \<Rightarrow> [a]) @ (if groups \<noteq> [] then groupAtts else [])
             @ (case uidAtt of None \<Rightarrow> [] | Some a \<Rightarrow> [a]) @ (if extras \<noteq> [] then extraAtts else []);
          groups0 = (if groups \<noteq> [] then groups else if namespace \<noteq> [] then ev_makeGroupNames env namespace else [])
      in if user = [] then
           Inl (if groups \<noteq> [] \<or> uid \<noteq> [] \<or> extras \<noteq> [] then ImpersonateUserRequired else NoImpersonationData)
         else
           let implied = (if user \<noteq> ''system:anonymous'' then ''system:authenticated'' else ''system:unauthenticated'');
               groups1 = (if implied \<notin> set groups then groups0 @ [implied] else groups0)
           in Inr (atts, \<lparr>ui_Name = user, ui_UID = uid, ui_Groups = groups1, ui_Extra = extras\<rparr>))"

definition Impersonation ::
    "api_env \<Rightarrow> request \<Rightarrow> request_context \<Rightarrow> api_state \<Rightarrow> (abort_reply + request_context) \<times> api_state" where
  "Impersonation env rq cx st =
     (if ev_impersonate env \<noteq> ''true'' then (Inr cx, st)
      else case newImpersonatedData env (rq_headers rq) of
             Inl e \<Rightarrow> if e \<noteq> NoImpersonationData then (Inl (400, e), st) else (Inr cx, st)
           | Inr (atts, info) \<Rightarrow>
               (case cx_user cx of
                  None \<Rightarrow> (Inl (500, UserNotFound), st)
                | Some (CUser requester) \<Rightarrow>
                    (case doSarRequests env requester (Some atts) st of
                       (Some _, st) \<Rightarrow> (Inl (401, CannotImpersonate), st)
                     | (None, st) \<Rightarrow> (Inr (cx\<lparr>cx_user := Some (CUser info)\<rparr>), st))
                | Some _ \<Rightarrow> (Inl (500, UnexpectedUserType), st)))"

section \<open>Discovery\<close>

definition getDiscoveryURL :: "string \<Rightarrow> string \<Rightarrow> string" where
  "getDiscoveryURL gr version =
     (if gr \<noteq> [] then ''/apis/'' @ gr @ ''/'' @ version else ''/api/'' @ version)"

definition cacheExpirationTime :: int where
  "cacheExpirationTime = 10 * 60 * second_ns"

definition GetAPIResource ::
    "api_env \<Rightarrow> request \<Rightarrow> request_context \<Rightarrow> api_state \<Rightarrow> (abort_reply + request_context) \<times> api_state" where
  "GetAPIResource env rq cx st =
     (let resourceName = param rq ''resourceType''
      in case Cache_Get env resourceName st of
           (Some kind, st) \<Rightarrow> (Inr (cx\<lparr>cx_kind := Some kind\<rparr>), st)
         | (None, st) \<Rightarrow>
             (case ev_discovery env (as_moment st) (getDiscoveryURL (param rq ''group'') (param rq ''version'')) of
                DiscoveryFailed status \<Rightarrow> (Inl (status, DiscoveryError), tick st)
              | Undecodable \<Rightarrow> (Inl (500, DeserializeError), tick st)
              | APIResources resources \<Rightarrow>
                  (case List.find (\<lambda>r. fst r = resourceName) resources of
                     Some (_, kind) \<Rightarrow>
                       (Inr (cx\<lparr>cx_kind := Some (CString kind)\<rparr>),
                        Cache_Set env resourceName (CString kind) cacheExpirationTime (tick st))
                   | None \<Rightarrow> (Inl (404, NoSuchAPIResource), tick st))))"

definition GetAPIResourceKind :: "request_context \<Rightarrow> string option" where
  "GetAPIResourceKind cx =
     (case cx_kind cx of Some (CString kind) \<Rightarrow> if kind = [] then None else Some kind | _ \<Rightarrow> None)"

section \<open>Authorization\<close>

definition rbac_attributes :: "request \<Rightarrow> resourceAttributes list" where
  "rbac_attributes rq =
     [\<lparr>ra_Namespace = param rq ''namespace'', ra_Verb = (if param rq ''name'' \<noteq> [] then ''get'' else ''list''),
       ra_Group = param rq ''group'', ra_Version = param rq ''version'', ra_Resource = param rq ''resourceType'',
       ra_Subresource = [], ra_Name = param rq ''name''\<rparr>]
     @ (if has_suffix (rq_path rq) ''/log''
        then [no_attributes\<lparr>ra_Namespace := param rq ''namespace'', ra_Version := ''v1'', ra_Resource := ''pods/log'', ra_Verb := ''get''\<rparr>]
        else [])"

definition RBACAuthorization ::
    "api_env \<Rightarrow> request \<Rightarrow> request_context \<Rightarrow> api_state \<Rightarrow> (abort_reply + request_context) \<times> api_state" where
  "RBACAuthorization env rq cx st =
     (case cx_user cx of
        None \<Rightarrow> (Inl (500, UserNotFound), st)
      | Some (CUser info) \<Rightarrow>
          (case doSarRequests env info (Some (rbac_attributes rq)) st of
             (Some e, st) \<Rightarrow> (Inl (if e = Unauthorized then 401 else 500, e), st)
           | (None, st) \<Rightarrow> (Inr cx, st))
      | Some _ \<Rightarrow> (Inl (500, UnexpectedUserType), st))"

text \<open>The middleware of a group of routes runs in the order in which \<^verbatim>\<open>NewServer\<close> adds it, up to an abort.\<close>

definition next_handler ::
    "(abort_reply + request_context) \<times> api_state \<Rightarrow>
     (request_context \<Rightarrow> api_state \<Rightarrow> (abort_reply + request_context) \<times> api_state) \<Rightarrow>
     (abort_reply + request_context) \<times> api_state" where
  "next_handler r h = (case r of (Inl e, st) \<Rightarrow> (Inl e, st) | (Inr cx, st) \<Rightarrow> h cx st)"

definition access_gates :: "api_env \<Rightarrow> request \<Rightarrow> api_state \<Rightarrow> (abort_reply + request_context) \<times> api_state" where
  "access_gates env rq st =
     next_handler (next_handler (next_handler
       (Authentication env rq \<lparr>cx_user = None, cx_kind = None\<rparr> st)
       (Impersonation env rq)) (GetAPIResource env rq)) (RBACAuthorization env rq)"

end
