(* ===== verification/Api_Access.thy ===== *)
theory Api_Access
  imports Api_Auth
begin

text \<open>
  What the access middleware guarantees. The invariant \<open>justified\<close> says where every entry of the
  shared cache comes from; every operation on the cache keeps it, and with it a request that
  passes the middleware has been authenticated and allowed by the Kubernetes API, in this request
  or within the time an answer is kept.

  Two keys are told apart by their hash only, and a review by the text of its specification, so
  that the statements speak of a review with the same key.
\<close>

section \<open>Where cache entries come from\<close>

definition token_vouched :: "api_env \<Rightarrow> nat \<Rightarrow> string \<Rightarrow> userInfo \<Rightarrow> bool" where
  "token_vouched env m h u \<longleftrightarrow>
     (\<exists>tok info. ev_sha256 env tok = h \<and> ev_tokenReview env m tok = Authenticated info \<and> u = newDefaultInfoFromAuthN info)"

definition access_vouched :: "api_env \<Rightarrow> nat \<Rightarrow> string \<Rightarrow> bool" where
  "access_vouched env m h \<longleftrightarrow>
     (\<exists>spec. ev_sha256 env (ev_sarString env spec) = h \<and> ev_accessReview env m spec = SarAllowed True)"

definition kind_vouched :: "api_env \<Rightarrow> nat \<Rightarrow> string \<Rightarrow> string \<Rightarrow> bool" where
  "kind_vouched env m h k \<longleftrightarrow>
     (\<exists>url rs name. ev_discovery env m url = APIResources rs \<and> (name, k) \<in> set rs \<and> ev_sha256 env name = h)"

definition stored_at :: "api_env \<Rightarrow> nat \<Rightarrow> int \<Rightarrow> cacheEntry \<Rightarrow> bool" where
  "stored_at env m d e \<longleftrightarrow> ce_expiration e = (ev_now env (Suc m) + d) div second_ns"

fun entry_justified :: "api_env \<Rightarrow> nat \<Rightarrow> string \<Rightarrow> cacheEntry \<Rightarrow> cacheValue \<Rightarrow> bool" where
  "entry_justified env n h e (CBool b) =
     (b \<longrightarrow> (\<exists>m<n. access_vouched env m h \<and> stored_at env m (ev_expireAuthorized env) e))"
| "entry_justified env n h e (CUser u) =
     (\<exists>m<n. token_vouched env m h u \<and> stored_at env m (ev_expireAuthorized env) e)"
| "entry_justified env n h e (CString k) =
     (\<exists>m<n. kind_vouched env m h k \<and> stored_at env m cacheExpirationTime e)"

definition justified :: "api_env \<Rightarrow> api_state \<Rightarrow> bool" where
  "justified env st \<longleftrightarrow>
     (\<forall>h e. gomap_get (as_items st) h = Some e \<longrightarrow> entry_justified env (as_moment st) h e (ce_value e))"

lemma entry_justified_mono: "entry_justified env n h e v \<Longrightarrow> n \<le> n' \<Longrightarrow> entry_justified env n' h e v"
  by (cases v) (auto intro: less_le_trans)

lemma entry_justified_Suc: "entry_justified env n h e v \<Longrightarrow> entry_justified env (Suc n) h e v"
  by (erule entry_justified_mono) simp

lemma justified_later:
  assumes "justified env st" and "as_moment st \<le> n"
  shows "justified env (st\<lparr>as_moment := n\<rparr>)"
  using assms(1) entry_justified_mono [OF _ assms(2)] by (simp add: justified_def)

lemma justified_tick: "justified env st \<Longrightarrow> justified env (tick st)"
  unfolding tick_def by (rule justified_later) simp_all

lemma moment_simps [simp]:
  "as_moment (tick st) = Suc (as_moment st)" "as_items (tick st) = as_items st"
  "as_moment (Cache_Set env key v d st) = Suc (as_moment st)"
  "as_moment (snd (Cache_Get env key st)) = Suc (as_moment st)"
  by (simp_all add: tick_def Cache_Set_def Cache_Get_def)

lemma justified_Set:
  assumes "justified env st"
    and "entry_justified env (as_moment st) (ev_sha256 env key)
      \<lparr>ce_value = v, ce_expiration = (ev_now env (as_moment st) + d) div second_ns\<rparr> v"
  shows "justified env (Cache_Set env key v d st)"
  using assms by (simp add: justified_def Cache_Set_def tick_def entry_justified_Suc)

lemma justified_deny: "justified env st \<Longrightarrow> justified env (Cache_Set env key (CBool False) d st)"
  by (rule justified_Set) simp_all

lemma Get_state: "Cache_Get env key st = (r, st') \<Longrightarrow> st' = tick st"
  by (simp add: Cache_Get_def)

lemma Get_justified:
  assumes "justified env st" and "Cache_Get env key st = (Some v, st')"
  shows "\<exists>e. entry_justified env (as_moment st) (ev_sha256 env key) e v \<and> ev_now env (as_moment st) div second_ns \<le> ce_expiration e"
proof -
  from assms(2) obtain e where "gomap_get (as_items st) (ev_sha256 env key) = Some e" "ce_value e = v"
    "ev_now env (as_moment st) div second_ns \<le> ce_expiration e"
    by (auto simp: Cache_Get_def not_less split: option.split_asm if_split_asm)
  with assms(1) show ?thesis by (auto simp: justified_def)
qed

text \<open>An answer that is used was given in this request, or stored no longer than its lifetime and a second before.\<close>

definition fresh :: "api_env \<Rightarrow> nat \<Rightarrow> int \<Rightarrow> nat \<Rightarrow> bool" where
  "fresh env n0 d m \<longleftrightarrow> n0 \<le> m \<or> (\<exists>n\<ge>n0. ev_now env n < ev_now env (Suc m) + d + second_ns)"

lemma fresh_earlier: "fresh env n d m \<Longrightarrow> n0 \<le> n \<Longrightarrow> fresh env n0 d m"
  by (auto simp: fresh_def)

lemma stored_fresh:
  assumes "stored_at env m d e" and "ev_now env n div second_ns \<le> ce_expiration e"
  shows "fresh env n d m"
proof -
  have "ev_now env n div second_ns \<le> (ev_now env (Suc m) + d) div second_ns" using assms by (simp add: stored_at_def)
  then have "ev_now env n < ev_now env (Suc m) + d + second_ns" by linarith
  then show ?thesis by (auto simp: fresh_def)
qed

section \<open>Reviews\<close>

definition review_allows :: "api_env \<Rightarrow> nat \<Rightarrow> userInfo \<Rightarrow> resourceAttributes \<Rightarrow> bool" where
  "review_allows env n0 u a \<longleftrightarrow>
     (\<exists>m. access_vouched env m (ev_sha256 env (ev_sarString env (sar_spec u a))) \<and> fresh env n0 (ev_expireAuthorized env) m)"

lemma review_allows_earlier: "review_allows env n u a \<Longrightarrow> n0 \<le> n \<Longrightarrow> review_allows env n0 u a"
  by (auto simp: review_allows_def intro: fresh_earlier)

text \<open>The two ways in which the loop goes on to the next attribute.\<close>

lemma sar_loop_Cons_allows:
  assumes "sar_loop env u (a # as) st = (None, st')"
  obtains "Cache_Get env (ev_sarString env (sar_spec u a)) st = (Some (CBool True), tick st)" "sar_loop env u as (tick st) = (None, st')"
  | "ev_accessReview env (Suc (as_moment st)) (sar_spec u a) = SarAllowed True"
    "sar_loop env u as (Cache_Set env (ev_sarString env (sar_spec u a)) (CBool True) (ev_expireAuthorized env) (tick (tick st))) = (None, st')"
  using assms by (auto simp: Let_def split: prod.splits option.splits sar_answer.splits if_splits dest: Get_state)

lemma access_stored:
  assumes "ev_accessReview env m spec = SarAllowed True" and "m = Suc (as_moment st)"
  shows "entry_justified env (Suc m) (ev_sha256 env (ev_sarString env spec))
    \<lparr>ce_value = CBool True, ce_expiration = (ev_now env (Suc m) + ev_expireAuthorized env) div second_ns\<rparr> (CBool True)"
  using assms by (auto simp: access_vouched_def stored_at_def)

lemma sar_loop_justified: "justified env st \<Longrightarrow> justified env (snd (sar_loop env u as st))"
proof (induction as arbitrary: st)
  case (Cons a as)
  let ?key = "ev_sarString env (sar_spec u a)" and ?m = "Suc (as_moment st)"
  obtain r where get: "Cache_Get env ?key st = (r, tick st)" by (cases "Cache_Get env ?key st") (auto dest: Get_state)
  have 1: "justified env (tick st)" "justified env (tick (tick st))" using Cons.prems by (auto intro: justified_tick)
  show ?case
  proof (cases r)
    case None
    show ?thesis
    proof (cases "ev_accessReview env ?m (sar_spec u a)")
      case (SarAllowed b)
      show ?thesis
      proof (cases b)
        case True
        let ?st = "Cache_Set env ?key (CBool True) (ev_expireAuthorized env) (tick (tick st))"
        have "justified env ?st"
          using justified_Set [OF 1(2), of ?key "CBool True" "ev_expireAuthorized env"] access_stored [of env ?m "sar_spec u a" st] SarAllowed True
          by simp
        with Cons.IH [of ?st] show ?thesis using get None SarAllowed True by (simp add: Let_def)
      next
        case False
        with get None SarAllowed 1 show ?thesis by (simp add: Let_def justified_deny)
      qed
    qed (use get None 1 in \<open>simp add: Let_def\<close>)
  qed (use get 1 Cons.IH in \<open>simp add: Let_def\<close>)
qed simp

lemma sar_loop_justified_pair: "sar_loop env u as st = (r, st') \<Longrightarrow> justified env st \<Longrightarrow> justified env st'"
  using sar_loop_justified [of env st u as] by simp

lemma sar_loop_moment: "as_moment st \<le> as_moment (snd (sar_loop env u as st))"
proof (induction as arbitrary: st)
  case (Cons a as)
  show ?case using Cons.IH [THEN le_trans [rotated]] Cons.IH
    by (auto simp: Let_def split: prod.splits option.splits sar_answer.splits dest!: Get_state intro: le_trans [rotated, OF Cons.IH])
qed simp

lemma sar_loop_allows:
  assumes "justified env st" and "sar_loop env u as st = (None, st')"
  shows "\<forall>a\<in>set as. review_allows env (as_moment st) u a"
  using assms
proof (induction as arbitrary: st)
  case (Cons a as)
  let ?h = "ev_sha256 env (ev_sarString env (sar_spec u a))"
  note tj = justified_tick [OF Cons.prems(1)]
  from Cons.prems(2) show ?case
  proof (cases rule: sar_loop_Cons_allows)
    case 1
    from Get_justified [OF Cons.prems(1) 1(1)] obtain e m where
      "access_vouched env m ?h" "stored_at env m (ev_expireAuthorized env) e" "ev_now env (as_moment st) div second_ns \<le> ce_expiration e"
      by auto
    then have "review_allows env (as_moment st) u a" by (auto simp: review_allows_def intro: stored_fresh)
    with Cons.IH [OF tj 1(2)] show ?thesis by (auto intro: review_allows_earlier)
  next
    case 2
    let ?st = "Cache_Set env (ev_sarString env (sar_spec u a)) (CBool True) (ev_expireAuthorized env) (tick (tick st))"
    have "justified env ?st"
      using justified_Set [OF justified_tick [OF tj], of "ev_sarString env (sar_spec u a)" "CBool True" "ev_expireAuthorized env"]
        access_stored [OF 2(1) refl] by simp
    moreover have "review_allows env (as_moment st) u a"
      using 2(1) by (auto simp: review_allows_def access_vouched_def fresh_def)
    ultimately show ?thesis using Cons.IH [OF _ 2(2)] by (auto intro: review_allows_earlier)
  qed
qed simp

section \<open>Middleware\<close>

lemma found_kind:
  assumes "ev_discovery env m url = APIResources rs" and "List.find (\<lambda>r. fst r = name) rs = Some (n, k)"
  shows "kind_vouched env m (ev_sha256 env name) k"
proof -
  from assms(2) have "(name, k) \<in> set rs" by (auto simp: find_Some_iff) (metis fst_conv nth_mem)
  with assms(1) show ?thesis by (auto simp: kind_vouched_def)
qed

text \<open>Every middleware keeps the invariant, moves time forward, and says what a pass means.\<close>

lemma Authentication_justified: "justified env st \<Longrightarrow> justified env (snd (Authentication env rq cx st))"
proof -
  assume st: "justified env st"
  note 1 = justified_tick [OF st] and 2 = justified_tick [OF justified_tick [OF st]]
  show ?thesis
  proof (cases "extractBearerToken (header_get (rq_headers rq) ''Authorization'')")
    case (Inr tok)
    obtain r where get: "Cache_Get env tok st = (r, tick st)" by (cases "Cache_Get env tok st") (auto dest: Get_state)
    have "entry_justified env (Suc (Suc (as_moment st))) (ev_sha256 env tok)
        \<lparr>ce_value = CUser (newDefaultInfoFromAuthN info),
         ce_expiration = (ev_now env (Suc (Suc (as_moment st))) + ev_expireAuthorized env) div second_ns\<rparr>
        (CUser (newDefaultInfoFromAuthN info))"
      if "ev_tokenReview env (Suc (as_moment st)) tok = Authenticated info" for info
      using that by (auto simp: token_vouched_def stored_at_def)
    then show ?thesis using Inr get st 1 2
      by (auto simp: Authentication_def Let_def justified_deny intro: justified_Set split: option.split token_answer.split)
  qed (simp add: Authentication_def st)
qed

lemma Impersonation_justified: "justified env st \<Longrightarrow> justified env (snd (Impersonation env rq cx st))"
  by (auto simp: Impersonation_def doSarRequests_def split: sum.split prod.split option.split cacheValue.split dest: sar_loop_justified_pair)

lemma GetAPIResource_justified: "justified env st \<Longrightarrow> justified env (snd (GetAPIResource env rq cx st))"
proof -
  assume st: "justified env st"
  note 1 = justified_tick [OF st] and 2 = justified_tick [OF justified_tick [OF st]]
  let ?name = "param rq ''resourceType''" and ?url = "getDiscoveryURL (param rq ''group'') (param rq ''version'')"
  obtain r where get: "Cache_Get env ?name st = (r, tick st)" by (cases "Cache_Get env ?name st") (auto dest: Get_state)
  have "entry_justified env (Suc (Suc (as_moment st))) (ev_sha256 env ?name)
      \<lparr>ce_value = CString k, ce_expiration = (ev_now env (Suc (Suc (as_moment st))) + cacheExpirationTime) div second_ns\<rparr> (CString k)"
    if "ev_discovery env (Suc (as_moment st)) ?url = APIResources rs" "List.find (\<lambda>r. fst r = ?name) rs = Some (n, k)" for rs n k
    using found_kind [OF that] by (auto simp: stored_at_def)
  then show ?thesis using get 1 2
    by (auto simp: GetAPIResource_def Let_def intro: justified_Set split: option.split discovery_answer.split)
qed

lemma RBACAuthorization_justified: "justified env st \<Longrightarrow> justified env (snd (RBACAuthorization env rq cx st))"
  by (auto simp: RBACAuthorization_def doSarRequests_def split: prod.split option.split cacheValue.split dest: sar_loop_justified_pair)

lemma Authentication_passes:
  assumes "justified env st" and "Authentication env rq cx st = (Inr cx', st')"
  shows "\<exists>tok v. extractBearerToken (header_get (rq_headers rq) ''Authorization'') = Inr tok \<and> cx' = cx\<lparr>cx_user := Some v\<rparr>
    \<and> as_moment st \<le> as_moment st'
    \<and> (\<forall>u. v = CUser u \<longrightarrow> (\<exists>m. token_vouched env m (ev_sha256 env tok) u \<and> fresh env (as_moment st) (ev_expireAuthorized env) m))"
proof (cases "extractBearerToken (header_get (rq_headers rq) ''Authorization'')")
  case (Inr tok)
  obtain r where get: "Cache_Get env tok st = (r, tick st)" by (cases "Cache_Get env tok st") (auto dest: Get_state)
  show ?thesis
  proof (cases r)
    case None
    with assms(2) Inr get obtain info where
      info: "ev_tokenReview env (Suc (as_moment st)) tok = Authenticated info"
        "cx' = cx\<lparr>cx_user := Some (CUser (newDefaultInfoFromAuthN info))\<rparr>" "as_moment st \<le> as_moment st'"
      by (auto simp: Authentication_def Let_def split: token_answer.split_asm)
    then have "token_vouched env (Suc (as_moment st)) (ev_sha256 env tok) (newDefaultInfoFromAuthN info)"
      by (auto simp: token_vouched_def)
    moreover have "fresh env (as_moment st) (ev_expireAuthorized env) (Suc (as_moment st))" by (simp add: fresh_def)
    ultimately show ?thesis using Inr info(2,3) by (intro exI [of _ tok] exI [of _ "CUser (newDefaultInfoFromAuthN info)"]) auto
  next
    case (Some v)
    with Get_justified [OF assms(1), of tok v "tick st"] get obtain e where
      "entry_justified env (as_moment st) (ev_sha256 env tok) e v" "ev_now env (as_moment st) div second_ns \<le> ce_expiration e"
      by auto
    then have "\<forall>u. v = CUser u \<longrightarrow>
        (\<exists>m. token_vouched env m (ev_sha256 env tok) u \<and> fresh env (as_moment st) (ev_expireAuthorized env) m)"
      by (auto dest!: stored_fresh)
    moreover have "cx' = cx\<lparr>cx_user := Some v\<rparr>" "st' = tick st"
      using assms(2) Inr get Some by (auto simp: Authentication_def split: if_split_asm)
    ultimately show ?thesis using Inr by auto
  qed
qed (use assms(2) in \<open>simp add: Authentication_def\<close>)

text \<open>After impersonation the user is the one before, or one the requester was allowed to impersonate.\<close>

definition may_act_as :: "api_env \<Rightarrow> nat \<Rightarrow> request \<Rightarrow> userInfo \<Rightarrow> userInfo \<Rightarrow> bool" where
  "may_act_as env n rq u u' \<longleftrightarrow>
     u' = u \<or> ev_impersonate env = ''true'' \<and> (\<exists>atts. newImpersonatedData env (rq_headers rq) = Inr (atts, u')
       \<and> (\<forall>a\<in>set atts. review_allows env n u a))"

lemma Impersonation_passes:
  assumes "justified env st" and "Impersonation env rq cx st = (Inr cx', st')" and "cx_user cx = Some v"
  shows "as_moment st \<le> as_moment st' \<and> cx_kind cx' = cx_kind cx
    \<and> (cx' = cx \<or> (\<exists>u u'. v = CUser u \<and> cx_user cx' = Some (CUser u') \<and> may_act_as env (as_moment st) rq u u'))"
proof (cases "ev_impersonate env = ''true'' \<and> (\<exists>atts u'. newImpersonatedData env (rq_headers rq) = Inr (atts, u'))")
  case True
  then obtain atts u' where imp: "ev_impersonate env = ''true''" "newImpersonatedData env (rq_headers rq) = Inr (atts, u')" by auto
  with assms(2,3) obtain u where u: "v = CUser u" "sar_loop env u atts st = (None, st')" "cx' = cx\<lparr>cx_user := Some (CUser u')\<rparr>"
    by (auto simp: Impersonation_def doSarRequests_def split: cacheValue.split_asm prod.split_asm option.split_asm)
  moreover have "as_moment st \<le> as_moment st'" using sar_loop_moment [of st env u atts] u(2) by simp
  ultimately show ?thesis using imp sar_loop_allows [OF assms(1) u(2)] by (auto simp: may_act_as_def)
next
  case False
  with assms(2) have "cx' = cx \<and> st' = st"
    by (auto simp: Impersonation_def split: if_split_asm sum.split_asm prod.split_asm)
  then show ?thesis by simp
qed

lemma GetAPIResource_passes:
  assumes "justified env st" and "GetAPIResource env rq cx st = (Inr cx', st')"
  shows "as_moment st \<le> as_moment st' \<and> cx_user cx' = cx_user cx
    \<and> (\<forall>k. cx_kind cx' = Some (CString k) \<longrightarrow> (\<exists>m. kind_vouched env m (ev_sha256 env (param rq ''resourceType'')) k))"
proof -
  let ?name = "param rq ''resourceType''"
  obtain r where get: "Cache_Get env ?name st = (r, tick st)" by (cases "Cache_Get env ?name st") (auto dest: Get_state)
  show ?thesis
  proof (cases r)
    case None
    with assms(2) get obtain url rs n k where
      d: "ev_discovery env (Suc (as_moment st)) url = APIResources rs" "List.find (\<lambda>r. fst r = ?name) rs = Some (n, k)"
        "cx' = cx\<lparr>cx_kind := Some (CString k)\<rparr>" "as_moment st \<le> as_moment st'"
      by (auto simp: GetAPIResource_def Let_def split: discovery_answer.split_asm option.split_asm)
    with found_kind [OF d(1,2)] show ?thesis by auto
  next
    case (Some v)
    with Get_justified [OF assms(1), of ?name v "tick st"] get obtain e where
      "entry_justified env (as_moment st) (ev_sha256 env ?name) e v" by auto
    with assms(2) get Some show ?thesis by (auto simp: GetAPIResource_def)
  qed
qed

lemma RBACAuthorization_passes:
  assumes "justified env st" and "RBACAuthorization env rq cx st = (Inr cx', st')"
  shows "cx' = cx \<and> as_moment st \<le> as_moment st' \<and> (\<exists>u. cx_user cx = Some (CUser u) \<and> (\<forall>a\<in>set (rbac_attributes rq). review_allows env (as_moment st) u a))"
proof -
  from assms(2) obtain u where u: "cx_user cx = Some (CUser u)" "sar_loop env u (rbac_attributes rq) st = (None, st')" "cx' = cx"
    by (auto simp: RBACAuthorization_def doSarRequests_def split: cacheValue.split_asm prod.split_asm option.split_asm)
  with sar_loop_allows [OF assms(1) u(2)] sar_loop_moment [of st env u "rbac_attributes rq"] show ?thesis by auto
qed

section \<open>Impersonated identities\<close>

definition extras_reviewed :: "resourceAttributes list \<times> (string, string list) gomap \<Rightarrow> bool" where
  "extras_reviewed acc \<longleftrightarrow>
     (\<forall>k vs v. gomap_get (snd acc) k = Some vs \<longrightarrow> v \<in> set vs \<longrightarrow> extra_attributes k v \<in> set (fst acc))"

lemma add_extra_reviewed: "extras_reviewed acc \<Longrightarrow> extras_reviewed (add_extra key acc v)"
  by (cases "gomap_get (snd acc) key") (auto simp: extras_reviewed_def add_extra_def gomap_get0_def split: if_split_asm)

lemma add_extras_reviewed: "extras_reviewed acc \<Longrightarrow> extras_reviewed (foldl (add_extra key) acc vs)"
  by (induction vs arbitrary: acc) (simp_all add: add_extra_reviewed)

lemma parseExtras_reviewed: "extras_reviewed (parseExtras hs)"
proof -
  have "extras_reviewed (foldl (\<lambda>acc (headerKey, headerValues).
      if has_prefix headerKey extraPrefix then foldl (add_extra (extra_key headerKey)) acc headerValues else acc) acc hs)"
    if "extras_reviewed acc" for acc
    using that by (induction hs arbitrary: acc) (simp_all add: add_extras_reviewed split_beta)
  then show ?thesis by (simp add: parseExtras_def extras_reviewed_def)
qed

text \<open>The parts of an identity that a review has to allow, and the groups that come with them.\<close>

definition identity_reviewed :: "api_env \<Rightarrow> resourceAttributes list \<Rightarrow> userInfo \<Rightarrow> bool" where
  "identity_reviewed env atts u \<longleftrightarrow>
     (case ev_splitUsername env (ui_Name u) of
        Some (ns, _) \<Rightarrow> (imp_attributes ''serviceaccounts'' (ui_Name u))\<lparr>ra_Namespace := ns\<rparr> \<in> set atts
      | None \<Rightarrow> imp_attributes ''users'' (ui_Name u) \<in> set atts)
     \<and> (\<forall>g\<in>set (ui_Groups u). imp_attributes ''groups'' g \<in> set atts
          \<or> g = (if ui_Name u = ''system:anonymous'' then ''system:unauthenticated'' else ''system:authenticated'')
          \<or> (\<exists>ns sa. ev_splitUsername env (ui_Name u) = Some (ns, sa) \<and> g \<in> set (ev_makeGroupNames env ns)))
     \<and> (ui_UID u = [] \<or> (imp_attributes ''uids'' (ui_UID u))\<lparr>ra_Group := ''authentication.k8s.io''\<rparr> \<in> set atts)
     \<and> (\<forall>k vs v. gomap_get (ui_Extra u) k = Some vs \<longrightarrow> v \<in> set vs \<longrightarrow> extra_attributes k v \<in> set atts)"

lemma newImpersonatedData_reviewed:
  assumes "newImpersonatedData env hs = Inr (atts, u)"
  shows "identity_reviewed env atts u"
proof -
  obtain ea ex where e: "parseExtras hs = (ea, ex)" by fastforce
  have ex: "\<forall>k vs v. gomap_get ex k = Some vs \<longrightarrow> v \<in> set vs \<longrightarrow> extra_attributes k v \<in> set ea"
    using parseExtras_reviewed [of hs] by (simp add: extras_reviewed_def e)
  let ?user = "header_get hs ''Impersonate-User''" and ?groups = "header_values hs ''Impersonate-Group''"
    and ?uid = "header_get hs ''Impersonate-Uid''"
  obtain ua user ns where pu: "parseUser env hs = (ua, user, ns)" by (cases "parseUser env hs")
  obtain ud uid where pi: "parseUID hs = (ud, uid)" by fastforce
  have u0: "user = ?user" "uid = ?uid" using pu pi by (auto simp: parseUser_def parseUID_def Let_def split: if_split_asm option.split_asm)
  note data = assms [unfolded newImpersonatedData_def Let_def pu pi e parseGroups_def prod.case]
  have user: "?user \<noteq> []" using data u0 by (auto split: if_split_asm)
  have name: "ui_Name u = ?user" "ui_UID u = ?uid" "ui_Extra u = ex" using data user u0 by auto
  have atts: "atts = (case ua of None \<Rightarrow> [] | Some a \<Rightarrow> [a]) @ map (imp_attributes ''groups'') ?groups
      @ (case ud of None \<Rightarrow> [] | Some a \<Rightarrow> [a]) @ (if ex \<noteq> [] then ea else [])"
    using data user u0 by (cases "?groups = []") simp_all
  have ns: "ns = (case ev_splitUsername env ?user of None \<Rightarrow> [] | Some (ns, _) \<Rightarrow> ns)"
    using pu user by (auto simp: parseUser_def Let_def split: option.split_asm)
  have "set (ui_Groups u) \<subseteq> set ?groups \<union> {if ?user = ''system:anonymous'' then ''system:unauthenticated'' else ''system:authenticated''}
      \<union> (if ns = [] then {} else set (ev_makeGroupNames env ns))"
    using data user u0 by (cases "?groups = []") (auto split: if_split_asm)
  then have groups: "\<forall>g\<in>set (ui_Groups u). g \<in> set ?groups
      \<or> g = (if ?user = ''system:anonymous'' then ''system:unauthenticated'' else ''system:authenticated'')
      \<or> (\<exists>ns sa. ev_splitUsername env ?user = Some (ns, sa) \<and> g \<in> set (ev_makeGroupNames env ns))"
    using ns by (cases "ev_splitUsername env ?user") (auto split: if_split_asm)
  have "case ev_splitUsername env ?user of
      Some (ns, _) \<Rightarrow> (imp_attributes ''serviceaccounts'' ?user)\<lparr>ra_Namespace := ns\<rparr> \<in> set atts
    | None \<Rightarrow> imp_attributes ''users'' ?user \<in> set atts"
    using pu user by (auto simp: atts parseUser_def Let_def split: option.split)
  moreover have "?uid = [] \<or> (imp_attributes ''uids'' ?uid)\<lparr>ra_Group := ''authentication.k8s.io''\<rparr> \<in> set atts"
    using pi by (auto simp: atts parseUID_def Let_def)
  moreover have "\<forall>g\<in>set ?groups. imp_attributes ''groups'' g \<in> set atts" by (simp add: atts)
  moreover have "\<forall>k vs v. gomap_get ex k = Some vs \<longrightarrow> v \<in> set vs \<longrightarrow> extra_attributes k v \<in> set atts"
    using ex by (cases "ex = []") (auto simp: atts)
  ultimately show ?thesis unfolding identity_reviewed_def name using groups by blast
qed

section \<open>Histories of requests\<close>

definition serve :: "api_env \<Rightarrow> api_state \<Rightarrow> nat \<times> request \<Rightarrow> api_state" where
  "serve env st r = snd (access_gates env (snd r) (st\<lparr>as_moment := as_moment st + fst r\<rparr>))"

definition New_cache :: api_state where
  "New_cache = \<lparr>as_items = [], as_moment = 0\<rparr>"

definition after_requests :: "api_env \<Rightarrow> (nat \<times> request) list \<Rightarrow> api_state" where
  "after_requests env hist = foldl (serve env) New_cache hist"

lemma next_handler_justified:
  assumes "justified env (snd r)" and "\<And>cx st. justified env st \<Longrightarrow> justified env (snd (h cx st))"
  shows "justified env (snd (next_handler r h))"
  using assms by (auto simp: next_handler_def split: prod.split sum.split)

lemmas middleware_justified =
  Authentication_justified Impersonation_justified GetAPIResource_justified RBACAuthorization_justified

lemma access_gates_justified: "justified env st \<Longrightarrow> justified env (snd (access_gates env rq st))"
  unfolding access_gates_def by (intro next_handler_justified middleware_justified)

lemma after_requests_justified: "justified env (after_requests env hist)"
proof (induction hist rule: rev_induct)
  case Nil
  show ?case by (simp add: after_requests_def New_cache_def justified_def)
next
  case (snoc r hist)
  then have "justified env ((after_requests env hist)\<lparr>as_moment := as_moment (after_requests env hist) + fst r\<rparr>)"
    by (rule justified_later) simp
  then show ?case by (simp add: after_requests_def serve_def access_gates_justified)
qed

lemma next_handler_passes:
  assumes "next_handler r h = (Inr cx, st)"
  obtains cx0 st0 where "r = (Inr cx0, st0)" "h cx0 st0 = (Inr cx, st)"
  using assms by (auto simp: next_handler_def split: prod.split_asm sum.split_asm)

text \<open>What a request that passes the middleware has shown, in terms of reviews.\<close>

definition access_granted :: "api_env \<Rightarrow> nat \<Rightarrow> request \<Rightarrow> request_context \<Rightarrow> bool" where
  "access_granted env n rq cx \<longleftrightarrow>
     (\<exists>tok u u' m. extractBearerToken (header_get (rq_headers rq) ''Authorization'') = Inr tok
       \<and> token_vouched env m (ev_sha256 env tok) u \<and> fresh env n (ev_expireAuthorized env) m
       \<and> may_act_as env n rq u u' \<and> cx_user cx = Some (CUser u')
       \<and> (\<forall>a\<in>set (rbac_attributes rq). review_allows env n u' a))"

lemma may_act_as_earlier: "may_act_as env n rq u u' \<Longrightarrow> n0 \<le> n \<Longrightarrow> may_act_as env n0 rq u u'"
  by (auto simp: may_act_as_def intro: review_allows_earlier)

lemma access_gates_granted:
  assumes st: "justified env st" and "access_gates env rq st = (Inr cx, st')"
  shows "access_granted env (as_moment st) rq cx
    \<and> (\<forall>k. cx_kind cx = Some (CString k) \<longrightarrow> (\<exists>m. kind_vouched env m (ev_sha256 env (param rq ''resourceType'')) k))"
proof -
  from assms(2) obtain cx3 st3 cx2 st2 cx1 st1 where
    1: "Authentication env rq \<lparr>cx_user = None, cx_kind = None\<rparr> st = (Inr cx1, st1)" and
    2: "Impersonation env rq cx1 st1 = (Inr cx2, st2)" and
    3: "GetAPIResource env rq cx2 st2 = (Inr cx3, st3)" and
    4: "RBACAuthorization env rq cx3 st3 = (Inr cx, st')"
    unfolding access_gates_def by (elim next_handler_passes) blast
  note j1 = Authentication_justified [OF st, of rq "\<lparr>cx_user = None, cx_kind = None\<rparr>", unfolded 1 snd_conv]
  note j2 = Impersonation_justified [OF j1, of rq cx1, unfolded 2 snd_conv]
  note j3 = GetAPIResource_justified [OF j2, of rq cx2, unfolded 3 snd_conv]
  from Authentication_passes [OF st 1] obtain tok v where
    a: "extractBearerToken (header_get (rq_headers rq) ''Authorization'') = Inr tok" "cx_user cx1 = Some v" "as_moment st \<le> as_moment st1"
      "\<forall>u. v = CUser u \<longrightarrow> (\<exists>m. token_vouched env m (ev_sha256 env tok) u \<and> fresh env (as_moment st) (ev_expireAuthorized env) m)"
    by auto
  note i = Impersonation_passes [OF j1 2 a(2)]
  note g = GetAPIResource_passes [OF j2 3]
  from RBACAuthorization_passes [OF j3 4] obtain u' where
    r: "cx = cx3" "cx_user cx3 = Some (CUser u')" "\<forall>x\<in>set (rbac_attributes rq). review_allows env (as_moment st3) u' x" by auto
  from i g r(2) a(2) obtain u where u: "v = CUser u" "may_act_as env (as_moment st1) rq u u'"
    by (auto simp: may_act_as_def)
  have "as_moment st \<le> as_moment st3" using i g a(3) by linarith
  with r have "\<forall>x\<in>set (rbac_attributes rq). review_allows env (as_moment st) u' x" by (blast intro: review_allows_earlier)
  with a(1,4) u r may_act_as_earlier [OF u(2) a(3)] have "access_granted env (as_moment st) rq cx"
    unfolding access_granted_def by blast
  with g r(1) show ?thesis by auto
qed

section \<open>Properties\<close>

text \<open>A cluster in which one token is valid and one user may list and read Pods of a namespace.\<close>

definition sample_user :: userInfo where
  "sample_user = \<lparr>ui_Name = ''ann'', ui_UID = ''1'', ui_Groups = [''dev''], ui_Extra = []\<rparr>"

definition sample_cluster_env :: api_env where
  "sample_cluster_env =
     \<lparr>ev_now = (\<lambda>n. int n * second_ns), ev_sha256 = id,
      ev_tokenReview = (\<lambda>n tok. if tok = ''t0'' then Authenticated sample_user else NotAuthenticated),
      ev_accessReview = (\<lambda>n spec. SarAllowed (ss_User spec = ''ann'' \<and> ra_Namespace (ss_ResourceAttributes spec) = ''ns'')),
      ev_discovery = (\<lambda>n url. APIResources [(''pods'', ''Pod''), (''jobs'', ''Job'')]),
      ev_sarString = (\<lambda>spec. ''&SubjectAccessReviewSpec{User:'' @ ss_User spec @ '',Resource:''
         @ ra_Resource (ss_ResourceAttributes spec) @ ''}''),
      ev_splitUsername = (\<lambda>_. None), ev_makeGroupNames = (\<lambda>_. []), ev_impersonate = [],
      ev_expireAuthorized = 600 * second_ns, ev_expireUnauthorized = 60 * second_ns\<rparr>"

definition sample_request :: request where
  "sample_request =
     \<lparr>rq_path = ''/api/v1/namespaces/ns/pods'', rq_headers = [(''Authorization'', [''Bearer t0''])],
      rq_params = [(''version'', ''v1''), (''namespace'', ''ns''), (''resourceType'', ''pods'')], rq_query = []\<rparr>"

lemma sample_request_passes:
  "\<exists>cx st. access_gates sample_cluster_env sample_request (after_requests sample_cluster_env [(5, sample_request)]) = (Inr cx, st)"
proof -
  have "case fst (access_gates sample_cluster_env sample_request (after_requests sample_cluster_env [(5, sample_request)])) of Inr _ \<Rightarrow> True | Inl _ \<Rightarrow> False"
    by code_simp
  then show ?thesis by (metis prod.collapse sum.case_eq_if sum.collapse(2))
qed

text \<open>C13: whatever requests were served before, a request passes the access middleware only if its
  bearer token was authenticated by a token review, the requester is the user the request goes on
  with or was allowed to impersonate that user with every attribute of the headers, and an access
  review allowed that user every access the route needs. Each of these answers was given during
  the request, or cached for at most the configured time and a second.\<close>

theorem access_needs_review:
  assumes "access_gates env rq (after_requests env hist) = (Inr cx, st')"
  shows "access_granted env (as_moment (after_requests env hist)) rq cx"
  using access_gates_granted [OF after_requests_justified assms] by blast

theorem access_needs_review_witness:
  "\<exists>cx. access_granted sample_cluster_env (as_moment (after_requests sample_cluster_env [(5, sample_request)])) sample_request cx"
  using sample_request_passes access_needs_review [of sample_cluster_env sample_request "[(5, sample_request)]"] by blast

text \<open>C24: the attributes that are reviewed before impersonation cover the whole identity that the
  request takes on: the user or service account, every group but the implied ones, the UID, and
  every value of the extra fields.\<close>

theorem impersonation_reviews_identity:
  assumes "newImpersonatedData env hs = Inr (atts, u)"
  shows "identity_reviewed env atts u"
  using assms by (rule newImpersonatedData_reviewed)

theorem impersonation_reviews_identity_witness:
  "\<exists>atts u. newImpersonatedData sample_cluster_env
      [(''Impersonate-User'', [''bob'']), (''Impersonate-Group'', [''qa'']), (''Impersonate-Extra-A%2fb'', [''x'', ''y''])] = Inr (atts, u)
    \<and> ui_Extra u = [(''A/b'', [''x'', ''y''])] \<and> identity_reviewed sample_cluster_env atts u"
proof -
  let ?hs = "[(''Impersonate-User'', [''bob'']), (''Impersonate-Group'', [''qa'']), (''Impersonate-Extra-A%2fb'', [''x'', ''y''])]"
  let ?u = "\<lparr>ui_Name = ''bob'', ui_UID = [], ui_Groups = [''qa'', ''system:authenticated''], ui_Extra = [(''A/b'', [''x'', ''y''])]\<rparr>"
  let ?atts = "[imp_attributes ''users'' ''bob'', imp_attributes ''groups'' ''qa'',
    extra_attributes ''A/b'' ''x'', extra_attributes ''A/b'' ''y'']"
  have "newImpersonatedData sample_cluster_env ?hs = Inr (?atts, ?u)" by code_simp
  with impersonation_reviews_identity [OF this] show ?thesis by auto
qed

text \<open>
  The keys of tokens and reviews are not told apart: a request with an invalid token that is the
  text of a review makes the server refuse that review's user without asking the cluster.
\<close>

lemma cache_poisoned:
  assumes "extractBearerToken (header_get (rq_headers rq) ''Authorization'') = Inr (ev_sarString env (sar_spec u a))"
    and "\<forall>n. ev_tokenReview env n (ev_sarString env (sar_spec u a)) = NotAuthenticated"
    and "Cache_Get env (ev_sarString env (sar_spec u a)) st = (None, tick st)"
    and st': "st' = snd (Authentication env rq cx st)"
    and "ev_now env (as_moment st') \<le> ev_now env (as_moment st + 2) + ev_expireUnauthorized env"
  shows "fst (sar_loop env u (a # as) st') = Some Unauthorized"
  using assms(1-3,5) unfolding st'
  by (auto simp: Authentication_def Cache_Get_def Cache_Set_def tick_def Let_def not_less zdiv_mono1)

end
