(* ===== verification/Api_Server.thy ===== *)
theory Api_Server
  imports Reader Go_Encoding Api_Access
begin

text \<open>
  What the API server answers: the continue tokens and limits of \<^verbatim>\<open>cmd/api/pagination\<close>, and the
  handlers of \<^verbatim>\<open>cmd/api/routers\<close> on top of the database reader, with the response they write piece
  by piece. The label selector parser of Kubernetes is an argument.
\<close>

section \<open>Pagination\<close>

record page_values =
  pg_limit :: int
  pg_continueId :: string
  pg_continueDate :: string

definition defaultLimit :: string where "defaultLimit = ''100''"
definition maxAllowedLimit :: int where "maxAllowedLimit = 1000"
definition minAllowedLimit :: int where "minAllowedLimit = 1"

definition CreateToken :: "int \<Rightarrow> string \<Rightarrow> string" where
  "CreateToken uuid date =
     (let date = trim_suffix [CHR 0x22] (trim_prefix [CHR 0x22] date)
      in if date = [] \<and> uuid = 0 then [] else b64_encode (show_int uuid @ '' '' @ date))"

text \<open>\<^verbatim>\<open>Query\<close> and \<^verbatim>\<open>DefaultQuery\<close>: the value of a parameter, or a default when it is not given.\<close>

definition query_param :: "request \<Rightarrow> string \<Rightarrow> string" where
  "query_param rq k = gomap_get0 [] (rq_query rq) k"

definition parse_token :: "string \<Rightarrow> (string \<times> string) option" where
  "parse_token token =
     (if token = [] then Some ([], [])
      else case b64_decode token of
             None \<Rightarrow> None
           | Some bytes \<Rightarrow>
               (case split_on (CHR '' '') bytes of
                  [i, date] \<Rightarrow>
                    (case (parse_int i, rfc_parse date) of
                       (Some _, Some t) \<Rightarrow> Some (i, rfc_format t)
                     | _ \<Rightarrow> None)
                | _ \<Rightarrow> None))"

definition Middleware :: "request \<Rightarrow> abort_reply + page_values" where
  "Middleware rq =
     (case parse_int (gomap_get0 defaultLimit (rq_query rq) ''limit'') of
        None \<Rightarrow> Inl (400, ErrBadLimit)
      | Some limit \<Rightarrow>
          if limit > maxAllowedLimit then Inl (400, ErrBadLimit)
          else if limit < minAllowedLimit then Inl (400, ErrBadLimit)
          else case parse_token (query_param rq ''continue'') of
                 None \<Rightarrow> Inl (400, ErrBadContinue)
               | Some (i, date) \<Rightarrow> Inr \<lparr>pg_limit = limit, pg_continueId = i, pg_continueDate = date\<rparr>)"

section \<open>Responses\<close>

text \<open>
  A response is what was written: the status of the first write stays, and the body is the
  sequence of the pieces. \<open>ListHead\<close>, \<open>ListComma\<close>, \<open>ListItem\<close> and \<open>ListTail\<close> are the parts of the
  streamed list; \<open>LogText\<close> is a line of a log; \<open>ErrorBody\<close> is the message of \<^verbatim>\<open>abort.Abort\<close>.
\<close>

datatype body_part =
    ErrorBody server_error | ListHead | ListComma | ListItem json_data | ListTail string | Document json_data | LogText string

record response =
  rs_status :: "int option"
  rs_body :: "body_part list"
  rs_aborted :: bool

definition no_response :: response where
  "no_response = \<lparr>rs_status = None, rs_body = [], rs_aborted = False\<rparr>"

definition write_part :: "int \<Rightarrow> body_part \<Rightarrow> 'a response_scheme \<Rightarrow> 'a response_scheme" where
  "write_part code p rs =
     rs\<lparr>rs_status := (case rs_status rs of None \<Rightarrow> Some code | Some c \<Rightarrow> Some c), rs_body := rs_body rs @ [p]\<rparr>"

definition Abort :: "int \<Rightarrow> server_error \<Rightarrow> 'a response_scheme \<Rightarrow> 'a response_scheme" where
  "Abort code e rs = (write_part code (ErrorBody e) rs)\<lparr>rs_aborted := True\<rparr>"

text \<open>\<^verbatim>\<open>gin.Recovery\<close> after a panic: status 500, unless the response has started.\<close>

definition recovered :: "response \<Rightarrow> response" where
  "recovered rs = rs\<lparr>rs_status := (case rs_status rs of None \<Rightarrow> Some 500 | Some c \<Rightarrow> Some c), rs_aborted := True\<rparr>"

section \<open>Handlers\<close>

definition api_version :: "request \<Rightarrow> string" where
  "api_version rq =
     (if param rq ''group'' \<noteq> [] then param rq ''group'' @ ''/'' @ param rq ''version'' else param rq ''version'')"

text \<open>\<^verbatim>\<open>time.RFC3339Nano\<close> accepts the same texts as \<^verbatim>\<open>time.RFC3339\<close>, so that the second attempt fails as well.\<close>

definition parseTimestampQuery :: "request \<Rightarrow> string \<Rightarrow> server_error + rfc_time option" where
  "parseTimestampQuery rq paramName =
     (let v = query_param rq paramName
      in if v = [] then Inr None
         else case rfc_parse v of None \<Rightarrow> Inl BadTimestamp | Some t \<Rightarrow> Inr (Some t))"

record stream_state =
  sst_count :: int
  sst_last :: "resource option"
  sst_hasMore :: bool
  sst_headerWritten :: bool
  sst_response :: response

definition stream_item :: "int \<Rightarrow> stream_state \<Rightarrow> resource \<Rightarrow> stream_state option" where
  "stream_item limit s r =
     (let s = s\<lparr>sst_count := sst_count s + 1\<rparr>
      in if sst_count s > limit then Some (s\<lparr>sst_hasMore := True\<rparr>)
         else let head = (if sst_headerWritten s then ListComma else ListHead)
              in Some (s\<lparr>sst_headerWritten := True, sst_last := Some r,
                         sst_response := write_part 200 (ListItem (re_Data r)) (write_part 200 head (sst_response s))\<rparr>))"

text \<open>The zero value of a resource has the identifier 0 and no date.\<close>

definition last_token :: "resource option \<Rightarrow> string" where
  "last_token r = (case r of None \<Rightarrow> CreateToken 0 [] | Some r \<Rightarrow> CreateToken (re_Id r) (re_Date r))"

definition list_resources :: "read_faults \<Rightarrow> db_state \<Rightarrow> list_args \<Rightarrow> response \<Rightarrow> response" where
  "list_resources flt db a rs =
     (let limit = la_limit a
      in case StreamResources flt db (a\<lparr>la_limit := limit + 1\<rparr>) (stream_item limit)
                \<lparr>sst_count = 0, sst_last = None, sst_hasMore = False, sst_headerWritten = False, sst_response = rs\<rparr> of
           (Some _, s) \<Rightarrow> if sst_headerWritten s then sst_response s else Abort 500 DatabaseError (sst_response s)
         | (None, s) \<Rightarrow>
             let rs = (if sst_headerWritten s then sst_response s else write_part 200 ListHead (sst_response s))
             in write_part 200 (ListTail (if sst_hasMore s then last_token (sst_last s) else [])) rs)"

definition get_resource :: "read_faults \<Rightarrow> db_state \<Rightarrow> list_args \<Rightarrow> response \<Rightarrow> response" where
  "get_resource flt db a rs =
     (case QueryResources flt db (a\<lparr>la_limit := 2\<rparr>) of
        Inl _ \<Rightarrow> Abort 500 DatabaseError rs
      | Inr [] \<Rightarrow> Abort 404 NotFound rs
      | Inr [r] \<Rightarrow> write_part 200 (Document (re_Data r)) rs
      | Inr (_ # _ # _) \<Rightarrow> Abort 500 MoreThanOne rs)"

text \<open>The arguments of the database call, from the request and its page.\<close>

definition resource_args ::
    "request \<Rightarrow> page_values \<Rightarrow> string \<Rightarrow> string \<Rightarrow> rfc_time option \<Rightarrow> rfc_time option \<Rightarrow> labelFilters \<Rightarrow> list_args" where
  "resource_args rq pg kind name after before lf =
     \<lparr>la_kind = kind, la_apiVersion = api_version rq, la_namespace = param rq ''namespace'', la_name = name,
      la_continueId = pg_continueId pg, la_continueDate = pg_continueDate pg, la_labels = lf,
      la_after = map_option rfc_format after, la_before = map_option rfc_format before, la_limit = pg_limit pg\<rparr>"

text \<open>
  The rest of the handler once the label filters are known. An unsupported operator leaves no
  filters: the error has been written to the response but the handler goes on, and only the query
  of a list looks at the filters and panics.
\<close>

definition query_resources ::
    "read_faults \<Rightarrow> db_state \<Rightarrow> request \<Rightarrow> page_values \<Rightarrow> string \<Rightarrow> string \<Rightarrow> labelFilters option \<Rightarrow> response \<Rightarrow> response" where
  "query_resources flt db rq pg kind name filters rs =
     (if has_prefix (rq_path rq) ''/apis/'' \<and> param rq ''group'' = [] then Abort 404 NotFound rs
      else case parseTimestampQuery rq ''creationTimestampAfter'' of
             Inl e \<Rightarrow> Abort 400 e rs
           | Inr after \<Rightarrow>
               (case parseTimestampQuery rq ''creationTimestampBefore'' of
                  Inl e \<Rightarrow> Abort 400 e rs
                | Inr before \<Rightarrow>
                    if (case (after, before) of (Some a, Some b) \<Rightarrow> instant b \<le> instant a | _ \<Rightarrow> False)
                    then Abort 400 EmptyInterval rs
                    else
                      let args = resource_args rq pg kind name after before
                      in if name \<noteq> [] \<and> CHR ''*'' \<notin> set name
                         then get_resource flt db (args (case filters of None \<Rightarrow> empty_filters | Some lf \<Rightarrow> lf)) rs
                         else (case filters of None \<Rightarrow> recovered rs | Some lf \<Rightarrow> list_resources flt db (args lf) rs)))"

text \<open>\<open>parse_selector\<close> is \<^verbatim>\<open>labels.Parse\<close> and \<^verbatim>\<open>Requirements\<close>.\<close>

definition GetResources ::
    "(string \<Rightarrow> requirement list option) \<Rightarrow> read_faults \<Rightarrow> db_state \<Rightarrow> request \<Rightarrow> request_context \<Rightarrow> page_values \<Rightarrow> response" where
  "GetResources parse_selector flt db rq cx pg =
     (case GetAPIResourceKind cx of
        None \<Rightarrow> Abort 500 NoSuchAPIResource no_response
      | Some kind \<Rightarrow>
          let pathName = param rq ''name''; queryName = query_param rq ''name''
          in if pathName \<noteq> [] \<and> CHR ''*'' \<in> set pathName then Abort 400 WildcardInPath no_response
             else if pathName \<noteq> [] \<and> queryName \<noteq> [] then Abort 400 TwoNames no_response
             else
               let name = (if queryName \<noteq> [] then queryName else pathName)
               in case parse_selector (query_param rq ''labelSelector'') of
                    None \<Rightarrow> Abort 400 BadSelector no_response
                  | Some reqs \<Rightarrow>
                      (case NewLabelFilters reqs of
                         Inl NoValue \<Rightarrow> recovered no_response
                       | Inl (UnsupportedOperator _) \<Rightarrow>
                           query_resources flt db rq pg kind name None (Abort 400 BadLabelFilter no_response)
                       | Inr lf \<Rightarrow> query_resources flt db rq pg kind name (Some lf) no_response))"

definition GetResourceByUID :: "read_faults \<Rightarrow> db_state \<Rightarrow> request \<Rightarrow> request_context \<Rightarrow> response" where
  "GetResourceByUID flt db rq cx =
     (case GetAPIResourceKind cx of
        None \<Rightarrow> Abort 500 NoSuchAPIResource no_response
      | Some kind \<Rightarrow>
          if has_prefix (rq_path rq) ''/apis/'' \<and> param rq ''group'' = [] then Abort 404 NotFound no_response
          else case QueryResourceByUID flt db kind (api_version rq) (param rq ''namespace'') (param rq ''uid'') of
                 Inl _ \<Rightarrow> Abort 500 DatabaseError no_response
               | Inr None \<Rightarrow> Abort 404 NotFound no_response
               | Inr (Some r) \<Rightarrow> write_part 200 (Document (re_Data r)) no_response)"

text \<open>The log link is left in the context for the handler that retrieves the log; the search may not end.\<close>

definition GetLogURL ::
    "read_faults \<Rightarrow> db_state \<Rightarrow> request \<Rightarrow> request_context \<Rightarrow> (response + logRecord) option" where
  "GetLogURL flt db rq cx =
     (case GetAPIResourceKind cx of
        None \<Rightarrow> Some (Inl (Abort 500 NoSuchAPIResource no_response))
      | Some kind \<Rightarrow>
          if has_prefix (rq_path rq) ''/apis/'' \<and> param rq ''group'' = [] then Some (Inl (Abort 404 NotFound no_response))
          else
            let useUID = (param rq ''name'' = []);
                identifier = (if useUID then param rq ''uid'' else param rq ''name'')
            in map_option (\<lambda>r. case r of
                   Inl e \<Rightarrow> Inl (if e = ResourceNotFound then Abort 404 NotFound no_response else Abort 500 DatabaseError no_response)
                 | Inr l \<Rightarrow> Inr l)
               (queryLogURL flt db kind (api_version rq) (param rq ''namespace'') identifier (query_param rq ''container'') useUID))"

section \<open>Lists over the whole server\<close>

text \<open>A request for a list: the middleware in the order of \<^verbatim>\<open>NewServer\<close>, then the handler.\<close>

definition serve_list ::
    "api_env \<Rightarrow> (string \<Rightarrow> requirement list option) \<Rightarrow> read_faults \<Rightarrow> db_state \<Rightarrow> request \<Rightarrow> api_state \<Rightarrow> response \<times> api_state" where
  "serve_list env parse_selector flt db rq st =
     (case access_gates env rq st of
        (Inl (code, e), st) \<Rightarrow> (Abort code e no_response, st)
      | (Inr cx, st) \<Rightarrow>
          (case Middleware rq of
             Inl (code, e) \<Rightarrow> (Abort code e no_response, st)
           | Inr pg \<Rightarrow> (GetResources parse_selector flt db rq cx pg, st)))"

end
