(* ===== verification/Log_Retrieval.thy ===== *)
theory Log_Retrieval
  imports Log_Requests Api_Server
begin

text \<open>
  The second half of \<^verbatim>\<open>cmd/api/logging/logging.go\<close>: the handler that fetches a log from its provider
  and writes it to the client, in one piece, streamed, or page by page.

  The environment holds the JSON parser and the JSONPath library, the answer of the provider to each
  request (with the timeout of the request and the requests sent before it), and when the client is
  gone, so that writing fails. \<open>lr_sent\<close> records the requests. Paging goes on until the provider says
  otherwise; not returning is the value \<open>None\<close>.
\<close>

section \<open>Data\<close>

record log_response = response +
  rs_headers :: "(string, string) gomap"

record http_body =
  hb_data :: string
  hb_broken :: bool

record http_answer =
  ha_StatusCode :: int
  ha_Body :: http_body

type_synonym ('v, 'j) json_path = "'j \<Rightarrow> 'v any_value list"

record ('v, 'j) log_env =
  le_formats :: "'v value_formats"
  le_jp_parse :: "string \<Rightarrow> ('v, 'j) json_path option"
  le_oj_parse :: "string \<Rightarrow> 'j option"
  le_do :: "int \<Rightarrow> http_request list \<Rightarrow> http_request \<Rightarrow> http_answer option"
  le_gone :: "nat \<Rightarrow> bool"

record log_run =
  lr_response :: log_response
  lr_sent :: "http_request list"

definition no_log_response :: log_response where
  "no_log_response = \<lparr>rs_status = None, rs_body = [], rs_aborted = False, rs_headers = []\<rparr>"

section \<open>Writing\<close>

text \<open>\<^verbatim>\<open>c.Header\<close>: an empty value deletes the header.\<close>

definition c_Header :: "string \<Rightarrow> string \<Rightarrow> log_response \<Rightarrow> log_response" where
  "c_Header k v rs =
     (if v = [] then rs\<lparr>rs_headers := gomap_del (rs_headers rs) (canonical_header k)\<rparr>
      else rs\<lparr>rs_headers := header_set (rs_headers rs) k v\<rparr>)"

definition setLogResponseHeaders :: "logRecord \<Rightarrow> log_response \<Rightarrow> log_response" where
  "setLogResponseHeaders record rs =
     c_Header ''X-Container-Name'' (lo_ContainerName record)
       (c_Header ''X-Pod-UUID'' (lo_PodUUID record)
         (c_Header ''X-Pod-Name'' (lo_PodName record)
           (c_Header ''Content-Type'' ''text/plain; charset=utf-8'' rs)))"

definition abortNoLogsFound :: "log_response \<Rightarrow> log_response" where
  "abortNoLogsFound rs = Abort 404 NoLogsFound rs"

text \<open>A line and its newline; the status goes out even when the write fails.\<close>

definition write_line :: "(nat \<Rightarrow> bool) \<Rightarrow> string \<Rightarrow> log_response \<Rightarrow> log_response \<times> bool" where
  "write_line gone l rs =
     (if gone (length (rs_body rs))
      then (rs\<lparr>rs_status := (case rs_status rs of None \<Rightarrow> Some 200 | Some c \<Rightarrow> Some c)\<rparr>, False)
      else (write_part 200 (LogText l) rs, True))"

text \<open>\<^verbatim>\<open>c.String\<close> aborts the context when the write fails, and the caller does not look at it.\<close>

definition c_String :: "(nat \<Rightarrow> bool) \<Rightarrow> log_response \<Rightarrow> string \<Rightarrow> log_response" where
  "c_String gone rs l = (case write_line gone l rs of (rs, ok) \<Rightarrow> if ok then rs else rs\<lparr>rs_aborted := True\<rparr>)"

fun writeLogLines :: "(nat \<Rightarrow> bool) \<Rightarrow> string list \<Rightarrow> log_response \<Rightarrow> log_response \<times> bool" where
  "writeLogLines gone [] rs = (rs, True)"
| "writeLogLines gone (l # ls) rs =
     (case write_line gone l rs of (rs, ok) \<Rightarrow> if ok then writeLogLines gone ls rs else (rs, False))"

section \<open>Reading\<close>

datatype read_end = ReadOk | ReadEOF | ReadFailed

abbreviation newline :: char where
  "newline \<equiv> CHR 0x0A"

definition ReadBytes :: "http_body \<Rightarrow> string \<times> read_end \<times> http_body" where
  "ReadBytes b =
     (case cut_at newline (hb_data b) of
        (l, r, found) \<Rightarrow>
          if found then (l @ [newline], ReadOk, b\<lparr>hb_data := r\<rparr>)
          else (hb_data b, if hb_broken b then ReadFailed else ReadEOF, b\<lparr>hb_data := []\<rparr>))"

definition entriesToStrings :: "('v, 'j) log_env \<Rightarrow> 'v any_value list \<Rightarrow> string list" where
  "entriesToStrings env entries = filter (\<lambda>s. s \<noteq> []) (map (sprint_any (le_formats env)) entries)"

definition parseLine :: "('v, 'j) log_env \<Rightarrow> ('v, 'j) json_path option \<Rightarrow> string \<Rightarrow> string list option" where
  "parseLine env jsonPathParser line =
     (if trim_space line = [] then Some []
      else case jsonPathParser of
             None \<Rightarrow>
               (let s = rev (dropWhile (\<lambda>c. c = newline) (rev line)) in if s = [] then Some [] else Some [s])
           | Some get \<Rightarrow>
               (case le_oj_parse env line of
                  None \<Rightarrow> None
                | Some j \<Rightarrow> Some (entriesToStrings env (get j))))"

definition line_count :: "string \<Rightarrow> int" where
  "line_count s = int (count_list s newline) + 1"

lemma ReadBytes_shrinks:
  assumes r: "ReadBytes b = (l, e, b')" "e \<noteq> ReadFailed" "e \<noteq> ReadEOF"
  shows "length (hb_data b') < length (hb_data b)"
proof -
  from r have nl: "newline \<in> set (hb_data b)" by (auto simp: ReadBytes_def cut_at_def split: if_splits)
  then obtain xs ys where xy: "hb_data b = xs @ newline # ys" "newline \<notin> set xs" by (meson split_list_first)
  with r show ?thesis by (auto simp: ReadBytes_def cut_at_split)
qed

function read_entries ::
    "('v, 'j) log_env \<Rightarrow> ('v, 'j) json_path option \<Rightarrow> int \<Rightarrow> string list \<Rightarrow> int \<Rightarrow> http_body \<Rightarrow> server_error + string list" where
  "read_entries env p tail entries n body =
     (case ReadBytes body of
        (line, e, body') \<Rightarrow>
          if e = ReadFailed then Inl LogReadError
          else case parseLine env p line of
                 None \<Rightarrow> Inl BadLogLine
               | Some parsed \<Rightarrow>
                   let entries = entries @ parsed; n = n + sum_list (map line_count parsed)
                   in if e = ReadEOF then Inr entries
                      else if tail > 0 \<and> n \<ge> tail then Inr entries
                      else read_entries env p tail entries n body')"
  by pat_completeness auto
termination
  by (relation "measure (\<lambda>(_, _, _, _, _, b). length (hb_data b))") (auto dest!: ReadBytes_shrinks [OF sym])

declare read_entries.simps [simp del]

definition flat_lines :: "string list \<Rightarrow> string list" where
  "flat_lines entries = filter (\<lambda>l. l \<noteq> []) (concat (map (split_on newline) entries))"

definition writeBufferedLogs ::
    "('v, 'j) log_env \<Rightarrow> http_body \<Rightarrow> ('v, 'j) json_path option \<Rightarrow> logRecord \<Rightarrow> bool \<Rightarrow> int \<Rightarrow> log_response \<Rightarrow> log_response" where
  "writeBufferedLogs env body p record rev_order tail rs =
     (case read_entries env p tail [] 0 body of
        Inl e \<Rightarrow> Abort 500 e rs
      | Inr allEntries \<Rightarrow>
          if allEntries = [] then abortNoLogsFound rs
          else
            let allEntries = (if rev_order then rev allEntries else allEntries);
                flatLines = flat_lines allEntries;
                flatLines = (if tail > 0 \<and> int (length flatLines) > tail
                             then drop (length flatLines - nat tail) flatLines else flatLines)
            in foldl (c_String (le_gone env)) (setLogResponseHeaders record rs) flatLines)"

text \<open>After the first line an error can only be logged.\<close>

function stream_loop ::
    "('v, 'j) log_env \<Rightarrow> ('v, 'j) json_path option \<Rightarrow> logRecord \<Rightarrow> bool \<Rightarrow> http_body \<Rightarrow> log_response \<Rightarrow> log_response" where
  "stream_loop env p record logsReturned body rs =
     (case ReadBytes body of
        (line, e, body') \<Rightarrow>
          if e = ReadFailed then (if logsReturned then rs else Abort 500 LogReadError rs)
          else case parseLine env p line of
                 None \<Rightarrow> if logsReturned then rs else Abort 500 BadLogLine rs
               | Some parsed \<Rightarrow>
                   let rs = (if parsed \<noteq> [] \<and> \<not> logsReturned then setLogResponseHeaders record rs else rs);
                       logsReturned = (logsReturned \<or> parsed \<noteq> [])
                   in case writeLogLines (le_gone env) parsed rs of
                        (rs, ok) \<Rightarrow>
                          if \<not> ok then rs
                          else if e = ReadEOF then (if logsReturned then rs else abortNoLogsFound rs)
                          else stream_loop env p record logsReturned body' rs)"
  by pat_completeness auto
termination
  by (relation "measure (\<lambda>(_, _, _, _, b, _). length (hb_data b))") (auto dest!: ReadBytes_shrinks [OF sym])

declare stream_loop.simps [simp del]

definition streamLogs ::
    "('v, 'j) log_env \<Rightarrow> http_body \<Rightarrow> ('v, 'j) json_path option \<Rightarrow> logRecord \<Rightarrow> log_response \<Rightarrow> log_response" where
  "streamLogs env body p record rs = stream_loop env p record False body rs"

section \<open>Paging\<close>

definition wrap_int64 :: "int \<Rightarrow> int" where
  "wrap_int64 i = (i + 2 ^ 63) mod 2 ^ 64 - 2 ^ 63"

definition next_cursor :: "paginationConfig \<Rightarrow> string \<Rightarrow> string list \<Rightarrow> string option" where
  "next_cursor pagination lastCursor cursorResults =
     (case cursorResults of
        [] \<Rightarrow> None
      | c # cs \<Rightarrow>
          let cursor = foldl (\<lambda>m s. if s > m then s else m) c cs
          in if cursor = [] \<or> cursor = lastCursor then None
             else Some (if pc_CursorIncrement pagination \<noteq> 0
                        then (case parse_int cursor of
                                None \<Rightarrow> cursor
                              | Some i \<Rightarrow> show_int (wrap_int64 (i + pc_CursorIncrement pagination)))
                        else cursor))"

text \<open>How one turn of the loop ends: the handler returns, the loop breaks, or another page follows.\<close>

datatype page_outcome = PageReturn log_run | PageBreak bool log_run | PageNext string log_run

definition page_error :: "bool \<Rightarrow> int \<Rightarrow> server_error \<Rightarrow> log_run \<Rightarrow> page_outcome" where
  "page_error logsReturned code e run =
     PageReturn (if logsReturned then run else run\<lparr>lr_response := Abort code e (lr_response run)\<rparr>)"

definition set_headers :: "(string, string) gomap \<Rightarrow> http_request \<Rightarrow> http_request" where
  "set_headers headers rq = rq\<lparr>hr_Header := foldl (\<lambda>hs (k, v). header_set hs k v) (hr_Header rq) headers\<rparr>"

definition page_request :: "paginationConfig \<Rightarrow> (string, string) gomap \<Rightarrow> string \<Rightarrow> http_request \<Rightarrow> http_request" where
  "page_request pagination headers lastCursor rq =
     set_headers headers
       (if lastCursor \<noteq> []
        then rq\<lparr>hr_URL := (hr_URL rq)\<lparr>ur_RawQuery :=
                 values_Encode (gomap_set (url_Query (hr_URL rq)) (pc_Param pagination) [lastCursor])\<rparr>\<rparr>
        else rq)"

definition stream_page ::
    "('v, 'j) log_env \<Rightarrow> 'v apiEndpoint \<Rightarrow> paginationConfig \<Rightarrow> logRecord \<Rightarrow> (string, string) gomap \<Rightarrow> (string, string) gomap
     \<Rightarrow> ('v, 'j) json_path option \<Rightarrow> ('v, 'j) json_path \<Rightarrow> string \<Rightarrow> bool \<Rightarrow> log_run \<Rightarrow> page_outcome" where
  "stream_page env endpoint pagination record extraVars headers p cursorParser lastCursor logsReturned run =
     (case buildProviderRequest (le_formats env) endpoint record extraVars of
        Inl e \<Rightarrow> page_error logsReturned 500 ProviderRequestError run
      | Inr request \<Rightarrow>
          let request = page_request pagination headers lastCursor request;
              answer = le_do env (requestTimeout endpoint) (lr_sent run) request;
              run = run\<lparr>lr_sent := lr_sent run @ [request]\<rparr>
          in case answer of
               None \<Rightarrow> page_error logsReturned 500 ProviderUnreachable run
             | Some response \<Rightarrow>
                 if hb_broken (ha_Body response) then page_error logsReturned 500 LogReadError run
                 else if ha_StatusCode response \<noteq> 200
                 then page_error logsReturned (ha_StatusCode response) (ProviderStatus (ha_StatusCode response)) run
                 else case le_oj_parse env (hb_data (ha_Body response)) of
                        None \<Rightarrow> page_error logsReturned 500 BadLogLine run
                      | Some parsed \<Rightarrow>
                          let lines = entriesToStrings env (case p of None \<Rightarrow> [] | Some get \<Rightarrow> get parsed)
                          in if lines = [] then PageBreak logsReturned run
                             else
                               let rs = (if logsReturned then lr_response run else setLogResponseHeaders record (lr_response run))
                               in case writeLogLines (le_gone env) lines rs of
                                    (rs, ok) \<Rightarrow>
                                      let run = run\<lparr>lr_response := rs\<rparr>
                                      in if \<not> ok then PageReturn run
                                         else case next_cursor pagination lastCursor
                                                     (map (sprint_any (le_formats env)) (cursorParser parsed)) of
                                                None \<Rightarrow> PageBreak True run
                                              | Some cursor \<Rightarrow> PageNext cursor run)"

partial_function (option) page_loop ::
    "(string \<Rightarrow> bool \<Rightarrow> log_run \<Rightarrow> page_outcome) \<Rightarrow> string \<Rightarrow> bool \<Rightarrow> log_run \<Rightarrow> log_run option" where
  "page_loop page lastCursor logsReturned run =
     (case page lastCursor logsReturned run of
        PageReturn run \<Rightarrow> Some run
      | PageBreak returned run \<Rightarrow>
          Some (if returned then run else run\<lparr>lr_response := abortNoLogsFound (lr_response run)\<rparr>)
      | PageNext cursor run \<Rightarrow> page_loop page cursor True run)"

definition streamPaginatedLogs ::
    "('v, 'j) log_env \<Rightarrow> 'v apiEndpoint \<Rightarrow> paginationConfig \<Rightarrow> logRecord \<Rightarrow> (string, string) gomap \<Rightarrow> (string, string) gomap
     \<Rightarrow> ('v, 'j) json_path option \<Rightarrow> log_run \<Rightarrow> log_run option" where
  "streamPaginatedLogs env endpoint pagination record extraVars headers p run =
     (case le_jp_parse env (pc_NextCursor pagination) of
        None \<Rightarrow> Some (run\<lparr>lr_response := Abort 500 BadJsonPath (lr_response run)\<rparr>)
      | Some cursorParser \<Rightarrow>
          page_loop (stream_page env endpoint pagination record extraVars headers p cursorParser) [] False run)"

section \<open>The handler\<close>

text \<open>\<^verbatim>\<open>tailLinesInt, _ := strconv.Atoi(tailLines)\<close>: zero for text that is no number, the nearest value out of range.\<close>

definition atoi_value :: "string \<Rightarrow> int" where
  "atoi_value s =
     (let r = (case s of [] \<Rightarrow> None
               | c # cs \<Rightarrow> if c = CHR ''-'' then map_option (\<lambda>n. - int n) (read_nat cs)
                          else if c = CHR ''+'' then map_option int (read_nat cs)
                          else map_option int (read_nat s))
      in case r of None \<Rightarrow> 0 | Some i \<Rightarrow> max (- (2 ^ 63)) (min (2 ^ 63 - 1) i))"

text \<open>The provider of a record, its key, the record to use, and the URL of a record of the old form.\<close>

definition resolve_provider ::
    "('v, 'j) log_env \<Rightarrow> (string, 'v providerConfig) gomap \<Rightarrow> logRecord
     \<Rightarrow> (string \<times> 'v providerConfig \<times> logRecord \<times> string) option" where
  "resolve_provider env providers record =
     (case gomap_get providers (lo_URL record) of
        Some c \<Rightarrow> Some (lo_URL record, c, record, [])
      | None \<Rightarrow>
          (case extractBaseURL (vf_ip6 (le_formats env)) (lo_URL record) of
             None \<Rightarrow> None
           | Some baseURL \<Rightarrow>
               (case gomap_get providers baseURL of
                  None \<Rightarrow> None
                | Some c \<Rightarrow>
                    if lo_Query record = [] then Some (baseURL, c, record, lo_URL record)
                    else Some (baseURL, c, record\<lparr>lo_URL := baseURL\<rparr>, []))))"

text \<open>\<open>le_do\<close> is one call of the HTTP client, whose answer is the final one: the requests with which the
  client follows redirects by itself are not recorded.\<close>

definition fetch_once ::
    "('v, 'j) log_env \<Rightarrow> 'v apiEndpoint \<Rightarrow> logRecord \<Rightarrow> (string, string) gomap \<Rightarrow> (string, string) gomap
     \<Rightarrow> ('v, 'j) json_path option \<Rightarrow> string \<Rightarrow> int \<Rightarrow> log_run \<Rightarrow> log_run" where
  "fetch_once env endpoint record extraVars headers p legacyFullURL tail run =
     (case (if legacyFullURL \<noteq> [] then new_request (le_formats env) ''GET'' legacyFullURL None
            else buildProviderRequest (le_formats env) endpoint record extraVars) of
        Inl e \<Rightarrow> run\<lparr>lr_response := Abort 500 ProviderRequestError (lr_response run)\<rparr>
      | Inr request \<Rightarrow>
          let request = set_headers headers request;
              answer = le_do env (requestTimeout endpoint) (lr_sent run) request;
              run = run\<lparr>lr_sent := lr_sent run @ [request]\<rparr>
          in case answer of
               None \<Rightarrow> run\<lparr>lr_response := Abort 500 ProviderUnreachable (lr_response run)\<rparr>
             | Some response \<Rightarrow>
                 run\<lparr>lr_response :=
                   (if ha_StatusCode response \<noteq> 200
                    then Abort (ha_StatusCode response) (ProviderStatus (ha_StatusCode response)) (lr_response run)
                    else if tail > 0 \<or> ep_Reverse endpoint
                    then writeBufferedLogs env (ha_Body response) p record (ep_Reverse endpoint) tail (lr_response run)
                    else streamLogs env (ha_Body response) p record (lr_response run))\<rparr>)"

definition retrieve ::
    "('v, 'j) log_env \<Rightarrow> 'v apiEndpoint \<Rightarrow> logRecord \<Rightarrow> (string, string) gomap \<Rightarrow> string \<Rightarrow> string \<Rightarrow> log_run \<Rightarrow> log_run option" where
  "retrieve env endpoint record headers legacyFullURL tailLines run =
     (case (if ep_JsonPath endpoint \<noteq> [] then map_option Some (le_jp_parse env (ep_JsonPath endpoint)) else Some None) of
        None \<Rightarrow> Some (run\<lparr>lr_response := Abort 500 BadJsonPath (lr_response run)\<rparr>)
      | Some p \<Rightarrow>
          let tail = atoi_value tailLines; extraVars = [(''TAIL_LINES'', tailLines)];
              once = fetch_once env endpoint record extraVars headers p legacyFullURL tail run
          in case ep_Pagination endpoint of
               None \<Rightarrow> Some once
             | Some pagination \<Rightarrow>
                 if tail > 0 \<or> ep_Reverse endpoint \<or> legacyFullURL \<noteq> [] then Some once
                 else streamPaginatedLogs env endpoint pagination record extraVars headers p run)"

definition LogRetrieval ::
    "('v, 'j) log_env \<Rightarrow> all_headers option \<Rightarrow> (string, 'v providerConfig) gomap option \<Rightarrow> string \<Rightarrow> logRecord option \<Rightarrow> log_run option" where
  "LogRetrieval env all_headers providers tailLines recordVal =
     (let run = \<lparr>lr_response = no_log_response, lr_sent = []\<rparr>;
          abort = (\<lambda>code e. Some (run\<lparr>lr_response := Abort code e no_log_response\<rparr>))
      in case recordVal of
           None \<Rightarrow> abort 404 NoLogLink
         | Some record \<Rightarrow>
             if lo_URL record = [] then abort 404 NoLogLink
             else case resolve_provider env (case providers of None \<Rightarrow> [] | Some ps \<Rightarrow> ps) record of
                    None \<Rightarrow> abort 500 NoLogProvider
                  | Some (providerKey, config, record, legacyFullURL) \<Rightarrow>
                      let headers = gomap_get0 [] (case all_headers of None \<Rightarrow> [] | Some h \<Rightarrow> h) providerKey
                      in if tailLines \<noteq> [] \<and> legacyFullURL \<noteq> [] then abort 400 TailUnsupported
                         else case (if tailLines \<noteq> [] then pv_Tail config else pv_Full config) of
                                None \<Rightarrow> abort 500 NoLogEndpoint
                              | Some endpoint \<Rightarrow> retrieve env endpoint record headers legacyFullURL tailLines run)"

text \<open>A request for a log: the middleware, the search for the log link, then the retrieval.\<close>

definition serve_log ::
    "api_env \<Rightarrow> ('v, 'j) log_env \<Rightarrow> all_headers option \<Rightarrow> (string, 'v providerConfig) gomap option \<Rightarrow> read_faults \<Rightarrow> db_state
     \<Rightarrow> request \<Rightarrow> api_state \<Rightarrow> log_run option \<times> api_state" where
  "serve_log env lenv headers providers flt db rq st =
     (let aborted = (\<lambda>code e. \<lparr>lr_response = Abort code e no_log_response, lr_sent = []\<rparr>)
      in case access_gates env rq st of
           (Inl (code, e), st) \<Rightarrow> (Some (aborted code e), st)
         | (Inr cx, st) \<Rightarrow>
             (case Middleware rq of
                Inl (code, e) \<Rightarrow> (Some (aborted code e), st)
              | Inr pg \<Rightarrow>
                  (case GetLogURL flt db rq cx of
                     None \<Rightarrow> None
                   | Some (Inl rs) \<Rightarrow>
                       Some \<lparr>lr_response = no_log_response\<lparr>rs_status := rs_status rs, rs_body := rs_body rs, rs_aborted := rs_aborted rs\<rparr>,
                             lr_sent = []\<rparr>
                   | Some (Inr record) \<Rightarrow>
                       LogRetrieval lenv headers providers (query_param rq ''tailLines'') (Some record), st)))"

section \<open>Lemmas: where the requests go\<close>

fun outcome_run :: "page_outcome \<Rightarrow> log_run" where
  "outcome_run (PageReturn run) = run"
| "outcome_run (PageBreak b run) = run"
| "outcome_run (PageNext c run) = run"

lemma page_loop_sent:
  assumes "page_loop page c b run = Some run'"
    and step: "\<And>c b r. P (lr_sent r) \<Longrightarrow> P (lr_sent (outcome_run (page c b r)))"
    and "P (lr_sent run)"
  shows "P (lr_sent run')"
proof -
  let ?P = "\<lambda>pg c b run run'. pg = page \<longrightarrow> P (lr_sent run) \<longrightarrow> P (lr_sent run')"
  have "?P page c b run run'"
  proof (rule page_loop.raw_induct [where P = ?P, OF _ assms(1)])
    fix loop pg c b run y
    assume IH: "\<And>pg c b run y. loop pg c b run = Some y \<Longrightarrow> ?P pg c b run y"
      and body: "(case pg c b run of PageReturn run \<Rightarrow> Some run
        | PageBreak returned run \<Rightarrow>
            Some (if returned then run else run\<lparr>lr_response := abortNoLogsFound (lr_response run)\<rparr>)
        | PageNext cursor run \<Rightarrow> loop pg cursor True run) = Some y"
    show "?P pg c b run y"
      using body step [of run c b] IH by (cases "pg c b run") auto
  qed
  with assms(3) show ?thesis by simp
qed

lemma set_headers_URL [simp]: "hr_URL (set_headers hs rq) = hr_URL rq"
  by (simp add: set_headers_def)

lemma page_request_host [simp]: "ur_Host (hr_URL (page_request pg hs c rq)) = ur_Host (hr_URL rq)"
  by (simp add: page_request_def)

lemma stream_page_sent:
  "lr_sent (outcome_run (stream_page env ep pg rc vars hs p cp c b run)) = lr_sent run
   \<or> (\<exists>rq. buildProviderRequest (le_formats env) ep rc vars = Inr rq
          \<and> lr_sent (outcome_run (stream_page env ep pg rc vars hs p cp c b run)) = lr_sent run @ [page_request pg hs c rq])"
  by (cases "buildProviderRequest (le_formats env) ep rc vars")
     (auto simp: stream_page_def page_error_def Let_def split: option.splits prod.splits)

definition sent_to :: "string \<Rightarrow> http_request list \<Rightarrow> bool" where
  "sent_to h rqs \<longleftrightarrow> (\<forall>rq\<in>set rqs. ur_Host (hr_URL rq) = removeEmptyPort h)"

lemma sent_to_snoc [simp]: "sent_to h [] " "sent_to h (rqs @ [rq]) \<longleftrightarrow> sent_to h rqs \<and> ur_Host (hr_URL rq) = removeEmptyPort h"
  by (auto simp: sent_to_def)

lemma streamPaginatedLogs_sent:
  assumes "names_host (vf_ip6 (le_formats env)) (lo_URL rc) h"
    and "streamPaginatedLogs env ep pg rc vars hs p run = Some run'" and "sent_to h (lr_sent run)"
  shows "sent_to h (lr_sent run')"
proof (cases "le_jp_parse env (pc_NextCursor pg)")
  case None
  with assms show ?thesis by (auto simp: streamPaginatedLogs_def)
next
  case (Some cp)
  have step: "sent_to h (lr_sent r) \<Longrightarrow> sent_to h (lr_sent (outcome_run (stream_page env ep pg rc vars hs p cp c b r)))" for c b r
    using stream_page_sent [of env ep pg rc vars hs p cp c b r] buildProviderRequest_host [OF assms(1)]
    by auto
  show ?thesis
    by (rule page_loop_sent [where P = "sent_to h", OF _ step assms(3)]) (use assms(2) Some in \<open>simp_all add: streamPaginatedLogs_def\<close>)
qed

lemma fetch_once_sent:
  assumes "legacy = [] \<Longrightarrow> names_host (vf_ip6 (le_formats env)) (lo_URL rc) h"
    and "\<And>rq. legacy \<noteq> [] \<Longrightarrow> new_request (le_formats env) ''GET'' legacy None = Inr rq \<Longrightarrow> ur_Host (hr_URL rq) = removeEmptyPort h"
    and "sent_to h (lr_sent run)"
  shows "sent_to h (lr_sent (fetch_once env ep rc vars hs p legacy tail run))"
proof -
  let ?b = "if legacy \<noteq> [] then new_request (le_formats env) ''GET'' legacy None
            else buildProviderRequest (le_formats env) ep rc vars"
  have "ur_Host (hr_URL rq) = removeEmptyPort h" if "?b = Inr rq" for rq
    using that assms(1,2) buildProviderRequest_host [of "le_formats env" rc h ep vars rq] by (auto split: if_splits)
  with assms(3) show ?thesis
    by (auto simp: fetch_once_def Let_def split: option.splits sum.splits)
qed

lemma retrieve_sent:
  assumes "legacy = [] \<Longrightarrow> names_host (vf_ip6 (le_formats env)) (lo_URL rc) h"
    and "\<And>rq. legacy \<noteq> [] \<Longrightarrow> new_request (le_formats env) ''GET'' legacy None = Inr rq \<Longrightarrow> ur_Host (hr_URL rq) = removeEmptyPort h"
    and "sent_to h (lr_sent run)" and "retrieve env ep rc hs legacy tls run = Some run'"
  shows "sent_to h (lr_sent run')"
  using assms(4) fetch_once_sent [OF assms(1,2,3)] streamPaginatedLogs_sent [OF assms(1) _ assms(3)]
  by (auto simp: retrieve_def Let_def assms(3) split: option.splits if_splits)

text \<open>A host of letters, digits and the punctuation of hosts: it is its own escaped form.\<close>

definition plain_host :: "string \<Rightarrow> bool" where
  "plain_host h \<longleftrightarrow> h \<noteq> [] \<and> list_all (\<lambda>c. \<not> shouldEscape EncodeHost c) h \<and> CHR ''['' \<notin> set (tl h)"

lemma plain_host_escape: "plain_host h \<Longrightarrow> escape EncodeHost h = h"
proof -
  have "list_all (\<lambda>c. \<not> shouldEscape EncodeHost c) h \<Longrightarrow> escape EncodeHost h = h"
    by (induction h) (auto simp: escape_def escape_char_def)
  then show "plain_host h \<Longrightarrow> ?thesis" by (simp add: plain_host_def)
qed

lemma base_url_host:
  assumes parse: "url_Parse ip6 raw = Some u" and plain: "plain_host (ur_Host u)" 
    and again: "url_Parse ip6 (ur_Scheme u @ ''://'' @ ur_Host u) = Some v"
  shows "ur_Host v = ur_Host u"
proof -
  have sch: "ur_Scheme u \<noteq> []"
  proof
    assume "ur_Scheme u = []"
    then have "url_Parse ip6 (ur_Scheme u @ ''://'' @ ur_Host u) = None"
      by (auto simp: url_Parse_def split_beta cut_at_fst parse_no_fragment_def getScheme_def)
    with again show False by simp
  qed
  let ?w = "empty_url\<lparr>ur_Scheme := ur_Scheme u, ur_Host := ur_Host u\<rparr>"
  have "hosted u" using url_Parse_hosted [OF parse] plain by (simp add: plain_host_def)
  then have w: "hosted ?w" by (simp add: hosted_def empty_url_def)
  have "url_String ?w = ur_Scheme u @ ''://'' @ ur_Host u"
    using plain_host_escape [OF plain] plain sch
    by (simp add: url_String_def url_authority_def empty_url_def Let_def EscapedPath_def escape_def plain_host_def)
  with url_String_host [OF w, of ip6 v] again plain show ?thesis by (simp add: plain_host_def)
qed


text \<open>A provider with one endpoint, for examples.\<close>

definition sample_endpoint :: "unit apiEndpoint" where
  "sample_endpoint =
     \<lparr>ep_Reverse = False, ep_Path = ''/logs/${NAMESPACE}'', ep_Method = ''get'',
      ep_Params = [(''start'', AString ''${START}''), (''query'', AString ''${QUERY}'')], ep_Body = [], ep_JsonPath = ''$.'',
      ep_Pagination = None, ep_Timeout = ''1m30s''\<rparr>"

definition sample_log_env :: "(unit, string) log_env" where
  "sample_log_env =
     \<lparr>le_formats = \<lparr>vf_ip6 = (\<lambda>_. False), vf_sprint = (\<lambda>_. []), vf_marshal = (\<lambda>_. Some ''{}'')\<rparr>,
      le_jp_parse = (\<lambda>_. Some (\<lambda>j. [AString j])), le_oj_parse = Some,
      le_do = (\<lambda>_ _ _. Some \<lparr>ha_StatusCode = 200, ha_Body = \<lparr>hb_data = ''hello'', hb_broken = False\<rparr>\<rparr>), le_gone = (\<lambda>_. False)\<rparr>"

definition sample_log_record :: logRecord where
  "sample_log_record =
     \<lparr>lo_Namespace = ''ns'', lo_PodName = ''p'', lo_PodUUID = ''u'', lo_ContainerName = ''c'', lo_URL = ''http://loki:3100'',
      lo_Query = ''app@host'', lo_Start = ''1700000000000000001'', lo_End = ''2''\<rparr>"

definition sample_providers :: "(string, unit providerConfig) gomap" where
  "sample_providers = [(''http://loki:3100'', \<lparr>pv_Tail = None, pv_Full = Some sample_endpoint\<rparr>)]"

text \<open>C7: every request that retrieving a log sends, on the first page or a later one, goes to the host
  of the URL of the log record, for which a provider is configured: neither the variables substituted
  into the path nor the parameters of the query can send it elsewhere. Requests that the HTTP client
  makes by itself to follow a redirect of the provider are not among these.\<close>

theorem log_requests_reach_provider:
  assumes "LogRetrieval env headers providers tailLines (Some rc) = Some run" "rq \<in> set (lr_sent run)"
    and parse: "url_Parse (vf_ip6 (le_formats env)) (lo_URL rc) = Some u" and plain: "plain_host (ur_Host u)"
  shows "ur_Host (hr_URL rq) = removeEmptyPort (ur_Host u)
    \<and> (\<exists>ps key. providers = Some ps \<and> key \<in> {lo_URL rc, ur_Scheme u @ ''://'' @ ur_Host u} \<and> gomap_get ps key \<noteq> None)"
proof -
  let ?ip6 = "vf_ip6 (le_formats env)"
  let ?base = "ur_Scheme u @ ''://'' @ ur_Host u"
  let ?ps = "case providers of None \<Rightarrow> [] | Some ps \<Rightarrow> ps"
  have base: "extractBaseURL ?ip6 (lo_URL rc) = Some ?base" using parse plain by (simp add: extractBaseURL_def plain_host_def)
  have direct: "names_host ?ip6 (lo_URL rc) (ur_Host u)" using parse plain by (auto simp: names_host_def plain_host_def)
  obtain key config rc' legacy where res: "resolve_provider env ?ps rc = Some (key, config, rc', legacy)"
    using assms(1,2) by (auto simp: LogRetrieval_def Let_def split: if_splits option.splits)
  obtain ep where ret: "retrieve env ep rc' (gomap_get0 [] (case headers of None \<Rightarrow> [] | Some h \<Rightarrow> h) key) legacy tailLines
      \<lparr>lr_response = no_log_response, lr_sent = []\<rparr> = Some run"
    using assms(1,2) res by (auto simp: LogRetrieval_def Let_def split: if_splits option.splits)
  have configured: "gomap_get ?ps key \<noteq> None" "key \<in> {lo_URL rc, ?base}"
    using res base by (auto simp: resolve_provider_def split: option.splits if_splits)
  consider (same) "rc' = rc" "legacy = []" | (full) "legacy = lo_URL rc" | (rebased) "rc' = rc\<lparr>lo_URL := ?base\<rparr>" "legacy = []"
    using res by (auto simp: resolve_provider_def base split: option.splits if_splits)
  then have "sent_to (ur_Host u) (lr_sent run)"
  proof cases
    case same
    with direct show ?thesis using retrieve_sent [OF _ _ _ ret] by auto
  next
    case full
    have "ur_Host (hr_URL r) = removeEmptyPort (ur_Host u)" if "new_request (le_formats env) ''GET'' legacy None = Inr r" for r
      using that full parse by (auto simp: new_request_def NewRequest_def Let_def split: option.splits if_splits)
    moreover have "legacy \<noteq> []" using full assms(1,2) by (auto simp: LogRetrieval_def Let_def split: if_splits)
    ultimately show ?thesis using retrieve_sent [OF _ _ _ ret] by auto
  next
    case rebased
    have "names_host ?ip6 ?base (ur_Host u)"
      using base_url_host [OF parse plain] plain by (auto simp: names_host_def plain_host_def)
    with rebased show ?thesis using retrieve_sent [OF _ _ _ ret] by auto
  qed
  moreover have "providers = Some ?ps" using configured(1) by (cases providers) auto
  ultimately show ?thesis using assms(2) configured unfolding sent_to_def by blast
qed

lemma sample_retrieval:
  "\<exists>run. LogRetrieval sample_log_env None (Some sample_providers) [] (Some sample_log_record) = Some run
     \<and> map (\<lambda>rq. url_String (hr_URL rq)) (lr_sent run) = [''http://loki:3100/logs/ns?query=app%40host&start=1700000000000000001'']
     \<and> rs_body (lr_response run) = [LogText ''hello'']"
proof -
  have "map_option (\<lambda>run. (map (\<lambda>rq. url_String (hr_URL rq)) (lr_sent run), rs_body (lr_response run)))
      (LogRetrieval sample_log_env None (Some sample_providers) [] (Some sample_log_record)) =
     Some ([''http://loki:3100/logs/ns?query=app%40host&start=1700000000000000001''], [LogText ''hello''])" by code_simp
  then show ?thesis by auto
qed


theorem log_requests_reach_provider_witness:
  "\<exists>run rq. LogRetrieval sample_log_env None (Some sample_providers) [] (Some sample_log_record) = Some run
     \<and> rq \<in> set (lr_sent run) \<and> ur_Host (hr_URL rq) = ''loki:3100''"
proof -
  obtain run where run: "LogRetrieval sample_log_env None (Some sample_providers) [] (Some sample_log_record) = Some run" "lr_sent run \<noteq> []"
    using sample_retrieval by auto
  then obtain rq where rq: "rq \<in> set (lr_sent run)" by (meson hd_in_set)
  have "map_option ur_Host (url_Parse (vf_ip6 (le_formats sample_log_env)) (lo_URL sample_log_record)) = Some ''loki:3100''" by code_simp
  then obtain u where u: "url_Parse (vf_ip6 (le_formats sample_log_env)) (lo_URL sample_log_record) = Some u" "ur_Host u = ''loki:3100''"
    by auto
  have "plain_host ''loki:3100''" "removeEmptyPort ''loki:3100'' = ''loki:3100''" by code_simp+
  with log_requests_reach_provider [OF run(1) rq u(1)] u(2) run(1) rq show ?thesis by auto
qed

section \<open>Lemmas: tails\<close>

lemma read_entries_step:
  assumes "ReadBytes body = (line, e, body')" "e \<noteq> ReadFailed" "parseLine env p line = Some parsed"
  shows "read_entries env p t acc n body =
    (if e = ReadEOF \<or> 0 < t \<and> t \<le> n + sum_list (map line_count parsed) then Inr (acc @ parsed)
     else read_entries env p t (acc @ parsed) (n + sum_list (map line_count parsed)) body')"
  using assms by (subst read_entries.simps) (auto simp: Let_def)

lemma read_entries_reads:
  assumes "read_entries env p t acc n body = Inr es"
  obtains line e body' parsed where "ReadBytes body = (line, e, body')" "e \<noteq> ReadFailed" "parseLine env p line = Some parsed"
proof -
  obtain line e body' where rb: "ReadBytes body = (line, e, body')" by (cases "ReadBytes body") auto
  from assms rb obtain parsed where "e \<noteq> ReadFailed" "parseLine env p line = Some parsed"
    by (auto simp: read_entries.simps [of env p t acc n body] split: if_splits option.splits)
  with rb show ?thesis by (rule that)
qed

lemma read_entries_prefix:
  "read_entries env p t acc m body = Inr es \<Longrightarrow> \<exists>r. es = acc @ r"
proof (induction env p t acc m body rule: read_entries.induct)
  case (1 env p t acc m body)
  from read_entries_reads [OF "1.prems"] obtain line e body' parsed where rb: "ReadBytes body = (line, e, body')"
    and pl: "e \<noteq> ReadFailed" "parseLine env p line = Some parsed" .
  note step = read_entries_step [OF rb pl, of t acc m]
  show ?case
  proof (cases "e = ReadEOF \<or> 0 < t \<and> t \<le> m + sum_list (map line_count parsed)")
    case True
    with "1.prems" step show ?thesis by auto
  next
    case False
    with "1.prems" step have "read_entries env p t (acc @ parsed) (m + sum_list (map line_count parsed)) body' = Inr es" by simp
    with "1.IH" [OF rb [symmetric] refl pl refl refl] False show ?thesis by fastforce
  qed
qed

lemma read_entries_tail:
  assumes "read_entries env p 0 acc m body = Inr es" "n = sum_list (map line_count acc)"
  shows "\<exists>es' rest. read_entries env p t acc n body = Inr es' \<and> es = es' @ rest \<and> (rest = [] \<or> t \<le> sum_list (map line_count es'))"
  using assms
proof (induction env p "0 :: int" acc m body arbitrary: n rule: read_entries.induct)
  case (1 env p acc m body)
  from read_entries_reads [OF "1.prems"(1)] obtain line e body' parsed where rb: "ReadBytes body = (line, e, body')"
    and pl: "e \<noteq> ReadFailed" "parseLine env p line = Some parsed" .
  let ?n = "n + sum_list (map line_count parsed)"
  note t = read_entries_step [OF rb pl, of t acc n] and full = read_entries_step [OF rb pl, of 0 acc m]
  show ?case
  proof (cases "e = ReadEOF")
    case True
    with "1.prems"(1) t full show ?thesis by auto
  next
    case False
    with "1.prems"(1) full have go: "read_entries env p 0 (acc @ parsed) (m + sum_list (map line_count parsed)) body' = Inr es"
      by simp
    show ?thesis
    proof (cases "0 < t \<and> t \<le> ?n")
      case True
      moreover obtain r where "es = (acc @ parsed) @ r" using read_entries_prefix [OF go] by blast
      ultimately show ?thesis using t "1.prems"(2) by auto
    next
      case stop: False
      have "\<exists>es' rest. read_entries env p t (acc @ parsed) ?n body' = Inr es' \<and> es = es' @ rest
          \<and> (rest = [] \<or> t \<le> sum_list (map line_count es'))"
        using "1.hyps" [OF rb [symmetric] refl pl refl refl False _ go] "1.prems"(2) by simp
      moreover have "\<not> (e = ReadEOF \<or> 0 < t \<and> t \<le> ?n)" using False stop by blast
      then have "read_entries env p t acc n body = read_entries env p t (acc @ parsed) ?n body'" by (simp only: t if_False)
      ultimately show ?thesis by simp
    qed
  qed
qed

text \<open>Entries without blank lines: every line of theirs is written.\<close>

definition no_blank :: "string list \<Rightarrow> bool" where
  "no_blank es \<longleftrightarrow> list_all (\<lambda>e. [] \<notin> set (split_on newline e)) es"

lemma length_flat_lines:
  "no_blank es \<Longrightarrow> int (length (flat_lines es)) = sum_list (map line_count es)"
proof (induction es)
  case (Cons e es)
  have "filter (\<lambda>l. l \<noteq> []) (split_on newline e) = split_on newline e"
    using Cons.prems by (auto simp: no_blank_def filter_id_conv)
  moreover have "no_blank es" using Cons.prems by (simp add: no_blank_def)
  ultimately show ?case using Cons.IH by (simp add: flat_lines_def line_count_def length_split_on)
qed (simp add: flat_lines_def)

lemma flat_lines_append: "flat_lines (xs @ ys) = flat_lines xs @ flat_lines ys"
  by (simp add: flat_lines_def)

lemma line_count_rev: "sum_list (map line_count (rev es)) = sum_list (map line_count es)"
  by (simp flip: rev_map add: sum_list_rev)

definition last_n :: "nat \<Rightarrow> 'a list \<Rightarrow> 'a list" where
  "last_n n xs = drop (length xs - n) xs"

lemma last_n_append: "n \<le> length ys \<Longrightarrow> last_n n (xs @ ys) = last_n n ys"
  by (simp add: last_n_def)

lemma c_String_body:
  assumes "\<And>n. \<not> gone n"
  shows "rs_body (foldl (c_String gone) rs ls) = rs_body rs @ map LogText ls"
  using assms by (induction ls arbitrary: rs) (simp_all add: c_String_def write_line_def write_part_def)

lemma setLogResponseHeaders_keeps [simp]:
  "rs_body (setLogResponseHeaders rc rs) = rs_body rs" "rs_status (setLogResponseHeaders rc rs) = rs_status rs"
  "rs_aborted (setLogResponseHeaders rc rs) = rs_aborted rs"
  by (simp_all add: setLogResponseHeaders_def c_Header_def)

lemma no_log_response_simps [simp]:
  "rs_body no_log_response = []" "rs_status no_log_response = None" "rs_aborted no_log_response = False"
  by (simp_all add: no_log_response_def)

text \<open>C40: for a provider that returns the newest entries first, the tail of \<open>n\<close> lines is the last \<open>n\<close>
  lines of the log in order, although reading stops as soon as enough lines are there, as long as no
  entry has a blank line.\<close>

theorem tail_is_last_lines:
  assumes full: "read_entries env p 0 [] 0 body = Inr es" and "es \<noteq> []" and tail: "0 < tail" and blank: "no_blank es"
    and gone: "\<And>n. \<not> le_gone env n"
  shows "rs_body (writeBufferedLogs env body p rc True tail no_log_response) =
    map LogText (last_n (nat tail) (flat_lines (rev es)))"
proof -
  obtain es' rest where r: "read_entries env p tail [] 0 body = Inr es'" "es = es' @ rest"
      "rest = [] \<or> tail \<le> sum_list (map line_count es')"
    using read_entries_tail [OF full, of 0 tail] by auto
  have "no_blank (rev es')" using blank r(2) by (simp add: no_blank_def)
  from length_flat_lines [OF this] have len: "int (length (flat_lines (rev es'))) = sum_list (map line_count es')"
    by (simp only: line_count_rev)
  have "last_n (nat tail) (flat_lines (rev es)) = last_n (nat tail) (flat_lines (rev es'))"
  proof (cases "rest = []")
    case False
    with r(3) len have "nat tail \<le> length (flat_lines (rev es'))" by auto
    then show ?thesis using r(2) by (simp add: flat_lines_append last_n_append)
  qed (simp add: r(2))
  moreover have "es' \<noteq> []"
    using r(2,3) assms(2) tail by auto
  moreover have "(if 0 < tail \<and> tail < int (length ls) then drop (length ls - nat tail) ls else ls) = last_n (nat tail) ls" for ls :: "string list"
    using tail by (auto simp: last_n_def)
  ultimately show ?thesis
    using r(1) by (simp add: writeBufferedLogs_def Let_def c_String_body [OF gone])
qed

theorem tail_is_last_lines_witness:
  "rs_body (writeBufferedLogs sample_log_env \<lparr>hb_data = ''c'' @ [newline] @ ''b'' @ [newline] @ ''a'', hb_broken = False\<rparr>
     None sample_log_record True 2 no_log_response) = [LogText ''b'', LogText ''c'']"
proof -
  have "read_entries sample_log_env None 0 [] 0 \<lparr>hb_data = ''c'' @ [newline] @ ''b'' @ [newline] @ ''a'', hb_broken = False\<rparr> =
      Inr [''c'', ''b'', ''a'']" by code_simp
  from tail_is_last_lines [OF this, of 2 sample_log_record] show ?thesis
    by (simp add: sample_log_env_def no_blank_def flat_lines_def last_n_def)
qed

text \<open>For a provider in forward order, the lines the reading stops after are the first ones.\<close>

lemma forward_tail_is_head:
  "rs_body (writeBufferedLogs sample_log_env \<lparr>hb_data = ''a'' @ [newline] @ ''b'' @ [newline] @ ''c'', hb_broken = False\<rparr>
     None sample_log_record False 1 no_log_response) = [LogText ''a'']"
  by code_simp

section \<open>Lemmas: streams\<close>

lemma writeLogLines_all:
  assumes "\<And>n. \<not> gone n"
  shows "writeLogLines gone ls rs = (if ls = [] then rs else
      rs\<lparr>rs_status := (case rs_status rs of None \<Rightarrow> Some 200 | Some c \<Rightarrow> Some c), rs_body := rs_body rs @ map LogText ls\<rparr>, True)"
  using assms by (induction ls arbitrary: rs) (auto simp: write_line_def write_part_def split: option.splits)

lemma stream_loop_step:
  assumes "ReadBytes body = (line, e, body')" "e \<noteq> ReadFailed" "parseLine env p line = Some parsed"
    and "\<And>n. \<not> le_gone env n"
  shows "stream_loop env p rc returned body rs =
    (let rs1 = (if parsed \<noteq> [] \<and> \<not> returned then setLogResponseHeaders rc rs else rs);
         rs2 = fst (writeLogLines (le_gone env) parsed rs1);
         returned = (returned \<or> parsed \<noteq> [])
     in if e = ReadEOF then (if returned then rs2 else abortNoLogsFound rs2) else stream_loop env p rc returned body' rs2)"
  using assms(1-3) by (subst stream_loop.simps) (simp add: Let_def split_beta writeLogLines_all [OF assms(4)])

lemma stream_loop_entries:
  assumes "read_entries env p 0 acc m body = Inr es" and "\<forall>n. \<not> le_gone env n"
    and "rs_body rs = map LogText acc" "returned = (acc \<noteq> [])" "rs_status rs = (if returned then Some 200 else None)" "\<not> rs_aborted rs"
    and "es \<noteq> []"
  shows "rs_body (stream_loop env p rc returned body rs) = map LogText es
    \<and> rs_status (stream_loop env p rc returned body rs) = Some 200 \<and> \<not> rs_aborted (stream_loop env p rc returned body rs)"
  using assms
proof (induction env p "0 :: int" acc m body arbitrary: rs returned rule: read_entries.induct)
  case (1 env p acc m body)
  from read_entries_reads [OF "1.prems"(1)] obtain line e body' parsed where rb: "ReadBytes body = (line, e, body')"
    and pl: "e \<noteq> ReadFailed" "parseLine env p line = Some parsed" .
  note full = read_entries_step [OF rb pl, of 0 acc m]
  define rs2 where "rs2 = fst (writeLogLines (le_gone env) parsed (if parsed \<noteq> [] \<and> \<not> returned then setLogResponseHeaders rc rs else rs))"
  have gone: "\<not> le_gone env n" for n using "1.prems"(2) by simp
  have rs2: "rs_body rs2 = map LogText (acc @ parsed)" "\<not> rs_aborted rs2"
      "rs_status rs2 = (if acc @ parsed \<noteq> [] then Some 200 else None)"
    using "1.prems"(3-6) unfolding rs2_def by (auto simp: writeLogLines_all [OF gone])
  have step: "stream_loop env p rc returned body rs =
      (if e = ReadEOF then (if acc @ parsed \<noteq> [] then rs2 else abortNoLogsFound rs2)
       else stream_loop env p rc (acc @ parsed \<noteq> []) body' rs2)"
    using stream_loop_step [OF rb pl gone, of rc returned rs] "1.prems"(4) by (simp add: Let_def rs2_def)
  show ?case
  proof (cases "e = ReadEOF")
    case True
    with full "1.prems"(1,7) rs2 step show ?thesis by simp
  next
    case False
    with full "1.prems"(1) have go: "read_entries env p 0 (acc @ parsed) (m + sum_list (map line_count parsed)) body' = Inr es"
      by simp
    from "1.hyps" [OF rb [symmetric] refl pl refl refl False _ go "1.prems"(2) rs2(1) refl rs2(3,2) "1.prems"(7)]
    show ?thesis using False step by simp
  qed
qed

text \<open>Streaming a log writes, with status 200, exactly the entries that reading the whole
  answer into memory gives, in the same order.\<close>

theorem stream_is_full_log:
  assumes "read_entries env p 0 [] 0 body = Inr es" "es \<noteq> []" "\<forall>n. \<not> le_gone env n"
  shows "rs_body (streamLogs env body p rc no_log_response) = map LogText es
    \<and> rs_status (streamLogs env body p rc no_log_response) = Some 200"
  using stream_loop_entries [OF assms(1,3), of no_log_response False rc] assms(2) by (simp add: streamLogs_def)

theorem stream_is_full_log_witness:
  "rs_body (streamLogs sample_log_env \<lparr>hb_data = ''c'' @ [newline, newline] @ ''b'', hb_broken = False\<rparr> None sample_log_record no_log_response) =
     [LogText ''c'', LogText ''b'']"
proof -
  have "read_entries sample_log_env None 0 [] 0 \<lparr>hb_data = ''c'' @ [newline, newline] @ ''b'', hb_broken = False\<rparr> = Inr [''c'', ''b'']"
    by code_simp
  from stream_is_full_log [OF this, of sample_log_record] show ?thesis by (simp add: sample_log_env_def)
qed

end
