(* ===== verification/Api_Pages.thy ===== *)
theory Api_Pages
  imports Api_Server
begin

text \<open>
  Lists over the API: a page holds exactly the next resources of the whole result, its continue
  token is read back by the next request, and following the tokens gives every resource once. What
  a list or a document shows is archived under the kind, API version and namespace the request was
  authorized for.
\<close>

section \<open>Continue tokens\<close>

lemma digit_plain:
  "d < 10 \<Longrightarrow> digit_char d \<noteq> CHR '' ''" "d < 10 \<Longrightarrow> digit_char d \<noteq> CHR 0x22"
  using char_digit_digit_char [of d] by (auto simp: char_digit_def)

lemma pad2_plain: "n < 100 \<Longrightarrow> CHR '' '' \<notin> set (pad2 n) \<and> CHR 0x22 \<notin> set (pad2 n)"
proof -
  assume "n < 100"
  then have "n div 10 < 10" "n mod 10 < 10" by auto
  then show ?thesis using digit_plain [of "n div 10"] digit_plain [of "n mod 10"] by (auto simp: pad2_def)
qed

lemma utc_stamp_plain:
  assumes "utc_stamp s"
  shows "CHR '' '' \<notin> set s \<and> CHR 0x22 \<notin> set s \<and> s \<noteq> []"
proof -
  from assms obtain t where t: "rfc_parse s = Some t" "t_offset t = 0" "rfc_format t = s"
    by (auto simp: utc_stamp_def split: option.splits)
  have v: "rfc_valid t" using rfc_parse_valid [OF t(1)] t(2) by simp
  have "t_year t div 100 < 100" "t_year t mod 100 < 100" "t_month t < 100" "t_day t < 100" "t_hour t < 100" "t_minute t < 100" "t_second t < 100"
    using v days_in_le [of "t_month t" "t_year t"] by (auto simp: rfc_valid_def)
  note p = this [THEN pad2_plain]
  have "CHR '' '' \<notin> set (rfc_format t) \<and> CHR 0x22 \<notin> set (rfc_format t) \<and> rfc_format t \<noteq> []"
    using p t(2) by (simp add: rfc_format_def zone_text_def)
  with t(3) show ?thesis by simp
qed

lemma trim_quotes: "CHR 0x22 \<notin> set s \<Longrightarrow> trim_suffix [CHR 0x22] (trim_prefix [CHR 0x22] s) = s"
  by (auto simp: trim_suffix_def trim_prefix_def prefix_def suffix_def)

lemma parse_CreateToken:
  assumes "in_int64 i" and "utc_stamp date"
  shows "parse_token (CreateToken i date) = Some (show_int i, date)"
proof -
  note plain = utc_stamp_plain [OF assms(2)]
  from utc_stamp_parse [OF assms(2)] obtain t where t: "rfc_parse date = Some t" "rfc_format t = date" by blast
  have tok: "CreateToken i date = b64_encode (show_int i @ CHR '' '' # date)"
    using plain by (simp add: CreateToken_def trim_quotes)
  have "split_on (CHR '' '') (show_int i @ CHR '' '' # date) = [show_int i, date]"
    using plain by (simp add: split_on_cons [OF show_int_no_space] split_on_none)
  with t show ?thesis by (simp add: tok parse_token_def parse_int_show_int [OF assms(1)])
qed

section \<open>Streamed pages\<close>

fun list_body :: "json_data list \<Rightarrow> body_part list" where
  "list_body [] = []"
| "list_body (d # ds) = ListHead # ListItem d # concat (map (\<lambda>x. [ListComma, ListItem x]) ds)"

definition list_response :: "json_data list \<Rightarrow> string \<Rightarrow> response" where
  "list_response ds token =
     \<lparr>rs_status = Some 200, rs_body = (if ds = [] then [ListHead] else list_body ds) @ [ListTail token], rs_aborted = False\<rparr>"

definition last_opt :: "'a list \<Rightarrow> 'a option" where
  "last_opt xs = (if xs = [] then None else Some (last xs))"

definition streamed :: "int \<Rightarrow> resource list \<Rightarrow> stream_state" where
  "streamed limit xs =
     (let ys = take (nat limit) xs
      in \<lparr>sst_count = int (length xs), sst_last = last_opt ys, sst_hasMore = (limit < int (length xs)), sst_headerWritten = (ys \<noteq> []),
          sst_response = (if ys = [] then no_response
             else no_response\<lparr>rs_status := Some 200, rs_body := list_body (map re_Data ys)\<rparr>)\<rparr>)"

lemma list_body_snoc: "list_body (ds @ [d]) = list_body ds @ [if ds = [] then ListHead else ListComma, ListItem d]"
  by (cases ds) simp_all

lemma stream_item_streamed:
  assumes "0 < limit"
  shows "stream_item limit (streamed limit xs) x = Some (streamed limit (xs @ [x]))"
proof (cases "int (length xs) < limit")
  case True
  then have "take (nat limit) xs = xs" "take (nat limit) (xs @ [x]) = xs @ [x]" by simp_all
  with True show ?thesis
    by (simp add: stream_item_def streamed_def Let_def write_part_def no_response_def last_opt_def list_body_snoc)
next
  case False
  then have "take (nat limit) (xs @ [x]) = take (nat limit) xs" by simp
  with False show ?thesis by (simp add: stream_item_def streamed_def Let_def)
qed

lemma stream_pages:
  assumes "0 < limit" and "\<forall>r\<in>set rows. created r \<noteq> None"
  shows "performStreamQuery (stream_item limit) (streamed limit xs) rows =
    (None, streamed limit (xs @ map (\<lambda>r. the (scan_row r)) rows))"
  using assms(2)
proof (induction rows arbitrary: xs)
  case (Cons r rows)
  then obtain x where "scan_row r = Some x" by (auto simp: scan_row_def)
  with Cons show ?case by (simp add: stream_item_streamed [OF assms(1)])
qed simp

definition page_token :: "nat \<Rightarrow> resource_row list \<Rightarrow> string" where
  "page_token n rows =
     (if n < length rows then (let r = rows ! (n - 1) in CreateToken (rr_id r) (the (created r))) else [])"

lemma scan_row_the:
  "created r \<noteq> None \<Longrightarrow> the (scan_row r) = \<lparr>re_Date = the (created r), re_Id = rr_id r, re_Uuid = rr_uuid r, re_Data = rr_data r\<rparr>"
  by (auto simp: scan_row_def)

lemma list_resources_page:
  assumes q: "buildResourceListQuery (rd_resolve flt) db (a\<lparr>la_limit := la_limit a + 1\<rparr>) = Inr q" and "\<not> rd_query flt"
    and lim: "lq_limit q = Some (la_limit a + 1)" "0 < la_limit a"
    and rows: "select_rows db q = take (nat (la_limit a + 1)) rows" "\<forall>r\<in>set rows. created r \<noteq> None"
  shows "list_resources flt db a no_response =
    list_response (map rr_data (take (nat (la_limit a)) rows)) (page_token (nat (la_limit a)) rows)"
proof -
  let ?n = "nat (la_limit a)" and ?f = "\<lambda>r. the (scan_row r)"
  let ?rows = "take (nat (la_limit a + 1)) rows"
  have n: "nat (la_limit a + 1) = Suc ?n" "0 < ?n" using lim(2) by simp_all
  have dated: "\<forall>r\<in>set ?rows. created r \<noteq> None" using rows(2) by (meson in_set_takeD)
  have s0: "\<lparr>sst_count = 0, sst_last = None, sst_hasMore = False, sst_headerWritten = False, sst_response = no_response\<rparr> = streamed (la_limit a) []"
    using lim(2) by (simp add: streamed_def last_opt_def)
  have stream: "StreamResources flt db (a\<lparr>la_limit := la_limit a + 1\<rparr>) (stream_item (la_limit a)) (streamed (la_limit a) [])
      = (None, streamed (la_limit a) (map ?f ?rows))"
    using q assms(2) lim rows(1) stream_pages [OF lim(2) dated, of "[]"] by (simp add: StreamResources_def)
  have items: "map re_Data (take ?n (map ?f ?rows)) = map rr_data (take ?n rows)"
    using rows(2) n by (auto simp: take_map scan_row_the dest: in_set_takeD)
  have more: "la_limit a < int (length (map ?f ?rows)) \<longleftrightarrow> ?n < length rows" using n lim(2) by auto
  have last: "last_token (last_opt (take ?n (map ?f ?rows))) = page_token ?n rows" if "?n < length rows"
  proof -
    have t: "take ?n (map ?f ?rows) = map ?f (take ?n rows)" using n by (simp add: take_map)
    have ne: "take ?n rows \<noteq> []" using that n by auto
    then have "last (take ?n rows) = rows ! (?n - 1)" using that n by (simp add: last_conv_nth min_absorb2)
    moreover note ne
    moreover have "created (rows ! (?n - 1)) \<noteq> None" using that rows(2) by (simp add: less_imp_diff_less)
    ultimately show ?thesis using that
      by (simp add: t last_opt_def last_map last_token_def page_token_def Let_def scan_row_the)
  qed
  let ?s = "streamed (la_limit a) (map ?f ?rows)"
  have eq: "list_resources flt db a no_response =
      write_part 200 (ListTail (if sst_hasMore ?s then last_token (sst_last ?s) else []))
        (if sst_headerWritten ?s then sst_response ?s else write_part 200 ListHead (sst_response ?s))"
    by (simp add: list_resources_def Let_def s0 stream)
  have s: "sst_hasMore ?s = (?n < length rows)" "sst_last ?s = last_opt (take ?n (map ?f ?rows))"
    "sst_headerWritten ?s = (map rr_data (take ?n rows) \<noteq> [])"
    "sst_response ?s = (if map rr_data (take ?n rows) = [] then no_response
       else no_response\<lparr>rs_status := Some 200, rs_body := list_body (map rr_data (take ?n rows))\<rparr>)"
    using more unfolding items [symmetric] by (simp_all add: streamed_def Let_def)
  show ?thesis
    unfolding eq s using last by (auto simp: list_response_def write_part_def no_response_def page_token_def)
qed

section \<open>Requests for a list\<close>

text \<open>The arguments of the query that a request for a list asks for, without its page.\<close>

definition list_request ::
    "(string \<Rightarrow> requirement list option) \<Rightarrow> request \<Rightarrow> request_context \<Rightarrow> list_args option" where
  "list_request parse_selector rq cx =
     (case (GetAPIResourceKind cx, parse_selector (query_param rq ''labelSelector'')) of
        (Some kind, Some reqs) \<Rightarrow>
          (case (NewLabelFilters reqs, parseTimestampQuery rq ''creationTimestampAfter'', parseTimestampQuery rq ''creationTimestampBefore'') of
             (Inr lf, Inr after, Inr before) \<Rightarrow>
               if param rq ''name'' = [] \<and> (query_param rq ''name'' = [] \<or> CHR ''*'' \<in> set (query_param rq ''name''))
                 \<and> \<not> (has_prefix (rq_path rq) ''/apis/'' \<and> param rq ''group'' = [])
                 \<and> \<not> (case (after, before) of (Some a, Some b) \<Rightarrow> instant b \<le> instant a | _ \<Rightarrow> False)
               then Some \<lparr>la_kind = kind, la_apiVersion = api_version rq, la_namespace = param rq ''namespace'',
                   la_name = query_param rq ''name'', la_continueId = [], la_continueDate = [], la_labels = lf,
                   la_after = map_option rfc_format after, la_before = map_option rfc_format before, la_limit = 0\<rparr>
               else None
           | _ \<Rightarrow> None)
      | _ \<Rightarrow> None)"

definition page_args :: "list_args \<Rightarrow> page_values \<Rightarrow> list_args" where
  "page_args a pg = a\<lparr>la_continueId := pg_continueId pg, la_continueDate := pg_continueDate pg, la_limit := pg_limit pg\<rparr>"

lemma GetResources_list:
  assumes "list_request parse_selector rq cx = Some a"
  shows "GetResources parse_selector flt db rq cx pg = list_resources flt db (page_args a pg) no_response \<and> is_list a"
  using assms
  by (auto simp: list_request_def GetResources_def query_resources_def resource_args_def page_args_def is_list_def Let_def
      split: option.split_asm sum.split_asm if_split_asm)

definition with_token :: "request \<Rightarrow> string \<Rightarrow> request" where
  "with_token rq tok = rq\<lparr>rq_query := gomap_set (rq_query rq) ''continue'' tok\<rparr>"

lemma with_token_simps [simp]:
  "param (with_token rq tok) k = param rq k" "rq_path (with_token rq tok) = rq_path rq"
  "query_param (with_token rq tok) k = (if k = ''continue'' then tok else query_param rq k)"
  by (simp_all add: with_token_def param_def query_param_def)

lemma list_request_token [simp]: "list_request ps (with_token rq tok) cx = list_request ps rq cx"
proof -
  have "query_param (with_token rq tok) k = query_param rq k" if "k \<noteq> ''continue''" for k using that by simp
  from this [of "''labelSelector''"] this [of "''name''"] this [of "''creationTimestampAfter''"] this [of "''creationTimestampBefore''"]
  have "query_param (with_token rq tok) ''labelSelector'' = query_param rq ''labelSelector''"
    "query_param (with_token rq tok) ''name'' = query_param rq ''name''"
    "parseTimestampQuery (with_token rq tok) ''creationTimestampAfter'' = parseTimestampQuery rq ''creationTimestampAfter''"
    "parseTimestampQuery (with_token rq tok) ''creationTimestampBefore'' = parseTimestampQuery rq ''creationTimestampBefore''"
    by (simp_all add: parseTimestampQuery_def)
  moreover have "api_version (with_token rq tok) = api_version rq" by (simp add: api_version_def)
  ultimately show ?thesis unfolding list_request_def by (simp only: with_token_simps(1,2))
qed

text \<open>The page that a request gets: the limits and the token are read first, then the handler runs.\<close>

definition get_page ::
    "(string \<Rightarrow> requirement list option) \<Rightarrow> read_faults \<Rightarrow> db_state \<Rightarrow> request_context \<Rightarrow> request \<Rightarrow> response" where
  "get_page ps flt db cx rq =
     (case Middleware rq of
        Inl (code, e) \<Rightarrow> Abort code e no_response
      | Inr pg \<Rightarrow> GetResources ps flt db rq cx pg)"

lemma serve_list_page:
  "serve_list env ps flt db rq st =
     (case access_gates env rq st of
        (Inl (code, e), st) \<Rightarrow> (Abort code e no_response, st)
      | (Inr cx, st) \<Rightarrow> (get_page ps flt db cx rq, st))"
  by (simp add: serve_list_def get_page_def split: prod.split sum.split)

definition valid_limit :: "request \<Rightarrow> int \<Rightarrow> bool" where
  "valid_limit rq n \<longleftrightarrow> parse_int (gomap_get0 defaultLimit (rq_query rq) ''limit'') = Some n \<and> 1 \<le> n \<and> n \<le> 1000"

lemma Middleware_token:
  assumes "valid_limit rq n" and "parse_token tok = Some (i, date)"
  shows "Middleware (with_token rq tok) = Inr \<lparr>pg_limit = n, pg_continueId = i, pg_continueDate = date\<rparr>"
proof -
  have "gomap_get0 defaultLimit (rq_query (with_token rq tok)) ''limit'' = gomap_get0 defaultLimit (rq_query rq) ''limit''"
    by (simp add: with_token_def)
  with assms show ?thesis by (simp add: Middleware_def valid_limit_def maxAllowedLimit_def minAllowedLimit_def)
qed

text \<open>Times of Kubernetes are UTC without a fraction, and identifiers are 64 bit integers.\<close>

definition stamped :: "db_state \<Rightarrow> bool" where
  "stamped db \<longleftrightarrow> (\<forall>r\<in>set (db_resource db). in_int64 (rr_id r) \<and> (case created r of None \<Rightarrow> False | Some c \<Rightarrow> utc_stamp c))"

lemma stampedD:
  assumes "stamped db" and "r \<in> set (all_rows db q)"
  shows "in_int64 (rr_id r)" "\<exists>c. created r = Some c \<and> utc_stamp c" "created r \<noteq> None"
proof -
  have "r \<in> set (db_resource db)" using assms(2) by (auto simp: all_rows_def select_rows_def Let_def split: if_split_asm)
  with assms(1) show "in_int64 (rr_id r)" "\<exists>c. created r = Some c \<and> utc_stamp c" "created r \<noteq> None"
    by (auto simp: stamped_def split: option.split_asm)
qed

lemma no_cursor_page_args [simp]: "no_cursor (page_args a pg) = (no_cursor a)\<lparr>la_limit := pg_limit pg\<rparr>"
  by (simp add: no_cursor_def page_args_def)

lemma build_limit:
  assumes "is_list a" and "buildResourceListQuery flt db (no_cursor a) = Inr q"
  shows "buildResourceListQuery flt db ((no_cursor a)\<lparr>la_limit := n\<rparr>) = Inr (q\<lparr>lq_limit := Some n\<rparr>)"
  using assms by (auto simp: buildResourceListQuery_def is_list_def no_cursor_def Let_def split: if_split_asm sum.split_asm sum.split)

lemma all_rows_limit [simp]: "all_rows db (q\<lparr>lq_limit := l\<rparr>) = all_rows db q"
  by (simp add: all_rows_def)

text \<open>The two kinds of page: the first one, and the one after a token.\<close>

lemma select_first:
  assumes "0 \<le> n" shows "select_rows db (q\<lparr>lq_limit := Some n\<rparr>) = take (nat n) (all_rows db q)"
  by (simp add: all_rows_def select_rows_def Let_def)

definition start_token :: "resource_row list \<Rightarrow> nat \<Rightarrow> string" where
  "start_token rows k = (if k = 0 then [] else let r = rows ! (k - 1) in CreateToken (rr_id r) (the (created r)))"

lemma get_page_at:
  assumes ok: "db_ok db" "stamped db" and l: "list_request ps rq cx = Some a"
    and q: "buildResourceListQuery no_resolve_faults db (no_cursor a) = Inr q" and lim: "valid_limit rq n"
    and k: "k = 0 \<or> k < length (all_rows db q)"
  shows "get_page ps no_read_faults db cx (with_token rq (start_token (all_rows db q) k)) =
    list_response (map rr_data (take (nat n) (drop k (all_rows db q)))) (page_token (nat n) (drop k (all_rows db q)))"
proof -
  let ?rows = "all_rows db q"
  have n: "1 \<le> n" using lim by (simp add: valid_limit_def)
  have il: "is_list a" using GetResources_list [OF l] by blast
  have dated: "\<forall>r\<in>set (drop k ?rows). created r \<noteq> None" using stampedD(3) [OF ok(2)] by (meson in_set_dropD)
  have nf: "rd_resolve no_read_faults = no_resolve_faults" "\<not> rd_query no_read_faults" by (simp_all add: no_read_faults_def)
  obtain i date q' where pt: "parse_token (start_token ?rows k) = Some (i, date)"
    and b: "buildResourceListQuery no_resolve_faults db (a\<lparr>la_continueId := i, la_continueDate := date, la_limit := n + 1\<rparr>) = Inr q'"
      "lq_limit q' = Some (n + 1)" "select_rows db q' = take (nat (n + 1)) (drop k ?rows)"
  proof (cases k)
    case 0
    have "(no_cursor a)\<lparr>la_limit := n + 1\<rparr> = a\<lparr>la_continueId := [], la_continueDate := [], la_limit := n + 1\<rparr>" by (simp add: no_cursor_def)
    with build_limit [OF il q, of "n + 1"] select_first [of "n + 1" db q] n 0
    show ?thesis by (intro that [of "[]" "[]" "q\<lparr>lq_limit := Some (n + 1)\<rparr>"]) (simp_all add: start_token_def parse_token_def)
  next
    case (Suc j)
    with k have j: "j < length ?rows" by simp
    let ?r = "?rows ! j"
    from stampedD [OF ok(2) nth_mem [OF j]] obtain c where c: "created ?r = Some c" "utc_stamp c" "in_int64 (rr_id ?r)" by blast
    let ?a = "a\<lparr>la_continueId := show_int (rr_id ?r), la_continueDate := c, la_limit := n + 1\<rparr>"
    have il': "is_list ?a" using il by (simp add: is_list_def)
    have qa: "buildResourceListQuery no_resolve_faults db (no_cursor ?a) = Inr (q\<lparr>lq_limit := Some (n + 1)\<rparr>)"
      using build_limit [OF il q, of "n + 1"] by (cases a) (simp add: no_cursor_def)
    have i: "j < length (all_rows db (q\<lparr>lq_limit := Some (n + 1)\<rparr>))" using j by simp
    from page_after [OF ok(1) il' qa i] c utc_stamp_plain [OF c(2)] obtain q' where
      "buildResourceListQuery no_resolve_faults db ?a = Inr q'" "lq_limit q' = Some (n + 1)"
      "select_rows db q' = take (nat (n + 1)) (drop (Suc j) ?rows)" by auto
    with parse_CreateToken [OF c(3,2)] c(1) Suc show ?thesis
      by (intro that [of "show_int (rr_id ?r)" c q']) (simp_all add: start_token_def Let_def)
  qed
  have "list_resources no_read_faults db (a\<lparr>la_continueId := i, la_continueDate := date, la_limit := n\<rparr>) no_response =
      list_response (map rr_data (take (nat n) (drop k ?rows))) (page_token (nat n) (drop k ?rows))"
    using list_resources_page [of no_read_faults db "a\<lparr>la_continueId := i, la_continueDate := date, la_limit := n\<rparr>" q' "drop k ?rows"]
      b n dated nf by simp
  then show ?thesis
    using Middleware_token [OF lim pt] GetResources_list [of ps "with_token rq (start_token ?rows k)" cx a] l
    by (simp add: get_page_def page_args_def)
qed

section \<open>Following the tokens\<close>

definition items_of :: "response \<Rightarrow> json_data list" where
  "items_of rs = concat (map (\<lambda>p. case p of ListItem d \<Rightarrow> [d] | _ \<Rightarrow> []) (rs_body rs))"

definition token_of :: "response \<Rightarrow> string" where
  "token_of rs = (case last_opt (rs_body rs) of Some (ListTail t) \<Rightarrow> t | _ \<Rightarrow> [])"

text \<open>A client that asks for page after page until the token is empty; \<open>None\<close> when it gives up.\<close>

fun fetch_all :: "nat \<Rightarrow> (string \<Rightarrow> response) \<Rightarrow> string \<Rightarrow> json_data list option" where
  "fetch_all 0 get tok = None"
| "fetch_all (Suc n) get tok =
     (let rs = get tok
      in if token_of rs = [] then Some (items_of rs)
         else map_option (\<lambda>ds. items_of rs @ ds) (fetch_all n get (token_of rs)))"

lemma items_of_list [simp]: "items_of (list_response ds tok) = ds"
proof -
  have "concat (map ((\<lambda>p. case p of ListItem d \<Rightarrow> [d] | _ \<Rightarrow> []) \<circ> (\<lambda>x. ListItem x)) xs) = xs" for xs by (induction xs) simp_all
  moreover have "concat (map (\<lambda>p. case p of ListItem d \<Rightarrow> [d] | _ \<Rightarrow> []) (concat (map (\<lambda>x. [ListComma, ListItem x]) xs))) = xs" for xs
    by (induction xs) simp_all
  ultimately show ?thesis by (cases ds) (simp_all add: items_of_def list_response_def)
qed

lemma token_of_list [simp]: "token_of (list_response ds tok) = tok"
  by (simp add: token_of_def list_response_def last_opt_def)

lemma CreateToken_not_Nil: "utc_stamp date \<Longrightarrow> CreateToken i date \<noteq> []"
  using utc_stamp_plain [of date] by (simp add: CreateToken_def trim_quotes)

lemma page_token_start:
  assumes "0 < n"
  shows "page_token n (drop k rows) = (if k + n < length rows then start_token rows (k + n) else [])"
proof (cases "k + n < length rows")
  case True
  then have "drop k rows ! (n - 1) = rows ! (k + n - 1)" "n < length rows - k" using assms by (simp_all add: nth_drop)
  with True assms show ?thesis by (simp add: page_token_def start_token_def Let_def)
qed (use assms in \<open>simp add: page_token_def\<close>)

lemma fetch_from:
  assumes ok: "db_ok db" "stamped db" and l: "list_request ps rq cx = Some a"
    and q: "buildResourceListQuery no_resolve_faults db (no_cursor a) = Inr q" and lim: "valid_limit rq n"
  shows "k = 0 \<or> k < length (all_rows db q) \<Longrightarrow> length (all_rows db q) - k < fuel \<Longrightarrow>
    fetch_all fuel (\<lambda>tok. get_page ps no_read_faults db cx (with_token rq tok)) (start_token (all_rows db q) k) =
      Some (map rr_data (drop k (all_rows db q)))"
proof (induction fuel arbitrary: k)
  case (Suc fuel)
  let ?rows = "all_rows db q" and ?k = "k + nat n"
  note page = get_page_at [OF ok l q lim Suc.prems(1)]
  have n: "0 < nat n" using lim by (simp add: valid_limit_def)
  note next_token = page_token_start [OF n, of k ?rows]
  show ?case
  proof (cases "?k < length ?rows")
    case True
    let ?r = "?rows ! (?k - 1)"
    have "?k - 1 < length ?rows" using True n by simp
    from stampedD(2) [OF ok(2) nth_mem [OF this]] obtain c where "created ?r = Some c" "utc_stamp c" by blast
    then have "start_token ?rows ?k \<noteq> []" using n by (simp add: start_token_def Let_def CreateToken_not_Nil)
    moreover have "length ?rows - ?k < fuel" using Suc.prems(2) n True by linarith
    moreover have "take (nat n) (drop k ?rows) @ drop ?k ?rows = drop k ?rows" by (metis append_take_drop_id drop_drop add.commute)
    ultimately show ?thesis using Suc.IH [of ?k] True page next_token by (simp add: Let_def flip: map_append)
  next
    case False
    then show ?thesis using page next_token by (simp add: Let_def)
  qed
qed simp

section \<open>What a response shows\<close>

definition shown :: "response \<Rightarrow> json_data set" where
  "shown rs = {d. ListItem d \<in> set (rs_body rs) \<or> Document d \<in> set (rs_body rs)}"

lemma shown_simps [simp]:
  "shown no_response = {}" "shown (recovered rs) = shown rs" "shown (Abort code e rs) = shown rs"
  "shown (write_part code ListHead rs) = shown rs" "shown (write_part code ListComma rs) = shown rs"
  "shown (write_part code (ListTail t) rs) = shown rs"
  "shown (write_part code (ListItem d) rs) = insert d (shown rs)" "shown (write_part code (Document d) rs) = insert d (shown rs)"
  by (auto simp: shown_def no_response_def recovered_def Abort_def write_part_def)

lemma stream_item_shown:
  "stream_item limit s r = Some s' \<Longrightarrow> shown (sst_response s') \<subseteq> insert (re_Data r) (shown (sst_response s))"
  by (auto simp: stream_item_def Let_def split: if_split_asm)

lemma stream_shown:
  "performStreamQuery (stream_item limit) s rows = (e, s') \<Longrightarrow> shown (sst_response s') \<subseteq> shown (sst_response s) \<union> rr_data ` set rows"
proof (induction rows arbitrary: s)
  case (Cons r rows)
  show ?case
  proof (cases "scan_row r")
    case None
    with Cons.prems show ?thesis by auto
  next
    case (Some x)
    then have x: "re_Data x = rr_data r" by (auto simp: scan_row_def split: option.split_asm)
    obtain s1 where s1: "stream_item limit s x = Some s1" by (cases "stream_item limit s x") (auto simp: stream_item_def Let_def split: if_split_asm)
    with Some Cons.prems have "performStreamQuery (stream_item limit) s1 rows = (e, s')" by simp
    from Cons.IH [OF this] stream_item_shown [OF s1] x show ?thesis by auto
  qed
qed simp

definition within_request :: "list_args \<Rightarrow> resource_row \<Rightarrow> bool" where
  "within_request a r \<longleftrightarrow>
     rr_kind r = la_kind a \<and> rr_apiVersion r = la_apiVersion a \<and> (la_namespace a \<noteq> [] \<longrightarrow> rr_namespace r = la_namespace a)
     \<and> (la_name a \<noteq> [] \<and> CHR ''*'' \<notin> set (la_name a) \<longrightarrow> rr_name r = la_name a)"

lemma select_rows_where: "r \<in> set (select_rows db q) \<Longrightarrow> r \<in> set (db_resource db) \<and> list_all (row_holds (db_labels db) r) (lq_where q)"
  by (auto simp: select_rows_def Let_def split: option.split_asm if_split_asm dest: in_set_takeD)

lemma query_within:
  assumes "buildResourceListQuery flt db a = Inr q" and "r \<in> set (select_rows db q)"
  shows "r \<in> set (db_resource db) \<and> within_request a r"
proof -
  have "KindApiVersionFilter (la_kind a) (la_apiVersion a) \<in> set (lq_where q)
      \<and> (la_namespace a \<noteq> [] \<longrightarrow> NamespaceFilter (la_namespace a) \<in> set (lq_where q))
      \<and> (la_name a \<noteq> [] \<and> CHR ''*'' \<notin> set (la_name a) \<longrightarrow> NameFilter (la_name a) \<in> set (lq_where q))"
    using assms(1) by (auto simp: buildResourceListQuery_def Let_def split: if_split_asm sum.split_asm)
  with select_rows_where [OF assms(2)] show ?thesis by (auto simp: within_request_def list_all_iff)
qed

lemma list_resources_shown:
  assumes "d \<in> shown (list_resources flt db a rs)"
  shows "d \<in> shown rs \<or> (\<exists>r\<in>set (db_resource db). rr_data r = d \<and> within_request a r)"
proof -
  let ?s = "\<lparr>sst_count = 0, sst_last = None, sst_hasMore = False, sst_headerWritten = False, sst_response = rs\<rparr>"
  obtain e s' where st: "StreamResources flt db (a\<lparr>la_limit := la_limit a + 1\<rparr>) (stream_item (la_limit a)) ?s = (e, s')" by fastforce
  have "d \<in> shown (sst_response s')"
    using assms by (auto simp: list_resources_def Let_def st split: option.split_asm if_split_asm)
  moreover have "shown (sst_response s') \<subseteq> shown rs \<union> {d. \<exists>r\<in>set (db_resource db). rr_data r = d \<and> within_request a r}"
  proof (cases "buildResourceListQuery (rd_resolve flt) db (a\<lparr>la_limit := la_limit a + 1\<rparr>)")
    case (Inr q)
    have w: "within_request (a\<lparr>la_limit := la_limit a + 1\<rparr>) r = within_request a r" for r by (simp add: within_request_def)
    show ?thesis
      using st Inr query_within [OF Inr] stream_shown [of "la_limit a" ?s "select_rows db q" e s']
      by (fastforce simp: StreamResources_def w split: if_split_asm)
  qed (use st in \<open>auto simp: StreamResources_def\<close>)
  ultimately show ?thesis by blast
qed

lemma scan_rows_data: "scan_rows rows = Inr xs \<Longrightarrow> re_Data ` set xs \<subseteq> rr_data ` set rows"
  by (induction rows arbitrary: xs) (fastforce simp: scan_row_def split: option.split_asm sum.split_asm)+

lemma get_resource_shown:
  assumes "d \<in> shown (get_resource flt db a rs)"
  shows "d \<in> shown rs \<or> (\<exists>r\<in>set (db_resource db). rr_data r = d \<and> within_request a r)"
proof (cases "QueryResources flt db (a\<lparr>la_limit := 2\<rparr>)")
  case (Inr xs)
  then obtain q where q: "buildResourceListQuery (rd_resolve flt) db (a\<lparr>la_limit := 2\<rparr>) = Inr q" "scan_rows (select_rows db q) = Inr xs"
    by (auto simp: QueryResources_def performResourceQuery_def split: sum.split_asm if_split_asm)
  from assms Inr have "d \<in> shown rs \<or> d \<in> re_Data ` set xs"
    by (auto simp: get_resource_def split: list.split_asm)
  moreover have "within_request (a\<lparr>la_limit := 2\<rparr>) r = within_request a r" for r by (simp add: within_request_def)
  moreover have "\<exists>r\<in>set (select_rows db q). rr_data r = d" if "d \<in> re_Data ` set xs"
    using that scan_rows_data [OF q(2)] by fastforce
  ultimately show ?thesis using query_within [OF q(1)] by metis
qed (use assms in \<open>simp add: get_resource_def\<close>)

lemma query_resources_shown:
  assumes "d \<in> shown (query_resources flt db rq pg kind name filters rs)" and "d \<notin> shown rs"
  shows "\<exists>r\<in>set (db_resource db). rr_data r = d \<and> rr_kind r = kind \<and> rr_apiVersion r = api_version rq
    \<and> (param rq ''namespace'' \<noteq> [] \<longrightarrow> rr_namespace r = param rq ''namespace'') \<and> (name \<noteq> [] \<and> CHR ''*'' \<notin> set name \<longrightarrow> rr_name r = name)"
proof -
  have "\<exists>after before lf. d \<in> shown (get_resource flt db (resource_args rq pg kind name after before lf) rs)
      \<or> d \<in> shown (list_resources flt db (resource_args rq pg kind name after before lf) rs)"
    using assms by (auto simp: query_resources_def Let_def split: if_split_asm sum.split_asm option.split_asm)
  then show ?thesis using assms(2)
    by (auto simp: within_request_def resource_args_def dest!: get_resource_shown list_resources_shown)
qed

lemma GetResources_shown:
  assumes "d \<in> shown (GetResources ps flt db rq cx pg)"
  shows "\<exists>kind r. GetAPIResourceKind cx = Some kind \<and> r \<in> set (db_resource db) \<and> rr_data r = d \<and> rr_kind r = kind
    \<and> rr_apiVersion r = api_version rq \<and> (param rq ''namespace'' \<noteq> [] \<longrightarrow> rr_namespace r = param rq ''namespace'')
    \<and> (param rq ''name'' \<noteq> [] \<longrightarrow> rr_name r = param rq ''name'')"
proof -
  let ?path = "param rq ''name''" and ?query = "query_param rq ''name''"
  let ?name = "if ?query \<noteq> [] then ?query else ?path"
  from assms obtain kind reqs where k: "GetAPIResourceKind cx = Some kind" "ps (query_param rq ''labelSelector'') = Some reqs"
    and nm: "?path \<noteq> [] \<longrightarrow> CHR ''*'' \<notin> set ?path \<and> ?query = []"
    by (auto simp: GetResources_def Let_def split: option.split_asm if_split_asm)
  have "\<exists>filters rs. shown rs = {} \<and> d \<in> shown (query_resources flt db rq pg kind ?name filters rs)"
  proof (cases "NewLabelFilters reqs")
    case (Inl e)
    have "d \<in> shown (query_resources flt db rq pg kind ?name None (Abort 400 BadLabelFilter no_response))"
      using assms k nm Inl by (cases e) (auto simp: GetResources_def Let_def split: if_split_asm)
    then show ?thesis by (intro exI [of _ None] exI [of _ "Abort 400 BadLabelFilter no_response"]) simp
  next
    case (Inr lf)
    have "d \<in> shown (query_resources flt db rq pg kind ?name (Some lf) no_response)"
      using assms k nm Inr by (auto simp: GetResources_def Let_def split: if_split_asm)
    then show ?thesis by (intro exI [of _ "Some lf"] exI [of _ no_response]) simp
  qed
  then obtain filters rs where q: "shown rs = {}" "d \<in> shown (query_resources flt db rq pg kind ?name filters rs)" by blast
  then have "d \<notin> shown rs" by simp
  from query_resources_shown [OF q(2) this] k(1) nm show ?thesis by (cases "?path = []") auto
qed

section \<open>Properties\<close>

definition jobs_request :: request where
  "jobs_request =
     \<lparr>rq_path = ''/api/v1/namespaces/ns/jobs'', rq_headers = [(''Authorization'', [''Bearer t0''])],
      rq_params = [(''version'', ''v1''), (''namespace'', ''ns''), (''resourceType'', ''jobs'')], rq_query = [(''limit'', ''1'')]\<rparr>"

definition jobs_context :: request_context where
  "jobs_context = \<lparr>cx_user = Some (CUser sample_user), cx_kind = Some (CString ''Job'')\<rparr>"

lemma jobs_limit: "valid_limit jobs_request 1"
  by code_simp

lemma jobs_list: "list_request (\<lambda>_. Some []) jobs_request jobs_context = Some (sample_args\<lparr>la_limit := 0\<rparr>)"
  by code_simp

lemma sample_stamps: "utc_stamp ''2024-01-01T00:00:00Z''" "utc_stamp ''2024-02-01T00:00:00Z''"
  by code_simp+

lemma sample_db_stamped: "stamped sample_db"
  using sample_stamps by (simp add: stamped_def sample_db_rows created_def sample_json_def in_int64_def)

lemma sample_query:
  "buildResourceListQuery no_resolve_faults sample_db (no_cursor (sample_args\<lparr>la_limit := 0\<rparr>)) =
     Inr \<lparr>lq_where = [KindApiVersionFilter ''Job'' ''v1'', NamespaceFilter ''ns''], lq_sorted = True, lq_limit = Some 0\<rparr>"
  by (simp add: buildResourceListQuery_def no_cursor_def sample_args_def IsEmpty_def empty_filters_def)

text \<open>C12: a client that asks for a list and follows the continue tokens comes to an end and has
  received every resource that matches, each once and in the order of the whole result, whatever
  page size within the limits it asks for.\<close>

theorem pages_cover_list:
  assumes "db_ok db" and "stamped db" and "list_request ps rq cx = Some a"
    and "buildResourceListQuery no_resolve_faults db (no_cursor a) = Inr q" and "valid_limit rq n"
  shows "fetch_all (Suc (length (all_rows db q))) (\<lambda>tok. get_page ps no_read_faults db cx (with_token rq tok)) [] =
    Some (map rr_data (all_rows db q))"
  using fetch_from [OF assms, of 0 "Suc (length (all_rows db q))"] by (simp add: start_token_def)

theorem pages_cover_list_witness:
  "\<exists>q. buildResourceListQuery no_resolve_faults sample_db (no_cursor (sample_args\<lparr>la_limit := 0\<rparr>)) = Inr q
    \<and> fetch_all (Suc (length (all_rows sample_db q)))
         (\<lambda>tok. get_page (\<lambda>_. Some []) no_read_faults sample_db jobs_context (with_token jobs_request tok)) [] =
       Some (map rr_data (all_rows sample_db q))"
  using sample_query pages_cover_list [OF sample_db_ok sample_db_stamped jobs_list sample_query jobs_limit] by blast

text \<open>C25: the token of a resource is read back as exactly its identifier and its creation
  timestamp by the middleware of the next request, with the limit of that request.\<close>

theorem token_round_trip:
  assumes "in_int64 i" and "utc_stamp date" and "valid_limit rq n"
  shows "Middleware (with_token rq (CreateToken i date)) = Inr \<lparr>pg_limit = n, pg_continueId = show_int i, pg_continueDate = date\<rparr>"
  using Middleware_token [OF assms(3) parse_CreateToken [OF assms(1,2)]] .

theorem token_round_trip_witness:
  "Middleware (with_token jobs_request (CreateToken 7 ''2024-01-01T00:00:00Z'')) =
     Inr \<lparr>pg_limit = 1, pg_continueId = show_int 7, pg_continueDate = ''2024-01-01T00:00:00Z''\<rparr>"
  using token_round_trip [of 7, OF _ sample_stamps(1) jobs_limit] by (simp add: in_int64_def)

text \<open>C2: whatever requests were served before, a document or list item that the server answers
  with is archived under the kind that discovery gave for the resource type of the path, under the
  API version, the namespace and the name of the path, and access to exactly these was granted by
  the reviews of the cluster.\<close>

theorem served_data_authorized:
  assumes "serve_list env ps flt db rq (after_requests env hist) = (rs, st')" and "d \<in> shown rs"
  shows "\<exists>cx m r. access_granted env (as_moment (after_requests env hist)) rq cx
    \<and> r \<in> set (db_resource db) \<and> rr_data r = d
    \<and> kind_vouched env m (ev_sha256 env (param rq ''resourceType'')) (rr_kind r) \<and> rr_apiVersion r = api_version rq
    \<and> (param rq ''namespace'' \<noteq> [] \<longrightarrow> rr_namespace r = param rq ''namespace'')
    \<and> (param rq ''name'' \<noteq> [] \<longrightarrow> rr_name r = param rq ''name'')"
proof -
  from assms obtain cx pg where g: "access_gates env rq (after_requests env hist) = (Inr cx, st')"
    and d: "d \<in> shown (GetResources ps flt db rq cx pg)"
    by (auto simp: serve_list_def split: prod.split_asm sum.split_asm)
  from GetResources_shown [OF d] obtain r where r: "GetAPIResourceKind cx = Some (rr_kind r)" "r \<in> set (db_resource db)" "rr_data r = d"
    "rr_apiVersion r = api_version rq" "param rq ''namespace'' \<noteq> [] \<longrightarrow> rr_namespace r = param rq ''namespace''"
    "param rq ''name'' \<noteq> [] \<longrightarrow> rr_name r = param rq ''name''" by blast
  then have "cx_kind cx = Some (CString (rr_kind r))"
    by (auto simp: GetAPIResourceKind_def split: option.split_asm cacheValue.split_asm if_split_asm)
  with access_gates_granted [OF after_requests_justified g] r show ?thesis by blast
qed

lemma sample_rows:
  "map rr_data (all_rows sample_db \<lparr>lq_where = [KindApiVersionFilter ''Job'' ''v1'', NamespaceFilter ''ns''], lq_sorted = True, lq_limit = Some 0\<rparr>) =
     [sample_json\<lparr>jd_creationTimestamp := Some ''2024-02-01T00:00:00Z''\<rparr>, sample_json]"
  by (simp add: all_rows_def select_rows_def sample_db_rows new_row_def CreationTSAndIDSorter_def row_key_def created_def
      sample_json_def less_cursor_key_def less_char_def)

lemma jobs_served:
  "\<exists>rs st. serve_list sample_cluster_env (\<lambda>_. Some []) no_read_faults sample_db (with_token jobs_request []) (after_requests sample_cluster_env []) = (rs, st)
    \<and> sample_json\<lparr>jd_creationTimestamp := Some ''2024-02-01T00:00:00Z''\<rparr> \<in> shown rs"
proof -
  let ?rq = "with_token jobs_request []" and ?st = "after_requests sample_cluster_env []"
  have "fst (access_gates sample_cluster_env ?rq ?st) = Inr jobs_context" by code_simp
  then obtain st where g: "access_gates sample_cluster_env ?rq ?st = (Inr jobs_context, st)" by (metis prod.collapse)
  from get_page_at [OF sample_db_ok sample_db_stamped jobs_list sample_query jobs_limit, of 0] sample_rows
  have "\<exists>tok. get_page (\<lambda>_. Some []) no_read_faults sample_db jobs_context ?rq =
      list_response [sample_json\<lparr>jd_creationTimestamp := Some ''2024-02-01T00:00:00Z''\<rparr>] tok"
    by (auto simp: start_token_def simp flip: take_map)
  then show ?thesis by (auto simp: serve_list_page g shown_def list_response_def)
qed

theorem served_data_authorized_witness:
  "\<exists>cx m r. access_granted sample_cluster_env 0 (with_token jobs_request []) cx \<and> r \<in> set (db_resource sample_db)
    \<and> rr_data r = sample_json\<lparr>jd_creationTimestamp := Some ''2024-02-01T00:00:00Z''\<rparr>
    \<and> kind_vouched sample_cluster_env m (ev_sha256 sample_cluster_env ''jobs'') (rr_kind r) \<and> rr_namespace r = ''ns''"
proof -
  from jobs_served obtain rs st where s:
    "serve_list sample_cluster_env (\<lambda>_. Some []) no_read_faults sample_db (with_token jobs_request []) (after_requests sample_cluster_env []) = (rs, st)"
    "sample_json\<lparr>jd_creationTimestamp := Some ''2024-02-01T00:00:00Z''\<rparr> \<in> shown rs" by blast
  have "param jobs_request ''namespace'' = ''ns''" "param jobs_request ''resourceType'' = ''jobs''" "as_moment (after_requests sample_cluster_env []) = 0"
    by code_simp+
  with served_data_authorized [OF s] show ?thesis by auto
qed

text \<open>
  An unsupported label operator does not end the handler: a request for one resource by name is
  answered with the error and, after it, the resource.
\<close>

lemma unsupported_operator_goes_on:
  assumes "GetAPIResourceKind cx = Some kind" and "param rq ''name'' \<noteq> []" "CHR ''*'' \<notin> set (param rq ''name'')" "query_param rq ''name'' = []"
    and "ps (query_param rq ''labelSelector'') = Some reqs" "NewLabelFilters reqs = Inl (UnsupportedOperator sop)"
    and "\<not> has_prefix (rq_path rq) ''/apis/''"
    and "query_param rq ''creationTimestampAfter'' = []" "query_param rq ''creationTimestampBefore'' = []"
    and "QueryResources flt db ((resource_args rq pg kind (param rq ''name'') None None empty_filters)\<lparr>la_limit := 2\<rparr>) = Inr [r]"
  shows "GetResources ps flt db rq cx pg =
    \<lparr>rs_status = Some 400, rs_body = [ErrorBody BadLabelFilter, Document (re_Data r)], rs_aborted = True\<rparr>"
  using assms by (simp add: GetResources_def query_resources_def parseTimestampQuery_def get_resource_def Let_def
      Abort_def write_part_def no_response_def)

end
