(* ===== verification/Log_Pages.thy ===== *)
theory Log_Pages
  imports Log_Retrieval Api_Pages
begin

text \<open>
  Paging through a log. The cursor of a page is the greatest of its decimal timestamps, compared as
  strings; against a provider that answers page by page from the cursor on, paging ends and delivers
  the whole log. The lemmas at the end show where it does not: a provider that stays at its cursor is
  asked forever, and two neighbouring times on pages of one entry end the log too early.
\<close>

section \<open>Lemmas: decimal cursors\<close>

lemma string_less_append_same: "(s :: string) < t \<Longrightarrow> length s = length t \<Longrightarrow> s @ u < t @ v"
proof (induction s arbitrary: t)
  case (Cons c s)
  then obtain d t' where t: "t = d # t'" by (cases t) auto
  with Cons show ?case by (auto simp: Cons_less_Cons)
qed auto

lemma string_append_less: "(u :: string) < v \<Longrightarrow> s @ u < s @ v"
  by (induction s) auto

lemma digit_char_less: "a < b \<Longrightarrow> b < 10 \<Longrightarrow> digit_char a < digit_char b"
  by (simp add: digit_char_def less_char_def)

lemma show_nat_less:
  "a < b \<Longrightarrow> length (show_nat a) = length (show_nat b) \<Longrightarrow> show_nat a < show_nat b"
proof (induction b arbitrary: a rule: less_induct)
  case (less b)
  show ?case
  proof (cases "b < 10")
    case True
    with less.prems digit_char_less [of a b] show ?thesis
      by (subst (1 2) show_nat.simps) simp
  next
    case False
    have "\<not> a < 10"
    proof
      assume "a < 10"
      then have "length (show_nat a) = 1" by (subst show_nat.simps) simp
      moreover have "length (show_nat b) = Suc (length (show_nat (b div 10)))" using False by (subst show_nat.simps) simp
      ultimately show False using less.prems(2) show_nat_not_Nil [of "b div 10"] by simp
    qed
    have a: "show_nat a = show_nat (a div 10) @ [digit_char (a mod 10)]" using \<open>\<not> a < 10\<close> by (subst show_nat.simps) simp
    have b: "show_nat b = show_nat (b div 10) @ [digit_char (b mod 10)]" using False by (subst show_nat.simps) simp
    have len: "length (show_nat (a div 10)) = length (show_nat (b div 10))" using less.prems(2) a b by simp
    show ?thesis
    proof (cases "a div 10 = b div 10")
      case True
      then have "a mod 10 < b mod 10" using less.prems(1) by (metis div_mult_mod_eq nat_add_left_cancel_less)
      then have "[digit_char (a mod 10)] < [digit_char (b mod 10)]" by (simp add: digit_char_less)
      with True a b show ?thesis by (simp add: string_append_less)
    next
      case False
      then have "a div 10 < b div 10" using less.prems(1) by (meson div_le_mono le_neq_implies_less less_imp_le)
      moreover have "b div 10 < b" using \<open>\<not> b < 10\<close> by simp
      ultimately have "show_nat (a div 10) < show_nat (b div 10)" using less.IH len by blast
      then show ?thesis using a b len by (simp add: string_less_append_same)
    qed
  qed
qed

lemma show_int_less:
  assumes "0 \<le> a" "a < b" "length (show_int a) = length (show_int b)"
  shows "show_int a < show_int b"
  using assms show_nat_less [of "nat a" "nat b"] by (simp add: show_int_def)

lemma show_int_inj: "in_int64 a \<Longrightarrow> in_int64 b \<Longrightarrow> show_int a = show_int b \<Longrightarrow> a = b"
  by (metis option.inject parse_int_show_int)

text \<open>The greatest of decimal timestamps of one width, as strings, is the last of an ascending list.\<close>

lemma greatest_cursor:
  assumes "sorted_wrt (<) (t # ts)" "\<forall>s\<in>set (t # ts). 0 \<le> s \<and> length (show_int s) = w"
  shows "foldl (\<lambda>m s. if s > m then s else m) (show_int t) (map show_int ts) = show_int (last (t # ts))"
  using assms
proof (induction ts arbitrary: t)
  case (Cons s ts)
  have "show_int t < show_int s" using Cons.prems by (intro show_int_less) auto
  with Cons show ?case by simp
qed simp

section \<open>Lemmas: pages\<close>

type_synonym log_entry = "int \<times> string"

definition from_time :: "int \<Rightarrow> log_entry list \<Rightarrow> log_entry list" where
  "from_time t log = filter (\<lambda>e. t \<le> fst e) log"

definition log_page :: "nat \<Rightarrow> int \<Rightarrow> log_entry list \<Rightarrow> log_entry list" where
  "log_page k t log = take k (from_time t log)"

definition ordered_log :: "log_entry list \<Rightarrow> bool" where
  "ordered_log log \<longleftrightarrow> sorted_wrt (<) (map fst log)
     \<and> list_all (\<lambda>e. 0 \<le> fst e \<and> fst e < 2 ^ 63 - 1 \<and> length (show_int (fst e)) = 19 \<and> snd e \<noteq> []) log"

definition query_first :: "string \<Rightarrow> http_request \<Rightarrow> string" where
  "query_first k rq = (case gomap_get0 [] (url_Query (hr_URL rq)) k of [] \<Rightarrow> [] | v # _ \<Rightarrow> v)"

text \<open>A provider that answers with the first \<open>k\<close> entries from the time of the cursor on.\<close>

definition serves_log ::
    "('v, 'j) log_env \<Rightarrow> ('v, 'j) json_path \<Rightarrow> ('v, 'j) json_path \<Rightarrow> string \<Rightarrow> nat \<Rightarrow> log_entry list \<Rightarrow> bool" where
  "serves_log env get cursors key k log \<longleftrightarrow>
     (\<forall>timeout sent rq t. in_int64 t \<longrightarrow> query_first key rq = show_int t \<longrightarrow>
        (\<exists>b j. le_do env timeout sent rq = Some \<lparr>ha_StatusCode = 200, ha_Body = \<lparr>hb_data = b, hb_broken = False\<rparr>\<rparr>
           \<and> le_oj_parse env b = Some j
           \<and> map (sprint_any (le_formats env)) (get j) = map snd (log_page k t log)
           \<and> map (sprint_any (le_formats env)) (cursors j) = map (show_int \<circ> fst) (log_page k t log)))"

lemma page_request_cursor:
  "c \<noteq> [] \<Longrightarrow> query_first (pc_Param pg) (page_request pg hs c rq) = c"
  by (simp add: query_first_def page_request_def values_Encode_get parseQuery_ok)

lemma page_request_first: "query_first k (page_request pg hs [] rq) = query_first k rq"
  by (simp add: query_first_def page_request_def)

lemma ascending_last: "sorted_wrt (<) (ts :: int list) \<Longrightarrow> t \<in> set ts \<Longrightarrow> t \<le> last ts"
  by (induction ts) (auto simp: less_imp_le)

lemma from_time_split:
  assumes "ordered_log log" "log_page k t log \<noteq> []" "m = fst (last (log_page k t log))"
  shows "from_time t log = log_page k t log @ from_time (m + 1) log" "t \<le> m" 
proof -
  let ?F = "from_time t log" and ?P = "log_page k t log"
  have sF: "sorted_wrt (<) (map fst ?F)"
    using assms(1) by (simp add: ordered_log_def from_time_def sorted_wrt_map sorted_wrt_filter)
  have P: "?P = take k ?F" by (simp add: log_page_def)
  have last: "last ?P \<in> set ?F" using assms(2) P by (metis in_set_takeD last_in_set)
  then show tm: "t \<le> m" by (simp add: assms(3) from_time_def)
  have F: "?F = ?P @ drop k ?F" using P by simp
  have low: "fst e \<le> m" if "e \<in> set ?P" for e
  proof -
    have "sorted_wrt (<) (map fst ?P)" using sF F by (metis map_append sorted_wrt_append)
    from ascending_last [OF this, of "fst e"] that assms(2,3) show ?thesis by (simp add: last_map)
  qed
  have high: "m < fst e" if "e \<in> set (drop k ?F)" for e
  proof -
    have "sorted_wrt (<) (map fst ?P @ map fst (drop k ?F))" using sF F by (metis map_append)
    then show ?thesis using that assms(2,3) by (auto simp: sorted_wrt_append)
  qed
  have "from_time (m + 1) log = from_time (m + 1) ?F"
    using tm by (auto simp: from_time_def intro: filter_cong)
  also have "\<dots> = from_time (m + 1) ?P @ from_time (m + 1) (drop k ?F)"
    by (subst F) (simp add: from_time_def)
  also have "from_time (m + 1) ?P = []" using low by (fastforce simp: from_time_def filter_empty_conv)
  also have "from_time (m + 1) (drop k ?F) = drop k ?F" 
    unfolding from_time_def [of "m + 1"] filter_id_conv add1_zle_eq using high by blast
  finally show "?F = ?P @ from_time (m + 1) log" using F by simp
qed


lemma page_cursor:
  assumes log: "ordered_log log" and P: "log_page k t log \<noteq> []" "m = fst (last (log_page k t log))" and "pc_CursorIncrement pg = 1"
  shows "next_cursor pg c (map (show_int \<circ> fst) (log_page k t log)) = (if c = show_int m then None else Some (show_int (m + 1)))"
proof -
  let ?P = "log_page k t log"
  obtain e es where es: "?P = e # es" using P(1) by (cases ?P) auto
  have F: "set ?P \<subseteq> set log" by (auto simp: log_page_def from_time_def dest: in_set_takeD)
  have "sorted_wrt (<) (map fst ?P)"
    using log by (simp add: ordered_log_def log_page_def from_time_def take_map sorted_wrt_take sorted_wrt_map sorted_wrt_filter)
  moreover have "\<forall>s\<in>set (map fst ?P). 0 \<le> s \<and> length (show_int s) = 19" using log F by (auto simp: ordered_log_def list_all_iff)
  ultimately have "foldl (\<lambda>m s. if s > m then s else m) (show_int (fst e)) (map show_int (map fst es)) = show_int (last (map fst ?P))"
    using greatest_cursor [of "fst e" "map fst es" 19] es by simp
  moreover have "last (map fst ?P) = m" using P by (simp add: last_map)
  ultimately have fold: "foldl (\<lambda>m s. if s > m then s else m) (show_int (fst e)) (map (show_int \<circ> fst) es) = show_int m" by simp
  have "last ?P \<in> set log" using P(1) F by (meson last_in_set subsetD)
  then have m: "0 \<le> m" "m < 2 ^ 63 - 1" using log P(2) by (auto simp: ordered_log_def list_all_iff)
  then have "parse_int (show_int m) = Some m" by (intro parse_int_show_int) (simp add: in_int64_def)
  moreover have "wrap_int64 (m + 1) = m + 1" using m by (simp add: wrap_int64_def)
  moreover have "show_int m \<noteq> []" by (simp add: show_int_def)
  ultimately show ?thesis using fold assms(4) es by (auto simp: next_cursor_def Let_def)
qed

lemma stream_page_serves:
  assumes build: "buildProviderRequest (le_formats env) ep rc vars = Inr rq"
    and serves: "serves_log env get cursors (pc_Param pg) k log" and log: "ordered_log log"
    and gone: "\<And>n. \<not> le_gone env n" and inc: "pc_CursorIncrement pg = 1"
    and cursor: "in_int64 t" "query_first (pc_Param pg) (page_request pg hs c rq) = show_int t"
  shows "\<exists>sent. stream_page env ep pg rc vars hs (Some get) cursors c returned run =
    (let P = log_page k t log; m = fst (last P); run = run\<lparr>lr_sent := sent\<rparr>;
         run' = run\<lparr>lr_response := fst (writeLogLines (le_gone env) (map snd P)
            (if returned then lr_response run else setLogResponseHeaders rc (lr_response run)))\<rparr>
     in if P = [] then PageBreak returned run
        else if c = show_int m then PageBreak True run' else PageNext (show_int (m + 1)) run')"
proof -
  let ?P = "log_page k t log" and ?rq = "page_request pg hs c rq"
  obtain b j where j: "le_do env (requestTimeout ep) (lr_sent run) ?rq = Some \<lparr>ha_StatusCode = 200, ha_Body = \<lparr>hb_data = b, hb_broken = False\<rparr>\<rparr>"
      "le_oj_parse env b = Some j" "map (sprint_any (le_formats env)) (get j) = map snd ?P"
      "map (sprint_any (le_formats env)) (cursors j) = map (show_int \<circ> fst) ?P"
    using serves cursor unfolding serves_log_def by blast
  have "set ?P \<subseteq> set log" by (auto simp: log_page_def from_time_def dest: in_set_takeD)
  with log have "\<forall>l\<in>set (map snd ?P). l \<noteq> []" by (auto simp: ordered_log_def list_all_iff)
  then have lines: "entriesToStrings env (get j) = map snd ?P" by (simp add: entriesToStrings_def j(3) filter_id_conv)
  have ok: "snd (writeLogLines (le_gone env) ls rs)" for ls rs by (simp add: writeLogLines_all [OF gone])
  show ?thesis
    using page_cursor [OF log _ refl inc, of k t c]
    by (intro exI [of _ "lr_sent run @ [?rq]"])
       (simp add: stream_page_def build j(1,2) lines j(4) ok Let_def split_beta)
qed

lemma page_loop_serves:
  assumes build: "buildProviderRequest (le_formats env) ep rc vars = Inr rq"
    and serves: "serves_log env get cursors (pc_Param pg) k log" and log: "ordered_log log" and k: "2 \<le> k"
    and gone: "\<And>n. \<not> le_gone env n" and inc: "pc_CursorIncrement pg = 1"
    and "query_first (pc_Param pg) (page_request pg hs c rq) = show_int t" "c = [] \<or> c = show_int t" 
    and "returned \<or> from_time t log \<noteq> []" "in_int64 t"
  shows "\<exists>run'. page_loop (stream_page env ep pg rc vars hs (Some get) cursors) c returned run = Some run'
    \<and> rs_body (lr_response run') = rs_body (lr_response run) @ map (LogText \<circ> snd) (from_time t log)"
  using assms(7-10)
proof (induction "length (from_time t log)" arbitrary: c t returned run rule: less_induct)
  case less
  let ?page = "stream_page env ep pg rc vars hs (Some get) cursors"
  let ?P = "log_page k t log"
  define m where "m = fst (last ?P)"
  obtain sent where page: "?page c returned run =
    (let run = run\<lparr>lr_sent := sent\<rparr>;
         run' = run\<lparr>lr_response := fst (writeLogLines (le_gone env) (map snd ?P)
            (if returned then lr_response run else setLogResponseHeaders rc (lr_response run)))\<rparr>
     in if ?P = [] then PageBreak returned run
        else if c = show_int m then PageBreak True run' else PageNext (show_int (m + 1)) run')"
    using stream_page_serves [OF build serves log gone inc less.prems(4,1), of returned run] unfolding m_def Let_def by blast
  let ?run = "run\<lparr>lr_sent := sent\<rparr>"
  let ?run' = "?run\<lparr>lr_response := fst (writeLogLines (le_gone env) (map snd ?P)
            (if returned then lr_response run else setLogResponseHeaders rc (lr_response run)))\<rparr>"
  have body: "rs_body (lr_response ?run') = rs_body (lr_response run) @ map (LogText \<circ> snd) ?P"
    by (simp add: writeLogLines_all [OF gone])
  show ?case
  proof (cases "?P = []")
    case True
    then have empty: "from_time t log = []" using k by (auto simp: log_page_def)
    with less.prems(3) have returned by simp
    then show ?thesis using True empty page by (subst page_loop.simps) (simp add: Let_def)
  next
    case False
    note split = from_time_split [OF log False m_def]
    have "set ?P \<subseteq> set log" by (auto simp: log_page_def from_time_def dest: in_set_takeD)
    then have m: "0 \<le> m" "m < 2 ^ 63 - 1"
      using log False by (auto simp: m_def ordered_log_def list_all_iff dest!: subsetD [OF _ last_in_set])
    have sP: "sorted_wrt (\<lambda>a b. fst a < fst b) ?P"
      using log by (simp add: ordered_log_def log_page_def from_time_def sorted_wrt_take sorted_wrt_map sorted_wrt_filter)
    show ?thesis
    proof (cases "c = show_int m")
      case True
      with less.prems(2) have "show_int t = show_int m" by (auto simp: show_int_def split: if_splits)
      then have tm: "t = m" using show_int_inj less.prems(4) m by (simp add: in_int64_def)
      obtain e es where es: "?P = e # es" using False by (cases ?P) auto
      have "es = []"
      proof (rule ccontr)
        assume "es \<noteq> []"
        then have "fst e < m" using sP es by (simp add: m_def)
        moreover have "e \<in> set (from_time t log)" using es by (metis in_set_takeD list.set_intros(1) log_page_def)
        ultimately show False using tm by (simp add: from_time_def)
      qed
      then have "length ?P = 1" using es by simp
      then have "length (from_time t log) = 1" using k by (simp add: log_page_def min_def split: if_splits)
      then have "from_time t log = ?P" using k by (simp add: log_page_def)
      then show ?thesis using page True False by (subst page_loop.simps) (simp add: Let_def writeLogLines_all [OF gone])
    next
      case next_page: False
      have shorter: "length (from_time (m + 1) log) < length (from_time t log)" using split(1) False by simp
      have cur: "query_first (pc_Param pg) (page_request pg hs (show_int (m + 1)) rq) = show_int (m + 1)"
        by (rule page_request_cursor) (simp add: show_int_def)
      have "in_int64 (m + 1)" using m by (simp add: in_int64_def)
      from less.hyps [OF shorter cur disjI2 [OF refl] disjI1 [OF TrueI] this, of ?run'] obtain run2 where
        "page_loop ?page (show_int (m + 1)) True ?run' = Some run2"
        "rs_body (lr_response run2) = rs_body (lr_response ?run') @ map (LogText \<circ> snd) (from_time (m + 1) log)" by blast
      moreover have "page_loop ?page c returned run = page_loop ?page (show_int (m + 1)) True ?run'"
        using page False next_page by (subst page_loop.simps) (simp add: Let_def)
      ultimately show ?thesis using body split(1) by simp
    qed
  qed
qed


text \<open>C8: against a provider that answers with the first \<open>k\<close> entries from the cursor on, with \<open>k\<close> at
  least two and ascending times, paging with an increment of one comes to an end and has written
  every entry from the start time on, once and in order.\<close>

theorem pages_deliver_log:
  assumes "le_jp_parse env (pc_NextCursor pg) = Some cursors"
    and "buildProviderRequest (le_formats env) ep rc vars = Inr rq"
    and "query_first (pc_Param pg) rq = show_int t" "in_int64 t" "pc_CursorIncrement pg = 1"
    and "serves_log env get cursors (pc_Param pg) k log" "ordered_log log" "2 \<le> k" "from_time t log \<noteq> []"
    and gone: "\<forall>n. \<not> le_gone env n"
  shows "\<exists>run. streamPaginatedLogs env ep pg rc vars hs (Some get) \<lparr>lr_response = no_log_response, lr_sent = []\<rparr> = Some run
    \<and> rs_body (lr_response run) = map (LogText \<circ> snd) (from_time t log)"
proof -
  have "query_first (pc_Param pg) (page_request pg hs [] rq) = show_int t" using assms(3) by (simp add: page_request_first)
  from page_loop_serves [OF assms(2,6,7,8) _ assms(5) this disjI1 [OF refl] disjI2 [OF assms(9)] assms(4)] gone
  show ?thesis by (fastforce simp: streamPaginatedLogs_def assms(1))
qed

definition paged_log :: "log_entry list" where
  "paged_log = [(1700000000000000001, ''a''), (1700000000000000002, ''b''), (1700000000000000007, ''c'')]"

definition read_cursor :: "string \<Rightarrow> int" where
  "read_cursor j = (case parse_int j of None \<Rightarrow> 0 | Some t \<Rightarrow> t)"

definition paged_entries :: "(unit, string) json_path" where
  "paged_entries j = map (\<lambda>e. AString (snd e)) (log_page 2 (read_cursor j) paged_log)"

definition paged_cursors :: "(unit, string) json_path" where
  "paged_cursors j = map (\<lambda>e. AString (show_int (fst e))) (log_page 2 (read_cursor j) paged_log)"

definition paged_env :: "(unit, string) log_env" where
  "paged_env = sample_log_env
     \<lparr>le_jp_parse := (\<lambda>_. Some paged_cursors),
      le_do := (\<lambda>_ _ rq. Some \<lparr>ha_StatusCode = 200, ha_Body = \<lparr>hb_data = query_first ''start'' rq, hb_broken = False\<rparr>\<rparr>)\<rparr>"

definition paged_config :: paginationConfig where
  "paged_config = \<lparr>pc_NextCursor = ''$.t'', pc_Param = ''start'', pc_CursorIncrement = 1\<rparr>"

lemma paged_env_serves: "serves_log paged_env paged_entries paged_cursors ''start'' 2 paged_log"
  by (auto simp: serves_log_def paged_env_def paged_entries_def paged_cursors_def sample_log_env_def read_cursor_def
      parse_int_show_int sprint_any_def)

lemma paged_request:
  "\<exists>rq. buildProviderRequest (le_formats paged_env) sample_endpoint sample_log_record [] = Inr rq
     \<and> query_first ''start'' rq = ''1700000000000000001''"
proof -
  have "(case buildProviderRequest (le_formats sample_log_env) sample_endpoint sample_log_record [] of Inl _ \<Rightarrow> None
      | Inr rq \<Rightarrow> Some (query_first ''start'' rq)) = Some ''1700000000000000001''" by code_simp
  then show ?thesis by (auto simp: paged_env_def split: sum.split_asm)
qed

lemma show_1700: "show_int 1700000000000000001 = ''1700000000000000001''"
proof -
  have "digit_char 0 = CHR ''0''" "digit_char (Suc 0) = CHR ''1''" "digit_char 7 = CHR ''7''" by code_simp+
  then show ?thesis by (simp add: show_int_def show_nat.simps)
qed

lemma paged_log_ordered: "ordered_log paged_log"
  by (simp add: ordered_log_def paged_log_def show_int_def show_nat.simps)

theorem pages_deliver_log_witness:
  "\<exists>run. streamPaginatedLogs paged_env sample_endpoint paged_config sample_log_record [] [] (Some paged_entries)
      \<lparr>lr_response = no_log_response, lr_sent = []\<rparr> = Some run
    \<and> rs_body (lr_response run) = [LogText ''a'', LogText ''b'', LogText ''c'']"
proof -
  obtain rq where rq: "buildProviderRequest (le_formats paged_env) sample_endpoint sample_log_record [] = Inr rq"
      "query_first (pc_Param paged_config) rq = show_int 1700000000000000001"
    using paged_request by (auto simp: show_1700 paged_config_def)
  have log: "from_time 1700000000000000001 paged_log = paged_log" by (simp add: from_time_def paged_log_def)
  have "le_jp_parse paged_env (pc_NextCursor paged_config) = Some paged_cursors" "pc_CursorIncrement paged_config = 1"
      "\<forall>n. \<not> le_gone paged_env n" "serves_log paged_env paged_entries paged_cursors (pc_Param paged_config) 2 paged_log"
    using paged_env_serves by (simp_all add: paged_env_def sample_log_env_def paged_config_def)
  from pages_deliver_log [OF this(1) rq _ this(2,4) paged_log_ordered _ _ this(3), of "[]"] log
  show ?thesis by (simp add: in_int64_def) (simp add: paged_log_def)
qed

text \<open>A provider that does not move past the increased cursor is asked forever.\<close>

lemma next_cursor_repeats:
  assumes "in_int64 t" "in_int64 (t + pc_CursorIncrement pg)" "pc_CursorIncrement pg \<noteq> 0"
    and "c = [] \<or> c = show_int (t + pc_CursorIncrement pg)"
  shows "next_cursor pg c [show_int t] = Some (show_int (t + pc_CursorIncrement pg))"
proof -
  have "show_int t \<noteq> c" using assms(4) show_int_inj [OF assms(1,2)] assms(3) by (auto simp: show_int_def split: if_splits)
  moreover have "wrap_int64 (t + pc_CursorIncrement pg) = t + pc_CursorIncrement pg"
    using assms(2) by (simp add: wrap_int64_def in_int64_def)
  moreover have "show_int t \<noteq> []" by (simp add: show_int_def)
  ultimately show ?thesis using assms(3) by (simp add: next_cursor_def Let_def parse_int_show_int [OF assms(1)])
qed

lemma stuck_provider_page:
  assumes "buildProviderRequest (le_formats env) ep rc vars = Inr rq"
    and "\<forall>timeout sent rq. le_do env timeout sent rq = Some \<lparr>ha_StatusCode = 200, ha_Body = \<lparr>hb_data = b, hb_broken = False\<rparr>\<rparr>"
    and "le_oj_parse env b = Some j" "entriesToStrings env (get j) \<noteq> []"
    and "map (sprint_any (le_formats env)) (cursors j) = [show_int t]"
    and "in_int64 t" "in_int64 (t + pc_CursorIncrement pg)" "pc_CursorIncrement pg \<noteq> 0" "\<forall>n. \<not> le_gone env n"
    and "c = [] \<or> c = show_int (t + pc_CursorIncrement pg)"
  shows "\<exists>run'. stream_page env ep pg rc vars hs (Some get) cursors c returned run = PageNext (show_int (t + pc_CursorIncrement pg)) run'"
proof -
  have gone: "\<not> le_gone env n" for n using assms(9) by simp
  show ?thesis
    using assms(4) next_cursor_repeats [OF assms(6,7,8,10)]
    by (simp add: stream_page_def assms(1-3,5) Let_def split_beta writeLogLines_all [OF gone])
qed

lemma page_loop_forever:
  assumes next_page: "\<And>c b r. c \<in> C \<Longrightarrow> \<exists>c' r'. page c b r = PageNext c' r' \<and> c' \<in> C" and "c \<in> C"
  shows "page_loop page c b run = None"
proof (rule ccontr)
  let ?P = "\<lambda>pg c b run run'. \<not> (pg = page \<and> c \<in> C)"
  assume "page_loop page c b run \<noteq> None"
  then obtain r where r: "page_loop page c b run = Some r" by auto
  have "?P page c b run r"
  proof (rule page_loop.raw_induct [where P = ?P, OF _ r])
    fix loop pg c b run y
    assume IH: "\<And>pg c b run y. loop pg c b run = Some y \<Longrightarrow> ?P pg c b run y"
      and body: "(case pg c b run of PageReturn run \<Rightarrow> Some run
        | PageBreak returned run \<Rightarrow>
            Some (if returned then run else run\<lparr>lr_response := abortNoLogsFound (lr_response run)\<rparr>)
        | PageNext cursor run \<Rightarrow> loop pg cursor True run) = Some y"
    show "?P pg c b run y"
    proof
      assume c: "pg = page \<and> c \<in> C"
      with next_page obtain c' r' where "page c b run = PageNext c' r'" "c' \<in> C" by blast
      with body IH c show False by auto
    qed
  qed
  with assms(2) show False by simp
qed

lemma stuck_provider_never_ends:
  assumes "le_jp_parse env (pc_NextCursor pg) = Some cursors" "buildProviderRequest (le_formats env) ep rc vars = Inr rq"
    and "\<forall>timeout sent rq. le_do env timeout sent rq = Some \<lparr>ha_StatusCode = 200, ha_Body = \<lparr>hb_data = b, hb_broken = False\<rparr>\<rparr>"
    and "le_oj_parse env b = Some j" "entriesToStrings env (get j) \<noteq> []"
    and "map (sprint_any (le_formats env)) (cursors j) = [show_int t]"
    and "in_int64 t" "in_int64 (t + pc_CursorIncrement pg)" "pc_CursorIncrement pg \<noteq> 0" "\<forall>n. \<not> le_gone env n"
  shows "streamPaginatedLogs env ep pg rc vars hs (Some get) run = None"
proof -
  have "page_loop (stream_page env ep pg rc vars hs (Some get) cursors) [] False run = None"
  proof (rule page_loop_forever [where C = "{[], show_int (t + pc_CursorIncrement pg)}"])
    fix c ret r
    assume "c \<in> {[], show_int (t + pc_CursorIncrement pg)}"
    then show "\<exists>c' r'. stream_page env ep pg rc vars hs (Some get) cursors c ret r = PageNext c' r' \<and> c' \<in> {[], show_int (t + pc_CursorIncrement pg)}"
      using stuck_provider_page [where get = get and cursors = cursors and j = j and c = c and hs = hs and returned = ret and run = r,
          OF assms(2-10)] by auto
  qed simp
  then show ?thesis by (simp add: streamPaginatedLogs_def assms(1))
qed

text \<open>With one entry per page, the second of two neighbouring times ends the log.\<close>

lemma neighbouring_times_end_pages:
  assumes "buildProviderRequest (le_formats env) ep rc vars = Inr rq"
    and "serves_log env get cursors (pc_Param pg) 1 log" "ordered_log log" "log = (t, x) # (t + 1, y) # rest"
    and "\<And>n. \<not> le_gone env n" "pc_CursorIncrement pg = 1" "le_jp_parse env (pc_NextCursor pg) = Some cursors"
    and "query_first (pc_Param pg) rq = show_int t"
  shows "\<exists>run. streamPaginatedLogs env ep pg rc vars hs (Some get) \<lparr>lr_response = no_log_response, lr_sent = []\<rparr> = Some run
    \<and> rs_body (lr_response run) = [LogText x, LogText y]"
proof -
  let ?page = "stream_page env ep pg rc vars hs (Some get) cursors"
  note page = stream_page_serves [OF assms(1-3,5,6)]
  have P: "log_page (Suc 0) t log = [(t, x)]" "log_page (Suc 0) (t + 1) log = [(t + 1, y)]"
    using assms(4) by (simp_all add: log_page_def from_time_def)
  have "show_int t \<noteq> []" "show_int (t + 1) \<noteq> []" by (simp_all add: show_int_def)
  have t: "in_int64 t" "in_int64 (t + 1)" using assms(3,4) by (simp_all add: ordered_log_def in_int64_def)
  obtain s1 r1 where r1: "?page [] False \<lparr>lr_response = no_log_response, lr_sent = []\<rparr> = PageNext (show_int (t + 1)) \<lparr>lr_response = r1, lr_sent = s1\<rparr>"
      "rs_body r1 = [LogText x]"
    using page [OF t(1), of hs "[]" False "\<lparr>lr_response = no_log_response, lr_sent = []\<rparr>"] assms(8) \<open>show_int t \<noteq> []\<close>
    by (auto simp: page_request_first Let_def P writeLogLines_all [OF assms(5)])
  obtain r2 where r2: "?page (show_int (t + 1)) True \<lparr>lr_response = r1, lr_sent = s1\<rparr> = PageBreak True r2"
      "rs_body (lr_response r2) = [LogText x, LogText y]"
    using page [OF t(2), of hs "show_int (t + 1)" True "\<lparr>lr_response = r1, lr_sent = s1\<rparr>"] page_request_cursor [OF \<open>show_int (t + 1) \<noteq> []\<close>, of pg hs rq] r1(2)
    by (auto simp: Let_def P writeLogLines_all [OF assms(5)])
  have "page_loop ?page [] False \<lparr>lr_response = no_log_response, lr_sent = []\<rparr> = Some r2"
    using r1(1) r2(1) by (subst page_loop.simps, simp, subst page_loop.simps) simp
  with r2(2) show ?thesis by (simp add: streamPaginatedLogs_def assms(7))
qed

section \<open>Access\<close>

lemma log_link_archived:
  assumes "queryLogURL flt db kind apiVersion namespace identifier container useUID = Some (Inr rc)"
  shows "\<exists>l\<in>set (db_log_url db). lg_Url (lr_tuple l) = lo_URL rc \<and> lr_uuid l = lo_PodUUID rc"
proof -
  have pods: "\<exists>l\<in>set (db_log_url db). lg_Url (lr_tuple l) = lo_URL rc \<and> lr_uuid l = lo_PodUUID rc"
    if "getLogsForPodSelector flt db q namespace container = Inr rc" for q
    using that
    by (auto simp: getLogsForPodSelector_def split: sum.split_asm list.split_asm option.split_asm if_split_asm dest!: filter_eq_ConsD)
  show ?thesis
    using assms pods
    by (auto simp: queryLogURL_def Let_def split: if_split_asm list.split_asm option.split_asm sum.split_asm)
qed

text \<open>A log provider is asked for a log only after the reviews of the cluster granted the
  request, for a path that ends in \<open>/log\<close> also the log of Pods in its namespace, and the link that is
  followed is one the archive holds.\<close>

theorem log_access_reviewed:
  assumes "serve_log env lenv headers providers flt db rq (after_requests env hist) = (Some run, st')" and "lr_sent run \<noteq> []"
    and "has_suffix (rq_path rq) ''/log''"
  shows "\<exists>cx u rc. access_granted env (as_moment (after_requests env hist)) rq cx \<and> cx_user cx = Some (CUser u)
    \<and> review_allows env (as_moment (after_requests env hist)) u
        (no_attributes\<lparr>ra_Namespace := param rq ''namespace'', ra_Version := ''v1'', ra_Resource := ''pods/log'', ra_Verb := ''get''\<rparr>)
    \<and> (\<exists>l\<in>set (db_log_url db). lg_Url (lr_tuple l) = lo_URL rc \<and> lr_uuid l = lo_PodUUID rc)
    \<and> LogRetrieval lenv headers providers (query_param rq ''tailLines'') (Some rc) = Some run"
proof -
  obtain cx where g: "access_gates env rq (after_requests env hist) = (Inr cx, st')"
    and "\<exists>rc. GetLogURL flt db rq cx = Some (Inr rc) \<and> LogRetrieval lenv headers providers (query_param rq ''tailLines'') (Some rc) = Some run"
    using assms(1,2) by (auto simp: serve_log_def Let_def split: prod.split_asm sum.split_asm option.split_asm)
  then obtain rc where rc: "GetLogURL flt db rq cx = Some (Inr rc)"
    and run: "LogRetrieval lenv headers providers (query_param rq ''tailLines'') (Some rc) = Some run" by blast
  obtain kind i u where q: "queryLogURL flt db kind (api_version rq) (param rq ''namespace'') i (query_param rq ''container'') u = Some (Inr rc)"
  proof -
    obtain kind i u z where z: "queryLogURL flt db kind (api_version rq) (param rq ''namespace'') i (query_param rq ''container'') u = Some z"
        "(case z of Inl e \<Rightarrow> Inl (if e = ResourceNotFound then Abort 404 NotFound no_response else Abort 500 DatabaseError no_response)
          | Inr l \<Rightarrow> Inr l) = Inr rc"
      using rc by (auto simp: GetLogURL_def Let_def split: option.split_asm if_split_asm)
    then have "z = Inr rc" by (cases z) simp_all
    with z(1) show ?thesis by (intro that) simp
  qed
  have granted: "access_granted env (as_moment (after_requests env hist)) rq cx"
    using access_gates_granted [OF after_requests_justified g] by blast
  then obtain u' where u': "cx_user cx = Some (CUser u')" "\<forall>a\<in>set (rbac_attributes rq). review_allows env (as_moment (after_requests env hist)) u' a"
    by (auto simp: access_granted_def)
  have "no_attributes\<lparr>ra_Namespace := param rq ''namespace'', ra_Version := ''v1'', ra_Resource := ''pods/log'', ra_Verb := ''get''\<rparr>
      \<in> set (rbac_attributes rq)"
    using assms(3) unfolding rbac_attributes_def by simp
  with granted u' run log_link_archived [OF q] show ?thesis by blast
qed

definition pod_request :: request where
  "pod_request =
     \<lparr>rq_path = ''/api/v1/namespaces/ns/pods/p/log'', rq_headers = [(''Authorization'', [''Bearer t0''])],
      rq_params = [(''version'', ''v1''), (''namespace'', ''ns''), (''resourceType'', ''pods''), (''name'', ''p'')], rq_query = []\<rparr>"

definition pod_db :: db_state where
  "pod_db = written (sample_obj ''Pod'' ''p'' ''u1'' 10)
     (sample_json\<lparr>jd_pod := Some \<lparr>pv_name = ''p'', pv_annotations = [], pv_containers = [''c'']\<rparr>\<rparr>) 20
     [\<lparr>lg_ContainerName = ''c'', lg_Url = ''http://loki:3100'', lg_Query = ''q'', lg_Start = ''1'', lg_End = ''2''\<rparr>] empty_db"

lemma pod_log_served:
  "\<exists>run st. serve_log sample_cluster_env sample_log_env None (Some sample_providers) no_read_faults pod_db pod_request
     (after_requests sample_cluster_env []) = (Some run, st) \<and> lr_sent run \<noteq> []"
proof -
  have "(case serve_log sample_cluster_env sample_log_env None (Some sample_providers) no_read_faults pod_db pod_request
     (after_requests sample_cluster_env []) of (Some run, _) \<Rightarrow> length (lr_sent run) | _ \<Rightarrow> 0) = 1" by code_simp
  then show ?thesis by (auto split: prod.split_asm option.split_asm)
qed

theorem log_access_reviewed_witness:
  "\<exists>cx. access_granted sample_cluster_env 0 pod_request cx"
proof -
  obtain run st where s: "serve_log sample_cluster_env sample_log_env None (Some sample_providers) no_read_faults pod_db pod_request
     (after_requests sample_cluster_env []) = (Some run, st)" "lr_sent run \<noteq> []" using pod_log_served by blast
  have "has_suffix (rq_path pod_request) ''/log''" "as_moment (after_requests sample_cluster_env []) = 0" by code_simp+
  with log_access_reviewed [OF s] show ?thesis by auto
qed

end
