(* ===== verification/Cli_Config.thy ===== *)
theory Cli_Config
  imports Go_Url
begin

text \<open>
  The configuration of the command line client: \<^verbatim>\<open>pkg/cmd/config\<close> and the \<^verbatim>\<open>config\<close> commands of
  \<^verbatim>\<open>pkg/cmd\<close>. A file holds the clusters by name; a command loads it, changes the clusters in memory
  and saves them.

  The environment holds the YAML library, the file system, the kubeconfig, the requests to a
  KubeArchive server and what discovery finds in the cluster. The contents of the file are a
  type variable, so that only the YAML library looks into them. What the user types is a list
  of answers, \<open>None\<close> for an empty line, on which \<^verbatim>\<open>Scanln\<close> fails.
\<close>

section \<open>Data\<close>

record clusterConfig =
  cc_ClusterName :: string
  cc_ServerURL :: string
  cc_Host :: string
  cc_TLSInsecure :: bool
  cc_CertPath :: string
  cc_Token :: string
  cc_Current :: bool

datatype cli_error =
    FileUnreadable | FileInvalid | SaveFailed | NoCurrentCluster | NoServerURL | BadServerURL | NoHostname
  | NoName | ClusterNotFound string | MissingKey | TooManyArguments | MissingValue | NotConfigured | UnknownKey string
  | BadURL | NoScheme | NoURLHost | CannotConnect | EmptyCertPath | CertUnreadable | NoHomeDir | BadBoolean
  | EmptyToken | BadJWT | CannotUnsetHost | SetupCancelled | NotDiscovered | InvalidChoice | NoAuthentication | TokenFailed
  | AuthenticationRefused | BadStatus int | NoRestConfig | NoDiscoveryClient | NoHost | NoToken

record k8s_service =
  sv_Name :: string
  sv_Namespace :: string

text \<open>A route as discovery looks at it: the service it points to, its host, and whether it has TLS.\<close>

record openshift_route =
  rt_service :: "string option"
  rt_host :: "string option"
  rt_tls :: bool

record rest_config =
  rc_Host :: string
  rc_Insecure :: bool
  rc_BearerToken :: string
  rc_CAData :: "string option"

record 'f cli_env =
  cl_marshal :: "(string, clusterConfig) gomap \<Rightarrow> 'f"
  cl_unmarshal :: "'f \<Rightarrow> (string, clusterConfig) gomap option"
  cl_readable :: bool
  cl_writable :: bool
  cl_server :: string
  cl_bearer :: string
  cl_home :: "string option"
  cl_file :: "string \<Rightarrow> string option"
  cl_client :: "rest_config \<Rightarrow> bool"
  cl_do :: "rest_config \<Rightarrow> http_request \<Rightarrow> (int \<times> string) option"
  cl_ip6 :: "string \<Rightarrow> bool"
  cl_namespaces :: "string list option"
  cl_url_map :: "string \<Rightarrow> (string, string) gomap option"
  cl_service :: "string \<Rightarrow> k8s_service option"
  cl_routes :: "string \<Rightarrow> openshift_route list option"
  cl_sa_token :: "string \<Rightarrow> string \<Rightarrow> string option"
  cl_namespace :: string

record 'f cli_state =
  cs_file :: "'f option"
  cs_clusters :: "(string, clusterConfig) gomap"
  cs_current :: string
  cs_answers :: "string option list"

section \<open>Certificates and connectivity\<close>

definition LoadCertData :: "'f cli_env \<Rightarrow> string \<Rightarrow> cli_error + string \<times> string" where
  "LoadCertData env certPath =
     (if certPath = [] then Inl EmptyCertPath
      else case (if hd certPath = CHR ''~'' then map_option (\<lambda>h. h @ tl certPath) (cl_home env) else Some certPath) of
             None \<Rightarrow> Inl NoHomeDir
           | Some path \<Rightarrow> (case cl_file env path of None \<Rightarrow> Inl CertUnreadable | Some d \<Rightarrow> Inr (path, d)))"

definition trim_slashes :: "string \<Rightarrow> string" where
  "trim_slashes s = rev (dropWhile (\<lambda>c. c = CHR ''/'') (rev s))"

text \<open>\<^verbatim>\<open>strings.Contains\<close>.\<close>

fun contains_text :: "string \<Rightarrow> string \<Rightarrow> bool" where
  "contains_text s [] = (s = [])"
| "contains_text s (c # cs) = (has_prefix (c # cs) s \<or> contains_text s cs)"

definition TestKubeArchiveConnectivity ::
    "'f cli_env \<Rightarrow> string \<Rightarrow> bool \<Rightarrow> string \<Rightarrow> string option \<Rightarrow> cli_error option" where
  "TestKubeArchiveConnectivity env host tlsInsecure token caData =
     (let conf = \<lparr>rc_Host = host, rc_Insecure = tlsInsecure, rc_BearerToken = token, rc_CAData = caData\<rparr>
      in if \<not> cl_client env conf then Some CannotConnect
         else case NewRequest (cl_ip6 env) ''GET'' (trim_slashes host @ ''/api/v1/pods?limit=1'') None of
                None \<Rightarrow> Some CannotConnect
              | Some rq \<Rightarrow>
                  let rq = (if token \<noteq> [] then rq\<lparr>hr_Header := header_set (hr_Header rq) ''Authorization'' (''Bearer '' @ token)\<rparr> else rq)
                  in case cl_do env conf rq of
                       None \<Rightarrow> Some CannotConnect
                     | Some (status, body) \<Rightarrow>
                         if status = 200 \<or> status = 404 then None
                         else if status = 401
                         then (if contains_text ''authentication failed'' body then Some AuthenticationRefused else None)
                         else Some (BadStatus status))"

definition TestKubeArchiveLivezEndpoint :: "'f cli_env \<Rightarrow> string \<Rightarrow> bool \<Rightarrow> string option \<Rightarrow> cli_error option" where
  "TestKubeArchiveLivezEndpoint env host tlsInsecure caData =
     (let conf = \<lparr>rc_Host = host, rc_Insecure = tlsInsecure, rc_BearerToken = [], rc_CAData = caData\<rparr>
      in if \<not> cl_client env conf then Some CannotConnect
         else case NewRequest (cl_ip6 env) ''GET'' (trim_slashes host @ ''/livez'') None of
                None \<Rightarrow> Some CannotConnect
              | Some rq \<Rightarrow>
                  (case cl_do env conf rq of
                     None \<Rightarrow> Some CannotConnect
                   | Some (status, _) \<Rightarrow> if status = 200 then None else Some (BadStatus status)))"

section \<open>The configuration file\<close>

text \<open>What the file keeps of a cluster.\<close>

definition stored :: "clusterConfig \<Rightarrow> clusterConfig" where
  "stored c = c\<lparr>cc_ClusterName := [], cc_Current := False\<rparr>"

definition NewFileConfigManager :: "'f option \<Rightarrow> string option list \<Rightarrow> 'f cli_state" where
  "NewFileConfigManager file answers = \<lparr>cs_file = file, cs_clusters = [], cs_current = [], cs_answers = answers\<rparr>"

text \<open>The loop over the clusters names them and marks those of the current server.\<close>

definition mark_cluster :: "string \<Rightarrow> string \<times> clusterConfig \<Rightarrow> string \<times> clusterConfig" where
  "mark_cluster server nc =
     (let c = (snd nc)\<lparr>cc_ClusterName := fst nc\<rparr>
      in (fst nc, if cc_ServerURL c = server then c\<lparr>cc_Current := True\<rparr> else c))"

definition LoadConfig :: "'f cli_env \<Rightarrow> 'f cli_state \<Rightarrow> cli_error option \<times> 'f cli_state" where
  "LoadConfig env st =
     (case cs_file st of
        None \<Rightarrow> (None, st)
      | Some f \<Rightarrow>
          if \<not> cl_readable env then (Some FileUnreadable, st)
          else case cl_unmarshal env f of
                 None \<Rightarrow> (Some FileInvalid, st)
               | Some m \<Rightarrow>
                   let clusters = foldl (\<lambda>cs (n, c). gomap_set cs n c) (cs_clusters st) m
                   in (None, st\<lparr>cs_clusters := map (mark_cluster (cl_server env)) clusters,
                               cs_current := (case last_entry (\<lambda>nc. cc_ServerURL (snd nc) = cl_server env) clusters of
                                                None \<Rightarrow> cs_current st | Some nc \<Rightarrow> fst nc)\<rparr>))"

text \<open>The file cannot be written when its directory cannot be made or it cannot be opened. A write that
  fails after \<^verbatim>\<open>os.WriteFile\<close> has opened and truncated the file is left out: it would leave a part of
  the new contents behind, since the file is replaced in place.\<close>

definition SaveConfig :: "'f cli_env \<Rightarrow> 'f cli_state \<Rightarrow> cli_error option \<times> 'f cli_state" where
  "SaveConfig env st =
     (if \<not> cl_writable env then (Some SaveFailed, st)
      else (None, st\<lparr>cs_file := Some (cl_marshal env (map (\<lambda>(n, c). (n, stored c)) (cs_clusters st)))\<rparr>))"

definition GetCurrentClusterConfig :: "'f cli_state \<Rightarrow> clusterConfig option" where
  "GetCurrentClusterConfig st = gomap_get (cs_clusters st) (cs_current st)"

text \<open>A taken name gets suffixes until it is free.\<close>

function free_name :: "string list \<Rightarrow> string \<Rightarrow> string" where
  "free_name names n = (if n \<in> set names then free_name names (n @ ''-alt'') else n)"
  by pat_completeness auto
termination
proof (relation "measure (\<lambda>(names, n). Suc (sum_list (map length names)) - length n)")
  fix names :: "string list" and n
  assume "n \<in> set names"
  then have "length n \<le> sum_list (map length names)" by (simp add: member_le_sum_list)
  then show "((names, n @ ''-alt''), names, n) \<in> measure (\<lambda>(names, n). Suc (sum_list (map length names)) - length n)" by simp
qed simp

declare free_name.simps [simp del]

definition GenerateClusterName :: "'f cli_env \<Rightarrow> 'f cli_state \<Rightarrow> cli_error + string" where
  "GenerateClusterName env st =
     (if cl_server env = [] then Inl NoServerURL
      else case url_Parse (cl_ip6 env) (cl_server env) of
             None \<Rightarrow> Inl BadServerURL
           | Some u \<Rightarrow>
               let hostname = url_Hostname u
               in if hostname = [] then Inl NoHostname
                  else
                    let name = (if hostname = ''localhost'' \<or> hostname = ''127.0.0.1'' then ''localhost'' else hostname);
                        parts = split_on (CHR ''.'') hostname;
                        name = (if length parts \<ge> 3 \<and> parts ! 0 = ''api'' \<and> parts ! (length parts - 2) = ''openshiftapps''
                                then parts ! 1 else name)
                    in Inr (free_name (map (cc_ClusterName \<circ> snd) (cs_clusters st)) name))"

definition RemoveClusterConfigByName :: "string \<Rightarrow> 'f cli_state \<Rightarrow> cli_error option \<times> 'f cli_state" where
  "RemoveClusterConfigByName name st =
     (if name = [] then (Some NoName, st)
      else case gomap_get (cs_clusters st) name of
             None \<Rightarrow> (Some (ClusterNotFound name), st)
           | Some _ \<Rightarrow> (None, st\<lparr>cs_clusters := gomap_del (cs_clusters st) name\<rparr>))"

definition AddCluster :: "clusterConfig \<Rightarrow> 'f cli_state \<Rightarrow> 'f cli_state" where
  "AddCluster c st = st\<lparr>cs_clusters := gomap_set (cs_clusters st) (cc_ClusterName c) c\<rparr>"

text \<open>A change through the pointer that the map holds under a name, and the save that follows it.\<close>

definition change_cluster :: "string \<Rightarrow> (clusterConfig \<Rightarrow> clusterConfig) \<Rightarrow> 'f cli_state \<Rightarrow> 'f cli_state" where
  "change_cluster name f st =
     (case gomap_get (cs_clusters st) name of
        None \<Rightarrow> st
      | Some c \<Rightarrow> st\<lparr>cs_clusters := gomap_set (cs_clusters st) name (f c)\<rparr>)"

section \<open>Set and unset\<close>

definition completeSet :: "string list \<Rightarrow> cli_error + string \<times> string" where
  "completeSet args =
     (case args of
        [] \<Rightarrow> Inl MissingKey
      | [k] \<Rightarrow> if k = ''insecure'' \<or> k = ''insecure-skip-tls-verify'' then Inr (k, ''true'') else Inl MissingValue
      | [k, v] \<Rightarrow> Inr (k, v)
      | _ \<Rightarrow> Inl TooManyArguments)"

definition setHost :: "'f cli_env \<Rightarrow> string \<Rightarrow> string \<Rightarrow> 'f cli_state \<Rightarrow> cli_error option \<times> 'f cli_state" where
  "setHost env name hostURL st =
     (case url_Parse (cl_ip6 env) hostURL of
        None \<Rightarrow> (Some BadURL, st)
      | Some u \<Rightarrow>
          if ur_Scheme u = [] then (Some NoScheme, st)
          else if ur_Host u = [] then (Some NoURLHost, st)
          else if TestKubeArchiveLivezEndpoint env hostURL True None \<noteq> None then (Some CannotConnect, st)
          else SaveConfig env (change_cluster name (\<lambda>c. c\<lparr>cc_Host := hostURL\<rparr>) st))"

definition setCertificateAuthority ::
    "'f cli_env \<Rightarrow> string \<Rightarrow> clusterConfig \<Rightarrow> string \<Rightarrow> 'f cli_state \<Rightarrow> cli_error option \<times> 'f cli_state" where
  "setCertificateAuthority env name c certPath st =
     (if certPath = [] then (Some EmptyCertPath, st)
      else case LoadCertData env certPath of
             Inl e \<Rightarrow> (Some e, st)
           | Inr (path, certData) \<Rightarrow>
               if TestKubeArchiveLivezEndpoint env (cc_Host c) False (Some certData) \<noteq> None then (Some CannotConnect, st)
               else SaveConfig env (change_cluster name (\<lambda>c. c\<lparr>cc_CertPath := path, cc_TLSInsecure := False\<rparr>) st))"

definition parse_insecure :: "string \<Rightarrow> bool option" where
  "parse_insecure v =
     (let l = to_lower v
      in if l \<in> {''true'', ''yes'', ''1''} then Some True
         else if l \<in> {''false'', ''no'', ''0''} then Some False else None)"

text \<open>The certificate is read only when verification is switched off.\<close>

definition setInsecure ::
    "'f cli_env \<Rightarrow> string \<Rightarrow> clusterConfig \<Rightarrow> string \<Rightarrow> 'f cli_state \<Rightarrow> cli_error option \<times> 'f cli_state" where
  "setInsecure env name c v st =
     (case parse_insecure v of
        None \<Rightarrow> (Some BadBoolean, st)
      | Some insecure \<Rightarrow>
          (case (if insecure \<and> cc_CertPath c \<noteq> [] then map_option Some (cl_file env (cc_CertPath c)) else Some None) of
             None \<Rightarrow> (Some CertUnreadable, st)
           | Some certData \<Rightarrow>
               if TestKubeArchiveLivezEndpoint env (cc_Host c) insecure certData \<noteq> None then (Some CannotConnect, st)
               else SaveConfig env (change_cluster name (\<lambda>c. c\<lparr>cc_TLSInsecure := insecure\<rparr>) st)))"

definition setToken ::
    "'f cli_env \<Rightarrow> string \<Rightarrow> clusterConfig \<Rightarrow> string \<Rightarrow> 'f cli_state \<Rightarrow> cli_error option \<times> 'f cli_state" where
  "setToken env name c token st =
     (if token = [] then (Some EmptyToken, st)
      else if length (split_on (CHR ''.'') token) \<noteq> 3 then (Some BadJWT, st)
      else if cc_Host c \<noteq> [] \<and> TestKubeArchiveConnectivity env (cc_Host c) True token None \<noteq> None then (Some CannotConnect, st)
      else SaveConfig env (change_cluster name (\<lambda>c. c\<lparr>cc_Token := token\<rparr>) st))"

text \<open>The cluster that \<^verbatim>\<open>runSet\<close> works on: the current one, or a new one in memory.\<close>

definition set_target :: "'f cli_env \<Rightarrow> 'f cli_state \<Rightarrow> cli_error + string \<times> clusterConfig \<times> 'f cli_state" where
  "set_target env st =
     (case GetCurrentClusterConfig st of
        Some c \<Rightarrow> Inr (cs_current st, c, st)
      | None \<Rightarrow>
          (case GenerateClusterName env st of
             Inl e \<Rightarrow> Inl e
           | Inr clusterKey \<Rightarrow>
               let c = \<lparr>cc_ClusterName = clusterKey, cc_ServerURL = cl_server env, cc_Host = [], cc_TLSInsecure = False,
                        cc_CertPath = [], cc_Token = [], cc_Current = True\<rparr>
               in Inr (clusterKey, c, AddCluster c st)))"

definition runSet :: "'f cli_env \<Rightarrow> string \<Rightarrow> string \<Rightarrow> 'f cli_state \<Rightarrow> cli_error option \<times> 'f cli_state" where
  "runSet env key v st =
     (if GetCurrentClusterConfig st = None \<and> key \<noteq> ''host'' then (Some NotConfigured, st)
      else case set_target env st of
             Inl e \<Rightarrow> (Some e, st)
           | Inr (name, c, st) \<Rightarrow>
               if key = ''host'' then setHost env name v st
               else if key \<in> {''ca'', ''certificate-authority''} then setCertificateAuthority env name c v st
               else if key \<in> {''insecure'', ''insecure-skip-tls-verify''} then setInsecure env name c v st
               else if key = ''token'' then setToken env name c v st
               else (Some (UnknownKey key), st))"

definition runUnset :: "'f cli_env \<Rightarrow> string \<Rightarrow> 'f cli_state \<Rightarrow> cli_error option \<times> 'f cli_state" where
  "runUnset env key st =
     (case GetCurrentClusterConfig st of
        None \<Rightarrow> (Some NoCurrentCluster, st)
      | Some _ \<Rightarrow>
          if key \<in> {''ca'', ''certificate-authority''}
          then SaveConfig env (change_cluster (cs_current st) (\<lambda>c. c\<lparr>cc_CertPath := []\<rparr>) st)
          else if key = ''token'' then SaveConfig env (change_cluster (cs_current st) (\<lambda>c. c\<lparr>cc_Token := []\<rparr>) st)
          else if key = ''host'' then (Some CannotUnsetHost, st)
          else (Some (UnknownKey key), st))"

section \<open>Prompts\<close>

datatype confirmationDefault = DefaultNo | DefaultYes

definition DefaultValue :: "confirmationDefault \<Rightarrow> bool" where
  "DefaultValue d \<longleftrightarrow> d = DefaultYes"

definition IsConfirmed :: "confirmationDefault \<Rightarrow> string \<Rightarrow> bool" where
  "IsConfirmed d response =
     (let r = trim_space (to_lower response)
      in if r = [] then DefaultValue d
         else if r = ''y'' \<or> r = ''yes'' then True
         else if r = ''n'' \<or> r = ''no'' then False
         else DefaultValue d)"

definition scan_line :: "'f cli_state \<Rightarrow> string \<times> 'f cli_state" where
  "scan_line st =
     (case cs_answers st of
        [] \<Rightarrow> ([], st)
      | a # as \<Rightarrow> (case a of None \<Rightarrow> [] | Some s \<Rightarrow> s, st\<lparr>cs_answers := as\<rparr>))"

definition PromptForConfirmation :: "confirmationDefault \<Rightarrow> 'f cli_state \<Rightarrow> bool \<times> 'f cli_state" where
  "PromptForConfirmation d st = (case scan_line st of (r, st) \<Rightarrow> (IsConfirmed d r, st))"

definition PromptForInput :: "'f cli_state \<Rightarrow> string \<times> 'f cli_state" where
  "PromptForInput st = (case scan_line st of (r, st) \<Rightarrow> (trim_space r, st))"

definition runRemove :: "'f cli_env \<Rightarrow> string \<Rightarrow> 'f cli_state \<Rightarrow> cli_error option \<times> 'f cli_state" where
  "runRemove env clusterName st =
     (case (if clusterName = [] then GetCurrentClusterConfig st else gomap_get (cs_clusters st) clusterName) of
        None \<Rightarrow> (Some (if clusterName = [] then NoCurrentCluster else ClusterNotFound clusterName), st)
      | Some cluster \<Rightarrow>
          (case PromptForConfirmation DefaultNo st of
             (confirmed, st) \<Rightarrow>
               if \<not> confirmed then (None, st)
               else (case RemoveClusterConfigByName (cc_ClusterName cluster) st of
                       (Some e, st) \<Rightarrow> (Some e, st)
                     | (None, st) \<Rightarrow> SaveConfig env st)))"

section \<open>Discovery and interactive setup\<close>

definition findOpenShiftRoute :: "'f cli_env \<Rightarrow> k8s_service \<Rightarrow> string option" where
  "findOpenShiftRoute env service =
     (case cl_routes env (sv_Namespace service) of
        None \<Rightarrow> None
      | Some routes \<Rightarrow>
          map_option (\<lambda>r. (if rt_tls r then ''https://'' else ''http://'') @ the (rt_host r))
            (List.find (\<lambda>r. rt_service r = Some (sv_Name service) \<and> rt_host r \<noteq> None \<and> rt_host r \<noteq> Some []) routes))"

definition testPortForKubeArchive :: "'f cli_env \<Rightarrow> int \<Rightarrow> string option" where
  "testPortForKubeArchive env port =
     (let host = ''https://localhost:'' @ show_int port
      in if TestKubeArchiveLivezEndpoint env host True None = None then Some host else None)"

fun first_some :: "('a \<Rightarrow> 'b option) \<Rightarrow> 'a list \<Rightarrow> 'b option" where
  "first_some f [] = None"
| "first_some f (x # xs) = (case f x of None \<Rightarrow> first_some f xs | Some y \<Rightarrow> Some y)"

definition checkPortForward :: "'f cli_env \<Rightarrow> string option" where
  "checkPortForward env = first_some (testPortForKubeArchive env) ([8080..8090] @ [9080..9090])"

definition candidate_namespace :: "string \<Rightarrow> bool" where
  "candidate_namespace ns \<longleftrightarrow> ns = ''kubearchive'' \<or> contains_text ''kubearchive'' ns \<or> contains_text ''k9e'' ns"

definition configured_url :: "'f cli_env \<Rightarrow> string \<Rightarrow> string option" where
  "configured_url env ns =
     (case cl_url_map env ns of
        None \<Rightarrow> None
      | Some m \<Rightarrow>
          (case gomap_get m ''URL'' of
             None \<Rightarrow> None
           | Some u \<Rightarrow> if has_prefix u ''http://'' \<or> has_prefix u ''https://'' then Some u else None))"

definition getKubeArchiveHost :: "'f cli_env \<Rightarrow> string option" where
  "getKubeArchiveHost env =
     (case cl_namespaces env of
        None \<Rightarrow> None
      | Some all \<Rightarrow>
          let candidates = filter candidate_namespace all
          in case first_some (configured_url env) candidates of
               Some u \<Rightarrow> Some u
             | None \<Rightarrow>
                 (case first_some (cl_service env) candidates of
                    None \<Rightarrow> None
                  | Some service \<Rightarrow>
                      (case findOpenShiftRoute env service of
                         Some h \<Rightarrow> Some h
                       | None \<Rightarrow> checkPortForward env)))"

definition getTLSSetup :: "'f cli_env \<Rightarrow> string \<Rightarrow> 'f cli_state \<Rightarrow> (cli_error + bool \<times> string) \<times> 'f cli_state" where
  "getTLSSetup env host st =
     (if TestKubeArchiveLivezEndpoint env host False None = None then (Inr (False, []), st)
      else case PromptForInput st of
             (choice, st) \<Rightarrow>
               if choice = ''1'' then
                 (case PromptForInput st of
                    (certPath, st) \<Rightarrow>
                      if certPath = [] then (Inl EmptyCertPath, st)
                      else case LoadCertData env certPath of
                             Inl e \<Rightarrow> (Inl e, st)
                           | Inr (path, _) \<Rightarrow> (Inr (False, path), st))
               else if choice = ''2'' then
                 (case PromptForConfirmation DefaultNo st of
                    (confirm, st) \<Rightarrow> if \<not> confirm then (Inl SetupCancelled, st) else (Inr (True, []), st))
               else (Inl InvalidChoice, st))"

definition getTokenForKubeArchive :: "'f cli_env \<Rightarrow> string \<Rightarrow> 'f cli_state \<Rightarrow> (cli_error + string) \<times> 'f cli_state" where
  "getTokenForKubeArchive env host st =
     (if TestKubeArchiveConnectivity env host True (cl_bearer env) None = None then (Inr [], st)
      else case PromptForConfirmation DefaultYes st of
             (useServiceAccount, st) \<Rightarrow>
               if \<not> useServiceAccount then (Inl NoAuthentication, st)
               else case PromptForInput st of
                      (sa, st) \<Rightarrow>
                        (case PromptForInput st of
                           (ns, st) \<Rightarrow>
                             (case cl_sa_token env (if sa = [] then ''default'' else sa) (if ns = [] then cl_namespace env else ns) of
                                None \<Rightarrow> (Inl TokenFailed, st)
                              | Some token \<Rightarrow> (Inr token, st))))"

definition tls_works :: "'f cli_env \<Rightarrow> string \<Rightarrow> bool \<Rightarrow> string \<Rightarrow> cli_error option" where
  "tls_works env host tlsInsecure certPath =
     (if certPath \<noteq> [] then
        (case cl_file env certPath of
           None \<Rightarrow> Some CertUnreadable
         | Some certData \<Rightarrow> TestKubeArchiveLivezEndpoint env host tlsInsecure (Some certData))
      else if tlsInsecure then TestKubeArchiveLivezEndpoint env host tlsInsecure None
      else None)"

text \<open>A configured cluster is removed from memory when the user wants to configure it again.\<close>

definition setup_overwrite :: "'f cli_state \<Rightarrow> cli_error option \<times> 'f cli_state" where
  "setup_overwrite st =
     (case GetCurrentClusterConfig st of
        None \<Rightarrow> (None, st)
      | Some c \<Rightarrow>
          (case PromptForConfirmation DefaultNo st of
             (confirmed, st) \<Rightarrow>
               if \<not> confirmed then (Some SetupCancelled, st) else RemoveClusterConfigByName (cc_ClusterName c) st))"

definition setup_cluster ::
    "'f cli_env \<Rightarrow> string \<Rightarrow> string \<Rightarrow> 'f cli_state \<Rightarrow> cli_error option \<times> 'f cli_state" where
  "setup_cluster env clusterName host st =
     (case getTLSSetup env host st of
        (Inl e, st) \<Rightarrow> (Some e, st)
      | (Inr (tlsInsecure, certPath), st) \<Rightarrow>
          (case tls_works env host tlsInsecure certPath of
             Some e \<Rightarrow> (Some e, st)
           | None \<Rightarrow>
               (case getTokenForKubeArchive env host st of
                  (Inl e, st) \<Rightarrow> (Some e, st)
                | (Inr token, st) \<Rightarrow>
                    (case PromptForConfirmation DefaultYes st of
                       (confirmed, st) \<Rightarrow>
                         if \<not> confirmed then (Some SetupCancelled, st)
                         else SaveConfig env (AddCluster
                                \<lparr>cc_ClusterName = clusterName, cc_ServerURL = cl_server env, cc_Host = host, cc_TLSInsecure = tlsInsecure,
                                 cc_CertPath = certPath, cc_Token = token, cc_Current = False\<rparr> st)))))"

definition RunSetup :: "'f cli_env \<Rightarrow> 'f cli_state \<Rightarrow> cli_error option \<times> 'f cli_state" where
  "RunSetup env st =
     (case setup_overwrite st of
        (Some e, st) \<Rightarrow> (Some e, st)
      | (None, st) \<Rightarrow>
          (case GenerateClusterName env st of
             Inl e \<Rightarrow> (Some e, st)
           | Inr defaultClusterName \<Rightarrow>
               (case PromptForConfirmation DefaultYes st of
                  (confirmed, st) \<Rightarrow>
                    if \<not> confirmed then (Some SetupCancelled, st)
                    else case PromptForInput st of
                           (response, st) \<Rightarrow>
                             let clusterName = (if response = [] then defaultClusterName else response)
                             in case getKubeArchiveHost env of
                                  None \<Rightarrow> (Some NotDiscovered, st)
                                | Some host \<Rightarrow> setup_cluster env clusterName host st)))"

section \<open>Commands\<close>

datatype config_command = CmdSet "string list" | CmdUnset string | CmdRemove string | CmdSetup | CmdList

definition run_command :: "'f cli_env \<Rightarrow> config_command \<Rightarrow> 'f cli_state \<Rightarrow> cli_error option \<times> 'f cli_state" where
  "run_command env cmd st =
     (case cmd of
        CmdSet args \<Rightarrow> (case completeSet args of Inl e \<Rightarrow> (Some e, st) | Inr (k, v) \<Rightarrow> runSet env k v st)
      | CmdUnset k \<Rightarrow> runUnset env k st
      | CmdRemove n \<Rightarrow> runRemove env n st
      | CmdSetup \<Rightarrow> RunSetup env st
      | CmdList \<Rightarrow> (None, st))"

text \<open>A process: a new manager, \<^verbatim>\<open>ConfigOptions.Complete\<close>, the command. The file is what stays.\<close>

definition ka_config ::
    "'f cli_env \<Rightarrow> config_command \<Rightarrow> string option list \<Rightarrow> 'f option \<Rightarrow> cli_error option \<times> 'f option" where
  "ka_config env cmd answers file =
     (case LoadConfig env (NewFileConfigManager file answers) of
        (Some e, st) \<Rightarrow> (Some e, cs_file st)
      | (None, st) \<Rightarrow> (case run_command env cmd st of (e, st) \<Rightarrow> (e, cs_file st)))"

end
