(* ===== verification/Cli_Settings.thy ===== *)
theory Cli_Settings
  imports Cli_Config
begin

text \<open>
  What the configuration commands guarantee: the file keeps one entry for each server through any
  sequence of commands, and what a command saved is what the next one reads. The last lemmas show
  where the interactive setup and the test of a setting do not do what their texts say.
\<close>

section \<open>Lemmas: the file\<close>

definition yaml_ok :: "'f cli_env \<Rightarrow> bool" where
  "yaml_ok env \<longleftrightarrow>
     (\<forall>m. gomap_ok m \<longrightarrow> (\<exists>m'. cl_unmarshal env (cl_marshal env m) = Some m' \<and> gomap_ok m' \<and> map_of m' = map_of m))"

definition servers_distinct :: "(string, clusterConfig) gomap \<Rightarrow> bool" where
  "servers_distinct m \<longleftrightarrow>
     (\<forall>n c n' c'. map_of m n = Some c \<longrightarrow> map_of m n' = Some c' \<longrightarrow> cc_ServerURL c = cc_ServerURL c' \<longrightarrow> n = n')"

definition file_holds :: "'f cli_env \<Rightarrow> 'f option \<Rightarrow> (string, clusterConfig) gomap \<Rightarrow> bool" where
  "file_holds env file m \<longleftrightarrow> (case file of None \<Rightarrow> m = [] | Some f \<Rightarrow> cl_unmarshal env f = Some m)"

definition file_ok :: "'f cli_env \<Rightarrow> 'f option \<Rightarrow> bool" where
  "file_ok env file \<longleftrightarrow> (\<exists>m. file_holds env file m \<and> gomap_ok m \<and> servers_distinct m)"

text \<open>The state of a process: names agree with keys, and the current name is the one of the server.\<close>

definition manager_ok :: "'f cli_env \<Rightarrow> 'f cli_state \<Rightarrow> bool" where
  "manager_ok env st \<longleftrightarrow> gomap_ok (cs_clusters st) \<and> servers_distinct (cs_clusters st)
     \<and> (\<forall>n c. map_of (cs_clusters st) n = Some c \<longrightarrow> cc_ClusterName c = n \<and> (cc_ServerURL c = cl_server env \<longrightarrow> n = cs_current st))
     \<and> (cs_current st = [] \<or> (\<exists>c. map_of (cs_clusters st) (cs_current st) = Some c \<and> cc_ServerURL c = cl_server env))"

lemma foldl_set_new:
  "distinct (map fst (acc @ m)) \<Longrightarrow> foldl (\<lambda>cs (n, c). gomap_set cs n c) acc m = acc @ m"
proof (induction m arbitrary: acc)
  case (Cons nc m)
  obtain n c where nc: "nc = (n, c)" by fastforce
  have "n \<notin> fst ` set acc \<Longrightarrow> gomap_set acc n c = acc @ [(n, c)]" for acc :: "('a \<times> 'b) list"
    by (induction acc) auto
  then have "gomap_set acc n c = acc @ [(n, c)]" using Cons.prems nc by auto
  with Cons nc show ?case by simp
qed simp

definition marked :: "string \<Rightarrow> string \<Rightarrow> clusterConfig \<Rightarrow> clusterConfig" where
  "marked server n c = snd (mark_cluster server (n, c))"

lemma marked_fields [simp]:
  "cc_ClusterName (marked s n c) = n" "cc_ServerURL (marked s n c) = cc_ServerURL c" "cc_Host (marked s n c) = cc_Host c"
  "stored (marked s n c) = stored c"
  by (auto simp: marked_def mark_cluster_def stored_def Let_def)

lemma stored_fields [simp]: "cc_ServerURL (stored c) = cc_ServerURL c" "cc_Host (stored c) = cc_Host c" "stored (stored c) = stored c"
  by (auto simp: stored_def)

lemma map_of_marked: "map_of (map (mark_cluster s) m) n = map_option (marked s n) (map_of m n)"
  by (induction m) (auto simp: marked_def mark_cluster_def Let_def)

lemma fst_mark [simp]: "map fst (map (mark_cluster s) m) = map fst m"
  by (simp add: mark_cluster_def Let_def)

lemma map_of_stored: "map_of (map (\<lambda>(n, c). (n, stored c)) m) n = map_option stored (map_of m n)"
  by (induction m) auto

lemma servers_distinct_map:
  assumes "\<And>n. map_option cc_ServerURL (map_of m' n) = map_option cc_ServerURL (map_of m n)" "servers_distinct m"
  shows "servers_distinct m'"
  unfolding servers_distinct_def
proof (intro allI impI)
  fix n c n' c'
  assume "map_of m' n = Some c" "map_of m' n' = Some c'" "cc_ServerURL c = cc_ServerURL c'"
  with assms(1) [of n] assms(1) [of n'] obtain d d' where "map_of m n = Some d" "map_of m n' = Some d'" "cc_ServerURL d = cc_ServerURL d'"
    by (cases "map_of m n"; cases "map_of m n'") auto
  with assms(2) show "n = n'" unfolding servers_distinct_def by blast
qed

lemma LoadConfig_holds:
  assumes "cl_readable env" "file_holds env file m" "gomap_ok m" "servers_distinct m"
  obtains st where "LoadConfig env (NewFileConfigManager file answers) = (None, st)" "cs_file st = file"
    "cs_clusters st = map (mark_cluster (cl_server env)) m" "manager_ok env st"
proof -
  let ?c = "last_entry (\<lambda>nc. cc_ServerURL (snd nc) = cl_server env) m"
  let ?st = "\<lparr>cs_file = file, cs_clusters = map (mark_cluster (cl_server env)) m,
     cs_current = (case ?c of None \<Rightarrow> [] | Some nc \<Rightarrow> fst nc), cs_answers = answers\<rparr>"
  have load: "LoadConfig env (NewFileConfigManager file answers) = (None, ?st)"
    using assms foldl_set_new [of "[]" m] by (auto simp: LoadConfig_def NewFileConfigManager_def file_holds_def Let_def split: option.splits)
  have only: "n = fst nc" if "map_of m n = Some c" "cc_ServerURL c = cl_server env" "?c = Some nc" for n c nc
  proof -
    from last_entry_Some [OF that(3)] have "nc \<in> set m" "cc_ServerURL (snd nc) = cl_server env" by auto
    with assms(3) have "map_of m (fst nc) = Some (snd nc)" by simp
    with that assms(4) \<open>cc_ServerURL (snd nc) = _\<close> show ?thesis unfolding servers_distinct_def by metis
  qed
  have some: "?c \<noteq> None" if "map_of m n = Some c" "cc_ServerURL c = cl_server env" for n c
    using map_of_SomeD [OF that(1)] that(2) unfolding last_entry_None by (metis snd_conv)
  have "servers_distinct (map (mark_cluster (cl_server env)) m)"
    by (rule servers_distinct_map [OF _ assms(4)]) (simp add: map_of_marked option.map_comp comp_def)
  moreover have found: "\<exists>c. map_of m (fst nc) = Some c \<and> cc_ServerURL c = cl_server env" if "?c = Some nc" for nc
    using last_entry_Some [OF that] assms(3) by (cases nc) auto
  moreover have "gomap_ok (map (mark_cluster (cl_server env)) m)" using assms(3) by (simp only: fst_mark)
  moreover have "cc_ClusterName c = n \<and> (cc_ServerURL c = cl_server env \<longrightarrow> n = cs_current ?st)"
    if c: "map_of (map (mark_cluster (cl_server env)) m) n = Some c" for n c
  proof -
    obtain d where d: "map_of m n = Some d" "c = marked (cl_server env) n d" using c unfolding map_of_marked by blast
    have "n = cs_current ?st" if "cc_ServerURL d = cl_server env"
      using some [OF d(1) that] only [OF d(1) that] by (cases ?c) simp_all
    with d(2) show ?thesis by simp
  qed
  moreover have "cs_current ?st = [] \<or> (\<exists>c. map_of (cs_clusters ?st) (cs_current ?st) = Some c \<and> cc_ServerURL c = cl_server env)"
  proof (cases ?c)
    case (Some nc)
    from found [OF Some] obtain c where "map_of m (fst nc) = Some c" "cc_ServerURL c = cl_server env" by blast
    then show ?thesis using Some by (simp add: map_of_marked del: map_of_eq_Some_iff)
  qed simp
  ultimately have "manager_ok env ?st" unfolding manager_ok_def by simp
  with load show ?thesis by (intro that) simp_all
qed

lemma SaveConfig_holds:
  assumes "yaml_ok env" "gomap_ok (cs_clusters st)" "SaveConfig env st = (None, st')"
  obtains m where "file_holds env (cs_file st') m" "gomap_ok m" "\<And>n. map_of m n = map_option stored (map_of (cs_clusters st) n)"
proof -
  let ?m = "map (\<lambda>(n, c). (n, stored c)) (cs_clusters st)"
  have "map fst ?m = map fst (cs_clusters st)" by (induction "cs_clusters st") auto
  then have "gomap_ok ?m" using assms(2) by (simp only:)
  then obtain m where "cl_unmarshal env (cl_marshal env ?m) = Some m" "gomap_ok m" "map_of m = map_of ?m"
    using assms(1) unfolding yaml_ok_def by blast
  then show ?thesis
    using assms(3) by (intro that [of m]) (auto simp: SaveConfig_def file_holds_def map_of_stored split: if_splits)
qed

lemma SaveConfig_ok:
  assumes "yaml_ok env" "gomap_ok (cs_clusters st)" "servers_distinct (cs_clusters st)" "file_ok env (cs_file st)"
  shows "file_ok env (cs_file (snd (SaveConfig env st)))"
proof (cases "cl_writable env")
  case False
  then show ?thesis using assms(4) by (simp add: SaveConfig_def)
next
  case True
  then obtain st' where st': "SaveConfig env st = (None, st')" by (auto simp: SaveConfig_def)
  obtain m where m: "file_holds env (cs_file st') m" "gomap_ok m" "\<And>n. map_of m n = map_option stored (map_of (cs_clusters st) n)"
    using SaveConfig_holds [OF assms(1,2) st'] by blast
  have "servers_distinct m" by (rule servers_distinct_map [OF _ assms(3)]) (simp add: m(3) option.map_comp comp_def)
  with m st' show ?thesis by (auto simp: file_ok_def)
qed


section \<open>Lemmas: commands keep the file in order\<close>

text \<open>Every command leaves the file or saves clusters with different servers.\<close>

definition clusters_ok :: "'f cli_env \<Rightarrow> 'f cli_state \<Rightarrow> bool" where
  "clusters_ok env st \<longleftrightarrow> gomap_ok (cs_clusters st) \<and> servers_distinct (cs_clusters st) \<and> file_ok env (cs_file st)"

lemma SaveConfig_clusters_ok: "yaml_ok env \<Longrightarrow> clusters_ok env st \<Longrightarrow> file_ok env (cs_file (snd (SaveConfig env st)))"
  by (simp add: clusters_ok_def SaveConfig_ok)

lemma change_cluster_ok:
  assumes "clusters_ok env st" "\<And>c. cc_ServerURL (f c) = cc_ServerURL c"
  shows "clusters_ok env (change_cluster name f st)"
proof (cases "map_of (cs_clusters st) name")
  case (Some c)
  have "servers_distinct (AList.update name (f c) (cs_clusters st))"
    by (rule servers_distinct_map [where m = "cs_clusters st"]) (use assms Some in \<open>auto simp: clusters_ok_def\<close>)
  then show ?thesis using assms(1) Some by (simp add: clusters_ok_def change_cluster_def)
qed (use assms in \<open>simp add: change_cluster_def\<close>)

lemma AddCluster_ok:
  assumes "clusters_ok env st" "\<And>n d. map_of (cs_clusters st) n = Some d \<Longrightarrow> cc_ServerURL d \<noteq> cc_ServerURL c"
  shows "clusters_ok env (AddCluster c st)"
proof -
  have "servers_distinct (AList.update (cc_ClusterName c) c (cs_clusters st))"
    unfolding servers_distinct_def
  proof (intro allI impI)
    fix n d n' d'
    assume a: "map_of (AList.update (cc_ClusterName c) c (cs_clusters st)) n = Some d"
      "map_of (AList.update (cc_ClusterName c) c (cs_clusters st)) n' = Some d'" "cc_ServerURL d = cc_ServerURL d'"
    have "\<And>n n' d d'. map_of (cs_clusters st) n = Some d \<Longrightarrow> map_of (cs_clusters st) n' = Some d' \<Longrightarrow> cc_ServerURL d = cc_ServerURL d' \<Longrightarrow> n = n'"
      using assms(1) unfolding clusters_ok_def servers_distinct_def by blast
    with a assms(2) show "n = n'" by (metis fun_upd_apply gomap_set_get option.inject)
  qed
  with assms(1) show ?thesis by (simp add: clusters_ok_def AddCluster_def)
qed

lemma manager_clusters_ok: "manager_ok env st \<Longrightarrow> file_ok env (cs_file st) \<Longrightarrow> clusters_ok env st"
  by (simp add: manager_ok_def clusters_ok_def)

lemma no_current_no_server:
  "manager_ok env st \<Longrightarrow> GetCurrentClusterConfig st = None \<Longrightarrow> map_of (cs_clusters st) n = Some d \<Longrightarrow> cc_ServerURL d \<noteq> cl_server env"
  unfolding manager_ok_def GetCurrentClusterConfig_def by (metis option.distinct(1))

lemma set_target_ok:
  assumes "manager_ok env st" "file_ok env (cs_file st)" "set_target env st = Inr (name, c, st')"
  shows "clusters_ok env st'"
proof (cases "GetCurrentClusterConfig st")
  case None
  then obtain key where "st' = AddCluster \<lparr>cc_ClusterName = key, cc_ServerURL = cl_server env, cc_Host = [], cc_TLSInsecure = False,
      cc_CertPath = [], cc_Token = [], cc_Current = True\<rparr> st"
    using assms(3) by (auto simp: set_target_def Let_def split: sum.splits)
  then show ?thesis
    using AddCluster_ok [OF manager_clusters_ok [OF assms(1,2)]] no_current_no_server [OF assms(1) None] by simp
qed (use assms manager_clusters_ok in \<open>auto simp: set_target_def\<close>)

lemma setters_keep_ok:
  assumes y: "yaml_ok env" and ok: "clusters_ok env st"
  shows "file_ok env (cs_file (snd (setHost env name v st)))" "file_ok env (cs_file (snd (setCertificateAuthority env name c v st)))"
    "file_ok env (cs_file (snd (setInsecure env name c v st)))" "file_ok env (cs_file (snd (setToken env name c v st)))"
proof -
  have keep: "file_ok env (cs_file st)" using ok by (simp add: clusters_ok_def)
  have save: "file_ok env (cs_file (snd (SaveConfig env (change_cluster name f st))))" if "\<And>c. cc_ServerURL (f c) = cc_ServerURL c" for f
    using SaveConfig_clusters_ok [OF y change_cluster_ok [OF ok that]] .
  show "file_ok env (cs_file (snd (setHost env name v st)))" using keep save by (simp add: setHost_def split: option.split)
  show "file_ok env (cs_file (snd (setCertificateAuthority env name c v st)))"
    using keep save by (simp add: setCertificateAuthority_def split: sum.split prod.split)
  show "file_ok env (cs_file (snd (setInsecure env name c v st)))" using keep save by (simp add: setInsecure_def split: option.split)
  show "file_ok env (cs_file (snd (setToken env name c v st)))" using keep save by (simp add: setToken_def)
qed

lemma runSet_ok:
  assumes "yaml_ok env" "manager_ok env st" "file_ok env (cs_file st)"
  shows "file_ok env (cs_file (snd (runSet env k v st)))"
proof (cases "set_target env st")
  case (Inr r)
  obtain name c st' where r: "r = (name, c, st')" by (cases r) auto
  note ok = set_target_ok [OF assms(2,3) Inr [unfolded r]]
  then have "file_ok env (cs_file st')" by (simp add: clusters_ok_def)
  with setters_keep_ok [OF assms(1) ok] assms(3) Inr r show ?thesis unfolding runSet_def by simp
qed (use assms in \<open>simp add: runSet_def\<close>)

lemma runUnset_ok:
  assumes "yaml_ok env" "manager_ok env st" "file_ok env (cs_file st)"
  shows "file_ok env (cs_file (snd (runUnset env k st)))"
proof -
  have save: "file_ok env (cs_file (snd (SaveConfig env (change_cluster name f st))))" if "\<And>c. cc_ServerURL (f c) = cc_ServerURL c" for f name
    using SaveConfig_clusters_ok [OF assms(1) change_cluster_ok [OF manager_clusters_ok [OF assms(2,3)] that]] .
  then show ?thesis using assms(3) unfolding runUnset_def by (simp split: option.split)
qed

lemma prompt_keeps:
  "PromptForConfirmation d st = (b, st') \<Longrightarrow> cs_clusters st' = cs_clusters st \<and> cs_file st' = cs_file st \<and> cs_current st' = cs_current st"
  "PromptForInput st = (s, st') \<Longrightarrow> cs_clusters st' = cs_clusters st \<and> cs_file st' = cs_file st \<and> cs_current st' = cs_current st"
  by (auto simp: PromptForConfirmation_def PromptForInput_def scan_line_def split: prod.splits list.splits)

lemma Remove_ok:
  assumes "clusters_ok env st" "RemoveClusterConfigByName n st = (e, st')"
  shows "clusters_ok env st'"
proof (cases "st' = st")
  case False
  then have st': "st' = st\<lparr>cs_clusters := AList.delete n (cs_clusters st)\<rparr>"
    using assms(2) by (auto simp: RemoveClusterConfigByName_def split: if_splits option.splits)
  have "servers_distinct (AList.delete n (cs_clusters st))"
    using assms(1) unfolding clusters_ok_def servers_distinct_def gomap_del_get fun_upd_apply by (metis option.distinct(1))
  with assms(1) st' show ?thesis by (simp add: clusters_ok_def)
qed (use assms in simp)

lemma runRemove_ok:
  assumes "yaml_ok env" "clusters_ok env st"
  shows "file_ok env (cs_file (snd (runRemove env n st)))"
proof -
  have keep: "file_ok env (cs_file st)" using assms(2) by (simp add: clusters_ok_def)
  obtain b st1 where p: "PromptForConfirmation DefaultNo st = (b, st1)" by fastforce
  have ok1: "clusters_ok env st1" using assms(2) prompt_keeps(1) [OF p] by (simp add: clusters_ok_def)
  have "file_ok env (cs_file (snd (case RemoveClusterConfigByName m st1 of (Some e, st) \<Rightarrow> (Some e, st) | (None, st) \<Rightarrow> SaveConfig env st)))" for m
    using Remove_ok [OF ok1] SaveConfig_clusters_ok [OF assms(1)] by (auto simp: clusters_ok_def split: prod.split option.split)
  with keep ok1 p show ?thesis by (auto simp: runRemove_def clusters_ok_def split: option.split)
qed


definition no_server :: "'f cli_env \<Rightarrow> 'f cli_state \<Rightarrow> bool" where
  "no_server env st \<longleftrightarrow> (\<forall>n d. map_of (cs_clusters st) n = Some d \<longrightarrow> cc_ServerURL d \<noteq> cl_server env)"

lemma setup_overwrite_ok:
  assumes "manager_ok env st" "file_ok env (cs_file st)" "setup_overwrite st = (e, st1)"
  shows "clusters_ok env st1" "e = None \<Longrightarrow> no_server env st1"
proof -
  note ok = manager_clusters_ok [OF assms(1,2)]
  have "clusters_ok env st1 \<and> (e = None \<longrightarrow> no_server env st1)"
  proof (cases "GetCurrentClusterConfig st")
    case None
    with assms ok no_current_no_server [OF assms(1) None] show ?thesis by (auto simp: setup_overwrite_def no_server_def)
  next
    case (Some c)
    obtain b st' where p: "PromptForConfirmation DefaultNo st = (b, st')" by fastforce
    note kept = prompt_keeps(1) [OF p]
    have ok': "clusters_ok env st'" using ok kept by (simp add: clusters_ok_def)
    have name: "cc_ClusterName c = cs_current st" using assms(1) Some unfolding manager_ok_def GetCurrentClusterConfig_def by blast
    show ?thesis
    proof (cases b)
      case False
      with Some p assms(3) ok' show ?thesis by (auto simp: setup_overwrite_def)
    next
      case True
      with Some p assms(3) have rm: "RemoveClusterConfigByName (cs_current st) st' = (e, st1)" by (simp add: setup_overwrite_def name)
      have "no_server env st1" if "e = None"
      proof -
        have cur: "cs_current st \<noteq> []" "cs_clusters st1 = AList.delete (cs_current st) (cs_clusters st)"
          using rm that kept by (auto simp: RemoveClusterConfigByName_def split: if_splits option.splits)
        have "cc_ServerURL d \<noteq> cl_server env" if "n \<noteq> cs_current st" "map_of (cs_clusters st) n = Some d" for n d
          using assms(1) that unfolding manager_ok_def by blast
        with cur(2) show ?thesis unfolding no_server_def gomap_del_get fun_upd_apply by (metis gomap_del_get fun_upd_apply option.distinct(1))
      qed
      with Remove_ok [OF ok' rm] show ?thesis by blast
    qed
  qed
  then show "clusters_ok env st1" "e = None \<Longrightarrow> no_server env st1" by auto
qed

definition same_config :: "'f cli_state \<Rightarrow> 'f cli_state \<Rightarrow> bool" where
  "same_config st st' \<longleftrightarrow> cs_clusters st' = cs_clusters st \<and> cs_file st' = cs_file st"

lemma same_config_trans: "same_config a b \<Longrightarrow> same_config b c \<Longrightarrow> same_config a c"
  by (simp add: same_config_def)

lemma same_config_refl [simp]: "same_config st st"
  by (simp add: same_config_def)

lemma prompts_same [simp]:
  "same_config st (snd (PromptForConfirmation d st))" "same_config st (snd (PromptForInput st))"
  by (simp_all add: same_config_def PromptForConfirmation_def PromptForInput_def scan_line_def split: list.split)

lemma getTLSSetup_same: "same_config st (snd (getTLSSetup env host st))"
proof -
  obtain choice st1 where 1: "PromptForInput st = (choice, st1)" by fastforce
  obtain path st2 where 2: "PromptForInput st1 = (path, st2)" by fastforce
  obtain b st3 where 3: "PromptForConfirmation DefaultNo st1 = (b, st3)" by fastforce
  have "same_config st st1" "same_config st1 st2" "same_config st1 st3"
    using prompts_same(2) [of st] prompts_same(2) [of st1] prompts_same(1) [of st1 DefaultNo] 1 2 3 by simp_all
  then show ?thesis
    by (auto simp: getTLSSetup_def 1 2 3 same_config_def split: sum.split)
qed

lemma getTokenForKubeArchive_same: "same_config st (snd (getTokenForKubeArchive env host st))"
proof -
  obtain b st1 where 1: "PromptForConfirmation DefaultYes st = (b, st1)" by fastforce
  obtain sa st2 where 2: "PromptForInput st1 = (sa, st2)" by fastforce
  obtain ns st3 where 3: "PromptForInput st2 = (ns, st3)" by fastforce
  have "same_config st st1" "same_config st1 st2" "same_config st2 st3"
    using prompts_same(1) [of st DefaultYes] prompts_same(2) [of st1] prompts_same(2) [of st2] 1 2 3 by simp_all
  then show ?thesis
    by (auto simp: getTokenForKubeArchive_def 1 2 3 same_config_def split: option.split)
qed

lemma ok_same:
  "same_config st st' \<Longrightarrow> clusters_ok env st \<Longrightarrow> clusters_ok env st'" "same_config st st' \<Longrightarrow> no_server env st \<Longrightarrow> no_server env st'"
  by (simp_all add: same_config_def clusters_ok_def no_server_def)

lemma clusters_ok_file: "clusters_ok env st \<Longrightarrow> file_ok env (cs_file st)"
  by (simp add: clusters_ok_def)

lemma setup_cluster_ok:
  assumes "yaml_ok env" "clusters_ok env st" "no_server env st"
  shows "file_ok env (cs_file (snd (setup_cluster env name host st)))"
proof -
  obtain tls st1 where 1: "getTLSSetup env host st = (tls, st1)" by fastforce
  obtain tok st2 where 2: "getTokenForKubeArchive env host st1 = (tok, st2)" by fastforce
  obtain b st3 where 3: "PromptForConfirmation DefaultYes st2 = (b, st3)" by fastforce
  have same: "same_config st st1" "same_config st1 st2" "same_config st2 st3"
    using getTLSSetup_same [of st env host] getTokenForKubeArchive_same [of st1 env host] prompts_same(1) [of st2 DefaultYes] 1 2 3 by simp_all
  then have ok: "clusters_ok env st1" "clusters_ok env st2" "clusters_ok env st3" "no_server env st3"
    using assms(2,3) ok_same by blast+
  have save: "file_ok env (cs_file (snd (SaveConfig env (AddCluster c st3))))" if "cc_ServerURL c = cl_server env" for c
    using SaveConfig_clusters_ok [OF assms(1) AddCluster_ok [OF ok(3)]] ok(4) that unfolding no_server_def by metis
  show ?thesis
    using ok clusters_ok_file save
    by (auto simp: setup_cluster_def 1 2 3 split: sum.split option.split prod.split)
qed

lemma RunSetup_ok:
  assumes "yaml_ok env" "manager_ok env st" "file_ok env (cs_file st)"
  shows "file_ok env (cs_file (snd (RunSetup env st)))"
proof -
  obtain e st1 where 1: "setup_overwrite st = (e, st1)" by fastforce
  note ok1 = setup_overwrite_ok [OF assms(2,3) 1]
  obtain b st2 where 2: "PromptForConfirmation DefaultYes st1 = (b, st2)" by fastforce
  obtain r st3 where 3: "PromptForInput st2 = (r, st3)" by fastforce
  have same: "same_config st1 st2" "same_config st2 st3"
    using prompts_same(1) [of st1 DefaultYes] prompts_same(2) [of st2] 2 3 by simp_all
  have ok: "clusters_ok env st2" "clusters_ok env st3" "e = None \<Longrightarrow> no_server env st3"
    using ok1 same ok_same by blast+
  then show ?thesis
    using ok1(1) clusters_ok_file setup_cluster_ok [OF assms(1) ok(2,3)]
    by (auto simp: RunSetup_def 1 2 3 Let_def split: sum.split option.split)
qed

lemma LoadConfig_ok:
  assumes "file_ok env conf" "LoadConfig env (NewFileConfigManager conf answers) = (e, st)"
  shows "cs_file st = conf" "e = None \<Longrightarrow> manager_ok env st"
proof -
  show "cs_file st = conf"
    using assms(2) by (auto simp: LoadConfig_def NewFileConfigManager_def Let_def split: option.splits if_splits)
  assume e: "e = None"
  show "manager_ok env st"
  proof (cases conf)
    case None
    with assms(2) show ?thesis by (auto simp: LoadConfig_def NewFileConfigManager_def manager_ok_def servers_distinct_def)
  next
    case (Some f)
    with assms(2) e have "cl_readable env" by (auto simp: LoadConfig_def NewFileConfigManager_def split: if_splits)
    moreover obtain m where "file_holds env conf m" "gomap_ok m" "servers_distinct m" using assms(1) by (auto simp: file_ok_def)
    ultimately show ?thesis using LoadConfig_holds [of env conf m answers] assms(2) e by (metis prod.inject)
  qed
qed

lemma run_command_ok:
  assumes "yaml_ok env" "manager_ok env st" "file_ok env (cs_file st)"
  shows "file_ok env (cs_file (snd (run_command env cmd st)))"
  using runSet_ok [OF assms] runUnset_ok [OF assms] runRemove_ok [OF assms(1) manager_clusters_ok [OF assms(2,3)]] RunSetup_ok [OF assms] assms(3)
  by (cases cmd) (simp_all add: run_command_def split: sum.split prod.split)

lemma ka_config_ok:
  assumes "yaml_ok env" "file_ok env conf"
  shows "file_ok env (snd (ka_config env cmd answers conf))"
proof -
  obtain e st where l: "LoadConfig env (NewFileConfigManager conf answers) = (e, st)" by fastforce
  note ok = LoadConfig_ok [OF assms(2) l]
  show ?thesis
  proof (cases e)
    case None
    have "file_ok env (cs_file (snd (run_command env cmd st)))"
      using run_command_ok [OF assms(1) ok(2) [OF None]] ok(1) assms(2) by simp
    then show ?thesis by (simp add: ka_config_def l None split_beta)
  qed (use ok(1) assms(2) in \<open>simp add: ka_config_def l\<close>)
qed

text \<open>C30: whatever commands the user runs and whatever they answer, the configuration file keeps at
  most one entry for each Kubernetes server, provided that the YAML library reads back what it wrote.\<close>

theorem commands_keep_file_ok:
  assumes "yaml_ok env" "file_ok env conf"
  shows "file_ok env (foldl (\<lambda>conf (cmd, answers). snd (ka_config env cmd answers conf)) conf cmds)"
  using assms(2) by (induction cmds arbitrary: conf) (auto simp: ka_config_ok [OF assms(1)])

text \<open>The environment for examples: a file of clusters as it is, and a server that always answers.\<close>

definition sample_cli_env :: "(string, clusterConfig) gomap cli_env" where
  "sample_cli_env =
     \<lparr>cl_marshal = id, cl_unmarshal = Some, cl_readable = True, cl_writable = True, cl_server = ''https://api.c1.test:6443'',
      cl_bearer = ''tok'', cl_home = None, cl_file = (\<lambda>_. None), cl_client = (\<lambda>_. True), cl_do = (\<lambda>_ _. Some (200, [])),
      cl_ip6 = (\<lambda>_. False), cl_namespaces = Some [''kubearchive''], cl_url_map = (\<lambda>_. Some [(''URL'', ''https://ka.test'')]),
      cl_service = (\<lambda>_. None), cl_routes = (\<lambda>_. None), cl_sa_token = (\<lambda>_ _. None), cl_namespace = ''default''\<rparr>"

lemma sample_yaml_ok: "yaml_ok sample_cli_env"
  by (auto simp: yaml_ok_def sample_cli_env_def)

lemma no_file_ok: "file_ok env None"
  by (simp add: file_ok_def file_holds_def servers_distinct_def)

theorem commands_keep_file_ok_witness:
  "file_ok sample_cli_env (foldl (\<lambda>conf (cmd, answers). snd (ka_config sample_cli_env cmd answers conf)) None
     [(CmdSet [''host'', ''https://h1''], []), (CmdSetup, [Some ''y'', None, Some ''other'', None]), (CmdRemove [], [None])])"
  by (rule commands_keep_file_ok [OF sample_yaml_ok no_file_ok])

section \<open>Lemmas: what is set is read back\<close>

lemma free_name_free: "free_name names n \<notin> set names"
  by (induction names n rule: free_name.induct) (subst free_name.simps, simp)

lemma GenerateClusterName_free:
  assumes "manager_ok env st" "GenerateClusterName env st = Inr key"
  shows "map_of (cs_clusters st) key = None"
proof (rule ccontr)
  assume "map_of (cs_clusters st) key \<noteq> None"
  then obtain c where c: "map_of (cs_clusters st) key = Some c" by blast
  then have "cc_ClusterName c = key" using assms(1) unfolding manager_ok_def by blast
  with map_of_SomeD [OF c] have "key \<in> set (map (cc_ClusterName \<circ> snd) (cs_clusters st))" by force
  moreover have "\<exists>n. key = free_name (map (cc_ClusterName \<circ> snd) (cs_clusters st)) n"
    using assms(2) by (auto simp: GenerateClusterName_def Let_def split: if_splits option.splits)
  ultimately show False using free_name_free by metis
qed

lemma set_target_lookup:
  assumes "manager_ok env st" "set_target env st = Inr (name, c, st')"
  shows "map_of (cs_clusters st') = (map_of (cs_clusters st))(name \<mapsto> c) \<and> (cc_ServerURL c = cl_server env \<or> name = [])
    \<and> (\<forall>n d. n \<noteq> name \<longrightarrow> map_of (cs_clusters st) n = Some d \<longrightarrow> cc_ServerURL d \<noteq> cl_server env)"
proof (cases "GetCurrentClusterConfig st")
  case (Some c')
  with assms(2) have eq: "name = cs_current st" "c' = c" "st' = st" by (auto simp: set_target_def)
  have look: "map_of (cs_clusters st) (cs_current st) = Some c" using Some eq by (simp only: GetCurrentClusterConfig_def)
  then have "(map_of (cs_clusters st))(name \<mapsto> c) = map_of (cs_clusters st)" using eq by (metis fun_upd_triv)
  with assms(1) eq look show ?thesis unfolding manager_ok_def by (metis option.inject)
next
  case None
  with assms(2) obtain key where key: "GenerateClusterName env st = Inr key" "name = key" "cc_ServerURL c = cl_server env"
      "cc_ClusterName c = key" "st' = AddCluster c st"
    by (auto simp: set_target_def Let_def split: sum.splits)
  then show ?thesis using no_current_no_server [OF assms(1) None] by (simp add: AddCluster_def del: map_of_eq_Some_iff)
qed

text \<open>After a successful \<open>set host\<close> the next command reads that host for the current cluster, and
  every other cluster as it was.\<close>

theorem set_host_read_back:
  assumes "yaml_ok env" "cl_readable env" "file_holds env conf m" "gomap_ok m" "servers_distinct m"
    and "ka_config env (CmdSet [''host'', v]) answers conf = (None, conf')"
  shows "\<exists>st c. LoadConfig env (NewFileConfigManager conf' answers') = (None, st) \<and> GetCurrentClusterConfig st = Some c \<and> cc_Host c = v
    \<and> (\<forall>n. n \<noteq> cs_current st \<longrightarrow> map_option stored (map_of (cs_clusters st) n) = map_option stored (map_of m n))"
proof -
  obtain st where st: "LoadConfig env (NewFileConfigManager conf answers) = (None, st)" "cs_file st = conf"
      "cs_clusters st = map (mark_cluster (cl_server env)) m" "manager_ok env st"
    using LoadConfig_holds [OF assms(2-5), of answers] by blast
  have ok: "file_ok env (cs_file st)" using assms(3-5) st(2) by (auto simp: file_ok_def)
  obtain st2 where st2: "runSet env ''host'' v st = (None, st2)" "conf' = cs_file st2"
    using assms(6) st(1) by (auto simp: ka_config_def run_command_def completeSet_def split: prod.splits)
  obtain name c st1 where t: "set_target env st = Inr (name, c, st1)"
    using st2(1) by (cases "set_target env st") (auto simp: runSet_def)
  note look = set_target_lookup [OF st(4) t]
  note ok1 = set_target_ok [OF st(4) ok t]
  let ?st = "change_cluster name (\<lambda>c. c\<lparr>cc_Host := v\<rparr>) st1"
  have save: "SaveConfig env ?st = (None, st2)"
    using st2(1) t by (auto simp: runSet_def setHost_def split: option.splits if_splits)
  have ok2: "clusters_ok env ?st" by (rule change_cluster_ok [OF ok1]) simp
  obtain m' where m': "file_holds env conf' m'" "gomap_ok m'" "\<And>n. map_of m' n = map_option stored (map_of (cs_clusters ?st) n)"
    using SaveConfig_holds [OF assms(1) _ save] ok2 st2(2) by (auto simp: clusters_ok_def)
  have "servers_distinct m'"
    by (rule servers_distinct_map [where m = "cs_clusters ?st"]) (use m'(3) ok2 in \<open>simp_all add: clusters_ok_def option.map_comp comp_def\<close>)
  from LoadConfig_holds [OF assms(2) m'(1,2) this, of answers'] obtain st3 where st3:
    "LoadConfig env (NewFileConfigManager conf' answers') = (None, st3)" "cs_clusters st3 = map (mark_cluster (cl_server env)) m'" "manager_ok env st3" by blast
  have "map_of (cs_clusters st1) name = Some c" using look by (metis fun_upd_same)
  then have new: "map_of (cs_clusters ?st) = (map_of (cs_clusters st))(name \<mapsto> c\<lparr>cc_Host := v\<rparr>)"
    using look unfolding change_cluster_def by (simp del: map_of_eq_Some_iff)
  have look3: "map_of (cs_clusters st3) n = map_option (marked (cl_server env) n \<circ> stored) (map_of (cs_clusters ?st) n)" for n
    by (simp only: st3(2) map_of_marked m'(3) option.map_comp)
  have at: "map_of (cs_clusters st3) name = Some (marked (cl_server env) name (stored (c\<lparr>cc_Host := v\<rparr>)))"
    unfolding look3 new by simp
  have cur: "cs_current st3 = name"
  proof (cases "cc_ServerURL c = cl_server env")
    case True
    then have "cc_ServerURL (marked (cl_server env) name (stored (c\<lparr>cc_Host := v\<rparr>))) = cl_server env" by simp
    with at st3(3) show ?thesis unfolding manager_ok_def by metis
  next
    case False
    then have "name = []" using look by blast
    have "cc_ServerURL d \<noteq> cl_server env" if "map_of (cs_clusters st3) n = Some d" for n d
      using that look False unfolding look3 new by (auto simp del: map_of_eq_Some_iff split: if_splits)
    with st3(3) \<open>name = []\<close> show ?thesis unfolding manager_ok_def by metis
  qed
  have "map_option stored (map_of (cs_clusters st3) n) = map_option stored (map_of m n)" if "n \<noteq> name" for n
    using that by (simp add: look3 new st(3) map_of_marked option.map_comp comp_def del: map_of_eq_Some_iff)
  moreover have "GetCurrentClusterConfig st3 = Some (marked (cl_server env) name (stored (c\<lparr>cc_Host := v\<rparr>)))"
    unfolding GetCurrentClusterConfig_def cur by (rule at)
  ultimately show ?thesis using st3(1) cur by auto
qed

theorem set_host_read_back_witness:
  "\<exists>st c. LoadConfig sample_cli_env
      (NewFileConfigManager (snd (ka_config sample_cli_env (CmdSet [''host'', ''https://h1'']) [] None)) []) = (None, st)
    \<and> GetCurrentClusterConfig st = Some c \<and> cc_Host c = ''https://h1''"
proof -
  have "fst (ka_config sample_cli_env (CmdSet [''host'', ''https://h1'']) [] None) = None" by code_simp
  then obtain conf' where c: "ka_config sample_cli_env (CmdSet [''host'', ''https://h1'']) [] None = (None, conf')" by (metis prod.collapse)
  have "cl_readable sample_cli_env" "file_holds sample_cli_env None []" "servers_distinct []"
    by (simp_all add: sample_cli_env_def file_holds_def servers_distinct_def)
  from set_host_read_back [OF sample_yaml_ok this(1,2) _ this(3) c, of "[]"] show ?thesis unfolding c by auto
qed

text \<open>The setup accepts the name of another cluster and replaces its configuration.\<close>

lemma setup_replaces_other_cluster:
  "snd (ka_config sample_cli_env CmdSetup [None, Some ''c2''] (Some [(''c2'', \<lparr>cc_ClusterName = [], cc_ServerURL = ''https://other'',
       cc_Host = ''https://ka.other'', cc_TLSInsecure = False, cc_CertPath = [], cc_Token = ''t'', cc_Current = False\<rparr>)])) =
     Some [(''c2'', \<lparr>cc_ClusterName = [], cc_ServerURL = ''https://api.c1.test:6443'', cc_Host = ''https://ka.test'',
       cc_TLSInsecure = False, cc_CertPath = [], cc_Token = [], cc_Current = False\<rparr>)]"
  by code_simp

lemma other_answers_confirm: "IsConfirmed DefaultYes ''nope''"
  by code_simp

lemma secure_test_without_certificate:
  assumes "cc_CertPath c \<noteq> []" "TestKubeArchiveLivezEndpoint env (cc_Host c) False None \<noteq> None"
  shows "setInsecure env name c ''false'' st = (Some CannotConnect, st)"
proof -
  have "parse_insecure ''false'' = Some False" by code_simp
  with assms show ?thesis by (simp add: setInsecure_def)
qed

end
