(* ===== verification/Cli_Retriever.thy ===== *)
theory Cli_Retriever
  imports Cli_Settings
begin

text \<open>
  \<^verbatim>\<open>pkg/cmd/retriever.go\<close>: how a command finds a working configuration, asks one of the two APIs, and
  resolves the resource that the user names with the discovery of the cluster.

  The flags, the kubeconfig and the HTTP clients are part of the environment. The loop over the
  candidates of a resource is over a Go map: \<open>visit\<close> is the order in which it visits the groups.
\<close>

section \<open>Data\<close>

record resourceInfo =
  ri_Resource :: string
  ri_Version :: string
  ri_Group :: string
  ri_GroupVersion :: string
  ri_Kind :: string
  ri_Namespaced :: bool

record apiResource =
  ar_Name :: string
  ar_SingularName :: string
  ar_ShortNames :: "string list"
  ar_Kind :: string
  ar_Namespaced :: bool

record apiResourceList =
  al_GroupVersion :: string
  al_Resources :: "apiResource list"

record apiGroup =
  ag_Name :: string
  ag_Versions :: "string list"
  ag_Preferred :: string

record apiError =
  ae_StatusCode :: int
  ae_URL :: string
  ae_Message :: string
  ae_Body :: string

datatype ka_api = Kubernetes | KubeArchive

text \<open>The answer to a GET: the status, and the body unless reading it fails.\<close>

record 'f ka_env =
  ke_cli :: "'f cli_env"
  ke_vars :: "(string, string) gomap"
  ke_host_flag :: "string option"
  ke_insecure_flag :: "bool option"
  ke_cert_flag :: "string option"
  ke_token_flag :: string
  ke_namespace_flag :: string
  ke_namespace :: "string option"
  ke_rest :: "rest_config option"
  ke_discovery_ok :: bool
  ke_resources :: "apiResourceList list option"
  ke_groups :: "apiGroup list option"
  ke_parse_gv :: "string \<Rightarrow> (string \<times> string) option"
  ke_http :: "rest_config \<Rightarrow> string \<Rightarrow> (int \<times> string option) option"
  ke_status_message :: "string \<Rightarrow> string option"

record retriever =
  kr_host :: string
  kr_tlsInsecure :: bool
  kr_certificatePath :: string
  kr_token :: string
  kr_certData :: "string option"

section \<open>Configuration\<close>

definition ParseBool :: "string \<Rightarrow> bool" where
  "ParseBool v \<longleftrightarrow> v \<in> {''1'', ''t'', ''T'', ''TRUE'', ''true'', ''True''}"

definition env_var :: "'f ka_env \<Rightarrow> string \<Rightarrow> string" where
  "env_var ke v = gomap_get0 [] (ke_vars ke) v"

text \<open>\<^verbatim>\<open>NewKARetrieverOptions\<close>, and the flags, whose defaults are the values of the variables.\<close>

definition NewKARetrieverOptions :: "'f ka_env \<Rightarrow> retriever" where
  "NewKARetrieverOptions ke =
     \<lparr>kr_host = (case ke_host_flag ke of None \<Rightarrow> env_var ke ''KUBECTL_PLUGIN_KA_HOST'' | Some h \<Rightarrow> h),
      kr_tlsInsecure = (case ke_insecure_flag ke of None \<Rightarrow> ParseBool (env_var ke ''KUBECTL_PLUGIN_KA_TLS_INSECURE'') | Some b \<Rightarrow> b),
      kr_certificatePath = (case ke_cert_flag ke of None \<Rightarrow> env_var ke ''KUBECTL_PLUGIN_KA_CERT_PATH'' | Some p \<Rightarrow> p),
      kr_token = env_var ke ''KUBECTL_PLUGIN_KA_TOKEN'', kr_certData = None\<rparr>"

definition testConnectivity :: "'f ka_env \<Rightarrow> retriever \<Rightarrow> cli_error option" where
  "testConnectivity ke r =
     (if kr_host r = [] then Some NoHost
      else if kr_token r = [] then Some NoToken
      else TestKubeArchiveConnectivity (ke_cli ke) (kr_host r) (kr_tlsInsecure r) (kr_token r) (kr_certData r))"

definition loadPersistentConfig ::
    "'f ka_env \<Rightarrow> retriever \<Rightarrow> 'f cli_state \<Rightarrow> cli_error option \<times> retriever \<times> 'f cli_state" where
  "loadPersistentConfig ke r st =
     (case LoadConfig (ke_cli ke) st of
        (Some e, st) \<Rightarrow> (Some e, r, st)
      | (None, st) \<Rightarrow>
          (case GetCurrentClusterConfig st of
             None \<Rightarrow> (Some NoCurrentCluster, r, st)
           | Some c \<Rightarrow>
               let r = r\<lparr>kr_host := cc_Host c, kr_certificatePath := cc_CertPath c, kr_tlsInsecure := cc_TLSInsecure c,
                         kr_token := (if cc_Token c = [] then cl_bearer (ke_cli ke) else cc_Token c)\<rparr>
               in if cc_CertPath c = [] then (None, r, st)
                  else case LoadCertData (ke_cli ke) (cc_CertPath c) of
                         Inl e \<Rightarrow> (Some e, r, st)
                       | Inr (path, d) \<Rightarrow> (None, r\<lparr>kr_certificatePath := path, kr_certData := Some d\<rparr>, st)))"

definition token_from_file :: "'f ka_env \<Rightarrow> 'f option \<Rightarrow> string" where
  "token_from_file ke conf =
     (case LoadConfig (ke_cli ke) (NewFileConfigManager conf []) of
        (Some _, _) \<Rightarrow> []
      | (None, st) \<Rightarrow> (case GetCurrentClusterConfig st of None \<Rightarrow> [] | Some c \<Rightarrow> cc_Token c))"

definition complete_token :: "'f ka_env \<Rightarrow> 'f option \<Rightarrow> retriever \<Rightarrow> retriever" where
  "complete_token ke conf r =
     (let r = (if ke_token_flag ke \<noteq> [] then r\<lparr>kr_token := ke_token_flag ke\<rparr> else r);
          r = (if kr_token r = [] then r\<lparr>kr_token := token_from_file ke conf\<rparr> else r)
      in if kr_token r = [] then r\<lparr>kr_token := cl_bearer (ke_cli ke)\<rparr> else r)"

definition setK9eRESTConfig :: "retriever \<Rightarrow> rest_config" where
  "setK9eRESTConfig r =
     \<lparr>rc_Host = kr_host r, rc_Insecure = (if kr_certData r \<noteq> None then False else kr_tlsInsecure r),
      rc_BearerToken = kr_token r, rc_CAData = kr_certData r\<rparr>"

text \<open>
  The configuration that \<^verbatim>\<open>CompleteRetriever\<close> ends with: what the flags and variables give, or what
  the file gives, or what the user sets up. \<open>interactive_config\<close> is the last of these.
\<close>

definition interactive_config :: "'f ka_env \<Rightarrow> retriever \<Rightarrow> 'f cli_state \<Rightarrow> (cli_error + retriever) \<times> 'f option" where
  "interactive_config ke r st =
     (case PromptForConfirmation DefaultYes st of
        (confirmed, st) \<Rightarrow>
          if \<not> confirmed then (Inl SetupCancelled, cs_file st)
          else case RunSetup (ke_cli ke) st of
                 (Some e, st) \<Rightarrow> (Inl e, cs_file st)
               | (None, st) \<Rightarrow>
                   (case loadPersistentConfig ke r st of
                      (Some e, _, st) \<Rightarrow> (Inl e, cs_file st)
                    | (None, r, st) \<Rightarrow> (Inr r, cs_file st)))"

definition working_config ::
    "'f ka_env \<Rightarrow> string option list \<Rightarrow> 'f option \<Rightarrow> retriever \<Rightarrow> (cli_error + retriever) \<times> 'f option" where
  "working_config ke answers conf r =
     (if testConnectivity ke r = None then (Inr r, conf)
      else case loadPersistentConfig ke r (NewFileConfigManager conf answers) of
             (_, r, st) \<Rightarrow> if testConnectivity ke r = None then (Inr r, cs_file st) else interactive_config ke r st)"

definition CompleteRetriever ::
    "'f ka_env \<Rightarrow> string option list \<Rightarrow> 'f option \<Rightarrow> (cli_error + rest_config) \<times> 'f option" where
  "CompleteRetriever ke answers conf =
     (if ke_rest ke = None then (Inl NoRestConfig, conf)
      else if \<not> ke_discovery_ok ke then (Inl NoDiscoveryClient, conf)
      else
        let r = complete_token ke conf (NewKARetrieverOptions ke)
        in case (if kr_certificatePath r = [] then Inr r
                 else case LoadCertData (ke_cli ke) (kr_certificatePath r) of
                        Inl e \<Rightarrow> Inl e
                      | Inr (path, d) \<Rightarrow> Inr (r\<lparr>kr_certificatePath := path, kr_certData := Some d\<rparr>)) of
             Inl e \<Rightarrow> (Inl e, conf)
           | Inr r \<Rightarrow>
               (case working_config ke answers conf r of
                  (Inl e, conf) \<Rightarrow> (Inl e, conf)
                | (Inr r, conf) \<Rightarrow>
                    (case testConnectivity ke r of
                       Some e \<Rightarrow> (Inl e, conf)
                     | None \<Rightarrow> (Inr (setK9eRESTConfig r), conf))))"

section \<open>Requests\<close>

definition quote :: "string \<Rightarrow> string" where
  "quote s = [CHR 0x27] @ s @ [CHR 0x27]"

definition extractErrorMessage :: "'f ka_env \<Rightarrow> string \<Rightarrow> int \<Rightarrow> string \<Rightarrow> string" where
  "extractErrorMessage ke body statusCode url =
     (case ke_status_message ke body of
        Some (c # m) \<Rightarrow> c # m
      | _ \<Rightarrow>
          let quoted = ''unable to get '' @ quote url @ '': ''
          in if body \<noteq> [] then quoted @ body @ '' ('' @ show_int statusCode @ '')'' else quoted @ ''HTTP '' @ show_int statusCode)"

text \<open>
  The configuration of the cluster is there once \<^verbatim>\<open>CompleteRetriever\<close> has ended well. The message of
  a failed request ends in the error of the library, which is left out.
\<close>

definition apiConfig :: "'f ka_env \<Rightarrow> rest_config \<Rightarrow> ka_api \<Rightarrow> rest_config" where
  "apiConfig ke k9e api = (case api of Kubernetes \<Rightarrow> the (ke_rest ke) | KubeArchive \<Rightarrow> k9e)"

definition GetFromAPI :: "'f ka_env \<Rightarrow> rest_config \<Rightarrow> ka_api \<Rightarrow> string \<Rightarrow> apiError + string" where
  "GetFromAPI ke k9e api path =
     (let conf = apiConfig ke k9e api; fullURL = trim_slashes (rc_Host conf) @ path
      in if \<not> cl_client (ke_cli ke) conf
         then Inl \<lparr>ae_StatusCode = 500, ae_URL = path, ae_Message = ''error creating the HTTP client from the REST config: '', ae_Body = []\<rparr>
         else case ke_http ke conf fullURL of
                None \<Rightarrow> Inl \<lparr>ae_StatusCode = 500, ae_URL = fullURL, ae_Message = ''error on GET to '' @ quote fullURL @ '': '', ae_Body = []\<rparr>
              | Some (status, None) \<Rightarrow>
                  Inl \<lparr>ae_StatusCode = status, ae_URL = fullURL,
                       ae_Message = ''error reading response body from '' @ quote fullURL @ '': '', ae_Body = []\<rparr>
              | Some (status, Some body) \<Rightarrow>
                  if status \<noteq> 200
                  then Inl \<lparr>ae_StatusCode = status, ae_URL = fullURL, ae_Message = extractErrorMessage ke body status fullURL, ae_Body = body\<rparr>
                  else Inr body)"

definition GetNamespace :: "'f ka_env \<Rightarrow> string option" where
  "GetNamespace ke = (if ke_namespace_flag ke \<noteq> [] then Some (ke_namespace_flag ke) else ke_namespace ke)"

section \<open>Resources\<close>

definition matchesResource :: "apiResource \<Rightarrow> string \<Rightarrow> bool" where
  "matchesResource r resourceName \<longleftrightarrow>
     ar_Name r = resourceName \<or> resourceName \<in> set (ar_ShortNames r) \<or> ar_SingularName r \<noteq> [] \<and> ar_SingularName r = resourceName"

definition resource_info :: "string \<times> string \<Rightarrow> string \<Rightarrow> apiResource \<Rightarrow> resourceInfo" where
  "resource_info gv groupVersion r =
     \<lparr>ri_Resource = ar_Name r, ri_Version = snd gv, ri_Group = fst gv, ri_GroupVersion = groupVersion, ri_Kind = ar_Kind r,
      ri_Namespaced = ar_Namespaced r\<rparr>"

definition list_candidates ::
    "'f ka_env \<Rightarrow> string \<Rightarrow> string \<Rightarrow> string \<Rightarrow> apiResourceList \<Rightarrow> resourceInfo list" where
  "list_candidates ke resourceName requestedVersion requestedGroup l =
     (case ke_parse_gv ke (al_GroupVersion l) of
        None \<Rightarrow> []
      | Some gv \<Rightarrow>
          if requestedGroup \<noteq> [] \<and> fst gv \<noteq> requestedGroup then []
          else if requestedVersion \<noteq> [] \<and> snd gv \<noteq> requestedVersion then []
          else map (resource_info gv (al_GroupVersion l)) (filter (\<lambda>r. matchesResource r resourceName) (al_Resources l)))"

definition getPreferredVersion :: "'f ka_env \<Rightarrow> string \<Rightarrow> string option" where
  "getPreferredVersion ke gr =
     (if gr = [] then Some ''v1''
      else case ke_groups ke of
             None \<Rightarrow> None
           | Some groups \<Rightarrow> map_option ag_Preferred (List.find (\<lambda>g. ag_Name g = gr \<and> ag_Versions g \<noteq> []) groups))"

text \<open>One turn of the loop over the groups: \<open>None\<close> goes on with the next group.\<close>

definition preferred_in_group :: "'f ka_env \<Rightarrow> string \<times> resourceInfo list \<Rightarrow> resourceInfo option" where
  "preferred_in_group ke gc =
     (case snd gc of
        [c] \<Rightarrow> Some c
      | cs \<Rightarrow>
          (case getPreferredVersion ke (fst gc) of
             None \<Rightarrow> Some (hd cs)
           | Some preferred \<Rightarrow> List.find (\<lambda>c. ri_Version c = preferred) cs))"

type_synonym visit_order = "(string, resourceInfo list) gomap \<Rightarrow> (string, resourceInfo list) gomap"

definition group_candidates :: "resourceInfo list \<Rightarrow> (string, resourceInfo list) gomap" where
  "group_candidates candidates =
     foldl (\<lambda>m c. gomap_set m (ri_Group c) (gomap_get0 [] m (ri_Group c) @ [c])) [] candidates"

definition selectPreferredResource :: "'f ka_env \<Rightarrow> visit_order \<Rightarrow> resourceInfo list \<Rightarrow> resourceInfo" where
  "selectPreferredResource ke visit candidates =
     (case first_some (preferred_in_group ke) (visit (group_candidates candidates)) of
        Some c \<Rightarrow> c
      | None \<Rightarrow> hd candidates)"

datatype resolve_error = EmptyResource | DiscoveryFailed | ResourceUnknown string

definition findResourceInfo ::
    "'f ka_env \<Rightarrow> visit_order \<Rightarrow> string \<Rightarrow> string \<Rightarrow> string \<Rightarrow> resolve_error + resourceInfo" where
  "findResourceInfo ke visit resourceName requestedVersion requestedGroup =
     (case ke_resources ke of
        None \<Rightarrow> Inl DiscoveryFailed
      | Some als \<Rightarrow>
          (case concat (map (list_candidates ke resourceName requestedVersion requestedGroup) als) of
             [] \<Rightarrow> Inl (ResourceUnknown resourceName)
           | [c] \<Rightarrow> Inr c
           | cs \<Rightarrow> Inr (selectPreferredResource ke visit cs)))"

text \<open>Name, version and group of a specification: a second part like \<open>v1\<close> is a version.\<close>

definition looks_like_version :: "string \<Rightarrow> bool" where
  "looks_like_version p \<longleftrightarrow> length p \<ge> 2 \<and> p ! 0 = CHR ''v'' \<and> char_digit (p ! 1) \<noteq> None"

definition parse_spec :: "string \<Rightarrow> string \<times> string \<times> string" where
  "parse_spec spec =
     (case split_on (CHR ''.'') spec of
        [] \<Rightarrow> ([], [], [])
      | [n] \<Rightarrow> (n, [], [])
      | n # p # ps \<Rightarrow> if looks_like_version p then (n, p, join_with ''.'' ps) else (n, [], join_with ''.'' (p # ps)))"

definition ResolveResourceSpec :: "'f ka_env \<Rightarrow> visit_order \<Rightarrow> string \<Rightarrow> resolve_error + resourceInfo" where
  "ResolveResourceSpec ke visit spec =
     (case parse_spec spec of
        (n, version, gr) \<Rightarrow> if n = [] then Inl EmptyResource else findResourceInfo ke visit n version gr)"

section \<open>Lemmas: configuration\<close>

text \<open>A configuration that is used has been tested with its token and certificate.\<close>

lemma used_config_tested:
  assumes "CompleteRetriever ke answers conf = (Inr rc, conf')"
  shows "\<exists>r. testConnectivity ke r = None \<and> rc = setK9eRESTConfig r"
  using assms by (auto simp: CompleteRetriever_def Let_def split: if_splits sum.splits prod.splits option.splits)

text \<open>A certificate from the flags stays in use when the file names none.\<close>

lemma stale_certificate_kept:
  assumes "LoadConfig (ke_cli ke) st = (None, st')" "GetCurrentClusterConfig st' = Some c" "cc_CertPath c = []"
    and "loadPersistentConfig ke r st = (e, r', st'')"
  shows "kr_certificatePath r' = [] \<and> kr_certData r' = kr_certData r"
  using assms by (auto simp: loadPersistentConfig_def Let_def)

section \<open>Lemmas: resources\<close>

definition visits :: "visit_order \<Rightarrow> bool" where
  "visits visit \<longleftrightarrow> (\<forall>m. set (visit m) = set m)"

lemma first_some_in: "first_some f xs = Some y \<Longrightarrow> \<exists>x\<in>set xs. f x = Some y"
  by (induction xs) (auto split: option.splits)

lemma group_candidates_snoc:
  "group_candidates (cs @ [c]) = gomap_set (group_candidates cs) (ri_Group c) (gomap_get0 [] (group_candidates cs) (ri_Group c) @ [c])"
  by (simp add: group_candidates_def)

lemma group_candidates_ok: "gomap_ok (group_candidates cs)"
  by (induction cs rule: rev_induct) (simp add: group_candidates_def, simp add: group_candidates_snoc)

text \<open>A group holds its candidates in the order in which they were found.\<close>

lemma group_candidates_get:
  "gomap_get (group_candidates cs) g = (case filter (\<lambda>c. ri_Group c = g) cs of [] \<Rightarrow> None | f # fs \<Rightarrow> Some (f # fs))"
proof (induction cs rule: rev_induct)
  case Nil
  show ?case by (simp add: group_candidates_def)
next
  case (snoc c cs)
  then show ?case by (cases "filter (\<lambda>c. ri_Group c = g) cs") (auto simp: group_candidates_snoc gomap_get0_def)
qed

lemma group_candidates_members:
  assumes "(g, cs) \<in> set (group_candidates candidates)"
  shows "cs \<noteq> [] \<and> set cs \<subseteq> set candidates"
proof -
  have "gomap_get (group_candidates candidates) g = Some cs" using assms group_candidates_ok by (metis map_of_is_SomeI)
  then have "cs = filter (\<lambda>c. ri_Group c = g) candidates \<and> cs \<noteq> []"
    unfolding group_candidates_get by (cases "filter (\<lambda>c. ri_Group c = g) candidates") auto
  then show ?thesis by auto
qed

lemma preferred_in_group_member:
  "preferred_in_group ke (g, cs) = Some c \<Longrightarrow> cs \<noteq> [] \<Longrightarrow> c \<in> set cs"
  by (cases cs rule: remdups_adj.cases) (auto simp: preferred_in_group_def find_Some_iff split: option.splits if_splits)

lemma selected_is_candidate:
  assumes "visits visit" "candidates \<noteq> []"
  shows "selectPreferredResource ke visit candidates \<in> set candidates"
proof (cases "first_some (preferred_in_group ke) (visit (group_candidates candidates))")
  case (Some c)
  then obtain g cs where "(g, cs) \<in> set (group_candidates candidates)" "preferred_in_group ke (g, cs) = Some c"
    using first_some_in [OF Some] assms(1) by (auto simp: visits_def)
  with group_candidates_members preferred_in_group_member Some show ?thesis by (fastforce simp: selectPreferredResource_def)
qed (use assms in \<open>simp add: selectPreferredResource_def\<close>)

definition fits_spec :: "'f ka_env \<Rightarrow> string \<Rightarrow> string \<Rightarrow> string \<Rightarrow> resourceInfo \<Rightarrow> bool" where
  "fits_spec ke n version gr info \<longleftrightarrow>
     (\<exists>als l r gv. ke_resources ke = Some als \<and> l \<in> set als \<and> r \<in> set (al_Resources l) \<and> ke_parse_gv ke (al_GroupVersion l) = Some gv
        \<and> matchesResource r n \<and> (gr \<noteq> [] \<longrightarrow> fst gv = gr) \<and> (version \<noteq> [] \<longrightarrow> snd gv = version)
        \<and> info = resource_info gv (al_GroupVersion l) r)"

lemma list_candidates_iff:
  "info \<in> set (list_candidates ke n version gr l) \<longleftrightarrow>
     (\<exists>r gv. r \<in> set (al_Resources l) \<and> ke_parse_gv ke (al_GroupVersion l) = Some gv
        \<and> matchesResource r n \<and> (gr \<noteq> [] \<longrightarrow> fst gv = gr) \<and> (version \<noteq> [] \<longrightarrow> snd gv = version)
        \<and> info = resource_info gv (al_GroupVersion l) r)"
  by (cases "ke_parse_gv ke (al_GroupVersion l)") (auto simp: list_candidates_def)

lemma candidates_fit:
  assumes "ke_resources ke = Some als"
  shows "info \<in> set (concat (map (list_candidates ke n version gr) als)) \<longleftrightarrow> fits_spec ke n version gr info"
proof -
  have "info \<in> set (concat (map (list_candidates ke n version gr) als))
      \<longleftrightarrow> (\<exists>l\<in>set als. info \<in> set (list_candidates ke n version gr l))" by simp
  then show ?thesis unfolding fits_spec_def list_candidates_iff assms by (auto simp: Bex_def)
qed

text \<open>C36: for every order in which the groups are visited, a specification resolves exactly when the
  cluster serves a resource that fits it, and then to one that does: its name, short name or singular
  is the one given, in the group and the version given.\<close>

theorem resource_spec_resolved:
  assumes "visits visit" "ke_resources ke = Some als" "parse_spec spec = (n, version, gr)" "n \<noteq> []"
  shows "(case ResolveResourceSpec ke visit spec of
     Inr info \<Rightarrow> fits_spec ke n version gr info
   | Inl e \<Rightarrow> e = ResourceUnknown n \<and> (\<forall>info. \<not> fits_spec ke n version gr info))"
proof -
  define cs where "cs = concat (map (list_candidates ke n version gr) als)"
  have fit: "info \<in> set cs \<longleftrightarrow> fits_spec ke n version gr info" for info
    unfolding cs_def by (rule candidates_fit [OF assms(2)])
  have eq: "ResolveResourceSpec ke visit spec =
      (case cs of [] \<Rightarrow> Inl (ResourceUnknown n) | [c] \<Rightarrow> Inr c | _ \<Rightarrow> Inr (selectPreferredResource ke visit cs))"
    by (cases cs rule: remdups_adj.cases) (simp_all add: ResolveResourceSpec_def findResourceInfo_def assms flip: cs_def del: concat_eq_Nil_conv)
  have sel: "selectPreferredResource ke visit cs \<in> set cs" if "cs \<noteq> []"
    using that by (rule selected_is_candidate [OF assms(1)])
  show ?thesis
    using eq fit sel by (cases cs rule: remdups_adj.cases) (auto simp: fit [symmetric])
qed

text \<open>
  A cluster to try it on: \<open>events\<close> is served by the core group and by \<open>events.k8s.io\<close>.
\<close>

definition sample_ka_env :: "unit ka_env" where
  "sample_ka_env =
     \<lparr>ke_cli =
        \<lparr>cl_marshal = (\<lambda>_. ()), cl_unmarshal = (\<lambda>_. Some []), cl_readable = True, cl_writable = True, cl_server = ''https://k8s:6443'',
         cl_bearer = ''tok'', cl_home = None, cl_file = (\<lambda>_. None), cl_client = (\<lambda>_. True), cl_do = (\<lambda>_ _. Some (200, [])),
         cl_ip6 = (\<lambda>_. False), cl_namespaces = None, cl_url_map = (\<lambda>_. None), cl_service = (\<lambda>_. None), cl_routes = (\<lambda>_. None),
         cl_sa_token = (\<lambda>_ _. None), cl_namespace = ''default''\<rparr>,
      ke_vars = [], ke_host_flag = Some ''https://ka:8081'', ke_insecure_flag = None, ke_cert_flag = None, ke_token_flag = [],
      ke_namespace_flag = [], ke_namespace = Some ''default'',
      ke_rest = Some \<lparr>rc_Host = ''https://k8s:6443'', rc_Insecure = False, rc_BearerToken = ''tok'', rc_CAData = None\<rparr>,
      ke_discovery_ok = True,
      ke_resources = Some
        [\<lparr>al_GroupVersion = ''v1'',
          al_Resources = [\<lparr>ar_Name = ''pods'', ar_SingularName = ''pod'', ar_ShortNames = [''po''], ar_Kind = ''Pod'', ar_Namespaced = True\<rparr>,
                          \<lparr>ar_Name = ''events'', ar_SingularName = ''event'', ar_ShortNames = [''ev''], ar_Kind = ''Event'', ar_Namespaced = True\<rparr>]\<rparr>,
         \<lparr>al_GroupVersion = ''events.k8s.io/v1'',
          al_Resources = [\<lparr>ar_Name = ''events'', ar_SingularName = ''event'', ar_ShortNames = [''ev''], ar_Kind = ''Event'', ar_Namespaced = True\<rparr>]\<rparr>],
      ke_groups = Some [\<lparr>ag_Name = ''events.k8s.io'', ag_Versions = [''v1''], ag_Preferred = ''v1''\<rparr>],
      ke_parse_gv = (\<lambda>s. case cut_at (CHR ''/'') s of (a, b, found) \<Rightarrow> Some (if found then (a, b) else ([], a))),
      ke_http = (\<lambda>_ _. None), ke_status_message = (\<lambda>_. None)\<rparr>"

lemma visits_id: "visits (\<lambda>m. m)" and visits_rev: "visits rev"
  by (simp_all add: visits_def)

theorem resource_spec_resolved_witness:
  "(case ResolveResourceSpec sample_ka_env (\<lambda>m. m) ''po'' of
      Inr info \<Rightarrow> fits_spec sample_ka_env ''po'' [] [] info
    | Inl e \<Rightarrow> e = ResourceUnknown ''po'' \<and> (\<forall>info. \<not> fits_spec sample_ka_env ''po'' [] [] info))"
proof -
  have "ke_resources sample_ka_env = Some (the (ke_resources sample_ka_env))" by (simp add: sample_ka_env_def)
  moreover have "parse_spec ''po'' = (''po'', [], [])" by code_simp
  ultimately show ?thesis using resource_spec_resolved [OF visits_id] by blast
qed

text \<open>The same command may ask for either of two resources: it depends on the order of a Go map.\<close>

lemma resolution_depends_on_order:
  "\<exists>visit visit'. visits visit \<and> visits visit'
     \<and> map_sum id ri_Group (ResolveResourceSpec sample_ka_env visit ''events'') = Inr []
     \<and> map_sum id ri_Group (ResolveResourceSpec sample_ka_env visit' ''events'') = Inr ''events.k8s.io''"
proof (intro exI conjI)
  show "map_sum id ri_Group (ResolveResourceSpec sample_ka_env (\<lambda>m. m) ''events'') = Inr []" by code_simp
  show "map_sum id ri_Group (ResolveResourceSpec sample_ka_env rev ''events'') = Inr ''events.k8s.io''" by code_simp
qed (rule visits_id visits_rev)+

end
