(* ===== verification/Cli_Merge.thy ===== *)
theory Cli_Merge
  imports Kube_Types "HOL-Library.Product_Lexorder"
begin

text \<open>
  The merged listing of \<^verbatim>\<open>kubectl ka get\<close>, \<^verbatim>\<open>insertSortedResourcesOptimized\<close> of \<^verbatim>\<open>pkg/cmd/get.go\<close>: the
  resources of the cluster and of the archive go into one slice, the newest first, one entry for a
  resource that both have, cut at the limit.

  Resources are ordered by their creation time and then by name. \<open>listing\<close> says what the slice is
  after some resources of either side: the greatest of their keys, where each is marked with the
  sides that have it, and for each side whether one of its resources is left out. Each step of the
  loop keeps it, and it determines the slice.
\<close>

section \<open>Definitions\<close>

record resourceWithAvailability =
  av_Resource :: unstructured
  av_InCluster :: bool
  av_Archived :: bool

definition strings_Compare :: "string \<Rightarrow> string \<Rightarrow> int" where
  "strings_Compare a b = (if a = b then 0 else if a < b then -1 else 1)"

definition cmpResource :: "resourceWithAvailability \<Rightarrow> unstructured \<Rightarrow> int" where
  "cmpResource existing target =
     (let existingTime = u_creationTimestamp (av_Resource existing); targetTime = u_creationTimestamp target
      in if existingTime < targetTime then 1
         else if targetTime < existingTime then -1
         else if u_uid target = u_uid (av_Resource existing) then 0
         else strings_Compare (u_name target) (u_name (av_Resource existing)))"

type_synonym listing_state = "resourceWithAvailability list \<times> bool \<times> bool"

definition mark_available :: "bool \<Rightarrow> resourceWithAvailability \<Rightarrow> resourceWithAvailability" where
  "mark_available fromK8s r = (if fromK8s then r\<lparr>av_InCluster := True\<rparr> else r\<lparr>av_Archived := True\<rparr>)"

text \<open>One turn of the loop. A full slice keeps its length, and what is shifted out of it is lost.\<close>

definition insert_resource :: "nat \<Rightarrow> bool \<Rightarrow> listing_state \<Rightarrow> unstructured \<Rightarrow> listing_state" where
  "insert_resource c fromK8s s resource =
     (case s of (result, k8sTrimmed, k9eTrimmed) \<Rightarrow>
        (case binarySearchFunc (\<lambda>e. cmpResource e resource) result of (idx, found) \<Rightarrow>
           if found then (result[idx := mark_available fromK8s (result ! idx)], k8sTrimmed, k9eTrimmed)
           else
             let new = \<lparr>av_Resource = resource, av_InCluster = fromK8s, av_Archived = \<not> fromK8s\<rparr>
             in if idx < c then
                  if length result = c
                  then (take c (ins_at idx new result), k8sTrimmed \<or> av_InCluster (last result), k9eTrimmed \<or> av_Archived (last result))
                  else (ins_at idx new result, k8sTrimmed, k9eTrimmed)
                else (result, k8sTrimmed \<or> fromK8s, k9eTrimmed \<or> \<not> fromK8s)))"

text \<open>\<open>None\<close> stands for the panic of \<^verbatim>\<open>make\<close> when the length exceeds the capacity.\<close>

definition insertSortedResourcesOptimized ::
    "int \<Rightarrow> resourceWithAvailability list \<Rightarrow> unstructured list \<Rightarrow> bool \<Rightarrow> listing_state option" where
  "insertSortedResourcesOptimized limit init resources fromK8s =
     (let c = min (int (length resources + length init)) limit
      in if c < int (length init) then None
         else Some (foldl (insert_resource (nat c) fromK8s) (init, False, False) resources))"

section \<open>The order of the listing\<close>

type_synonym listing_key = "int \<times> string"

definition key_of :: "unstructured \<Rightarrow> listing_key" where
  "key_of u = (u_creationTimestamp u, u_name u)"

abbreviation akey :: "resourceWithAvailability \<Rightarrow> listing_key" where
  "akey r \<equiv> key_of (av_Resource r)"

definition available :: "bool \<Rightarrow> resourceWithAvailability \<Rightarrow> bool" where
  "available side r = (if side then av_InCluster r else av_Archived r)"

text \<open>A UID belongs to one resource, so at one time it comes with one name.\<close>

definition uid_names :: "unstructured set \<Rightarrow> bool" where
  "uid_names us \<longleftrightarrow>
     (\<forall>x\<in>us. \<forall>y\<in>us. u_uid x = u_uid y \<longrightarrow> u_creationTimestamp x = u_creationTimestamp y \<longrightarrow> u_name x = u_name y)"

lemma cmpResource_key:
  assumes "uid_names us" "av_Resource e \<in> us" "t \<in> us"
  shows "cmpResource e t < 0 \<longleftrightarrow> key_of t < akey e"
    and "cmpResource e t = 0 \<longleftrightarrow> key_of t = akey e"
proof -
  have "u_name t = u_name (av_Resource e)"
    if "u_uid t = u_uid (av_Resource e)" "u_creationTimestamp t = u_creationTimestamp (av_Resource e)"
    using assms that unfolding uid_names_def by metis
  then show "cmpResource e t < 0 \<longleftrightarrow> key_of t < akey e" "cmpResource e t = 0 \<longleftrightarrow> key_of t = akey e"
    unfolding cmpResource_def key_of_def strings_Compare_def Let_def by (auto simp: not_less_iff_gr_or_eq)
qed

lemma available_mark [simp]:
  "available side (mark_available fromK8s r) \<longleftrightarrow> available side r \<or> side = fromK8s"
  by (auto simp: available_def mark_available_def)

lemma resource_mark [simp]: "av_Resource (mark_available fromK8s r) = av_Resource r"
  by (simp add: mark_available_def)

lemma available_new [simp]:
  "available side \<lparr>av_Resource = u, av_InCluster = fromK8s, av_Archived = \<not> fromK8s\<rparr> \<longleftrightarrow> side = fromK8s"
  by (auto simp: available_def)

section \<open>What a listing shows\<close>

text \<open>\<open>has side\<close> are the keys of a side, \<open>left side\<close> tells whether one of them is left out.\<close>

definition listing ::
    "nat \<Rightarrow> unstructured set \<Rightarrow> (bool \<Rightarrow> listing_key set) \<Rightarrow> resourceWithAvailability list \<Rightarrow> (bool \<Rightarrow> bool) \<Rightarrow> bool" where
  "listing n us has result left \<longleftrightarrow>
     sorted_wrt (>) (map akey result) \<and> length result \<le> n \<and> av_Resource ` set result \<subseteq> us
     \<and> akey ` set result \<subseteq> has True \<union> has False
     \<and> (\<forall>k\<in>has True \<union> has False - akey ` set result. length result = n \<and> (\<forall>r\<in>set result. k < akey r))
     \<and> (\<forall>side. \<forall>r\<in>set result. available side r \<longleftrightarrow> akey r \<in> has side)
     \<and> (\<forall>side. left side \<longleftrightarrow> \<not> has side \<subseteq> akey ` set result)"

definition flags :: "bool \<Rightarrow> bool \<Rightarrow> bool \<Rightarrow> bool" where
  "flags k8sTrimmed k9eTrimmed side = (if side then k8sTrimmed else k9eTrimmed)"

lemma flags_or:
  "(\<lambda>s. flags a b s \<or> available s z) = flags (a \<or> av_InCluster z) (b \<or> av_Archived z)"
  "(\<lambda>s. flags a b s \<or> s = side) = flags (a \<or> side) (b \<or> \<not> side)"
  by (auto simp: flags_def available_def fun_eq_iff)

text \<open>The search splits the slice at the key it looks for.\<close>

lemma search_splits:
  assumes "uid_names us" "av_Resource ` set result \<subseteq> us" "x \<in> us" "sorted_wrt (>) (map akey result)"
  obtains P Q where "result = P @ Q" "\<forall>p\<in>set P. key_of x < akey p" "\<forall>q\<in>set Q. akey q \<le> key_of x"
    "binarySearchFunc (\<lambda>e. cmpResource e x) result = (length P, Q \<noteq> [] \<and> akey (hd Q) = key_of x)"
proof -
  let ?b = "\<lambda>e. key_of x < akey e"
  define P Q where "P = takeWhile ?b result" and "Q = dropWhile ?b result"
  have PQ: "result = P @ Q" by (simp add: P_def Q_def)
  have srt: "sorted_wrt (\<lambda>a b. akey b < akey a) result" using assms(4) by (simp add: sorted_wrt_map)
  have in_us: "av_Resource e \<in> us" if "e \<in> set result" for e using assms(2) that by blast
  have lt: "cmpResource e x < 0 \<longleftrightarrow> ?b e" and eq: "cmpResource e x = 0 \<longleftrightarrow> akey e = key_of x" if "e \<in> set result" for e
    using cmpResource_key [OF assms(1) in_us [OF that] assms(3)] by auto
  have "sorted_wrt (\<lambda>a b. cmpResource b x < 0 \<longrightarrow> cmpResource a x < 0) result"
    using srt lt by (auto intro: sorted_wrt_mono_rel [rotated])
  then have "bsearch (\<lambda>e. cmpResource e x < 0) result = length (takeWhile (\<lambda>e. cmpResource e x < 0) result)"
    by (rule bsearch_takeWhile)
  also have "takeWhile (\<lambda>e. cmpResource e x < 0) result = P" unfolding P_def by (rule takeWhile_cong) (simp_all add: lt)
  finally have pos: "bsearch (\<lambda>e. cmpResource e x < 0) result = length P" .
  have hd: "\<not> ?b (hd Q)" if "Q \<noteq> []" using that unfolding Q_def by (rule hd_dropWhile)
  have "binarySearchFunc (\<lambda>e. cmpResource e x) result = (length P, Q \<noteq> [] \<and> akey (hd Q) = key_of x)"
    unfolding binarySearchFunc_def Let_def pos
    by (cases Q) (use eq [of "hd Q"] in \<open>simp_all add: PQ nth_append\<close>)
  moreover have "akey q \<le> key_of x" if "q \<in> set Q" for q
  proof -
    have "sorted_wrt (\<lambda>a b. akey b < akey a) Q" using srt by (simp add: PQ sorted_wrt_append)
    with that have "akey q \<le> akey (hd Q)" by (cases Q) auto
    with hd that show ?thesis by fastforce
  qed
  moreover have "\<forall>p\<in>set P. key_of x < akey p" unfolding P_def by (auto dest: set_takeWhileD)
  ultimately show thesis using that PQ by blast
qed

text \<open>The four things a step can do with a listing.\<close>

lemma listing_mark:
  assumes "listing n us has (P @ q # Q) left" "akey q = k"
  shows "listing n us (has(side := insert k (has side))) (P @ mark_available side q # Q) left"
proof -
  let ?R = "P @ q # Q" and ?R' = "P @ mark_available side q # Q" and ?has = "has(side := insert k (has side))"
  have keys: "map akey ?R' = map akey ?R" and ks: "akey ` set ?R' = akey ` set ?R" and rs: "av_Resource ` set ?R' = av_Resource ` set ?R"
    by simp_all
  have "distinct (map akey ?R)" using assms(1) unfolding listing_def by (metis strict_sorted_iff sorted_wrt_rev distinct_rev rev_map)
  then have other: "akey r \<noteq> k" if "r \<in> set P \<union> set Q" for r using that assms(2) by (force simp: image_iff)
  have old: "\<forall>s. \<forall>r\<in>set ?R. available s r \<longleftrightarrow> akey r \<in> has s" "akey ` set ?R \<subseteq> has True \<union> has False"
    "\<forall>s. left s \<longleftrightarrow> \<not> has s \<subseteq> akey ` set ?R"
    using assms(1) unfolding listing_def by simp_all
  have q: "k \<in> akey ` set ?R" using assms(2) by auto
  have union: "?has True \<union> ?has False = has True \<union> has False" using q old(2) by (cases side) auto
  have av: "available s r \<longleftrightarrow> akey r \<in> ?has s" if "r \<in> set ?R'" for s r
  proof (cases "r = mark_available side q")
    case True
    then show ?thesis using assms(2) old(1) by auto
  next
    case False
    with that have "r \<in> set P \<union> set Q" by auto
    with other [of r] old(1) show ?thesis by auto
  qed
  have lft: "left s \<longleftrightarrow> \<not> ?has s \<subseteq> akey ` set ?R" for s using old(3) q by auto
  have low: "(\<forall>r\<in>set ?R'. k' < akey r) \<longleftrightarrow> (\<forall>r\<in>set ?R. k' < akey r)" for k' by simp
  have len: "length ?R' = length ?R" by simp
  have rest: "sorted_wrt (>) (map akey ?R)" "length ?R \<le> n" "av_Resource ` set ?R \<subseteq> us"
    "\<forall>k\<in>has True \<union> has False - akey ` set ?R. length ?R = n \<and> (\<forall>r\<in>set ?R. k < akey r)"
    using assms(1) unfolding listing_def by simp_all
  have all_av: "\<forall>s. \<forall>r\<in>set ?R'. available s r \<longleftrightarrow> akey r \<in> ?has s" using av by blast
  have all_left: "\<forall>s. left s \<longleftrightarrow> \<not> ?has s \<subseteq> akey ` set ?R" using lft by blast
  show ?thesis unfolding listing_def keys ks rs union len low
    by (intro conjI) (rule rest old(2) all_av all_left)+
qed

lemma listing_insert:
  assumes "listing n us has (P @ Q) left" "length (P @ Q) < n" "x \<in> us"
    and "\<forall>p\<in>set P. key_of x < akey p" "\<forall>q\<in>set Q. akey q < key_of x"
    and "new = \<lparr>av_Resource = x, av_InCluster = side, av_Archived = \<not> side\<rparr>"
  shows "listing n us (has(side := insert (key_of x) (has side))) (P @ new # Q) left"
proof -
  let ?has = "has(side := insert (key_of x) (has side))"
  have new: "av_Resource new = x" "available side' new \<longleftrightarrow> side' = side" for side' using assms(6) by auto
  have all: "has True \<union> has False \<subseteq> akey ` set (P @ Q)" using assms(1,2) unfolding listing_def by blast
  have absent: "key_of x \<notin> akey ` set (P @ Q)" using assms(4,5) by auto
  have old: "akey ` set (P @ Q) \<subseteq> has True \<union> has False" "sorted_wrt (>) (map akey (P @ Q))"
    "\<forall>s. \<forall>r\<in>set (P @ Q). available s r \<longleftrightarrow> akey r \<in> has s" "\<forall>s. left s \<longleftrightarrow> \<not> has s \<subseteq> akey ` set (P @ Q)"
    "av_Resource ` set (P @ Q) \<subseteq> us"
    using assms(1) unfolding listing_def by simp_all
  have none: "\<not> left s" for s using old(4) all by (cases s) auto
  have keys: "akey ` set (P @ new # Q) = insert (key_of x) (akey ` set (P @ Q))" by (auto simp: new)
  have "sorted_wrt (>) (map akey (P @ new # Q))" using old(2) assms(4,5) by (auto simp: sorted_wrt_append new)
  moreover have "?has True \<union> ?has False = insert (key_of x) (has True \<union> has False)" by (cases side) auto
  moreover have "available s r \<longleftrightarrow> akey r \<in> ?has s" if "r \<in> set (P @ new # Q)" for s r
  proof (cases "r = new")
    case True
    have "key_of x \<notin> has s" using absent all by (cases s) auto
    with True show ?thesis by (auto simp: new)
  next
    case False
    with that have r: "r \<in> set (P @ Q)" by simp
    then have "akey r \<noteq> key_of x" using absent by (metis image_eqI)
    with old(3) r show ?thesis by auto
  qed
  moreover have "?has s \<subseteq> akey ` set (P @ new # Q)" for s using all unfolding keys by (cases s; cases side) auto
  ultimately show ?thesis
    using old(1,5) all none assms(2,3) unfolding listing_def keys by (auto simp: new)
qed

lemma listing_skip:
  assumes "listing n us has P left" "length P = n" "\<forall>p\<in>set P. key_of x < akey p"
  shows "listing n us (has(side := insert (key_of x) (has side))) P (\<lambda>s. left s \<or> s = side)"
proof -
  have "key_of x \<notin> akey ` set P" using assms(3) by auto
  then show ?thesis using assms unfolding listing_def by (cases side) (auto simp: less_imp_neq)
qed

lemma listing_shift:
  assumes "listing n us has (P @ Q @ [z]) left" "length (P @ Q @ [z]) = n" "x \<in> us"
    and "\<forall>p\<in>set P. key_of x < akey p" "\<forall>q\<in>set (Q @ [z]). akey q < key_of x"
    and "new = \<lparr>av_Resource = x, av_InCluster = side, av_Archived = \<not> side\<rparr>"
  shows "listing n us (has(side := insert (key_of x) (has side))) (P @ new # Q) (\<lambda>s. left s \<or> available s z)"
proof -
  let ?has = "has(side := insert (key_of x) (has side))" and ?K = "akey ` set (P @ Q)"
  have new: "av_Resource new = x" "available side' new \<longleftrightarrow> side' = side" for side' using assms(6) by auto
  have old: "akey ` set (P @ Q @ [z]) \<subseteq> has True \<union> has False" "sorted_wrt (>) (map akey (P @ Q @ [z]))"
    "\<forall>s. \<forall>r\<in>set (P @ Q @ [z]). available s r \<longleftrightarrow> akey r \<in> has s" "\<forall>s. left s \<longleftrightarrow> \<not> has s \<subseteq> akey ` set (P @ Q @ [z])"
    "\<forall>k\<in>has True \<union> has False - akey ` set (P @ Q @ [z]). \<forall>r\<in>set (P @ Q @ [z]). k < akey r" "av_Resource ` set (P @ Q @ [z]) \<subseteq> us"
    using assms(1) unfolding listing_def by simp_all
  have z: "akey z < key_of x" using assms(5) by simp
  have above: "\<forall>r\<in>set (P @ Q). akey z < akey r" using old(2) by (auto simp: sorted_wrt_append)
  have zx: "akey z \<notin> insert (key_of x) ?K" using above z by fastforce
  have keys: "akey ` set (P @ new # Q) = insert (key_of x) ?K" by (auto simp: new)
  have keys0: "akey ` set (P @ Q @ [z]) = insert (akey z) ?K" by auto
  have below: "k < akey z" if "k \<in> has True \<union> has False" "k \<noteq> akey z" "k \<notin> ?K" for k using old(5) that by auto
  have has: "k \<in> ?has s \<longleftrightarrow> k \<in> has s \<or> k = key_of x \<and> s = side" for k s by auto
  have union: "?has True \<union> ?has False = insert (key_of x) (has True \<union> has False)" by (cases side) auto
  have fresh: "key_of x \<notin> has s" if "s = True \<or> s = False" for s
    using below [of "key_of x"] z assms(4,5) by (cases s) fastforce+
  have srt: "sorted_wrt (>) (map akey (P @ new # Q))" using old(2) assms(4,5) by (auto simp: sorted_wrt_append new)
  have "k < akey r" if "k \<in> ?has True \<union> ?has False - insert (key_of x) ?K" "r \<in> set (P @ new # Q)" for k r
  proof -
    have "k = akey z \<or> k < akey z" using below [of k] that(1) unfolding union by auto
    moreover have "akey z < akey r" using above z that(2) by (auto simp: new)
    ultimately show ?thesis by (metis less_trans)
  qed
  moreover have "available s r \<longleftrightarrow> akey r \<in> ?has s" if "r \<in> set (P @ new # Q)" for s r
    using that old(3) fresh [of s] assms(4,5) unfolding has by (auto simp: new less_imp_neq)
  moreover have "left s \<or> available s z \<longleftrightarrow> \<not> ?has s \<subseteq> insert (key_of x) ?K" for s
  proof -
    have "available s z \<longleftrightarrow> akey z \<in> has s" using old(3) by simp
    moreover have "left s \<longleftrightarrow> \<not> has s \<subseteq> insert (akey z) ?K" using old(4) keys0 by simp
    ultimately show ?thesis using zx fresh [of s] by (auto simp: has)
  qed
  ultimately show ?thesis
    using srt old(1,6) assms(2,3) unfolding listing_def keys union by (auto simp: new)
qed

section \<open>The loop\<close>

abbreviation add_key :: "(bool \<Rightarrow> listing_key set) \<Rightarrow> bool \<Rightarrow> unstructured \<Rightarrow> bool \<Rightarrow> listing_key set" where
  "add_key has side x \<equiv> has(side := insert (key_of x) (has side))"

lemma insert_resource_listing:
  assumes us: "uid_names us" "x \<in> us"
    and l: "listing n us has result (flags a b)"
    and room: "length result \<le> c" "c \<le> n" "c < n \<longrightarrow> length result < c"
    and step: "insert_resource c side (result, a, b) x = (result', a', b')"
  shows "listing n us (add_key has side x) result' (flags a' b') \<and> length result' \<le> min c (Suc (length result))"
proof -
  let ?new = "\<lparr>av_Resource = x, av_InCluster = side, av_Archived = \<not> side\<rparr>"
  from l have "av_Resource ` set result \<subseteq> us" "sorted_wrt (>) (map akey result)" unfolding listing_def by blast+
  from search_splits [OF us(1) this(1) us(2) this(2)] obtain P Q
    where PQ: "result = P @ Q" and P: "\<forall>p\<in>set P. key_of x < akey p" and Q: "\<forall>q\<in>set Q. akey q \<le> key_of x"
      and search: "binarySearchFunc (\<lambda>e. cmpResource e x) result = (length P, Q \<noteq> [] \<and> akey (hd Q) = key_of x)" .
  note step = step [unfolded insert_resource_def prod.case search Let_def]
  show ?thesis
  proof (cases "Q \<noteq> [] \<and> akey (hd Q) = key_of x")
    case True
    then obtain q Q' where q: "Q = q # Q'" "akey q = key_of x" by (cases Q) auto
    from step True have "result' = P @ mark_available side q # Q'" "a' = a" "b' = b" by (simp_all add: PQ q nth_append list_update_append)
    then show ?thesis using listing_mark [of n us has P q Q'] l room(1) by (simp add: PQ q)
  next
    case False
    have low: "\<forall>q\<in>set Q. akey q < key_of x"
      using Q False l unfolding listing_def PQ by (cases Q) (auto simp: sorted_wrt_append dest: less_le_trans order.not_eq_order_implies_strict)
    show ?thesis
    proof (cases "length P < c")
      case True
      show ?thesis
      proof (cases "length result = c")
        case full: True
        then have cn: "c = n" using room by (metis le_neq_implies_less less_irrefl)
        from full have "Q \<noteq> []" using True by (auto simp: PQ)
        then obtain Q' z where z: "Q = Q' @ [z]" by (metis rev_exhaust)
        from step False True full have "result' = P @ ?new # Q'" "a' = (a \<or> av_InCluster z)" "b' = (b \<or> av_Archived z)"
          by (auto simp: PQ z ins_at_def)
        moreover have "listing n us (add_key has side x) (P @ ?new # Q') (\<lambda>s. flags a b s \<or> available s z)"
          by (rule listing_shift [OF _ _ us(2) P _ refl]) (use l full cn low in \<open>auto simp: PQ z\<close>)
        ultimately show ?thesis using full room by (simp add: flags_or PQ z)
      next
        case room': False
        from step False True room' have "result' = P @ ?new # Q" "a' = a" "b' = b" by (auto simp: PQ ins_at_def)
        moreover have "listing n us (add_key has side x) (P @ ?new # Q) (flags a b)"
          by (rule listing_insert [OF _ _ us(2) P low refl]) (use l room room' in \<open>auto simp: PQ\<close>)
        ultimately show ?thesis using room(1) room' by (simp add: PQ)
      qed
    next
      case out: False
      have cn: "c = n" using room(2,3) out by (auto simp: PQ)
      have "length P + length Q \<le> c" using room(1) by (simp add: PQ)
      with out have "length Q = 0" and full: "length P = n" unfolding cn by linarith+
      then have Qe: "Q = []" by simp
      from step False out have "result' = P" "a' = (a \<or> side)" "b' = (b \<or> \<not> side)" by (auto simp: PQ Qe)
      then show ?thesis using listing_skip [OF l [unfolded PQ Qe append_Nil2] full P, of side] room(1) by (simp add: flags_or PQ Qe)
    qed
  qed
qed

text \<open>The loop starts with room for all that is to come, or with the limit itself.\<close>

lemma insert_resources_listing:
  assumes "uid_names us" "set xs \<subseteq> us" "listing n us has result (flags a b)"
    and "length result \<le> c" "c \<le> n" "c < n \<longrightarrow> length result + length xs \<le> c"
    and "foldl (insert_resource c side) (result, a, b) xs = (result', a', b')"
  shows "listing n us (has(side := key_of ` set xs \<union> has side)) result' (flags a' b')"
  using assms(2-)
proof (induction xs arbitrary: has result a b)
  case Nil
  then show ?case by simp
next
  case (Cons x xs)
  obtain r1 a1 b1 where s: "insert_resource c side (result, a, b) x = (r1, a1, b1)" by (metis prod_cases3)
  have "listing n us (add_key has side x) r1 (flags a1 b1) \<and> length r1 \<le> min c (Suc (length result))"
    by (rule insert_resource_listing [OF assms(1) _ Cons.prems(2-4) _ s]) (use Cons.prems in auto)
  then have "listing n us ((add_key has side x)(side := key_of ` set xs \<union> add_key has side x side)) result' (flags a' b')"
    using Cons.IH [of "add_key has side x" r1 a1 b1] Cons.prems s by fastforce
  moreover have "(add_key has side x)(side := key_of ` set xs \<union> add_key has side x side)
      = has(side := key_of ` set (x # xs) \<union> has side)" by auto
  ultimately show ?case by (simp only:)
qed

section \<open>The merged listing\<close>

text \<open>The greatest \<open>n\<close> keys, in descending order.\<close>

definition top_keys :: "nat \<Rightarrow> listing_key set \<Rightarrow> listing_key list" where
  "top_keys n ks = take n (rev (sorted_list_of_set ks))"

lemma top_keys_unique:
  assumes "finite ks" "sorted_wrt (>) xs" "length xs \<le> n" "set xs \<subseteq> ks"
    and "\<forall>k\<in>ks - set xs. length xs = n \<and> (\<forall>x\<in>set xs. k < x)"
  shows "xs = top_keys n ks"
proof -
  let ?rest = "sorted_list_of_set (ks - set xs)"
  have fin: "finite (ks - set xs)" using assms(1) by simp
  have "sorted_wrt (<) (rev xs)" using assms(2) by (simp add: sorted_wrt_rev)
  then have "sorted_wrt (<) (?rest @ rev xs)"
    using assms(5) fin by (auto simp: sorted_wrt_append)
  moreover have "set (?rest @ rev xs) = ks" using assms(4) fin by auto
  ultimately have "sorted_list_of_set ks = ?rest @ rev xs"
    using assms(1) by (metis strict_sorted_equal strict_sorted_list_of_set set_sorted_list_of_set)
  then have eq: "top_keys n ks = take n (xs @ rev ?rest)" by (simp add: top_keys_def)
  show ?thesis
  proof (cases "ks - set xs = {}")
    case True
    then show ?thesis using eq assms(3) by (simp only: True) simp
  next
    case False
    then show ?thesis using eq assms(5) by auto
  qed
qed

lemma listing_top_keys:
  assumes "listing n us has result left" "finite (has True)" "finite (has False)"
  shows "map akey result = top_keys n (has True \<union> has False)"
  by (rule top_keys_unique) (use assms in \<open>auto simp: listing_def\<close>)

lemma listing_empty: "listing n us (\<lambda>_. {}) [] (flags False False)"
  by (simp add: listing_def flags_def)

text \<open>What an earlier insertion left out stays out.\<close>

definition add_flags :: "bool \<Rightarrow> bool \<Rightarrow> listing_state \<Rightarrow> listing_state" where
  "add_flags a b s = (fst s, a \<or> fst (snd s), b \<or> snd (snd s))"

lemma insert_resource_flags: "insert_resource c side (add_flags a b s) x = add_flags a b (insert_resource c side s x)"
  by (cases s) (auto simp: insert_resource_def add_flags_def Let_def split: prod.splits)

lemma insert_resources_flags:
  "foldl (insert_resource c side) (add_flags a b s) xs = add_flags a b (foldl (insert_resource c side) s xs)"
  by (induction xs arbitrary: s) (simp_all add: insert_resource_flags)

lemma inserted_listing:
  assumes "uid_names us" "set xs \<subseteq> us" "listing (nat limit) us has result (flags a0 b0)" "limit \<ge> 0"
  obtains result' a b where "insertSortedResourcesOptimized limit result xs side = Some (result', a, b)"
    "listing (nat limit) us (has(side := key_of ` set xs \<union> has side)) result' (flags (a0 \<or> a) (b0 \<or> b))"
proof -
  let ?c = "min (int (length xs + length result)) limit"
  have len: "length result \<le> nat limit" using assms(3) unfolding listing_def by blast
  obtain result' a b where f: "foldl (insert_resource (nat ?c) side) (result, False, False) xs = (result', a, b)"
    by (metis prod_cases3)
  have f0: "foldl (insert_resource (nat ?c) side) (result, a0, b0) xs = (result', a0 \<or> a, b0 \<or> b)"
    using insert_resources_flags [of "nat ?c" side a0 b0 "(result, False, False)" xs] f by (simp add: add_flags_def)
  have "listing (nat limit) us (has(side := key_of ` set xs \<union> has side)) result' (flags (a0 \<or> a) (b0 \<or> b))"
    by (rule insert_resources_listing [OF assms(1-3) _ _ _ f0]) (use len assms(4) in auto)
  moreover have "insertSortedResourcesOptimized limit result xs side = Some (result', a, b)"
    using len assms(4) f by (auto simp: insertSortedResourcesOptimized_def Let_def)
  ultimately show thesis by (rule that [rotated])
qed

end
