(* ===== verification/Cli_Get.thy ===== *)
theory Cli_Get
  imports Cli_Retriever Cli_Merge Go_Encoding
begin

text \<open>
  The commands \<^verbatim>\<open>kubectl ka get\<close> and \<^verbatim>\<open>kubectl ka logs\<close> (\<^verbatim>\<open>pkg/cmd/get.go\<close> and \<^verbatim>\<open>logs.go\<close>).

  The environment adds the JSON library, the printers and the clock. The next command that a cut
  listing suggests is a record of its options, with its \<^verbatim>\<open>--before\<close> as an instant in nanoseconds. A
  message that ends in the error of a library ends before it here.
\<close>

section \<open>Data\<close>

record getOptions =
  g_AllNamespaces :: bool
  g_APIPath :: string
  g_ResourceInfo :: "resourceInfo option"
  g_Name :: string
  g_LabelSelector :: string
  g_OutputFormat :: string
  g_InCluster :: bool
  g_Archived :: bool
  g_Limit :: int
  g_After :: rfc_time
  g_Before :: rfc_time
  g_params :: url_values

text \<open>\<open>ge_metadata\<close> is the metadata of a response: \<open>None\<close> within it for what is not a string.\<close>

record 'f get_env =
  ge_ka :: "'f ka_env"
  ge_resource :: "string \<Rightarrow> unstructured option"
  ge_list :: "string \<Rightarrow> unstructured list option"
  ge_metadata :: "string \<Rightarrow> (string, string option) gomap option"
  ge_now :: int
  ge_printer :: "string \<Rightarrow> bool"
  ge_print :: "string \<Rightarrow> unstructured list \<Rightarrow> bool"
  ge_age :: "int \<Rightarrow> string"

datatype get_error =
    Completing cli_error
  | Resolving resolve_error
  | NoNamespace
  | ApiFailed apiError
  | Failed string
  | NotPrinted
  | Panic

record nextCommand =
  nc_Resource :: string
  nc_Namespace :: "string option"
  nc_AllNamespaces :: bool
  nc_Selector :: "string option"
  nc_Limit :: int
  nc_Before :: int
  nc_After :: "string option"
  nc_Side :: "ka_api option"
  nc_Output :: "string option"

datatype printed = Printed string "unstructured list" | Table "string list list"

record get_output =
  out_Rows :: "resourceWithAvailability list"
  out_Printed :: printed
  out_Next :: "nextCommand option"

section \<open>Options and paths\<close>

definition zero_time :: rfc_time where
  "zero_time = \<lparr>t_year = 1, t_month = 1, t_day = 1, t_hour = 0, t_minute = 0, t_second = 0, t_nanos = 0, t_offset = 0\<rparr>"

definition IsZero :: "rfc_time \<Rightarrow> bool" where
  "IsZero t \<longleftrightarrow> instant t = instant zero_time"

definition cannot_parse :: "string \<Rightarrow> bool" where
  "cannot_parse p \<longleftrightarrow>
     CHR '';'' \<in> set p
     \<or> (case cut_at (CHR ''='') p of (k, v, _) \<Rightarrow> QueryUnescape k = None \<or> QueryUnescape v = None)"

text \<open>\<^verbatim>\<open>url.ParseQuery\<close>, with its error.\<close>

definition ParseQuery :: "string \<Rightarrow> url_values option" where
  "ParseQuery q = (if list_ex cannot_parse (split_on (CHR ''&'') q) then None else Some (parseQuery q))"

definition set_value :: "url_values \<Rightarrow> string \<Rightarrow> string \<Rightarrow> url_values" where
  "set_value m k v = gomap_set m k [v]"

definition buildKubeArchiveQueryParams :: "'f get_env \<Rightarrow> getOptions \<Rightarrow> url_values" where
  "buildKubeArchiveQueryParams ge opts =
     (let params = (case cut_at (CHR ''?'') (g_APIPath opts) of
                      (_, q, found) \<Rightarrow> if found then (case ParseQuery q of None \<Rightarrow> [] | Some m \<Rightarrow> m) else []);
          params = set_value params ''limit'' (show_int (g_Limit opts));
          params = (if IsZero (g_After opts) then params else set_value params ''creationTimestampAfter'' (rfc_format (g_After opts)))
      in if instant (g_Before opts) < ge_now ge
         then set_value params ''creationTimestampBefore'' (rfc_format (g_Before opts)) else params)"

text \<open>The checks of \<^verbatim>\<open>Complete\<close>; \<open>changed\<close> tells which flags the user gives.\<close>

definition check_options :: "(string \<Rightarrow> bool) \<Rightarrow> string list \<Rightarrow> getOptions \<Rightarrow> get_error + getOptions" where
  "check_options changed args opts =
     (let opts = (if length args \<ge> 2 then opts\<lparr>g_Name := args ! 1\<rparr> else opts)
      in if g_Name opts \<noteq> [] \<and> g_LabelSelector opts \<noteq> []
         then Inl (Failed ''cannot specify both a resource name and a label selector'')
         else if \<not> g_InCluster opts \<and> \<not> g_Archived opts
         then Inl (Failed ''at least one of --in-cluster or --archived must be true'')
         else
           let opts = (if changed ''archived'' \<and> g_Archived opts then opts\<lparr>g_InCluster := False\<rparr> else opts);
               opts = (if changed ''in-cluster'' \<and> g_InCluster opts then opts\<lparr>g_Archived := False\<rparr> else opts)
           in if g_Limit opts < 1 \<or> g_Limit opts > 1000 then Inl (Failed ''limit must be between 1 and 1000'')
              else if instant (g_Before opts) \<le> instant (g_After opts) then Inl (Failed ''--before must be after --after'')
              else Inr opts)"

definition build_path :: "'f get_env \<Rightarrow> resourceInfo \<Rightarrow> getOptions \<Rightarrow> string option" where
  "build_path ge info opts =
     (case (if ri_Namespaced info \<and> \<not> g_AllNamespaces opts
            then map_option (\<lambda>ns. ri_GroupVersion info @ ''/namespaces/'' @ ns @ ''/'' @ ri_Resource info) (GetNamespace (ge_ka ge))
            else Some (ri_GroupVersion info @ ''/'' @ ri_Resource info)) of
        None \<Rightarrow> None
      | Some p \<Rightarrow>
          let p = (if g_Name opts \<noteq> [] then p @ ''/'' @ g_Name opts else p);
              p = (if ri_Group info = [] then ''/api/'' @ p else ''/apis/'' @ p)
          in Some (if g_LabelSelector opts \<noteq> [] then p @ ''?labelSelector='' @ QueryEscape (g_LabelSelector opts) else p))"

definition get_Complete ::
    "'f get_env \<Rightarrow> visit_order \<Rightarrow> string option list \<Rightarrow> 'f option \<Rightarrow> (string \<Rightarrow> bool) \<Rightarrow> string list \<Rightarrow> getOptions
       \<Rightarrow> (get_error + rest_config \<times> getOptions) \<times> 'f option" where
  "get_Complete ge visit answers conf changed args opts =
     (case CompleteRetriever (ge_ka ge) answers conf of
        (Inl e, conf) \<Rightarrow> (Inl (Completing e), conf)
      | (Inr k9e, conf) \<Rightarrow>
          ((case check_options changed args opts of
              Inl e \<Rightarrow> Inl e
            | Inr opts \<Rightarrow>
                (case ResolveResourceSpec (ge_ka ge) visit (args ! 0) of
                   Inl e \<Rightarrow> Inl (Resolving e)
                 | Inr info \<Rightarrow>
                     let opts = opts\<lparr>g_ResourceInfo := Some info\<rparr>
                     in case build_path ge info opts of
                          None \<Rightarrow> Inl NoNamespace
                        | Some path \<Rightarrow>
                            let opts = opts\<lparr>g_APIPath := path\<rparr>
                            in Inr (k9e, opts\<lparr>g_params := buildKubeArchiveQueryParams ge opts\<rparr>))), conf))"

section \<open>Answers\<close>

definition getContinueToken :: "'f get_env \<Rightarrow> string \<Rightarrow> string" where
  "getContinueToken ge body =
     (case ge_metadata ge body of
        None \<Rightarrow> []
      | Some m \<Rightarrow> (case gomap_get m ''continue'' of Some (Some t) \<Rightarrow> t | _ \<Rightarrow> []))"

definition parseResourcesFromBytes :: "'f get_env \<Rightarrow> getOptions \<Rightarrow> string \<Rightarrow> string + unstructured list" where
  "parseResourcesFromBytes ge opts body =
     (if g_Name opts \<noteq> [] then
        (case ge_resource ge body of
           None \<Rightarrow> Inl ''error deserializing the body into unstructured.Unstructured: ''
         | Some u \<Rightarrow> Inr [u])
      else case ge_list ge body of
             None \<Rightarrow> Inl ''error deserializing the body into unstructured.UnstructuredList: ''
           | Some us \<Rightarrow> Inr us)"

definition parse_failure :: "string \<Rightarrow> string \<Rightarrow> string \<Rightarrow> string \<Rightarrow> get_error" where
  "parse_failure url lead msg body =
     ApiFailed \<lparr>ae_StatusCode = 200, ae_URL = url, ae_Message = lead @ msg, ae_Body = body\<rparr>"

text \<open>The rows, whether some were cut, and whether nothing was found.\<close>

definition cluster_resources :: "'f get_env \<Rightarrow> rest_config \<Rightarrow> getOptions \<Rightarrow> get_error + resourceWithAvailability list \<times> bool \<times> bool" where
  "cluster_resources ge k9e opts =
     (if \<not> g_InCluster opts then Inr ([], False, True)
      else case GetFromAPI (ge_ka ge) k9e Kubernetes (g_APIPath opts) of
             Inl e \<Rightarrow> if ae_StatusCode e \<noteq> 404 then Inl (ApiFailed e) else Inr ([], False, True)
           | Inr body \<Rightarrow>
               (case parseResourcesFromBytes ge opts body of
                  Inl msg \<Rightarrow> Inl (parse_failure ''Kubernetes API'' ''error parsing resources from the cluster: '' msg body)
                | Inr resources \<Rightarrow>
                    (case insertSortedResourcesOptimized (g_Limit opts) [] resources True of
                       None \<Rightarrow> Inl Panic
                     | Some (rows, k8sTrimmed, _) \<Rightarrow> Inr (rows, k8sTrimmed, False))))"

definition archive_path :: "getOptions \<Rightarrow> string" where
  "archive_path opts =
     (let basePath = fst (cut_at (CHR ''?'') (g_APIPath opts)); q = values_Encode (g_params opts)
      in if q \<noteq> [] then basePath @ ''?'' @ q else basePath)"

definition authentication_error :: "apiError \<Rightarrow> bool" where
  "authentication_error e \<longleftrightarrow>
     ae_StatusCode e = 401 \<or> contains_text ''empty authorization bearer token given'' (ae_Message e)
     \<or> contains_text ''authentication failed'' (ae_Message e)"

record merged =
  mg_rows :: "resourceWithAvailability list"
  mg_k8sTrimmed :: bool
  mg_k9eTrimmed :: bool
  mg_token :: string
  mg_notFound :: bool

definition merge_archive ::
    "'f get_env \<Rightarrow> rest_config \<Rightarrow> getOptions \<Rightarrow> resourceWithAvailability list \<Rightarrow> get_error + merged" where
  "merge_archive ge k9e opts rows =
     (let kept = \<lparr>mg_rows = rows, mg_k8sTrimmed = False, mg_k9eTrimmed = False, mg_token = [], mg_notFound = True\<rparr>
      in if \<not> g_Archived opts then Inr kept
         else case GetFromAPI (ge_ka ge) k9e KubeArchive (archive_path opts) of
                Inl e \<Rightarrow>
                  if authentication_error e then Inl (Failed (''KubeArchive authentication required: '' @ ae_Message e))
                  else if rows \<noteq> [] then Inr kept
                  else if ae_StatusCode e \<noteq> 404 then Inl (ApiFailed e)
                  else Inr kept
              | Inr body \<Rightarrow>
                  (case parseResourcesFromBytes ge opts body of
                     Inl msg \<Rightarrow>
                       if rows \<noteq> [] then Inr kept
                       else Inl (parse_failure ''KubeArchive API'' ''error parsing resources from KubeArchive: '' msg body)
                   | Inr resources \<Rightarrow>
                       (case insertSortedResourcesOptimized (g_Limit opts) rows resources False of
                          None \<Rightarrow> Inl Panic
                        | Some (rows, k8sTrimmed, k9eTrimmed) \<Rightarrow>
                            Inr \<lparr>mg_rows = rows, mg_k8sTrimmed = k8sTrimmed, mg_k9eTrimmed = k9eTrimmed,
                                 mg_token = getContinueToken ge body, mg_notFound = False\<rparr>)))"

section \<open>Output\<close>

definition yes_no :: "bool \<Rightarrow> string" where
  "yes_no b = (if b then ''yes'' else ''no'')"

definition printCustomTable :: "'f get_env \<Rightarrow> resourceWithAvailability list \<Rightarrow> string list list" where
  "printCustomTable ge rows =
     [''NAME'', ''IN-CLUSTER'', ''ARCHIVED'', ''AGE'']
     # map (\<lambda>r. let t = u_creationTimestamp (av_Resource r)
                in [u_name (av_Resource r), yes_no (av_InCluster r), yes_no (av_Archived r),
                    if t = 0 then ''<unknown>'' else ge_age ge (ge_now ge - t)]) rows"

definition printResources :: "'f get_env \<Rightarrow> getOptions \<Rightarrow> resourceWithAvailability list \<Rightarrow> printed option" where
  "printResources ge opts rows =
     (if g_OutputFormat opts = [] then Some (Table (printCustomTable ge rows))
      else if \<not> ge_printer ge (g_OutputFormat opts) then None
      else if \<not> ge_print ge (g_OutputFormat opts) (map av_Resource rows) then None
      else Some (Printed (g_OutputFormat opts) (map av_Resource rows)))"

definition some_text :: "string \<Rightarrow> string option" where
  "some_text s = (if s = [] then None else Some s)"

definition next_command ::
    "'f get_env \<Rightarrow> getOptions \<Rightarrow> resourceInfo \<Rightarrow> int \<Rightarrow> bool \<Rightarrow> bool \<Rightarrow> nextCommand" where
  "next_command ge opts info oldest moreInCluster moreArchived =
     \<lparr>nc_Resource = (if ri_Group info = [] then ri_Resource info
                     else ri_Resource info @ ''.'' @ ri_Version info @ ''.'' @ ri_Group info),
      nc_Namespace = (if ri_Namespaced info \<and> \<not> g_AllNamespaces opts
                      then Some (case GetNamespace (ge_ka ge) of None \<Rightarrow> [] | Some ns \<Rightarrow> ns) else None),
      nc_AllNamespaces = g_AllNamespaces opts, nc_Selector = some_text (g_LabelSelector opts), nc_Limit = g_Limit opts,
      nc_Before = oldest - 1, nc_After = (if IsZero (g_After opts) then None else Some (rfc_format (g_After opts))),
      nc_Side = (if moreArchived \<and> \<not> moreInCluster then Some KubeArchive
                 else if moreInCluster \<and> \<not> moreArchived then Some Kubernetes else None),
      nc_Output = some_text (g_OutputFormat opts)\<rparr>"

definition printPaginationMessage ::
    "'f get_env \<Rightarrow> getOptions \<Rightarrow> resourceWithAvailability list \<Rightarrow> bool \<Rightarrow> bool \<Rightarrow> get_error + nextCommand option" where
  "printPaginationMessage ge opts rows moreInCluster moreArchived =
     (if \<not> moreInCluster \<and> \<not> moreArchived then Inr None
      else case g_ResourceInfo opts of
             None \<Rightarrow> Inl (Failed ''error generating command for getting the next page: no resource info'')
           | Some info \<Rightarrow>
               let oldest = u_creationTimestamp (av_Resource (last rows))
               in if oldest = 0 then Inr None else Inr (Some (next_command ge opts info oldest moreInCluster moreArchived)))"

definition where_missing :: "string \<Rightarrow> getOptions \<Rightarrow> get_error option" where
  "where_missing what opts =
     (if g_InCluster opts \<and> g_Archived opts then Some (Failed (what @ '' in Kubernetes or KubeArchive''))
      else if g_InCluster opts then Some (Failed (what @ '' in Kubernetes cluster''))
      else if g_Archived opts then Some (Failed (what @ '' in KubeArchive''))
      else None)"

definition missing_name :: "getOptions \<Rightarrow> get_error option" where
  "missing_name opts = (if g_Name opts \<noteq> [] then where_missing ''resource not found'' opts else None)"

definition or_else :: "'a option \<Rightarrow> 'a option \<Rightarrow> 'a option" where
  "or_else x y = (case x of None \<Rightarrow> y | Some v \<Rightarrow> Some v)"

definition nothing_shown :: "'f get_env \<Rightarrow> getOptions \<Rightarrow> get_error" where
  "nothing_shown ge opts =
     (case missing_name opts of
        Some e \<Rightarrow> e
      | None \<Rightarrow>
          if g_AllNamespaces opts then Failed ''no resources found''
          else case GetNamespace (ge_ka ge) of
                 None \<Rightarrow> NoNamespace
               | Some ns \<Rightarrow> Failed (''no resources found in '' @ ns @ '' namespace''))"

definition get_Run :: "'f get_env \<Rightarrow> rest_config \<Rightarrow> getOptions \<Rightarrow> get_error + get_output" where
  "get_Run ge k9e opts =
     (case cluster_resources ge k9e opts of
        Inl e \<Rightarrow> Inl e
      | Inr (rows, k8sTrimmed, k8sNotFound) \<Rightarrow>
          (case merge_archive ge k9e opts rows of
             Inl e \<Rightarrow> Inl e
           | Inr m \<Rightarrow>
               (case (if k8sNotFound \<and> mg_notFound m then or_else (missing_name opts) (where_missing ''no resources found'' opts) else None) of
                  Some e \<Rightarrow> Inl e
                | None \<Rightarrow>
                    if mg_rows m = [] then Inl (nothing_shown ge opts)
                    else case printResources ge opts (mg_rows m) of
                           None \<Rightarrow> Inl NotPrinted
                         | Some p \<Rightarrow>
                             (case printPaginationMessage ge opts (mg_rows m) (k8sTrimmed \<or> mg_k8sTrimmed m)
                                     (mg_token m \<noteq> [] \<or> mg_k9eTrimmed m) of
                                Inl e \<Rightarrow> Inl e
                              | Inr c \<Rightarrow> Inr \<lparr>out_Rows = mg_rows m, out_Printed = p, out_Next = c\<rparr>))))"

definition get_command ::
    "'f get_env \<Rightarrow> visit_order \<Rightarrow> string option list \<Rightarrow> 'f option \<Rightarrow> (string \<Rightarrow> bool) \<Rightarrow> string list \<Rightarrow> getOptions
       \<Rightarrow> (get_error + get_output) \<times> 'f option" where
  "get_command ge visit answers conf changed args opts =
     (if length args < 1 \<or> length args > 2 then (Inl (Failed ''wrong number of arguments''), conf)
      else case get_Complete ge visit answers conf changed args opts of
             (Inl e, conf) \<Rightarrow> (Inl e, conf)
           | (Inr (k9e, opts), conf) \<Rightarrow> (get_Run ge k9e opts, conf))"

section \<open>Logs\<close>

record logsOptions =
  l_ContainerName :: string
  l_Name :: string
  l_ResourceInfo :: "resourceInfo option"
  l_LabelSelector :: string

text \<open>\<^verbatim>\<open>strings.SplitN(arg, "/", 2)\<close> gives one or two parts, so the \<^verbatim>\<open>default\<close> case cannot occur.\<close>

definition split_target :: "string \<Rightarrow> logsOptions \<Rightarrow> string \<times> logsOptions" where
  "split_target arg opts =
     (case cut_at (CHR ''/'') arg of
        (a, b, True) \<Rightarrow> (a, opts\<lparr>l_Name := b\<rparr>)
      | (a, _, False) \<Rightarrow> if l_LabelSelector opts \<noteq> [] then (a, opts) else (''pods'', opts\<lparr>l_Name := a\<rparr>))"

definition logs_Complete ::
    "'f get_env \<Rightarrow> visit_order \<Rightarrow> string option list \<Rightarrow> 'f option \<Rightarrow> string \<Rightarrow> logsOptions
       \<Rightarrow> (get_error + rest_config \<times> logsOptions) \<times> 'f option" where
  "logs_Complete ge visit answers conf arg opts =
     (case CompleteRetriever (ge_ka ge) answers conf of
        (Inl e, conf) \<Rightarrow> (Inl (Completing e), conf)
      | (Inr k9e, conf) \<Rightarrow>
          (case split_target arg opts of (spec, opts) \<Rightarrow>
             (if l_Name opts \<noteq> [] \<and> l_LabelSelector opts \<noteq> []
              then Inl (Failed ''cannot specify both a resource name and a label selector'')
              else case ResolveResourceSpec (ge_ka ge) visit spec of
                     Inl e \<Rightarrow> Inl (Resolving e)
                   | Inr info \<Rightarrow> Inr (k9e, opts\<lparr>l_ResourceInfo := Some info\<rparr>), conf)))"

definition api_base :: "resourceInfo \<Rightarrow> string \<Rightarrow> string" where
  "api_base info ns =
     (if ri_Group info = [] then ''/api'' else ''/apis'') @ ''/'' @ ri_GroupVersion info @ ''/namespaces/'' @ ns @ ''/'' @ ri_Resource info"

definition log_names :: "'f get_env \<Rightarrow> rest_config \<Rightarrow> logsOptions \<Rightarrow> resourceInfo \<Rightarrow> string \<Rightarrow> get_error + string list" where
  "log_names ge k9e opts info ns =
     (if l_LabelSelector opts = [] then Inr [l_Name opts]
      else case GetFromAPI (ge_ka ge) k9e KubeArchive (api_base info ns @ ''?labelSelector='' @ QueryEscape (l_LabelSelector opts)) of
             Inl e \<Rightarrow> Inl (ApiFailed e)
           | Inr body \<Rightarrow>
               (case ge_list ge body of
                  None \<Rightarrow> Inl (parse_failure ''KubeArchive API'' ''error deserializing the body into unstructured.UnstructuredList: '' [] body)
                | Some us \<Rightarrow>
                    if us = [] then Inl (Failed (''no resources found in '' @ ns @ '' namespace'')) else Inr (map u_name us)))"

definition log_path :: "resourceInfo \<Rightarrow> string \<Rightarrow> logsOptions \<Rightarrow> string \<Rightarrow> string" where
  "log_path info ns opts name =
     (let p = api_base info ns @ ''/'' @ name @ ''/log''
      in if l_ContainerName opts \<noteq> [] then p @ ''?container='' @ l_ContainerName opts else p)"

text \<open>What is printed, and the error that ends the loop.\<close>

fun print_logs :: "'f get_env \<Rightarrow> rest_config \<Rightarrow> resourceInfo \<Rightarrow> string \<Rightarrow> logsOptions \<Rightarrow> string list \<Rightarrow> string \<times> get_error option" where
  "print_logs ge k9e info ns opts [] = ([], None)"
| "print_logs ge k9e info ns opts (name # names) =
     (case GetFromAPI (ge_ka ge) k9e KubeArchive (log_path info ns opts name) of
        Inl e \<Rightarrow> ([], Some (ApiFailed e))
      | Inr text \<Rightarrow> (case print_logs ge k9e info ns opts names of (out, e) \<Rightarrow> (text @ [CHR 0x0A] @ out, e)))"

definition logs_Run :: "'f get_env \<Rightarrow> rest_config \<Rightarrow> logsOptions \<Rightarrow> string \<times> get_error option" where
  "logs_Run ge k9e opts =
     (case l_ResourceInfo opts of
        None \<Rightarrow> ([], Some Panic)
      | Some info \<Rightarrow>
          (case GetNamespace (ge_ka ge) of
             None \<Rightarrow> ([], Some NoNamespace)
           | Some ns \<Rightarrow>
               (case log_names ge k9e opts info ns of
                  Inl e \<Rightarrow> ([], Some e)
                | Inr names \<Rightarrow> print_logs ge k9e info ns opts names)))"

end
