(* ===== verification/Cli_Listing.thy ===== *)
theory Cli_Listing
  imports Cli_Get
begin

text \<open>
  What \<^verbatim>\<open>kubectl ka get\<close> shows: the newest resources of the cluster and the archive together, what it
  does when the archive fails, and the query it sends. The last section holds what the options for
  pages and times do not do.
\<close>

section \<open>The rows of a listing\<close>

lemma cluster_listing:
  assumes "g_InCluster opts" "GetFromAPI (ge_ka ge) k9e Kubernetes (g_APIPath opts) = Inr body"
    and "parseResourcesFromBytes ge opts body = Inr A" "0 \<le> g_Limit opts" "uid_names us" "set A \<subseteq> us"
  obtains rows a where "cluster_resources ge k9e opts = Inr (rows, a, False)"
    "listing (nat (g_Limit opts)) us ((\<lambda>_. {})(True := key_of ` set A)) rows (flags a False)"
proof -
  obtain rows a b where ins: "insertSortedResourcesOptimized (g_Limit opts) [] A True = Some (rows, a, b)"
    and l: "listing (nat (g_Limit opts)) us ((\<lambda>_. {})(True := key_of ` set A)) rows (flags a b)"
    using inserted_listing [OF assms(5,6) listing_empty assms(4), where side = True] by auto
  have "flags a b side \<longleftrightarrow> \<not> ((\<lambda>_. {})(True := key_of ` set A)) side \<subseteq> akey ` set rows" for side
    using l unfolding listing_def by blast
  from this [of False] have "\<not> b" by (simp add: flags_def)
  with l ins assms(1-3) show thesis by (intro that [of rows a]) (simp_all add: cluster_resources_def)
qed

lemma listing_nonempty:
  assumes "listing n us has rows left" "0 < n" "k \<in> has side"
  shows "rows \<noteq> []"
  using assms unfolding listing_def by (cases side) auto

lemma pagination_message:
  assumes "g_ResourceInfo opts = Some info" "u_creationTimestamp (av_Resource (last rows)) \<noteq> 0"
  shows "\<exists>c. printPaginationMessage ge opts rows m1 m2 = Inr c \<and> (c \<noteq> None \<longleftrightarrow> m1 \<or> m2)"
  using assms by (auto simp: printPaginationMessage_def Let_def)

text \<open>C4: with both sources a listing shows the newest resources of the cluster and the archive
  together, as many as the limit allows, one row for each time and name, newest first. A row is
  marked with the sources that have it, and a next command is suggested exactly when a resource of
  either source is not shown or the archive has a further page.\<close>

theorem get_shows_newest:
  fixes ge :: "'f get_env"
  assumes "g_InCluster opts" "g_Archived opts" "1 \<le> g_Limit opts" "g_OutputFormat opts = []" "g_ResourceInfo opts = Some info"
    and "GetFromAPI (ge_ka ge) k9e Kubernetes (g_APIPath opts) = Inr body" "parseResourcesFromBytes ge opts body = Inr A"
    and "GetFromAPI (ge_ka ge) k9e KubeArchive (archive_path opts) = Inr body'" "parseResourcesFromBytes ge opts body' = Inr B"
    and "uid_names (set A \<union> set B)" "A @ B \<noteq> []" "\<forall>u\<in>set A \<union> set B. u_creationTimestamp u \<noteq> 0"
  shows "\<exists>rows printed c. get_Run ge k9e opts = Inr \<lparr>out_Rows = rows, out_Printed = printed, out_Next = c\<rparr>
     \<and> map akey rows = top_keys (nat (g_Limit opts)) (key_of ` (set A \<union> set B))
     \<and> (\<forall>r\<in>set rows. (av_InCluster r \<longleftrightarrow> akey r \<in> key_of ` set A) \<and> (av_Archived r \<longleftrightarrow> akey r \<in> key_of ` set B))
     \<and> (c \<noteq> None \<longleftrightarrow> \<not> key_of ` (set A \<union> set B) \<subseteq> akey ` set rows \<or> getContinueToken ge body' \<noteq> [])"
proof -
  let ?us = "set A \<union> set B" and ?n = "nat (g_Limit opts)"
  let ?has = "\<lambda>side. if side then key_of ` set A else key_of ` set B"
  have lim: "0 \<le> g_Limit opts" using assms(3) by simp
  obtain rows1 a where r1: "cluster_resources ge k9e opts = Inr (rows1, a, False)"
    and l1: "listing ?n ?us ((\<lambda>_. {})(True := key_of ` set A)) rows1 (flags a False)"
    using cluster_listing [OF assms(1,6,7) lim assms(10)] by auto
  have "set B \<subseteq> ?us" by simp
  from inserted_listing [OF assms(10) this l1 lim, of False] obtain rows a' b
    where ins: "insertSortedResourcesOptimized (g_Limit opts) rows1 B False = Some (rows, a', b)"
      and "listing ?n ?us ((\<lambda>_. {})(True := key_of ` set A, False := key_of ` set B \<union> {})) rows (flags (a \<or> a') (False \<or> b))"
    by auto
  moreover have "(\<lambda>_. {})(True := key_of ` set A, False := key_of ` set B \<union> {}) = ?has" by (simp add: fun_eq_iff)
  ultimately have l: "listing ?n ?us ?has rows (flags (a \<or> a') b)" by simp
  let ?m = "\<lparr>mg_rows = rows, mg_k8sTrimmed = a', mg_k9eTrimmed = b, mg_token = getContinueToken ge body', mg_notFound = False\<rparr>"
  have m: "merge_archive ge k9e opts rows1 = Inr ?m" using assms ins by (simp add: merge_archive_def Let_def)
  have ne: "rows \<noteq> []"
  proof -
    obtain u where "u \<in> set (A @ B)" using assms(11) by (cases "A @ B") auto
    then have "key_of u \<in> ?has (u \<in> set A)" by auto
    then show ?thesis by (rule listing_nonempty [OF l, rotated]) (use assms(3) in simp)
  qed
  then have "av_Resource (last rows) \<in> ?us" using l unfolding listing_def by (meson image_subset_iff last_in_set)
  then have "u_creationTimestamp (av_Resource (last rows)) \<noteq> 0" using assms(12) by blast
  from pagination_message [OF assms(5) this, of ge "a \<or> a'" "getContinueToken ge body' \<noteq> [] \<or> b"] obtain c
    where c: "printPaginationMessage ge opts rows (a \<or> a') (getContinueToken ge body' \<noteq> [] \<or> b) = Inr c"
      and cN: "c \<noteq> None \<longleftrightarrow> (a \<or> a') \<or> getContinueToken ge body' \<noteq> [] \<or> b" by blast
  have "flags (a \<or> a') b side \<longleftrightarrow> \<not> ?has side \<subseteq> akey ` set rows" for side using l unfolding listing_def by blast
  from this [of True] this [of False] have
    "(a \<or> a') \<or> b \<longleftrightarrow> \<not> key_of ` ?us \<subseteq> akey ` set rows" by (simp add: flags_def image_Un)
  moreover have "get_Run ge k9e opts =
      Inr \<lparr>out_Rows = rows, out_Printed = Table (printCustomTable ge rows), out_Next = c\<rparr>"
    using ne assms(4) c by (simp add: get_Run_def r1 m printResources_def)
  moreover have "map akey rows = top_keys ?n (key_of ` ?us)" using listing_top_keys [OF l] by (simp add: image_Un)
  moreover have "(av_InCluster r \<longleftrightarrow> akey r \<in> key_of ` set A) \<and> (av_Archived r \<longleftrightarrow> akey r \<in> key_of ` set B)" if "r \<in> set rows" for r
  proof -
    have "available side r \<longleftrightarrow> akey r \<in> ?has side" for side using l that unfolding listing_def by blast
    from this [of True] this [of False] show ?thesis by (simp add: available_def)
  qed
  ultimately show ?thesis using cN by (intro exI conjI) (assumption, assumption, blast+)
qed

text \<open>C31: when the archive cannot be asked, an error of authentication ends the command; with any
  other error the listing still shows the newest resources of the cluster, marked as not archived,
  and suggests a next command exactly when one of them is left out.\<close>

theorem archive_failure_keeps_cluster:
  fixes ge :: "'f get_env"
  assumes "g_InCluster opts" "g_Archived opts" "1 \<le> g_Limit opts" "g_OutputFormat opts = []" "g_ResourceInfo opts = Some info"
    and "GetFromAPI (ge_ka ge) k9e Kubernetes (g_APIPath opts) = Inr body" "parseResourcesFromBytes ge opts body = Inr A"
    and "GetFromAPI (ge_ka ge) k9e KubeArchive (archive_path opts) = Inl e"
    and "uid_names (set A)" "A \<noteq> []" "\<forall>u\<in>set A. u_creationTimestamp u \<noteq> 0"
  shows "if authentication_error e then get_Run ge k9e opts = Inl (Failed (''KubeArchive authentication required: '' @ ae_Message e))
     else \<exists>rows printed c. get_Run ge k9e opts = Inr \<lparr>out_Rows = rows, out_Printed = printed, out_Next = c\<rparr>
       \<and> map akey rows = top_keys (nat (g_Limit opts)) (key_of ` set A)
       \<and> (\<forall>r\<in>set rows. av_InCluster r \<and> \<not> av_Archived r)
       \<and> (c \<noteq> None \<longleftrightarrow> \<not> key_of ` set A \<subseteq> akey ` set rows)"
proof -
  let ?has = "(\<lambda>_. {})(True := key_of ` set A)"
  have lim: "0 \<le> g_Limit opts" using assms(3) by simp
  obtain rows a where r: "cluster_resources ge k9e opts = Inr (rows, a, False)"
    and l: "listing (nat (g_Limit opts)) (set A) ?has rows (flags a False)"
    using cluster_listing [OF assms(1,6,7) lim assms(9)] by auto
  have ne: "rows \<noteq> []" using listing_nonempty [OF l, of "key_of (hd A)" True] assms(3,10) by simp
  show ?thesis
  proof (cases "authentication_error e")
    case True
    then show ?thesis using assms(2,8) by (simp add: get_Run_def r merge_archive_def Let_def)
  next
    case False
    then have m: "merge_archive ge k9e opts rows =
        Inr \<lparr>mg_rows = rows, mg_k8sTrimmed = False, mg_k9eTrimmed = False, mg_token = [], mg_notFound = True\<rparr>"
      using assms(2,8) ne by (simp add: merge_archive_def Let_def)
    have "av_Resource (last rows) \<in> set A" using l ne unfolding listing_def by (meson image_subset_iff last_in_set)
    then have "u_creationTimestamp (av_Resource (last rows)) \<noteq> 0" using assms(11) by blast
    from pagination_message [OF assms(5) this, of ge a False] obtain c
      where c: "printPaginationMessage ge opts rows a False = Inr c" "c \<noteq> None \<longleftrightarrow> a" by blast
    have "get_Run ge k9e opts = Inr \<lparr>out_Rows = rows, out_Printed = Table (printCustomTable ge rows), out_Next = c\<rparr>"
      using ne assms(4) c by (simp add: get_Run_def r m printResources_def)
    moreover have "a \<longleftrightarrow> \<not> key_of ` set A \<subseteq> akey ` set rows"
    proof -
      have "flags a False side \<longleftrightarrow> \<not> ?has side \<subseteq> akey ` set rows" for side using l unfolding listing_def by blast
      from this [of True] show ?thesis by (simp add: flags_def)
    qed
    moreover have "map akey rows = top_keys (nat (g_Limit opts)) (key_of ` set A)" using listing_top_keys [OF l] by simp
    moreover have "av_InCluster r \<and> \<not> av_Archived r" if "r \<in> set rows" for r
    proof -
      have "available side r \<longleftrightarrow> akey r \<in> ?has side" for side using l that unfolding listing_def by blast
      moreover have "akey r \<in> ?has True \<union> ?has False" using l that unfolding listing_def by blast
      ultimately show ?thesis by (metis Un_iff available_def empty_iff fun_upd_apply)
    qed
    ultimately show ?thesis using False c(2) by auto
  qed
qed

section \<open>The query of the archive\<close>

lemma ParseQuery_pair:
  assumes "QueryEscape k = k"
  shows "ParseQuery (k @ CHR ''='' # QueryEscape v) = Some [(k, [v])]"
proof -
  have pair: "k @ CHR ''='' # QueryEscape v = encode_pair (k, v)" using assms by (simp add: encode_pair_def)
  have single: "split_on (CHR ''&'') (encode_pair (k, v)) = [encode_pair (k, v)]"
    by (rule split_on_none) (simp add: encode_pair_def)
  have "\<not> cannot_parse (encode_pair (k, v))"
    by (simp add: cannot_parse_def encode_pair_def cut_at_split unescape_escape)
  moreover have "parseQuery (encode_pair (k, v)) = [(k, [v])]"
    by (simp add: parseQuery_def single parse_encode_pair add_value_def gomap_get0_def)
  ultimately show ?thesis by (simp add: ParseQuery_def pair single)
qed

lemma set_value_get [simp]: "gomap_get0 [] (set_value m k v) k' = (if k' = k then [v] else gomap_get0 [] m k')"
  by (simp add: set_value_def)

lemma set_value_ok [simp]: "gomap_ok m \<Longrightarrow> gomap_ok (set_value m k v)"
  by (simp add: set_value_def)

lemma values_Encode_nonempty: "gomap_get0 [] m k \<noteq> [] \<Longrightarrow> gomap_ok m \<Longrightarrow> values_Encode m \<noteq> []"
proof
  assume "gomap_get0 [] m k \<noteq> []" "gomap_ok m" "values_Encode m = []"
  then have "gomap_get0 [] (parseQuery []) k \<noteq> []" by (metis values_Encode_get)
  then show False by (simp add: parseQuery_def parse_pair_def gomap_get0_def split_on_none)
qed

text \<open>C32: the request to the archive is for the path of the resources, and the server reads back from
  its query the limit, the label selector and the times that the user gives.\<close>

theorem archive_query_read_back:
  fixes ge :: "'f get_env"
  assumes "build_path ge info (opts\<lparr>g_LabelSelector := []\<rparr>) = Some base" "CHR ''?'' \<notin> set base"
    and "build_path ge info opts = Some path" "opts' = opts\<lparr>g_APIPath := path\<rparr>"
  shows "\<exists>query. cut_at (CHR ''?'') (archive_path (opts'\<lparr>g_params := buildKubeArchiveQueryParams ge opts'\<rparr>)) = (base, query, True)
     \<and> gomap_get0 [] (parseQuery query) ''limit'' = [show_int (g_Limit opts)]
     \<and> gomap_get0 [] (parseQuery query) ''labelSelector'' = (if g_LabelSelector opts = [] then [] else [g_LabelSelector opts])
     \<and> gomap_get0 [] (parseQuery query) ''creationTimestampAfter'' = (if IsZero (g_After opts) then [] else [rfc_format (g_After opts)])
     \<and> gomap_get0 [] (parseQuery query) ''creationTimestampBefore'' =
         (if instant (g_Before opts) < ge_now ge then [rfc_format (g_Before opts)] else [])"
proof -
  let ?sel = "g_LabelSelector opts"
  have esc: "QueryEscape ''labelSelector'' = ''labelSelector''" by code_simp
  have path: "path = (if ?sel = [] then base else base @ CHR ''?'' # ''labelSelector'' @ CHR ''='' # QueryEscape ?sel)"
    using assms(1,3) by (auto simp: build_path_def Let_def split: option.splits if_splits)
  define m0 where "m0 = (if ?sel = [] then [] else [(''labelSelector'', [?sel])])"
  define m where "m = buildKubeArchiveQueryParams ge opts'"
  have cut: "cut_at (CHR ''?'') path = (base, if ?sel = [] then [] else ''labelSelector'' @ CHR ''='' # QueryEscape ?sel, ?sel \<noteq> [])"
    using assms(2) cut_at_split [OF assms(2)] by (simp add: path cut_at_def)
  have m: "m = (let params = set_value m0 ''limit'' (show_int (g_Limit opts));
          params = (if IsZero (g_After opts) then params else set_value params ''creationTimestampAfter'' (rfc_format (g_After opts)))
      in if instant (g_Before opts) < ge_now ge
         then set_value params ''creationTimestampBefore'' (rfc_format (g_Before opts)) else params)"
    using ParseQuery_pair [OF esc, of ?sel]
    by (simp add: m_def m0_def buildKubeArchiveQueryParams_def assms(4) cut Let_def)
  have m0: "gomap_get0 [] m0 k = (if k = ''labelSelector'' \<and> ?sel \<noteq> [] then [?sel] else [])" for k
    by (simp add: m0_def gomap_get0_def)
  have ok: "gomap_ok m" by (simp add: m m0_def Let_def)
  have lim: "gomap_get0 [] m ''limit'' = [show_int (g_Limit opts)]" by (simp add: m Let_def)
  then have ne: "values_Encode m \<noteq> []" using values_Encode_nonempty [OF _ ok, of "''limit''"] by simp
  have "archive_path (opts'\<lparr>g_params := m\<rparr>) = base @ CHR ''?'' # values_Encode m"
    using ne by (simp add: archive_path_def assms(4) cut Let_def)
  then have "cut_at (CHR ''?'') (archive_path (opts'\<lparr>g_params := m\<rparr>)) = (base, values_Encode m, True)"
    using cut_at_split [OF assms(2)] by simp
  moreover have "gomap_get0 [] m ''labelSelector'' = (if ?sel = [] then [] else [?sel])"
    by (simp add: m m0 Let_def)
  moreover have "gomap_get0 [] m ''creationTimestampAfter'' = (if IsZero (g_After opts) then [] else [rfc_format (g_After opts)])"
    "gomap_get0 [] m ''creationTimestampBefore'' = (if instant (g_Before opts) < ge_now ge then [rfc_format (g_Before opts)] else [])"
    by (simp_all add: m m0 Let_def)
  ultimately show ?thesis using lim values_Encode_get [OF ok] unfolding m_def by auto
qed

section \<open>A cluster and an archive\<close>

definition sample_object :: "string \<Rightarrow> string \<Rightarrow> int \<Rightarrow> unstructured" where
  "sample_object n uid t =
     \<lparr>u_apiVersion = Some ''v1'', u_kind = Some ''Pod'', u_name = n, u_namespace = ''default'', u_uid = uid, u_resourceVersion = ''1'',
      u_creationTimestamp = t, u_deletionTimestamp = None, u_managedFields = [], u_ownerReferences = [], u_labels = [], u_strings = []\<rparr>"

definition sample_k9e :: rest_config where
  "sample_k9e = \<lparr>rc_Host = ''https://ka:8081'', rc_Insecure = False, rc_BearerToken = ''tok'', rc_CAData = None\<rparr>"

text \<open>The bodies stand for the lists: two pods of the cluster, and three of the archive, one of them in both.\<close>

definition sample_get_env :: "int \<Rightarrow> unit get_env" where
  "sample_get_env status =
     \<lparr>ge_ka = sample_ka_env\<lparr>ke_http := \<lambda>conf _. if conf = sample_k9e then Some (status, Some ''archive'') else Some (200, Some ''cluster'')\<rparr>,
      ge_resource = (\<lambda>_. None),
      ge_list = (\<lambda>body. if body = ''cluster'' then Some [sample_object ''b'' ''2'' 20, sample_object ''d'' ''4'' 40]
                        else if body = ''archive'' then Some [sample_object ''c'' ''3'' 30, sample_object ''b'' ''2'' 20, sample_object ''a'' ''1'' 10]
                        else None),
      ge_metadata = (\<lambda>_. Some []), ge_now = 50, ge_printer = (\<lambda>_. True), ge_print = (\<lambda>_ _. True), ge_age = show_int\<rparr>"

definition pods_info :: resourceInfo where
  "pods_info = \<lparr>ri_Resource = ''pods'', ri_Version = ''v1'', ri_Group = [], ri_GroupVersion = ''v1'', ri_Kind = ''Pod'', ri_Namespaced = True\<rparr>"

definition sample_opts :: getOptions where
  "sample_opts =
     \<lparr>g_AllNamespaces = False, g_APIPath = ''/api/v1/namespaces/default/pods'', g_ResourceInfo = Some pods_info, g_Name = [],
      g_LabelSelector = [], g_OutputFormat = [], g_InCluster = True, g_Archived = True, g_Limit = 3, g_After = zero_time,
      g_Before = zero_time, g_params = [(''limit'', [''3''])]\<rparr>"

lemma sample_answers:
  "GetFromAPI (ge_ka (sample_get_env status)) sample_k9e Kubernetes (g_APIPath sample_opts) = Inr ''cluster''"
  "GetFromAPI (ge_ka (sample_get_env 200)) sample_k9e KubeArchive (archive_path sample_opts) = Inr ''archive''"
  "parseResourcesFromBytes (sample_get_env status) sample_opts ''cluster'' = Inr [sample_object ''b'' ''2'' 20, sample_object ''d'' ''4'' 40]"
  "parseResourcesFromBytes (sample_get_env status) sample_opts ''archive'' =
     Inr [sample_object ''c'' ''3'' 30, sample_object ''b'' ''2'' 20, sample_object ''a'' ''1'' 10]"
  by (simp_all add: GetFromAPI_def apiConfig_def sample_get_env_def sample_ka_env_def sample_k9e_def parseResourcesFromBytes_def sample_opts_def Let_def)

lemma sample_names:
  "uid_names (set [sample_object ''b'' ''2'' 20, sample_object ''d'' ''4'' 40]
     \<union> set [sample_object ''c'' ''3'' 30, sample_object ''b'' ''2'' 20, sample_object ''a'' ''1'' 10])"
  by (simp add: uid_names_def sample_object_def)

theorem get_shows_newest_witness:
  "\<exists>rows printed c. get_Run (sample_get_env 200) sample_k9e sample_opts = Inr \<lparr>out_Rows = rows, out_Printed = printed, out_Next = c\<rparr>
     \<and> map akey rows = [(40, ''d''), (30, ''c''), (20, ''b'')] \<and> c \<noteq> None"
proof -
  let ?A = "[sample_object ''b'' ''2'' 20, sample_object ''d'' ''4'' 40]"
    and ?B = "[sample_object ''c'' ''3'' 30, sample_object ''b'' ''2'' 20, sample_object ''a'' ''1'' 10]"
  have keys: "key_of ` (set ?A \<union> set ?B) = {(20, ''b''), (40, ''d''), (30, ''c''), (10, ''a'')}"
    by (simp add: key_of_def sample_object_def) blast
  have top: "top_keys 3 {(20, ''b''), (40, ''d''), (30, ''c''), (10, ''a'')} = [(40, ''d''), (30, ''c''), (20, ''b'')]"
    by (simp add: top_keys_def)
  obtain rows printed c where run: "get_Run (sample_get_env 200) sample_k9e sample_opts =
        Inr \<lparr>out_Rows = rows, out_Printed = printed, out_Next = c\<rparr>"
      and rows: "map akey rows = top_keys (nat (g_Limit sample_opts)) (key_of ` (set ?A \<union> set ?B))"
      and c: "c \<noteq> None \<longleftrightarrow> \<not> key_of ` (set ?A \<union> set ?B) \<subseteq> akey ` set rows
                \<or> getContinueToken (sample_get_env 200) ''archive'' \<noteq> []"
    using get_shows_newest [OF _ _ _ _ _ sample_answers(1,3,2,4) sample_names, of pods_info]
    by (auto simp: sample_opts_def sample_object_def)
  have m: "map akey rows = [(40, ''d''), (30, ''c''), (20, ''b'')]"
    using rows unfolding keys by (simp only: top sample_opts_def getOptions.simps) (use top in simp)
  then have "akey ` set rows = set [(40, ''d''), (30, ''c''), (20, ''b'')]" by (metis set_map)
  then have "c \<noteq> None" using c unfolding keys by simp
  with run m show ?thesis by (intro exI conjI)
qed

theorem archive_failure_keeps_cluster_witness:
  "(\<exists>msg. get_Run (sample_get_env 401) sample_k9e sample_opts = Inl (Failed msg))
   \<and> (\<exists>rows printed. get_Run (sample_get_env 503) sample_k9e sample_opts = Inr \<lparr>out_Rows = rows, out_Printed = printed, out_Next = None\<rparr>
        \<and> map akey rows = [(40, ''d''), (20, ''b'')])"
proof -
  let ?A = "[sample_object ''b'' ''2'' 20, sample_object ''d'' ''4'' 40]"
  have keys: "key_of ` set ?A = {(20, ''b''), (40, ''d'')}" by (simp add: key_of_def sample_object_def)
  have names: "uid_names (set ?A)" by (simp add: uid_names_def sample_object_def)
  have top: "top_keys 3 {(20, ''b''), (40, ''d'')} = [(40, ''d''), (20, ''b'')]" by (simp add: top_keys_def)
  note th = archive_failure_keeps_cluster [OF _ _ _ _ _ sample_answers(1,3) _ names, of pods_info]
  have "case GetFromAPI (ge_ka (sample_get_env 401)) sample_k9e KubeArchive (archive_path sample_opts) of
      Inl e \<Rightarrow> authentication_error e | Inr _ \<Rightarrow> False" by code_simp
  then obtain e1 where e1: "GetFromAPI (ge_ka (sample_get_env 401)) sample_k9e KubeArchive (archive_path sample_opts) = Inl e1"
    "authentication_error e1" by (auto split: sum.splits)
  have "case GetFromAPI (ge_ka (sample_get_env 503)) sample_k9e KubeArchive (archive_path sample_opts) of
      Inl e \<Rightarrow> \<not> authentication_error e | Inr _ \<Rightarrow> False" by code_simp
  then obtain e2 where e2: "GetFromAPI (ge_ka (sample_get_env 503)) sample_k9e KubeArchive (archive_path sample_opts) = Inl e2"
    "\<not> authentication_error e2" by (auto split: sum.splits)
  have "\<exists>msg. get_Run (sample_get_env 401) sample_k9e sample_opts = Inl (Failed msg)"
    using th [OF _ _ _ _ _ e1(1)] e1(2) by (simp add: sample_opts_def sample_object_def)
  moreover obtain rows printed c where run: "get_Run (sample_get_env 503) sample_k9e sample_opts =
        Inr \<lparr>out_Rows = rows, out_Printed = printed, out_Next = c\<rparr>"
      and rows: "map akey rows = top_keys (nat (g_Limit sample_opts)) (key_of ` set ?A)"
      and c: "c \<noteq> None \<longleftrightarrow> \<not> key_of ` set ?A \<subseteq> akey ` set rows"
    using th [OF _ _ _ _ _ e2(1)] e2(2) by (auto simp: sample_opts_def sample_object_def)
  have m: "map akey rows = [(40, ''d''), (20, ''b'')]"
    using rows unfolding keys by (simp only: top sample_opts_def getOptions.simps) (use top in simp)
  then have "akey ` set rows = set [(40, ''d''), (20, ''b'')]" by (metis set_map)
  then have "c = None" using c unfolding keys by simp
  with run have "get_Run (sample_get_env 503) sample_k9e sample_opts =
      Inr \<lparr>out_Rows = rows, out_Printed = printed, out_Next = None\<rparr>" by (simp only:)
  with m have "\<exists>rows printed. get_Run (sample_get_env 503) sample_k9e sample_opts =
      Inr \<lparr>out_Rows = rows, out_Printed = printed, out_Next = None\<rparr> \<and> map akey rows = [(40, ''d''), (20, ''b'')]"
    by (intro exI conjI)
  ultimately show ?thesis by (intro conjI)
qed

theorem archive_query_read_back_witness:
  "\<exists>query opts. opts = sample_opts\<lparr>g_LabelSelector := ''a=b,c'', g_APIPath := ''/api/v1/namespaces/default/pods?labelSelector=a%3Db%2Cc''\<rparr>
     \<and> cut_at (CHR ''?'') (archive_path (opts\<lparr>g_params := buildKubeArchiveQueryParams (sample_get_env 200) opts\<rparr>))
         = (''/api/v1/namespaces/default/pods'', query, True)
     \<and> gomap_get0 [] (parseQuery query) ''labelSelector'' = [''a=b,c'']"
proof -
  let ?o = "sample_opts\<lparr>g_LabelSelector := ''a=b,c''\<rparr>" and ?base = "''/api/v1/namespaces/default/pods''"
  have "build_path (sample_get_env 200) pods_info (?o\<lparr>g_LabelSelector := []\<rparr>) = Some ?base" by code_simp
  moreover have "build_path (sample_get_env 200) pods_info ?o = Some (?base @ ''?labelSelector=a%3Db%2Cc'')" by code_simp
  ultimately show ?thesis
    using archive_query_read_back [of "sample_get_env 200" pods_info ?o ?base "?base @ ''?labelSelector=a%3Db%2Cc''", OF _ _ _ refl]
    by (auto simp: sample_opts_def)
qed

section \<open>Pages and times\<close>

text \<open>The times do not reach the resources of the cluster, so the next page of a listing of the cluster is the same page.\<close>

lemma in_cluster_page_repeats:
  assumes "\<not> g_Archived opts"
  shows "get_Run ge k9e (opts\<lparr>g_Before := t, g_params := params\<rparr>) = get_Run ge k9e opts"
proof -
  let ?o = "opts\<lparr>g_Before := t, g_params := params\<rparr>"
  have nc: "next_command ge ?o = next_command ge opts" by (simp add: next_command_def fun_eq_iff)
  have "parseResourcesFromBytes ge ?o = parseResourcesFromBytes ge opts" by (simp add: parseResourcesFromBytes_def fun_eq_iff)
  then have "cluster_resources ge k9e ?o = cluster_resources ge k9e opts" by (simp add: cluster_resources_def cong: sum.case_cong)
  moreover have "merge_archive ge k9e ?o = merge_archive ge k9e opts" using assms by (simp add: merge_archive_def fun_eq_iff)
  moreover have "where_missing what ?o = where_missing what opts" for what by (simp add: where_missing_def)
  moreover from this have "missing_name ?o = missing_name opts" by (simp add: missing_name_def)
  moreover from this have "nothing_shown ge ?o = nothing_shown ge opts" by (simp add: nothing_shown_def)
  moreover have "printResources ge ?o = printResources ge opts" by (simp add: printResources_def fun_eq_iff)
  moreover have "printPaginationMessage ge ?o = printPaginationMessage ge opts"
    unfolding printPaginationMessage_def nc by (simp add: fun_eq_iff)
  ultimately show ?thesis unfolding get_Run_def by (simp only:)
qed

text \<open>
  The fraction of \<^verbatim>\<open>--before\<close> is not sent. A resource of the second that it falls into has the text
  that is sent as its creation time, which is not before itself.
\<close>

lemma before_loses_fraction:
  assumes "rfc_valid t"
  shows "\<exists>u. rfc_parse (rfc_format t) = Some u \<and> instant u = instant t - int (t_nanos t) \<and> rfc_format u = rfc_format t"
  using rfc_parse_format [OF assms] by (simp add: instant_def rfc_format_def day_number_def)

text \<open>Two resources of one name in two namespaces, created in the same second, share a row.\<close>

lemma same_name_shares_row:
  "insertSortedResourcesOptimized 10 [] [sample_object ''a'' ''1'' 10, (sample_object ''a'' ''2'' 10)\<lparr>u_namespace := ''other''\<rparr>] True
     = Some ([\<lparr>av_Resource = sample_object ''a'' ''1'' 10, av_InCluster = True, av_Archived = False\<rparr>], False, False)"
  by code_simp


end
