(* ===== verification/Installer.thy ===== *)
theory Installer
  imports Kube_Types
begin

text \<open>
  The installer, \<^verbatim>\<open>cmd/installer/internal/controller\<close>: it applies the manifests of a release, records
  them in the status of the installation, and deletes what is recorded when the installation goes.

  The cluster holds the one installation that is looked at and the objects that were applied, by
  their identity; the contents of the objects are left out. The API server, the download and the
  YAML library are the environment of a run, and each call may fail. As an API server does, the
  model removes an object that is being deleted when its last finalizer goes.
\<close>

section \<open>Data\<close>

record manifest =
  mf_APIVersion :: string
  mf_Kind :: string
  mf_Name :: string
  mf_Namespace :: string

record installation =
  in_Version :: string
  in_DeletionTimestamp :: "go_time option"
  in_Finalizers :: "string list"
  in_Manifests :: "manifest list"

record install_state =
  is_installation :: "installation option"
  is_objects :: "manifest list"

text \<open>\<open>ie_unmarshal\<close> answers \<open>None\<close> for invalid YAML and \<open>Some None\<close> for an empty document.\<close>

record install_env =
  ie_get :: bool
  ie_update :: bool
  ie_update_status :: bool
  ie_delete :: "manifest \<Rightarrow> bool"
  ie_download :: "string \<Rightarrow> (int \<times> string option) option"
  ie_unmarshal :: "string \<Rightarrow> manifest option option"
  ie_patch :: "manifest \<Rightarrow> bool"

datatype install_error =
    InstGetFailed | InstUpdateFailed | InstDeleteFailed | InstDownloadFailed | InstVersionNotFound string
  | InstBodyFailed | InstBadYaml | InstPatchFailed | InstStatusFailed

definition installerFinalizer :: string where
  "installerFinalizer = ''kubearchive.org/installer-finalizer''"

section \<open>Calls\<close>

text \<open>A call works when the environment says so; deleting what is not there is no error. An update of an object that is being deleted and has no finalizer left removes it.\<close>

definition stored_installation :: "installation \<Rightarrow> installation option" where
  "stored_installation inst = (if in_DeletionTimestamp inst \<noteq> None \<and> in_Finalizers inst = [] then None else Some inst)"

definition update_installation :: "installation \<Rightarrow> install_state \<Rightarrow> install_state" where
  "update_installation inst st = st\<lparr>is_installation := stored_installation inst\<rparr>"

fun delete_manifests :: "install_env \<Rightarrow> manifest list \<Rightarrow> install_state \<Rightarrow> install_error option \<times> install_state" where
  "delete_manifests env [] st = (None, st)"
| "delete_manifests env (m # ms) st =
     (if \<not> ie_delete env m then (Some InstDeleteFailed, st)
      else delete_manifests env ms (st\<lparr>is_objects := removeAll m (is_objects st)\<rparr>))"

fun apply_manifests :: "install_env \<Rightarrow> manifest list \<Rightarrow> install_state \<Rightarrow> install_error option \<times> install_state" where
  "apply_manifests env [] st = (None, st)"
| "apply_manifests env (m # ms) st =
     (if ie_patch env m then apply_manifests env ms (st\<lparr>is_objects := List.insert m (is_objects st)\<rparr>)
      else (Some InstPatchFailed, st))"

section \<open>The release\<close>

text \<open>\<^verbatim>\<open>strings.SplitSeq(body, "---")\<close>; the part read so far is kept in reverse.\<close>

fun split_documents :: "string \<Rightarrow> string \<Rightarrow> string list" where
  "split_documents acc (a # b # c # s) =
     (if a = CHR ''-'' \<and> b = CHR ''-'' \<and> c = CHR ''-'' then rev acc # split_documents [] s
      else split_documents (a # acc) (b # c # s))"
| "split_documents acc s = [rev acc @ s]"

definition bodyLimit :: int where
  "bodyLimit = 10 * 2 ^ 20"

definition limit_reader :: "string \<Rightarrow> string" where
  "limit_reader b = (if int (length b) \<le> bodyLimit then b else take (nat bodyLimit) b)"

fun read_documents :: "install_env \<Rightarrow> string list \<Rightarrow> manifest list option" where
  "read_documents env [] = Some []"
| "read_documents env (d # ds) =
     (case ie_unmarshal env d of
        None \<Rightarrow> None
      | Some r \<Rightarrow> map_option (\<lambda>ms. (case r of None \<Rightarrow> ms | Some m \<Rightarrow> m # ms)) (read_documents env ds))"

definition downloadURL :: "string \<Rightarrow> string" where
  "downloadURL version = ''https://github.com/kubearchive/kubearchive/releases/download/'' @ version @ ''/kubearchive.yaml''"

definition release_manifests :: "install_env \<Rightarrow> string \<Rightarrow> install_error + manifest list" where
  "release_manifests env version =
     (case ie_download env (downloadURL version) of
        None \<Rightarrow> Inl InstDownloadFailed
      | Some (status, body) \<Rightarrow>
          if status \<noteq> 200 then Inl (InstVersionNotFound version)
          else (case body of
                  None \<Rightarrow> Inl InstBodyFailed
                | Some b \<Rightarrow>
                    (case read_documents env (split_documents [] (limit_reader b)) of
                       None \<Rightarrow> Inl InstBadYaml
                     | Some ms \<Rightarrow> Inr ms)))"

section \<open>Reconciliation\<close>

definition uninstall :: "install_env \<Rightarrow> installation \<Rightarrow> install_state \<Rightarrow> install_error option \<times> install_state" where
  "uninstall env inst st =
     (case delete_manifests env (in_Manifests inst) st of
        (Some e, st) \<Rightarrow> (Some e, st)
      | (None, st) \<Rightarrow>
          if \<not> ie_update env then (Some InstUpdateFailed, st)
          else (None, update_installation (inst\<lparr>in_Finalizers := removeAll installerFinalizer (in_Finalizers inst)\<rparr>) st))"

definition install :: "install_env \<Rightarrow> installation \<Rightarrow> install_state \<Rightarrow> install_error option \<times> install_state" where
  "install env inst st =
     (case release_manifests env (in_Version inst) of
        Inl e \<Rightarrow> (Some e, st)
      | Inr manifests \<Rightarrow>
          (case apply_manifests env manifests st of
             (Some e, st) \<Rightarrow> (Some e, st)
           | (None, st) \<Rightarrow>
               if in_Manifests inst = manifests then (None, st)
               else if \<not> ie_update_status env then (Some InstStatusFailed, st)
               else (None, st\<lparr>is_installation := Some (inst\<lparr>in_Manifests := manifests\<rparr>)\<rparr>)))"

definition inst_Reconcile :: "install_env \<Rightarrow> install_state \<Rightarrow> install_error option \<times> install_state" where
  "inst_Reconcile env st =
     (if \<not> ie_get env then (Some InstGetFailed, st)
      else case is_installation st of
             None \<Rightarrow> (None, st)
           | Some inst \<Rightarrow>
               if in_DeletionTimestamp inst = None then
                 if installerFinalizer \<in> set (in_Finalizers inst) then install env inst st
                 else if \<not> ie_update env then (Some InstUpdateFailed, st)
                 else (let inst = inst\<lparr>in_Finalizers := in_Finalizers inst @ [installerFinalizer]\<rparr>
                       in install env inst (update_installation inst st))
               else if installerFinalizer \<in> set (in_Finalizers inst) then uninstall env inst st
               else install env inst st)"

section \<open>Histories\<close>

text \<open>
  What happens to an installation: the user creates it, asks for another version or asks for its
  deletion, another controller changes the finalizers that are not the installer's, and runs of the
  controller, each in an environment of its own.
\<close>

datatype install_step =
    UserCreates string
  | UserSetsVersion string
  | UserDeletes go_time
  | OthersSetFinalizers "string list"
  | Run install_env

definition others :: "string list \<Rightarrow> installation \<Rightarrow> string list" where
  "others fs inst =
     filter (\<lambda>f. f \<noteq> installerFinalizer) fs @ (if installerFinalizer \<in> set (in_Finalizers inst) then [installerFinalizer] else [])"

definition change_installation :: "(installation \<Rightarrow> installation) \<Rightarrow> install_state \<Rightarrow> install_state" where
  "change_installation f st =
     (case is_installation st of None \<Rightarrow> st | Some inst \<Rightarrow> update_installation (f inst) st)"

definition install_history_step :: "install_step \<Rightarrow> install_state \<Rightarrow> install_state" where
  "install_history_step s st =
     (case s of
        UserCreates v \<Rightarrow>
          if is_installation st = None
          then st\<lparr>is_installation := Some \<lparr>in_Version = v, in_DeletionTimestamp = None, in_Finalizers = [], in_Manifests = []\<rparr>\<rparr> else st
      | UserSetsVersion v \<Rightarrow> change_installation (\<lambda>inst. inst\<lparr>in_Version := v\<rparr>) st
      | UserDeletes t \<Rightarrow> change_installation (\<lambda>inst. inst\<lparr>in_DeletionTimestamp := Some t\<rparr>) st
      | OthersSetFinalizers fs \<Rightarrow> change_installation (\<lambda>inst. inst\<lparr>in_Finalizers := others fs inst\<rparr>) st
      | Run env \<Rightarrow> snd (inst_Reconcile env st))"

inductive install_reach :: "install_state \<Rightarrow> bool" where
  start: "install_reach \<lparr>is_installation = None, is_objects = []\<rparr>"
| step: "install_reach st \<Longrightarrow> \<forall>fs. s \<noteq> OthersSetFinalizers fs \<Longrightarrow> install_reach (install_history_step s st)"

section \<open>Lemmas\<close>

lemma delete_manifests_spec:
  assumes "delete_manifests env ms st = (e, st')"
  shows "is_installation st' = is_installation st" "set (is_objects st') \<subseteq> set (is_objects st)"
    "e = None \<Longrightarrow> set (is_objects st') = set (is_objects st) - set ms"
  using assms by (induction ms arbitrary: st; fastforce split: if_splits)+

lemma apply_manifests_spec:
  assumes "apply_manifests env ms st = (e, st')"
  shows "is_installation st' = is_installation st" "set (is_objects st) \<subseteq> set (is_objects st')"
    "set (is_objects st') \<subseteq> set (is_objects st) \<union> set ms"
  using assms by (induction ms arbitrary: st; fastforce split: if_splits)+

lemma apply_manifests_all:
  "apply_manifests env ms st = (None, st') \<Longrightarrow> set ms \<subseteq> set (is_objects st')"
proof (induction ms arbitrary: st)
  case (Cons m ms)
  then have "apply_manifests env ms (st\<lparr>is_objects := List.insert m (is_objects st)\<rparr>) = (None, st')" by (auto split: if_splits)
  with Cons.IH apply_manifests_spec(2) [OF this] show ?case by auto
qed simp

text \<open>What a run that installs does: objects are added, and the status is what was applied.\<close>

lemma install_spec:
  assumes "install env inst st = (e, st')"
  shows "set (is_objects st) \<subseteq> set (is_objects st')"
    "is_installation st' = is_installation st
     \<or> (\<exists>ms. is_installation st' = Some (inst\<lparr>in_Manifests := ms\<rparr>) \<and> set ms \<subseteq> set (is_objects st'))"
    "e = None \<Longrightarrow> is_installation st = Some inst \<Longrightarrow>
       \<exists>ms. release_manifests env (in_Version inst) = Inr ms \<and> is_installation st' = Some (inst\<lparr>in_Manifests := ms\<rparr>)
         \<and> set (is_objects st') = set (is_objects st) \<union> set ms"
proof -
  from assms consider "st' = st" "e \<noteq> None" | ms st1 where "release_manifests env (in_Version inst) = Inr ms"
      "apply_manifests env ms st = (e, st1)" "st' = st1" "e \<noteq> None"
    | ms st1 where "release_manifests env (in_Version inst) = Inr ms" "apply_manifests env ms st = (None, st1)"
      "if in_Manifests inst = ms then e = None \<and> st' = st1
       else e = None \<and> st' = st1\<lparr>is_installation := Some (inst\<lparr>in_Manifests := ms\<rparr>)\<rparr> \<or> e \<noteq> None \<and> st' = st1"
    unfolding install_def by (auto split: sum.splits prod.splits option.splits if_splits)
  then have "set (is_objects st) \<subseteq> set (is_objects st')
     \<and> (is_installation st' = is_installation st
     \<or> (\<exists>ms. is_installation st' = Some (inst\<lparr>in_Manifests := ms\<rparr>) \<and> set ms \<subseteq> set (is_objects st')))
     \<and> (e = None \<longrightarrow> is_installation st = Some inst \<longrightarrow>
       (\<exists>ms. release_manifests env (in_Version inst) = Inr ms \<and> is_installation st' = Some (inst\<lparr>in_Manifests := ms\<rparr>)
         \<and> set (is_objects st') = set (is_objects st) \<union> set ms))"
  proof cases
    case (3 ms st1)
    note a = apply_manifests_spec [OF 3(2)] apply_manifests_all [OF 3(2)]
    show ?thesis
    proof (cases "in_Manifests inst = ms")
      case True
      with 3 a show ?thesis by auto
    next
      case False
      with 3 a show ?thesis by auto
    qed
  qed (use apply_manifests_spec in auto)
  then show "set (is_objects st) \<subseteq> set (is_objects st')"
    "is_installation st' = is_installation st
     \<or> (\<exists>ms. is_installation st' = Some (inst\<lparr>in_Manifests := ms\<rparr>) \<and> set ms \<subseteq> set (is_objects st'))"
    "e = None \<Longrightarrow> is_installation st = Some inst \<Longrightarrow>
       \<exists>ms. release_manifests env (in_Version inst) = Inr ms \<and> is_installation st' = Some (inst\<lparr>in_Manifests := ms\<rparr>)
         \<and> set (is_objects st') = set (is_objects st) \<union> set ms" by blast+
qed

definition install_inv :: "install_state \<Rightarrow> bool" where
  "install_inv st \<longleftrightarrow>
     (\<forall>inst. is_installation st = Some inst \<longrightarrow>
        set (in_Finalizers inst) \<subseteq> {installerFinalizer}
        \<and> (in_DeletionTimestamp inst \<noteq> None \<or> in_Manifests inst \<noteq> [] \<longrightarrow> in_Finalizers inst \<noteq> [])
        \<and> (in_DeletionTimestamp inst = None \<longrightarrow> set (in_Manifests inst) \<subseteq> set (is_objects st)))"

lemma install_inv_step:
  assumes "install_inv st" "is_installation st = Some inst" "in_Finalizers inst \<noteq> []" "install env inst st = (e, st')"
  shows "install_inv st'"
proof -
  from assms(1,2) have fin: "set (in_Finalizers inst) \<subseteq> {installerFinalizer}" unfolding install_inv_def by blast
  from install_spec(2) [OF assms(4)] show ?thesis
  proof
    assume "is_installation st' = is_installation st"
    with assms(1,2) install_spec(1) [OF assms(4)] show ?thesis unfolding install_inv_def by fastforce
  next
    assume "\<exists>ms. is_installation st' = Some (inst\<lparr>in_Manifests := ms\<rparr>) \<and> set ms \<subseteq> set (is_objects st')"
    with fin assms(3) show ?thesis unfolding install_inv_def by auto
  qed
qed

lemma installer_finalizers: "set fs \<subseteq> {f} \<Longrightarrow> fs \<noteq> [] \<Longrightarrow> f \<in> set fs" for f :: string
  by (cases fs) auto

lemma reconcile_inv:
  assumes "install_inv st"
  shows "install_inv (snd (inst_Reconcile env st))"
proof (cases "is_installation st")
  case None
  then show ?thesis using assms by (simp add: inst_Reconcile_def)
next
  case (Some inst)
  let ?f = installerFinalizer
  from assms Some have inv: "set (in_Finalizers inst) \<subseteq> {?f}"
    "in_DeletionTimestamp inst \<noteq> None \<or> in_Manifests inst \<noteq> [] \<longrightarrow> in_Finalizers inst \<noteq> []"
    "in_DeletionTimestamp inst = None \<longrightarrow> set (in_Manifests inst) \<subseteq> set (is_objects st)"
    unfolding install_inv_def by blast+
  show ?thesis
  proof (cases "in_DeletionTimestamp inst")
    case alive: None
    show ?thesis
    proof (cases "?f \<in> set (in_Finalizers inst)")
      case True
      then have "in_Finalizers inst \<noteq> []" by auto
      then show ?thesis
        using install_inv_step [OF assms Some] assms Some alive True
        by (cases "install env inst st") (auto simp: inst_Reconcile_def)
    next
      case False
      with inv(1) have fs: "in_Finalizers inst = []" by (cases "in_Finalizers inst") auto
      let ?i = "inst\<lparr>in_Finalizers := [?f]\<rparr>" and ?st = "update_installation (inst\<lparr>in_Finalizers := [?f]\<rparr>) st"
      have st1: "is_installation ?st = Some ?i" by (simp add: update_installation_def stored_installation_def)
      have "install_inv ?st" using inv fs st1 alive unfolding install_inv_def by (auto simp: update_installation_def)
      then show ?thesis
        using install_inv_step [OF _ st1] assms Some alive False fs
        by (cases "install env ?i ?st") (auto simp: inst_Reconcile_def Let_def)
    qed
  next
    case (Some t)
    with inv have f: "?f \<in> set (in_Finalizers inst)" by (auto intro: installer_finalizers)
    obtain e st1 where d: "delete_manifests env (in_Manifests inst) st = (e, st1)" by (metis prod.exhaust)
    have "removeAll ?f (in_Finalizers inst) = []" using inv(1) by (auto simp: removeAll_filter_not_eq filter_empty_conv)
    then have "is_installation (update_installation (inst\<lparr>in_Finalizers := removeAll ?f (in_Finalizers inst)\<rparr>) st1) = None"
      using Some by (simp add: update_installation_def stored_installation_def)
    moreover have "install_inv st1" using assms delete_manifests_spec(1) [OF d] Some \<open>is_installation st = Some inst\<close>
      unfolding install_inv_def by auto
    ultimately show ?thesis
      using assms f Some d \<open>is_installation st = Some inst\<close>
      by (auto simp: inst_Reconcile_def uninstall_def install_inv_def split: option.splits)
  qed
qed

lemma change_installation_inv:
  assumes "install_inv st" and "\<And>inst. is_installation st = Some inst \<Longrightarrow> in_Finalizers (f inst) = in_Finalizers inst
    \<and> in_Manifests (f inst) = in_Manifests inst \<and> (in_DeletionTimestamp inst \<noteq> None \<longrightarrow> in_DeletionTimestamp (f inst) \<noteq> None)"
  shows "install_inv (change_installation f st)"
  using assms
  by (auto simp: install_inv_def change_installation_def update_installation_def stored_installation_def split: option.splits if_splits)

lemma reach_inv: "install_reach st \<Longrightarrow> install_inv st"
proof (induction rule: install_reach.induct)
  case start
  show ?case by (simp add: install_inv_def)
next
  case (step st s)
  show ?case
  proof (cases s)
    case (UserCreates v)
    with step.IH show ?thesis by (auto simp: install_history_step_def install_inv_def)
  next
    case (UserSetsVersion v)
    with step.IH show ?thesis by (simp add: install_history_step_def change_installation_inv)
  next
    case (UserDeletes t)
    with step.IH show ?thesis by (simp add: install_history_step_def change_installation_inv)
  next
    case (OthersSetFinalizers fs)
    with step.hyps show ?thesis by blast
  next
    case (Run env)
    with step.IH show ?thesis by (simp add: install_history_step_def reconcile_inv)
  qed
qed

lemma reconcile_removes:
  assumes "install_inv st" "is_installation st = Some inst" "is_installation (snd (inst_Reconcile env st)) = None"
  shows "set (in_Manifests inst) \<inter> set (is_objects (snd (inst_Reconcile env st))) = {}"
proof -
  have keep: "is_installation (snd (install env i st1)) \<noteq> None" if "is_installation st1 = Some i" for i st1
    using install_spec(2) [of env i st1] that by (cases "install env i st1") auto
  have alive: "in_DeletionTimestamp inst \<noteq> None"
  proof
    assume n: "in_DeletionTimestamp inst = None"
    have "is_installation (update_installation (inst\<lparr>in_Finalizers := fs\<rparr>) st) = Some (inst\<lparr>in_Finalizers := fs\<rparr>)" for fs
      using n by (simp add: update_installation_def stored_installation_def)
    from keep [OF this, of "in_Finalizers inst @ [installerFinalizer]"] keep [OF assms(2)] n assms(2,3) show False
      by (simp add: inst_Reconcile_def Let_def split: if_splits)
  qed
  with assms(1,2) have "installerFinalizer \<in> set (in_Finalizers inst)"
    unfolding install_inv_def by (blast intro: installer_finalizers)
  with alive assms(2,3) have eq: "snd (inst_Reconcile env st) = snd (uninstall env inst st)"
    by (simp add: inst_Reconcile_def split: if_splits)
  obtain e st1 where d: "delete_manifests env (in_Manifests inst) st = (e, st1)" by (metis prod.exhaust)
  have "is_installation st1 \<noteq> None" using delete_manifests_spec(1) [OF d] assms(2) by simp
  moreover have "is_installation (snd (uninstall env inst st)) = None" using assms(3) by (simp only: eq)
  ultimately have "e = None" "is_objects (snd (uninstall env inst st)) = is_objects st1"
    using d by (auto simp: uninstall_def update_installation_def split: option.splits if_splits)
  then show ?thesis using delete_manifests_spec(3) [OF d] unfolding eq by auto
qed

section \<open>Properties\<close>

text \<open>C33: in every history in which no other controller sets finalizers on the installation, the next
  step included, the objects that the status of an installation records are in the cluster as long
  as the installation is not being deleted, and none of them is left when a step removes the
  installation. Where another controller holds the installation with a finalizer of its own this
  fails: a run after the clean-up installs the objects again, and they stay
  (\<open>reinstalled_while_deleted\<close>).\<close>

theorem recorded_objects_installed_and_removed:
  assumes "install_reach st" "is_installation st = Some inst" "\<forall>fs. s \<noteq> OthersSetFinalizers fs"
  shows "(in_DeletionTimestamp inst = None \<longrightarrow> set (in_Manifests inst) \<subseteq> set (is_objects st))
    \<and> (is_installation (install_history_step s st) = None
         \<longrightarrow> set (in_Manifests inst) \<inter> set (is_objects (install_history_step s st)) = {})"
proof -
  have inv: "install_inv st" using assms(1) by (rule reach_inv)
  then have i: "in_DeletionTimestamp inst \<noteq> None \<or> in_Manifests inst \<noteq> [] \<longrightarrow> in_Finalizers inst \<noteq> []"
    "in_DeletionTimestamp inst = None \<longrightarrow> set (in_Manifests inst) \<subseteq> set (is_objects st)"
    using assms(2) unfolding install_inv_def by blast+
  have "set (in_Manifests inst) \<inter> set (is_objects (install_history_step s st)) = {}"
    if gone: "is_installation (install_history_step s st) = None"
  proof (cases s)
    case (UserDeletes t)
    with gone assms(2) i(1) show ?thesis
      by (auto simp: install_history_step_def change_installation_def update_installation_def stored_installation_def split: if_splits)
  next
    case (Run env)
    with gone reconcile_removes [OF inv assms(2)] show ?thesis by (simp add: install_history_step_def)
  qed (use gone assms(2,3) i(1) in \<open>auto simp: install_history_step_def change_installation_def update_installation_def
         stored_installation_def split: if_splits\<close>)
  with i(2) show ?thesis by blast
qed

text \<open>C39: when no call fails and the release can be read, a run for an installation that is not being
  deleted succeeds, applies every manifest of the release, records exactly these, and holds the
  finalizer.\<close>

theorem healthy_install_records_release:
  assumes "is_installation st = Some inst" "in_DeletionTimestamp inst = None"
    and "ie_get env" "ie_update env" "ie_update_status env" "\<forall>m\<in>set ms. ie_patch env m"
    and "release_manifests env (in_Version inst) = Inr ms"
  shows "\<exists>inst'. fst (inst_Reconcile env st) = None \<and> is_installation (snd (inst_Reconcile env st)) = Some inst'
     \<and> in_Manifests inst' = ms \<and> installerFinalizer \<in> set (in_Finalizers inst')
     \<and> set (is_objects (snd (inst_Reconcile env st))) = set (is_objects st) \<union> set ms"
proof -
  have applied: "\<exists>st2. apply_manifests env ms st1 = (None, st2)" for st1
    using assms(6) by (induction ms arbitrary: st1) auto
  have inst: "fst (install env i st1) = None \<and> (\<exists>i'. is_installation (snd (install env i st1)) = Some i' \<and> in_Manifests i' = ms
       \<and> in_Finalizers i' = in_Finalizers i) \<and> set (is_objects (snd (install env i st1))) = set (is_objects st1) \<union> set ms"
    if "is_installation st1 = Some i" "in_Version i = in_Version inst" for i st1
  proof -
    obtain st2 where "apply_manifests env ms st1 = (None, st2)" using applied by blast
    then have "fst (install env i st1) = None" using that assms(5,7) by (simp add: install_def)
    with install_spec(3) [of env i st1] that assms(7) show ?thesis by (cases "install env i st1") auto
  qed
  let ?i = "inst\<lparr>in_Finalizers := in_Finalizers inst @ [installerFinalizer]\<rparr>"
  have "is_installation (update_installation ?i st) = Some ?i" "is_objects (update_installation ?i st) = is_objects st"
    using assms(2) by (simp_all add: update_installation_def stored_installation_def)
  then show ?thesis
    using inst [OF assms(1)] inst [of "update_installation ?i st" ?i] assms(1-4) by (auto simp: inst_Reconcile_def Let_def)
qed

section \<open>An example, and what is left behind\<close>

definition object_named :: "string \<Rightarrow> manifest" where
  "object_named n = \<lparr>mf_APIVersion = ''v1'', mf_Kind = ''ConfigMap'', mf_Name = n, mf_Namespace = ''kubearchive''\<rparr>"

text \<open>Version \<open>1\<close> has the objects \<open>a\<close> and \<open>b\<close>, every other version only \<open>a\<close>; \<open>bad\<close> cannot be applied.\<close>

definition sample_install_env :: "string \<Rightarrow> install_env" where
  "sample_install_env bad =
     \<lparr>ie_get = True, ie_update = True, ie_update_status = True, ie_delete = (\<lambda>_. True),
      ie_download = (\<lambda>u. if u = downloadURL ''1'' then Some (200, Some ''a---b'') else Some (200, Some ''a'')),
      ie_unmarshal = (\<lambda>d. Some (Some (object_named d))), ie_patch = (\<lambda>m. mf_Name m \<noteq> bad)\<rparr>"

definition install_history :: "install_step list \<Rightarrow> install_state" where
  "install_history ss = foldl (\<lambda>st s. install_history_step s st) \<lparr>is_installation = None, is_objects = []\<rparr> ss"

lemma history_reach: "\<forall>s\<in>set ss. \<forall>fs. s \<noteq> OthersSetFinalizers fs \<Longrightarrow> install_reach (install_history ss)"
  by (induction ss rule: rev_induct) (auto simp: install_history_def intro: install_reach.intros)

theorem recorded_objects_installed_and_removed_witness:
  "\<exists>inst. is_installation (install_history [UserCreates ''1'', Run (sample_install_env []), UserDeletes 5]) = Some inst
     \<and> in_Manifests inst = [object_named ''a'', object_named ''b'']
     \<and> is_installation (install_history_step (Run (sample_install_env []))
          (install_history [UserCreates ''1'', Run (sample_install_env []), UserDeletes 5])) = None
     \<and> set (in_Manifests inst) \<inter> set (is_objects (install_history_step (Run (sample_install_env []))
          (install_history [UserCreates ''1'', Run (sample_install_env []), UserDeletes 5]))) = {}"
proof -
  let ?st = "install_history [UserCreates ''1'', Run (sample_install_env []), UserDeletes 5]" and ?s = "Run (sample_install_env [])"
  have "is_installation ?st = Some \<lparr>in_Version = ''1'', in_DeletionTimestamp = Some 5, in_Finalizers = [installerFinalizer],
      in_Manifests = [object_named ''a'', object_named ''b'']\<rparr>" by code_simp
  moreover have "is_installation (install_history_step ?s ?st) = None" by code_simp
  moreover have "install_reach ?st" by (rule history_reach) auto
  ultimately show ?thesis using recorded_objects_installed_and_removed [of ?st _ ?s] by auto
qed

theorem healthy_install_records_release_witness:
  "set (is_objects (snd (inst_Reconcile (sample_install_env []) (install_history [UserCreates ''1''])))) = {object_named ''a'', object_named ''b''}"
proof -
  let ?st = "install_history [UserCreates ''1'']"
  have "is_installation ?st = Some \<lparr>in_Version = ''1'', in_DeletionTimestamp = None, in_Finalizers = [], in_Manifests = []\<rparr>"
    "is_objects ?st = []" by code_simp+
  moreover have "release_manifests (sample_install_env []) ''1'' = Inr [object_named ''a'', object_named ''b'']" by code_simp
  moreover have "\<forall>m\<in>set [object_named ''a'', object_named ''b'']. ie_patch (sample_install_env []) m"
    by (simp add: sample_install_env_def object_named_def)
  moreover have "ie_get (sample_install_env [])" "ie_update (sample_install_env [])" "ie_update_status (sample_install_env [])"
    by (simp_all add: sample_install_env_def)
  ultimately show ?thesis using healthy_install_records_release [of ?st _ "sample_install_env []"] by fastforce
qed

text \<open>An object that only the earlier version has is no longer recorded, and stays when the installation is deleted.\<close>

lemma upgrade_leaves_objects:
  "install_history [UserCreates ''1'', Run (sample_install_env []), UserSetsVersion ''2'', Run (sample_install_env []),
     UserDeletes 5, Run (sample_install_env [])] = \<lparr>is_installation = None, is_objects = [object_named ''b'']\<rparr>"
  by code_simp

text \<open>What was applied before a failure is not recorded, and stays when the installation is deleted.\<close>

lemma failed_install_leaves_objects:
  "install_history [UserCreates ''1'', Run (sample_install_env ''b''), UserDeletes 5, Run (sample_install_env [])]
     = \<lparr>is_installation = None, is_objects = [object_named ''a'']\<rparr>"
  by code_simp

text \<open>With a finalizer of another controller the next run after the clean-up installs everything again,
  and the objects stay when that finalizer goes: the case that the property on recorded objects
  leaves out.\<close>

lemma reinstalled_while_deleted:
  "install_history [UserCreates ''1'', OthersSetFinalizers [''x''], Run (sample_install_env []), UserDeletes 5,
     Run (sample_install_env []), Run (sample_install_env []), OthersSetFinalizers []]
     = \<lparr>is_installation = None, is_objects = [object_named ''b'', object_named ''a'']\<rparr>"
  by code_simp

end
