(* ===== verification/Migrations.thy ===== *)
theory Migrations
  imports Prelude "HOL-Library.Product_Lexorder"
begin

text \<open>
  The migration of the PostgreSQL schema, \<^verbatim>\<open>integrations/database/postgresql/main.go\<close>: SQL migrations are
  applied one at a time, and the shell scripts that belong to a version run after it. The
  migration library and the shell are the environment; \<open>'m\<close> is the state of the library, and a run is
  seen as the sequence of what it did. The loop is a \<^verbatim>\<open>partial_function\<close>, since it goes on as long as
  the library has a next migration.
\<close>

section \<open>Scripts\<close>

record scriptEntry =
  sc_afterVersion :: nat
  sc_name :: string
  sc_path :: string

definition script_digit :: "char \<Rightarrow> bool" where
  "script_digit c \<longleftrightarrow> char_digit c \<noteq> None"

text \<open>\<^verbatim>\<open>^(\d+)_\d+_.+\.sh$\<close>: the first group.\<close>

definition scriptPattern :: "string \<Rightarrow> string option" where
  "scriptPattern s =
     (let d = takeWhile script_digit s
      in case dropWhile script_digit s of
           [] \<Rightarrow> None
         | u # r \<Rightarrow>
             if d = [] \<or> u \<noteq> CHR ''_'' \<or> takeWhile script_digit r = [] then None
             else (case dropWhile script_digit r of
                     [] \<Rightarrow> None
                   | u' # t \<Rightarrow>
                       if u' = CHR ''_'' \<and> length t > 3 \<and> rev (take 3 (rev t)) = ''.sh'' \<and> CHR 0x0A \<notin> set t then Some d else None))"

definition parse_uint32 :: "string \<Rightarrow> nat option" where
  "parse_uint32 s = (case read_nat s of None \<Rightarrow> None | Some n \<Rightarrow> if int n < 2 ^ 32 then Some n else None)"

definition script_entry :: "string \<Rightarrow> string \<times> bool \<Rightarrow> scriptEntry option" where
  "script_entry dir entry =
     (if snd entry then None
      else case scriptPattern (fst entry) of
             None \<Rightarrow> None
           | Some d \<Rightarrow>
               map_option (\<lambda>v. \<lparr>sc_afterVersion = v, sc_name = fst entry, sc_path = dir @ ''/'' @ fst entry\<rparr>) (parse_uint32 d))"

text \<open>An entry of the directory is its name and whether it is a directory. Names are unique, so the sort determines the order.\<close>

definition discoverScripts :: "string \<Rightarrow> (string \<times> bool) list option \<Rightarrow> scriptEntry list option" where
  "discoverScripts dir entries =
     map_option (\<lambda>es. sort_key (\<lambda>s. (sc_afterVersion s, sc_name s)) (List.map_filter (script_entry dir) es)) entries"

datatype mig_event = Migrated nat | ScriptRan string | MigratedTo nat | MigratedUp

fun runScriptsForVersion :: "(string \<Rightarrow> bool) \<Rightarrow> scriptEntry list \<Rightarrow> nat \<Rightarrow> bool \<times> mig_event list" where
  "runScriptsForVersion exec [] version = (True, [])"
| "runScriptsForVersion exec (s # ss) version =
     (if sc_afterVersion s \<noteq> version then runScriptsForVersion exec ss version
      else if \<not> exec (sc_path s) then (False, [])
      else case runScriptsForVersion exec ss version of (ok, es) \<Rightarrow> (ok, ScriptRan (sc_name s) # es))"

section \<open>The run\<close>

datatype step_answer = Stepped | NoMore | StepFailed

text \<open>\<open>mg_version\<close> is \<open>0\<close> before the first migration. The flags tell that the library gave no error but \<^verbatim>\<open>ErrNoChange\<close>.\<close>

record 'm migrator =
  mg_version :: "'m \<Rightarrow> nat"
  mg_step :: "'m \<Rightarrow> step_answer \<times> 'm"
  mg_migrate :: "nat \<Rightarrow> 'm \<Rightarrow> bool \<times> 'm"
  mg_up :: "'m \<Rightarrow> bool \<times> 'm"

definition reached :: "nat option \<Rightarrow> nat \<Rightarrow> bool" where
  "reached target v = (case target of None \<Rightarrow> False | Some t \<Rightarrow> t \<le> v)"

partial_function (option) step_loop ::
    "'m migrator \<Rightarrow> (string \<Rightarrow> bool) \<Rightarrow> scriptEntry list \<Rightarrow> nat option \<Rightarrow> 'm \<Rightarrow> (bool \<times> mig_event list \<times> 'm) option" where
  "step_loop mg exec scripts target m =
     (if reached target (mg_version mg m) then Some (True, [], m)
      else case mg_step mg m of (answer, m') \<Rightarrow>
        (case answer of
           NoMore \<Rightarrow> Some (True, [], m')
         | StepFailed \<Rightarrow> Some (False, [], m')
         | Stepped \<Rightarrow>
             (case runScriptsForVersion exec scripts (mg_version mg m') of (ok, es) \<Rightarrow>
                if \<not> ok then Some (False, Migrated (mg_version mg m') # es, m')
                else Option.bind (step_loop mg exec scripts target m')
                       (\<lambda>(r, es', m''). Some (r, Migrated (mg_version mg m') # es @ es', m'')))))"

definition runMigrations :: "'m migrator \<Rightarrow> string \<Rightarrow> 'm \<Rightarrow> bool \<times> mig_event list \<times> 'm" where
  "runMigrations mg target m =
     (if target \<noteq> [] then
        (case parse_uint32 target of
           None \<Rightarrow> (False, [], m)
         | Some v \<Rightarrow> (case mg_migrate mg v m of (ok, m') \<Rightarrow> (ok, [MigratedTo v], m')))
      else case mg_up mg m of (ok, m') \<Rightarrow> (ok, [MigratedUp], m'))"

definition migrate_stepwise ::
    "'m migrator \<Rightarrow> (string \<Rightarrow> bool) \<Rightarrow> scriptEntry list \<Rightarrow> nat option \<Rightarrow> 'm \<Rightarrow> (bool \<times> mig_event list \<times> 'm) option" where
  "migrate_stepwise mg exec scripts target m =
     (let current = mg_version mg m
      in case (if current \<noteq> 0 then runScriptsForVersion exec scripts current else (True, [])) of (ok, es) \<Rightarrow>
           if \<not> ok then Some (False, es, m)
           else if (case target of None \<Rightarrow> False | Some t \<Rightarrow> t < current)
           then (case mg_migrate mg (the target) m of (ok, m') \<Rightarrow> Some (ok, es @ [MigratedTo (the target)], m'))
           else Option.bind (step_loop mg exec scripts target m) (\<lambda>(r, es', m'). Some (r, es @ es', m')))"

text \<open>\<^verbatim>\<open>main\<close>: \<open>False\<close> stands for a panic, \<open>None\<close> for a run that does not end.\<close>

definition migrate_main ::
    "'m migrator \<Rightarrow> (string \<Rightarrow> bool) \<Rightarrow> string \<Rightarrow> (string \<times> bool) list option \<Rightarrow> string \<Rightarrow> 'm \<Rightarrow> (bool \<times> mig_event list \<times> 'm) option" where
  "migrate_main mg exec dir entries targetVersion m =
     (case discoverScripts dir entries of
        None \<Rightarrow> Some (False, [], m)
      | Some scripts \<Rightarrow>
          if scripts = [] then Some (runMigrations mg targetVersion m)
          else if targetVersion = [] then migrate_stepwise mg exec scripts None m
          else case parse_uint32 targetVersion of
                 None \<Rightarrow> Some (False, [], m)
               | Some t \<Rightarrow> migrate_stepwise mg exec scripts (Some t) m)"

section \<open>Lemmas\<close>

text \<open>The library steps through the versions \<open>vs\<close> of the migrations in order.\<close>

definition steps_through :: "'m migrator \<Rightarrow> nat list \<Rightarrow> bool" where
  "steps_through mg vs \<longleftrightarrow>
     sorted_wrt (<) vs
     \<and> (\<forall>m. case filter (\<lambda>w. mg_version mg m < w) vs of
              [] \<Rightarrow> fst (mg_step mg m) = NoMore \<and> mg_version mg (snd (mg_step mg m)) = mg_version mg m
            | w # _ \<Rightarrow> fst (mg_step mg m) = Stepped \<and> mg_version mg (snd (mg_step mg m)) = w)"

definition script_names :: "scriptEntry list \<Rightarrow> nat \<Rightarrow> string list" where
  "script_names scripts v = map sc_name (filter (\<lambda>s. sc_afterVersion s = v) scripts)"

text \<open>The migrations that are still to be applied: up to the first version that reaches the target.\<close>

fun until_reached :: "nat option \<Rightarrow> nat list \<Rightarrow> nat list" where
  "until_reached target [] = []"
| "until_reached target (w # ws) = w # (if reached target w then [] else until_reached target ws)"

definition pending :: "nat option \<Rightarrow> nat \<Rightarrow> nat list \<Rightarrow> nat list" where
  "pending target v vs = (if reached target v then [] else until_reached target (filter (\<lambda>w. v < w) vs))"

definition version_events :: "scriptEntry list \<Rightarrow> nat \<Rightarrow> mig_event list" where
  "version_events scripts v = Migrated v # map ScriptRan (script_names scripts v)"

lemma runScripts_ok:
  assumes "\<forall>s\<in>set scripts. exec (sc_path s)"
  shows "runScriptsForVersion exec scripts v = (True, map ScriptRan (script_names scripts v))"
  using assms by (induction scripts) (auto simp: script_names_def)

lemma filter_above_next:
  fixes vs :: "nat list"
  assumes "sorted_wrt (<) vs" "filter (\<lambda>w. v < w) vs = w # ws"
  shows "filter (\<lambda>u. w < u) vs = ws"
proof -
  have "sorted_wrt (<) (w # ws)" using assms by (metis sorted_wrt_filter)
  then have "filter (\<lambda>u. w < u) (w # ws) = ws" by (auto simp: filter_id_conv)
  moreover have "v < w" using assms(2) by (metis filter_eq_ConsD)
  then have "filter (\<lambda>u. w < u) (filter (\<lambda>w. v < w) vs) = filter (\<lambda>u. w < u) vs" by (auto simp: intro!: filter_cong)
  ultimately show ?thesis using assms(2) by simp
qed

lemma steps_throughD:
  assumes "steps_through mg vs"
  shows "filter (\<lambda>w. mg_version mg m < w) vs = [] \<Longrightarrow> \<exists>m1. mg_step mg m = (NoMore, m1) \<and> mg_version mg m1 = mg_version mg m"
    and "filter (\<lambda>w. mg_version mg m < w) vs = w # ws \<Longrightarrow> \<exists>m1. mg_step mg m = (Stepped, m1) \<and> mg_version mg m1 = w"
proof -
  have "case filter (\<lambda>w. mg_version mg m < w) vs of
              [] \<Rightarrow> fst (mg_step mg m) = NoMore \<and> mg_version mg (snd (mg_step mg m)) = mg_version mg m
            | w # _ \<Rightarrow> fst (mg_step mg m) = Stepped \<and> mg_version mg (snd (mg_step mg m)) = w"
    using assms unfolding steps_through_def by blast
  then show "filter (\<lambda>w. mg_version mg m < w) vs = [] \<Longrightarrow> \<exists>m1. mg_step mg m = (NoMore, m1) \<and> mg_version mg m1 = mg_version mg m"
    "filter (\<lambda>w. mg_version mg m < w) vs = w # ws \<Longrightarrow> \<exists>m1. mg_step mg m = (Stepped, m1) \<and> mg_version mg m1 = w"
    by (cases "mg_step mg m"; simp)+
qed

lemma step_loop_pending:
  assumes "steps_through mg vs" "\<forall>s\<in>set scripts. exec (sc_path s)"
  shows "\<exists>m'. step_loop mg exec scripts target m =
      Some (True, concat (map (version_events scripts) (pending target (mg_version mg m) vs)), m')
    \<and> mg_version mg m' = last (mg_version mg m # pending target (mg_version mg m) vs)"
proof (induction "filter (\<lambda>w. mg_version mg m < w) vs" arbitrary: m)
  case Nil
  obtain m1 where s: "mg_step mg m = (NoMore, m1)" "mg_version mg m1 = mg_version mg m"
    using steps_throughD(1) [OF assms(1) Nil [symmetric]] by blast
  have "pending target (mg_version mg m) vs = []" by (simp add: pending_def flip: Nil)
  then show ?case using s by (subst step_loop.simps) auto
next
  case (Cons w ws)
  let ?v = "mg_version mg m"
  show ?case
  proof (cases "reached target ?v")
    case True
    then show ?thesis by (subst step_loop.simps) (simp add: pending_def)
  next
    case False
    obtain m1 where s: "mg_step mg m = (Stepped, m1)" "mg_version mg m1 = w"
      using steps_throughD(2) [OF assms(1) Cons.hyps(2) [symmetric]] by blast
    have ws: "ws = filter (\<lambda>u. mg_version mg m1 < u) vs"
      using filter_above_next [OF _ Cons.hyps(2) [symmetric]] assms(1) s(2) unfolding steps_through_def by simp
    from Cons.hyps(1) [OF ws] obtain m2
      where m2: "step_loop mg exec scripts target m1 = Some (True, concat (map (version_events scripts) (pending target w vs)), m2)"
        "mg_version mg m2 = last (w # pending target w vs)" using s(2) by auto
    have "pending target ?v vs = w # pending target w vs"
      using False Cons.hyps(2) ws s(2) by (simp add: pending_def flip: Cons.hyps(2))
    then show ?thesis
      using False s m2 runScripts_ok [OF assms(2)] by (subst step_loop.simps) (simp add: version_events_def)
  qed
qed

lemma discovered_sorted:
  assumes "discoverScripts dir (Some entries) = Some scripts"
  shows "sorted (map (\<lambda>s. (sc_afterVersion s, sc_name s)) scripts)"
  using assms by (auto simp: discoverScripts_def)

lemma migrate_in_order:
  fixes mg :: "'m migrator"
  assumes "steps_through mg vs" "discoverScripts dir (Some entries) = Some scripts" "scripts \<noteq> []" "\<forall>s\<in>set scripts. exec (sc_path s)"
    and "if targetVersion = [] then target = None else target = parse_uint32 targetVersion \<and> target \<noteq> None"
    and "\<forall>t. target = Some t \<longrightarrow> mg_version mg m \<le> t"
  shows "\<exists>m'. migrate_main mg exec dir (Some entries) targetVersion m =
       Some (True, (if mg_version mg m = 0 then [] else map ScriptRan (script_names scripts (mg_version mg m)))
              @ concat (map (version_events scripts) (pending target (mg_version mg m) vs)), m')
     \<and> mg_version mg m' = last (mg_version mg m # pending target (mg_version mg m) vs)
     \<and> (\<forall>v. sorted (script_names scripts v))"
proof -
  have "migrate_main mg exec dir (Some entries) targetVersion m = migrate_stepwise mg exec scripts target m"
    using assms(2,3,5) by (auto simp: migrate_main_def split: if_splits)
  moreover obtain m' where
    "step_loop mg exec scripts target m = Some (True, concat (map (version_events scripts) (pending target (mg_version mg m) vs)), m')"
    "mg_version mg m' = last (mg_version mg m # pending target (mg_version mg m) vs)"
    using step_loop_pending [OF assms(1,4), of target m] by blast
  moreover have "\<not> (case target of None \<Rightarrow> False | Some t \<Rightarrow> t < mg_version mg m)"
    using assms(6) by (auto split: option.splits)
  moreover have "sorted (script_names scripts v)" for v
  proof -
    have "sorted (map (\<lambda>s. (sc_afterVersion s, sc_name s)) (filter (\<lambda>s. sc_afterVersion s = v) scripts))"
      using discovered_sorted [OF assms(2)] by (rule sorted_filter)
    then show ?thesis unfolding script_names_def sorted_map
      by (rule sorted_wrt_mono_rel [rotated]) auto
  qed
  ultimately show ?thesis using runScripts_ok [OF assms(4)] by (simp add: migrate_stepwise_def Let_def)
qed

text \<open>C34: when the library steps through its versions and the scripts work, a run that does not go
  down ends well. It first runs the scripts of the version it starts at again, then applies one after
  the other the versions up to the target, each followed by its scripts, in the order of their names,
  and ends at the last of them.\<close>

theorem migrations_and_scripts_in_order:
  fixes mg :: "'m migrator"
  assumes "steps_through mg vs" "discoverScripts dir (Some entries) = Some scripts" "scripts \<noteq> []" "\<forall>s\<in>set scripts. exec (sc_path s)"
    and "if targetVersion = [] then target = None else target = parse_uint32 targetVersion \<and> target \<noteq> None"
    and "\<forall>t. target = Some t \<longrightarrow> mg_version mg m \<le> t"
  shows "\<exists>m'. migrate_main mg exec dir (Some entries) targetVersion m =
       Some (True, (if mg_version mg m = 0 then [] else map ScriptRan (script_names scripts (mg_version mg m)))
              @ concat (map (version_events scripts) (pending target (mg_version mg m) vs)), m')
     \<and> mg_version mg m' = last (mg_version mg m # pending target (mg_version mg m) vs)
     \<and> (\<forall>v. sorted (script_names scripts v))"
  by (rule migrate_in_order [OF assms])

text \<open>A library with the versions \<open>1\<close> to \<open>3\<close>, whose state is the version.\<close>

definition sample_migrator :: "nat migrator" where
  "sample_migrator =
     \<lparr>mg_version = (\<lambda>m. m), mg_step = (\<lambda>m. case filter (\<lambda>w. m < w) [1, 2, 3] of [] \<Rightarrow> (NoMore, m) | w # _ \<Rightarrow> (Stepped, w)),
      mg_migrate = (\<lambda>v m. (True, v)), mg_up = (\<lambda>m. (True, 3))\<rparr>"

lemma sample_migrator_steps: "steps_through sample_migrator [1, 2, 3]"
  unfolding steps_through_def by (simp add: sample_migrator_def split: list.splits)

theorem migrations_and_scripts_in_order_witness:
  "\<exists>m. migrate_main sample_migrator (\<lambda>_. True) ''d'' (Some [(''02_03_fill.sh'', False), (''01_up.sql'', False)]) [] 0 =
     Some (True, [Migrated 1, Migrated 2, ScriptRan ''02_03_fill.sh'', Migrated 3], m)"
proof -
  let ?scripts = "[\<lparr>sc_afterVersion = 2, sc_name = ''02_03_fill.sh'', sc_path = ''d/02_03_fill.sh''\<rparr>]"
  have d: "discoverScripts ''d'' (Some [(''02_03_fill.sh'', False), (''01_up.sql'', False)]) = Some ?scripts" by code_simp
  have v: "mg_version sample_migrator 0 = 0" by (simp add: sample_migrator_def)
  have p: "concat (map (version_events ?scripts) (pending None 0 [1, 2, 3])) = [Migrated 1, Migrated 2, ScriptRan ''02_03_fill.sh'', Migrated 3]"
    by code_simp
  show ?thesis
    using migrations_and_scripts_in_order [OF sample_migrator_steps d, of "\<lambda>_. True" "[]" None 0] unfolding v p by auto
qed

text \<open>Before it goes down to a lower version, a run still runs the scripts of the version it leaves.\<close>

lemma scripts_run_before_down:
  "migrate_main sample_migrator (\<lambda>_. True) ''d'' (Some [(''02_03_fill.sh'', False)]) ''1'' 2 =
     Some (True, [ScriptRan ''02_03_fill.sh'', MigratedTo 1], 1)"
  by code_simp

end
