(* ===== verification/Database_Setup.thy ===== *)
theory Database_Setup
  imports Prelude
begin

text \<open>
  How a process gets its database: \<^verbatim>\<open>pkg/database/database.go\<close>, \<^verbatim>\<open>env\<close>, and the connection of
  \<^verbatim>\<open>pkg/database/sql\<close>. The package keeps the database in a variable that a \<^verbatim>\<open>sync.Once\<close> guards, which is the
  state here. The drivers and the schema version they read are the environment; the retry library
  tries ten times.
\<close>

section \<open>Definitions\<close>

definition DbEnvVars :: "string list" where
  "DbEnvVars = [''DATABASE_KIND'', ''DATABASE_DB'', ''DATABASE_USER'', ''DATABASE_PASSWORD'', ''DATABASE_URL'', ''DATABASE_PORT'']"

text \<open>The left side lists the variables that are not set.\<close>

definition NewDatabaseEnvironment :: "(string \<Rightarrow> string option) \<Rightarrow> string list + (string, string) gomap" where
  "NewDatabaseEnvironment getenv =
     (case filter (\<lambda>n. getenv n = None) DbEnvVars of
        [] \<Rightarrow> Inr (foldl (\<lambda>m n. gomap_set m n (the (getenv n))) [] DbEnvVars)
      | missing \<Rightarrow> Inl missing)"

record db_env =
  de_getenv :: "string \<Rightarrow> string option"
  de_open :: "string \<Rightarrow> string \<Rightarrow> nat \<Rightarrow> bool"
  de_metrics :: bool
  de_version :: "string option"

record db_globals =
  dg_done :: bool
  dg_db :: "string option"

datatype db_error =
    MissingVariables "string list" | NoConnection | MetricsFailed | NotRegistered string | VersionFailed
  | BadVersion string | VersionOutside int

definition DatabaseSchemaVersions :: "(string, int \<times> int) gomap" where
  "DatabaseSchemaVersions = [(''postgresql'', (10, 13)), (''mariadb'', (1, 1))]"

definition GetDriverName :: "string \<Rightarrow> string" where
  "GetDriverName kind = (if kind = ''postgresql'' then ''postgres'' else ''mysql'')"

definition var :: "(string, string) gomap \<Rightarrow> string \<Rightarrow> string" where
  "var e n = gomap_get0 [] e n"

definition pg_GetConnectionString :: "(string, string) gomap \<Rightarrow> string" where
  "pg_GetConnectionString e =
     ''user='' @ var e ''DATABASE_USER'' @ '' password='' @ var e ''DATABASE_PASSWORD'' @ '' dbname='' @ var e ''DATABASE_DB''
     @ '' host='' @ var e ''DATABASE_URL'' @ '' port='' @ var e ''DATABASE_PORT'' @ '' sslmode=require''"

definition maria_GetConnectionString :: "(string, string) gomap \<Rightarrow> string" where
  "maria_GetConnectionString e =
     var e ''DATABASE_USER'' @ '':'' @ var e ''DATABASE_PASSWORD'' @ ''@tcp('' @ var e ''DATABASE_URL'' @ '':'' @ var e ''DATABASE_PORT''
     @ '')/'' @ var e ''DATABASE_DB''"

text \<open>\<^verbatim>\<open>RegisteredDatabases\<close>: the connection string of a registered kind.\<close>

definition connectionString :: "string \<Rightarrow> ((string, string) gomap \<Rightarrow> string) option" where
  "connectionString kind =
     (if kind = ''postgresql'' then Some pg_GetConnectionString
      else if kind = ''mariadb'' then Some maria_GetConnectionString else None)"

definition establishConnection :: "db_env \<Rightarrow> string \<Rightarrow> string \<Rightarrow> db_error option" where
  "establishConnection env driver cs =
     (if \<not> list_ex (de_open env driver cs) [0..<10] then Some NoConnection
      else if \<not> de_metrics env then Some MetricsFailed else None)"

definition check_version :: "db_env \<Rightarrow> string \<Rightarrow> db_error option" where
  "check_version env kind =
     (case de_version env of
        None \<Rightarrow> Some VersionFailed
      | Some v \<Rightarrow>
          (case gomap_get DatabaseSchemaVersions kind of
             None \<Rightarrow> Some (NotRegistered kind)
           | Some (lo, hi) \<Rightarrow>
               (case parse_int v of
                  None \<Rightarrow> Some (BadVersion v)
                | Some i \<Rightarrow> if i < lo \<or> hi < i then Some (VersionOutside i) else None)))"

text \<open>The function that \<^verbatim>\<open>once\<close> runs: the error, and the variable \<^verbatim>\<open>db\<close> after it.\<close>

definition init_database :: "db_env \<Rightarrow> db_error option \<times> string option" where
  "init_database env =
     (case NewDatabaseEnvironment (de_getenv env) of
        Inl missing \<Rightarrow> (Some (MissingVariables missing), None)
      | Inr e \<Rightarrow>
          let kind = var e ''DATABASE_KIND''
          in case connectionString kind of
               None \<Rightarrow> (Some (NotRegistered kind), None)
             | Some cs \<Rightarrow>
                 (case establishConnection env (GetDriverName kind) (cs e) of
                    Some err \<Rightarrow> (Some err, None)
                  | None \<Rightarrow> (check_version env kind, Some kind)))"

definition newDatabase :: "db_env \<Rightarrow> db_globals \<Rightarrow> (string option \<times> db_error option) \<times> db_globals" where
  "newDatabase env g =
     (if dg_done g then ((dg_db g, None), g)
      else case init_database env of (err, db) \<Rightarrow> ((db, err), \<lparr>dg_done = True, dg_db = db\<rparr>))"

section \<open>What is logged of a connection\<close>

record connectionInfo =
  ci_host :: string
  ci_port :: string
  ci_database :: string
  ci_user :: string
  ci_sslMode :: string

definition info_part :: "connectionInfo \<Rightarrow> string \<Rightarrow> connectionInfo" where
  "info_part info part =
     (case cut_at (CHR ''='') part of
        (key, val, found) \<Rightarrow>
          if \<not> found then info
          else if key = ''host'' then info\<lparr>ci_host := val\<rparr>
          else if key = ''port'' then info\<lparr>ci_port := val\<rparr>
          else if key = ''dbname'' then info\<lparr>ci_database := val\<rparr>
          else if key = ''user'' then info\<lparr>ci_user := val\<rparr>
          else if key = ''sslmode'' then info\<lparr>ci_sslMode := val\<rparr>
          else info)"

definition or_text :: "string \<Rightarrow> string \<Rightarrow> string" where
  "or_text d s = (if s = [] then d else s)"

definition extractConnectionInfo :: "string \<Rightarrow> string \<Rightarrow> connectionInfo" where
  "extractConnectionInfo driver cs =
     (let info = \<lparr>ci_host = [], ci_port = [], ci_database = [], ci_user = [], ci_sslMode = []\<rparr>;
          info = (if driver = ''postgres'' then foldl info_part info (split_on (CHR '' '') cs) else info)
      in \<lparr>ci_host = or_text ''unknown'' (ci_host info), ci_port = or_text ''default'' (ci_port info),
          ci_database = or_text ''unknown'' (ci_database info), ci_user = or_text ''unknown'' (ci_user info),
          ci_sslMode = or_text ''unknown'' (ci_sslMode info)\<rparr>)"

section \<open>Properties\<close>

definition fresh_globals :: db_globals where
  "fresh_globals = \<lparr>dg_done = False, dg_db = None\<rparr>"

text \<open>What a process needs: all variables, a registered kind, a connection, and a schema in the range of the kind.\<close>

definition database_ready :: "db_env \<Rightarrow> string \<Rightarrow> bool" where
  "database_ready env kind \<longleftrightarrow>
     (\<exists>e cs lo hi v i. NewDatabaseEnvironment (de_getenv env) = Inr e \<and> var e ''DATABASE_KIND'' = kind \<and> connectionString kind = Some cs
        \<and> (\<exists>n<10. de_open env (GetDriverName kind) (cs e) n) \<and> de_metrics env \<and> de_version env = Some v \<and> parse_int v = Some i
        \<and> gomap_get DatabaseSchemaVersions kind = Some (lo, hi) \<and> lo \<le> i \<and> i \<le> hi)"

lemma establishConnection_None:
  "establishConnection env d cs = None \<longleftrightarrow> (\<exists>n<10. de_open env d cs n) \<and> de_metrics env"
  by (auto simp: establishConnection_def list_ex_iff Bex_def)

lemma check_version_None:
  "check_version env kind = None \<longleftrightarrow>
     (\<exists>v i lo hi. de_version env = Some v \<and> parse_int v = Some i \<and> gomap_get DatabaseSchemaVersions kind = Some (lo, hi) \<and> lo \<le> i \<and> i \<le> hi)"
  by (auto simp: check_version_def not_less split: option.splits)

lemma init_database_ready:
  "init_database env = (None, Some kind) \<longleftrightarrow> database_ready env kind"
  unfolding init_database_def database_ready_def
  by (auto simp: Let_def establishConnection_None check_version_None split: sum.splits option.splits)
    (metis establishConnection_None option.distinct(1))

lemma first_call_db:
  "fst (newDatabase env fresh_globals) = (Some kind, None) \<longleftrightarrow> database_ready env kind"
  by (auto simp: newDatabase_def fresh_globals_def init_database_ready [symmetric] split: prod.splits)

text \<open>The first call gives a database without an error exactly when the process has all it needs,
  with a schema version in the range the code was written for, and then every later call gives the
  same database.\<close>

theorem first_call_checks_schema:
  "(fst (newDatabase env fresh_globals) = (Some kind, None) \<longleftrightarrow> database_ready env kind)
   \<and> (database_ready env kind \<longrightarrow> fst (newDatabase env' (snd (newDatabase env fresh_globals))) = (Some kind, None))"
proof -
  have "fst (newDatabase env fresh_globals) = (Some kind, None) \<longleftrightarrow> init_database env = (None, Some kind)"
    by (auto simp: newDatabase_def fresh_globals_def split: prod.splits)
  moreover have "fst (newDatabase env' (snd (newDatabase env fresh_globals))) = (Some kind, None)" if "init_database env = (None, Some kind)"
    using that by (simp add: newDatabase_def fresh_globals_def)
  ultimately show ?thesis by (simp add: init_database_ready)
qed

definition sample_db_env :: "string \<Rightarrow> db_env" where
  "sample_db_env version =
     \<lparr>de_getenv = (\<lambda>n. Some (if n = ''DATABASE_KIND'' then ''postgresql'' else ''x'')), de_open = (\<lambda>_ _ n. n = 3), de_metrics = True,
      de_version = Some version\<rparr>"

theorem first_call_checks_schema_witness:
  "fst (newDatabase (sample_db_env ''13'') fresh_globals) = (Some ''postgresql'', None)
   \<and> database_ready (sample_db_env ''13'') ''postgresql'' \<and> \<not> database_ready (sample_db_env ''14'') ''postgresql''
   \<and> fst (newDatabase (sample_db_env ''14'') (snd (newDatabase (sample_db_env ''13'') fresh_globals))) = (Some ''postgresql'', None)"
proof -
  have "fst (newDatabase (sample_db_env ''13'') fresh_globals) = (Some ''postgresql'', None)"
    "fst (newDatabase (sample_db_env ''14'') fresh_globals) \<noteq> (Some ''postgresql'', None)" by code_simp+
  then show ?thesis
    using first_call_checks_schema [of "sample_db_env ''13''" "''postgresql''" "sample_db_env ''14''"]
      first_call_checks_schema [of "sample_db_env ''14''" "''postgresql''" "sample_db_env ''14''"] by blast
qed

text \<open>Whatever the first call found, a later one has no error, so that a database with a schema outside the range is given out.\<close>

lemma later_calls_hide_errors:
  "snd (fst (newDatabase env' (snd (newDatabase env fresh_globals)))) = None"
  by (simp add: newDatabase_def fresh_globals_def split: prod.splits)

lemma refused_schema_given_out:
  "fst (newDatabase (sample_db_env ''14'') fresh_globals) = (Some ''postgresql'', Some (VersionOutside 14))
   \<and> fst (newDatabase (sample_db_env ''14'') (snd (newDatabase (sample_db_env ''14'') fresh_globals))) = (Some ''postgresql'', None)"
  by code_simp

end
