(* ===== verification/Schema_Upgrade.thy ===== *)
theory Schema_Upgrade
  imports Migrations Database_Setup
begin

text \<open>
  The migration together with the check that the servers make when they start: which schema versions
  a run leaves, and whether a server accepts them.
\<close>

section \<open>Definitions\<close>

text \<open>The versions of the files under \<^verbatim>\<open>integrations/database/postgresql/migrations\<close>.\<close>

definition postgresql_migrations :: "nat list" where
  "postgresql_migrations = [1..<14]"

text \<open>A server that has everything but the schema version: variables for PostgreSQL and a connection.\<close>

definition connects :: "db_env \<Rightarrow> bool" where
  "connects env \<longleftrightarrow>
     (\<exists>e. NewDatabaseEnvironment (de_getenv env) = Inr e \<and> var e ''DATABASE_KIND'' = ''postgresql''
        \<and> (\<exists>n<10. de_open env (GetDriverName ''postgresql'') (pg_GetConnectionString e) n) \<and> de_metrics env)"

section \<open>Lemmas\<close>

lemma until_reached_upt: "a \<le> t \<Longrightarrow> t < b \<Longrightarrow> until_reached (Some t) [a..<b] = [a..<Suc t]"
proof (induction "b - a" arbitrary: a)
  case (Suc n)
  then have b: "[a..<b] = a # [Suc a..<b]" by (simp add: upt_conv_Cons)
  show ?case
  proof (cases "a = t")
    case True
    then show ?thesis unfolding b by (simp add: reached_def)
  next
    case False
    with Suc have "until_reached (Some t) [Suc a..<b] = [Suc a..<Suc t]" "[a..<Suc t] = a # [Suc a..<Suc t]"
      by (simp_all add: upt_conv_Cons del: upt_Suc)
    with False Suc.prems show ?thesis unfolding b by (simp add: reached_def del: upt_Suc)
  qed
qed simp

lemma until_reached_all: "until_reached None ws = ws"
  by (induction ws) (simp_all add: reached_def)

lemma filter_above: "filter ((<) v) [Suc 0..<b] = [Suc v..<b]"
proof (induction b)
  case (Suc b)
  then show ?case by (cases "b = 0") auto
qed simp

lemma last_pending:
  assumes "v \<le> t" "t \<le> 13" "target = Some t \<or> target = None \<and> t = 13"
  shows "last (v # pending target v postgresql_migrations) = t"
proof (cases "v = t")
  case True
  with assms show ?thesis
    by (auto simp: pending_def postgresql_migrations_def filter_above reached_def until_reached_all)
next
  case False
  with assms have "Suc v \<le> t" "\<not> reached target v" by (auto simp: reached_def)
  with assms have "pending target v postgresql_migrations = [Suc v..<Suc t]"
    by (auto simp: pending_def postgresql_migrations_def filter_above until_reached_upt until_reached_all simp del: upt_Suc)
  with False assms(1) show ?thesis by auto
qed

lemma accepted_version:
  assumes "connects env" "de_version env = Some (show_int i)" "0 \<le> i" "i \<le> 13"
  shows "database_ready env ''postgresql'' \<longleftrightarrow> 10 \<le> i"
proof -
  have r: "gomap_get DatabaseSchemaVersions ''postgresql'' = Some (10, 13)" by code_simp
  have p: "parse_int (show_int i) = Some i" using assms(3,4) by (intro parse_int_show_int) (simp add: in_int64_def)
  have c: "connectionString ''postgresql'' = Some cs \<longleftrightarrow> cs = pg_GetConnectionString" for cs
    by (auto simp: connectionString_def)
  show ?thesis using assms unfolding database_ready_def connects_def r p c by (auto simp: p)
qed

section \<open>Properties\<close>

text \<open>C35: the servers accept what the migration leaves: a run on the migrations of the repository whose
  scripts work ends, leaves the version of the target, or the last one without a target, and a
  server that can connect then starts with the database exactly when this version is at least ten.\<close>

theorem migrated_schema_accepted:
  fixes mg :: "'m migrator"
  assumes "steps_through mg postgresql_migrations" "discoverScripts dir (Some entries) = Some scripts" "scripts \<noteq> []"
    and "\<forall>s\<in>set scripts. exec (sc_path s)"
    and "if targetVersion = [] then t = 13 else parse_uint32 targetVersion = Some t \<and> t \<le> 13" and "mg_version mg m \<le> t"
  shows "\<exists>events m'. migrate_main mg exec dir (Some entries) targetVersion m = Some (True, events, m') \<and> mg_version mg m' = t
    \<and> (\<forall>env. connects env \<and> de_version env = Some (show_int (int (mg_version mg m'))) \<longrightarrow>
          (fst (newDatabase env fresh_globals) = (Some ''postgresql'', None) \<longleftrightarrow> 10 \<le> t))"
proof -
  let ?target = "if targetVersion = [] then None else Some t"
  have t: "t \<le> 13" using assms(5) by (simp split: if_splits)
  have "if targetVersion = [] then ?target = None else ?target = parse_uint32 targetVersion \<and> ?target \<noteq> None"
    "\<forall>u. ?target = Some u \<longrightarrow> mg_version mg m \<le> u" using assms(5,6) by auto
  from migrate_in_order [OF assms(1-4) this] obtain events m' where
    m: "migrate_main mg exec dir (Some entries) targetVersion m = Some (True, events, m')"
    "mg_version mg m' = last (mg_version mg m # pending ?target (mg_version mg m) postgresql_migrations)" by blast
  have "mg_version mg m' = t" unfolding m(2) using assms(5,6) t by (intro last_pending) auto
  moreover from this t have "connects env \<and> de_version env = Some (show_int (int (mg_version mg m'))) \<longrightarrow>
      (fst (newDatabase env fresh_globals) = (Some ''postgresql'', None) \<longleftrightarrow> 10 \<le> t)" for env
    unfolding first_call_db using accepted_version [of env "int t"] by simp
  ultimately show ?thesis using m(1) by blast
qed

text \<open>A library that steps through the migrations of the repository, whose state is the version.\<close>

definition repository_migrator :: "nat migrator" where
  "repository_migrator =
     \<lparr>mg_version = (\<lambda>m. m),
      mg_step = (\<lambda>m. case filter (\<lambda>w. m < w) postgresql_migrations of [] \<Rightarrow> (NoMore, m) | w # _ \<Rightarrow> (Stepped, w)),
      mg_migrate = (\<lambda>v m. (True, v)), mg_up = (\<lambda>m. (True, 13))\<rparr>"

lemma repository_migrator_steps: "steps_through repository_migrator postgresql_migrations"
  unfolding steps_through_def
  by (simp add: repository_migrator_def postgresql_migrations_def strict_sorted_iff del: upt_Suc split: list.splits)

theorem migrated_schema_accepted_witness:
  "\<exists>events m'. migrate_main repository_migrator (\<lambda>_. True) ''d'' (Some [(''07_08_populate_label_tables.sh'', False)]) [] 6 =
       Some (True, events, m') \<and> m' = 13
     \<and> fst (newDatabase (sample_db_env ''13'') fresh_globals) = (Some ''postgresql'', None)"
proof -
  let ?scripts = "[\<lparr>sc_afterVersion = 7, sc_name = ''07_08_populate_label_tables.sh'', sc_path = ''d/07_08_populate_label_tables.sh''\<rparr>]"
  have d: "discoverScripts ''d'' (Some [(''07_08_populate_label_tables.sh'', False)]) = Some ?scripts" by code_simp
  have v: "mg_version repository_migrator n = n" for n by (simp add: repository_migrator_def)
  have c: "connects (sample_db_env ''13'')"
  proof -
    obtain e where "NewDatabaseEnvironment (de_getenv (sample_db_env ''13'')) = Inr e" "var e ''DATABASE_KIND'' = ''postgresql''"
    proof
      let ?e = "foldl (\<lambda>m n. gomap_set m n (the (de_getenv (sample_db_env ''13'') n))) [] DbEnvVars"
      show "NewDatabaseEnvironment (de_getenv (sample_db_env ''13'')) = Inr ?e"
        by (simp add: NewDatabaseEnvironment_def sample_db_env_def)
      show "var ?e ''DATABASE_KIND'' = ''postgresql''" by code_simp
    qed
    then show ?thesis unfolding connects_def by (auto simp: sample_db_env_def)
  qed
  have s: "de_version (sample_db_env ''13'') = Some (show_int 13)" by code_simp
  from migrated_schema_accepted [OF repository_migrator_steps d, of "\<lambda>_. True" "[]" 13 6] c s show ?thesis unfolding v by auto
qed

end
