(* ===== verification/Telemetry.thy ===== *)
theory Telemetry
  imports Log_Requests
begin

text \<open>
  Log lines and telemetry: the start and the shutdown of OpenTelemetry (\<^verbatim>\<open>pkg/observability/trace.go\<close>), log
  levels (\<^verbatim>\<open>pkg/logging\<close>, \<^verbatim>\<open>pkg/middleware\<close>) and the identifiers that log lines carry.

  The environment holds the variables and whether the libraries accept what they are asked for. What
  a start leaves behind in the globals of the libraries is a record.
\<close>

section \<open>The environment\<close>

text \<open>\<open>su_env\<close> is \<^verbatim>\<open>os.LookupEnv\<close>, \<open>su_isFloat\<close> tells whether \<^verbatim>\<open>strconv.ParseFloat\<close> reads a text.\<close>

record telemetry_env =
  su_env :: "string \<Rightarrow> string option"
  su_klog :: "string \<Rightarrow> bool"
  su_isFloat :: "string \<Rightarrow> bool"
  su_resource :: bool
  su_traceExporter :: bool
  su_metricExporter :: bool
  su_hostMetrics :: bool
  su_runtimeMetrics :: bool
  su_logExporter :: bool

text \<open>\<^verbatim>\<open>os.Getenv\<close>.\<close>

definition su_getenv :: "'a telemetry_env_scheme \<Rightarrow> string \<Rightarrow> string" where
  "su_getenv env n = (case su_env env n of None \<Rightarrow> [] | Some v \<Rightarrow> v)"

section \<open>Starting OpenTelemetry\<close>

datatype sampler = AlwaysSample | TraceIDRatioBased string | ParentBased sampler

datatype otel_error =
    ResourceFailed | TraceExporterFailed | BadMode string | MetricExporterFailed | BadInterval string
  | HostMetricsFailed | RuntimeMetricsFailed | LogExporterFailed

record telemetry =
  tm_tracer :: "sampler option"
  tm_meter :: "int option"
  tm_propagator :: bool
  tm_logger :: bool
  tm_logExporter :: bool

definition no_telemetry :: telemetry where
  "no_telemetry = \<lparr>tm_tracer = None, tm_meter = None, tm_propagator = False, tm_logger = False, tm_logExporter = False\<rparr>"

definition canSkipInit :: "'a telemetry_env_scheme \<Rightarrow> bool" where
  "canSkipInit env \<longleftrightarrow> to_lower (su_getenv env ''KUBEARCHIVE_OTEL_MODE'') = ''disabled''"

definition sample_rate :: "'a telemetry_env_scheme \<Rightarrow> sampler" where
  "sample_rate env =
     (case su_env env ''OTEL_TRACES_SAMPLER_ARG'' of
        None \<Rightarrow> AlwaysSample
      | Some raw \<Rightarrow> if su_isFloat env raw then TraceIDRatioBased raw else AlwaysSample)"

definition otel_sampler :: "'a telemetry_env_scheme \<Rightarrow> otel_error + sampler" where
  "otel_sampler env =
     (let mode = su_getenv env ''KUBEARCHIVE_OTEL_MODE''
      in if mode = ''enabled'' then Inr (sample_rate env)
         else if mode = ''delegated'' then Inr (ParentBased (sample_rate env))
         else Inl (BadMode mode))"

text \<open>The interval in nanoseconds, a minute unless one is set.\<close>

definition metrics_interval :: "'a telemetry_env_scheme \<Rightarrow> int option" where
  "metrics_interval env =
     (let raw = su_getenv env ''KUBEARCHIVE_METRICS_INTERVAL''
      in if raw \<noteq> [] then ParseDuration raw else Some (60 * 10 ^ 9))"

definition start_metrics :: "'a telemetry_env_scheme \<Rightarrow> telemetry \<Rightarrow> otel_error option \<times> telemetry" where
  "start_metrics env t =
     (if \<not> su_metricExporter env then (Some MetricExporterFailed, t)
      else case metrics_interval env of
             None \<Rightarrow> (Some (BadInterval (su_getenv env ''KUBEARCHIVE_METRICS_INTERVAL'')), t)
           | Some i \<Rightarrow>
               let t = t\<lparr>tm_meter := Some i\<rparr>
               in if \<not> su_hostMetrics env then (Some HostMetricsFailed, t)
                  else if \<not> su_runtimeMetrics env then (Some RuntimeMetricsFailed, t)
                  else (None, t\<lparr>tm_propagator := True\<rparr>))"

definition start_logs :: "'a telemetry_env_scheme \<Rightarrow> telemetry \<Rightarrow> otel_error option \<times> telemetry" where
  "start_logs env t =
     (if su_getenv env ''KUBEARCHIVE_OTLP_SEND_LOGS'' \<noteq> ''true'' then (None, t)
      else let t = t\<lparr>tm_logger := True\<rparr>
           in if \<not> su_logExporter env then (Some LogExporterFailed, t) else (None, t\<lparr>tm_logExporter := True\<rparr>))"

definition otel_Start :: "'a telemetry_env_scheme \<Rightarrow> otel_error option \<times> telemetry" where
  "otel_Start env =
     (if canSkipInit env then (None, no_telemetry)
      else if \<not> su_resource env then (Some ResourceFailed, no_telemetry)
      else if \<not> su_traceExporter env then (Some TraceExporterFailed, no_telemetry)
      else case otel_sampler env of
             Inl e \<Rightarrow> (Some e, no_telemetry)
           | Inr s \<Rightarrow>
               (case start_metrics env (no_telemetry\<lparr>tm_tracer := Some s\<rparr>) of
                  (Some e, t) \<Rightarrow> (Some e, t)
                | (None, t) \<Rightarrow> start_logs env t))"

definition otel_Status :: "'a telemetry_env_scheme \<Rightarrow> string" where
  "otel_Status env = (let v = su_getenv env ''KUBEARCHIVE_OTEL_MODE'' in if v = [] then ''disabled'' else v)"

text \<open>Flushing and shutting down need the provider of a start; \<open>True\<close> stands for no error.\<close>

definition FlushSpanBuffer :: "bool \<Rightarrow> telemetry \<Rightarrow> bool" where
  "FlushSpanBuffer flushed t \<longleftrightarrow> tm_tracer t \<noteq> None \<and> flushed"

definition otel_Shutdown :: "bool \<Rightarrow> bool \<Rightarrow> telemetry \<Rightarrow> bool" where
  "otel_Shutdown flushed stopped t \<longleftrightarrow> tm_tracer t \<noteq> None \<and> FlushSpanBuffer flushed t \<and> stopped"

section \<open>Log levels\<close>

text \<open>\<^verbatim>\<open>slog.Level.UnmarshalText\<close>: a name and an offset.\<close>

definition log_level :: "string \<Rightarrow> int option" where
  "log_level s =
     (let name = takeWhile (\<lambda>c. c \<noteq> CHR ''+'' \<and> c \<noteq> CHR ''-'') s; rest = dropWhile (\<lambda>c. c \<noteq> CHR ''+'' \<and> c \<noteq> CHR ''-'') s;
          base = map_of [(''DEBUG'', -4), (''INFO'', 0), (''WARN'', 4), (''ERROR'', 8)] (to_upper name)
      in if rest = [] then base
         else case parse_int rest of None \<Rightarrow> None | Some offset \<Rightarrow> map_option (\<lambda>b. b + offset) base)"

text \<open>\<^verbatim>\<open>middleware.Logger\<close>: the level of a request, whose path is taken with its query.\<close>

definition path_levels :: "(string, string) gomap \<Rightarrow> (string, int) gomap" where
  "path_levels conf = map (\<lambda>(p, v). (p, case log_level v of None \<Rightarrow> 0 | Some l \<Rightarrow> l)) conf"

definition request_level :: "(string, string) gomap \<Rightarrow> string \<Rightarrow> string \<Rightarrow> int" where
  "request_level conf path query = gomap_get0 0 (path_levels conf) (if query \<noteq> [] then path @ ''?'' @ query else path)"

datatype logging_error = KlogLevel string | NoLogLevel string

definition ConfigureLogging :: "'a telemetry_env_scheme \<Rightarrow> logging_error + int" where
  "ConfigureLogging env =
     (let klogLevel = (if su_getenv env ''KLOG_LEVEL'' = [] then ''0'' else su_getenv env ''KLOG_LEVEL'');
          levelText = (if su_getenv env ''LOG_LEVEL'' = [] then ''INFO'' else su_getenv env ''LOG_LEVEL'')
      in if \<not> su_klog env klogLevel then Inl (KlogLevel klogLevel)
         else case log_level levelText of None \<Rightarrow> Inl (NoLogLevel levelText) | Some l \<Rightarrow> Inr l)"

section \<open>Identifiers of log lines\<close>

text \<open>\<^verbatim>\<open>hex.EncodeToString\<close>.\<close>

definition hex_lower :: "nat \<Rightarrow> char" where
  "hex_lower n = ''0123456789abcdef'' ! n"

definition hex_encode :: "string \<Rightarrow> string" where
  "hex_encode bs = concat (map (\<lambda>b. let n = of_char b :: nat in [hex_lower (n div 16), hex_lower (n mod 16)]) bs)"

text \<open>
  \<^verbatim>\<open>TracingMiddleware\<close>: the identifiers of the span of the request, or random bytes where it has none.
\<close>

definition TracingMiddleware :: "string option \<times> string option \<Rightarrow> string \<Rightarrow> string \<Rightarrow> string \<times> string" where
  "TracingMiddleware span random16 random8 =
     (case fst span of None \<Rightarrow> hex_encode random16 | Some i \<Rightarrow> i,
      case snd span of None \<Rightarrow> hex_encode random8 | Some i \<Rightarrow> i)"

text \<open>\<^verbatim>\<open>ContextHandler.Handle\<close> adds the identifiers that the context holds to the attributes of a line.\<close>

definition Handle :: "(string, string) gomap \<Rightarrow> (string \<times> string) list \<Rightarrow> (string \<times> string) list" where
  "Handle ctx attrs =
     attrs @ (case gomap_get ctx ''trace-id'' of None \<Rightarrow> [] | Some v \<Rightarrow> [(''trace-id'', v)])
           @ (case gomap_get ctx ''span-id'' of None \<Rightarrow> [] | Some v \<Rightarrow> [(''span-id'', v)])"

section \<open>Lemmas\<close>

lemma length_hex_encode: "length (hex_encode bs) = 2 * length bs"
  by (induction bs) (simp_all add: hex_encode_def Let_def)

lemma hex_lower_digit: "n < 16 \<Longrightarrow> hex_digit (hex_lower n) = Some n"
proof -
  assume n: "n < 16"
  have "list_all (\<lambda>n. hex_digit (hex_lower n) = Some n) [0..<16]" by code_simp
  then show ?thesis using n by (simp add: list_all_iff)
qed

text \<open>Different bytes have different texts.\<close>

lemma hex_lower_inj:
  assumes "n < 16" "m < 16" "hex_lower n = hex_lower m"
  shows "n = m"
  using hex_lower_digit [OF assms(1)] unfolding assms(3) hex_lower_digit [OF assms(2)] by simp

lemma hex_byte_inj:
  assumes "hex_lower (of_char a div 16) = hex_lower (of_char b div 16)" "hex_lower (of_char a mod 16) = hex_lower (of_char b mod 16)"
  shows "a = b"
proof -
  have "of_char a div 16 = (of_char b div 16 :: nat)" by (rule hex_lower_inj [OF of_char_halves(1) of_char_halves(1) assms(1)])
  moreover have "of_char a mod 16 = (of_char b mod 16 :: nat)" by (rule hex_lower_inj [OF of_char_halves(2) of_char_halves(2) assms(2)])
  ultimately show ?thesis using of_char_split [of a] of_char_split [of b] by metis
qed

lemma hex_encode_simps [simp]:
  "hex_encode [] = []"
  "hex_encode (b # bs) = hex_lower (of_char b div 16) # hex_lower (of_char b mod 16) # hex_encode bs"
  by (simp_all add: hex_encode_def Let_def)

lemma hex_encode_inj: "hex_encode as = hex_encode bs \<Longrightarrow> as = bs"
proof (induction as arbitrary: bs)
  case Nil
  then show ?case by (cases bs) simp_all
next
  case (Cons a as)
  then obtain b bs' where bs: "bs = b # bs'" by (cases bs) simp_all
  from Cons.prems have "a = b" unfolding bs hex_encode_simps list.inject by (elim conjE) (rule hex_byte_inj)
  moreover from Cons.prems have "hex_encode as = hex_encode bs'" unfolding bs hex_encode_simps list.inject by (elim conjE)
  ultimately show ?case using Cons.IH unfolding bs by blast
qed

text \<open>A start without an error has set up everything or, for the mode that skips it, nothing.\<close>

lemma otel_Start_all_or_nothing:
  assumes "otel_Start env = (None, t)"
  shows "(canSkipInit env \<and> t = no_telemetry)
    \<or> (\<exists>s i. otel_sampler env = Inr s \<and> tm_tracer t = Some s \<and> metrics_interval env = Some i \<and> tm_meter t = Some i \<and> tm_propagator t
         \<and> (tm_logger t \<longleftrightarrow> su_getenv env ''KUBEARCHIVE_OTLP_SEND_LOGS'' = ''true'') \<and> tm_logExporter t = tm_logger t)"
  using assms
  by (auto simp: otel_Start_def start_metrics_def start_logs_def no_telemetry_def Let_def
      split: if_splits sum.splits option.splits prod.splits)

text \<open>
  Only the value that skips telemetry is read without regard to case, and an unset mode, which the
  status reports as disabled, is refused.
\<close>

lemma unset_mode_not_skipped:
  assumes "su_getenv env ''KUBEARCHIVE_OTEL_MODE'' = []" "su_resource env" "su_traceExporter env"
  shows "otel_Status env = ''disabled'' \<and> otel_Start env = (Some (BadMode []), no_telemetry)"
  using assms by (simp add: otel_Status_def canSkipInit_def otel_Start_def otel_sampler_def)

lemma mode_case_refused:
  assumes "su_getenv env ''KUBEARCHIVE_OTEL_MODE'' = ''Enabled''" "su_resource env" "su_traceExporter env"
  shows "otel_Start env = (Some (BadMode ''Enabled''), no_telemetry)"
  using assms by (simp add: canSkipInit_def otel_Start_def otel_sampler_def go_simps)

end
