(* ===== verification/Startup.thy ===== *)
theory Startup
  imports Telemetry Database_Setup
begin

text \<open>
  How the API server and the sink start: the expirations of the cache and the order of the checks in
  the two \<^verbatim>\<open>main\<close> functions, and the health endpoints. The environment of telemetry is extended by the
  database and by whether there is a client of the cluster.
\<close>

section \<open>Starting\<close>

record startup_env = telemetry_env +
  su_db :: db_env
  su_client :: bool

datatype startup_error = Unset string | NotADuration string string

record cacheExpirations =
  ce_Authorized :: int
  ce_Unauthorized :: int

definition read_expiration :: "startup_env \<Rightarrow> string \<Rightarrow> startup_error + int" where
  "read_expiration env n =
     (let v = su_getenv env n
      in if v = [] then Inl (Unset n)
         else case ParseDuration v of None \<Rightarrow> Inl (NotADuration n v) | Some d \<Rightarrow> Inr d)"

definition getCacheExpirations :: "startup_env \<Rightarrow> startup_error + cacheExpirations" where
  "getCacheExpirations env =
     (case read_expiration env ''CACHE_EXPIRATION_AUTHORIZED'' of
        Inl e \<Rightarrow> Inl e
      | Inr a \<Rightarrow>
          (case read_expiration env ''CACHE_EXPIRATION_UNAUTHORIZED'' of
             Inl e \<Rightarrow> Inl e
           | Inr u \<Rightarrow> Inr \<lparr>ce_Authorized = a, ce_Unauthorized = u\<rparr>))"

text \<open>How a \<^verbatim>\<open>main\<close> goes on: it exits, it panics on a nil pointer, or it serves.\<close>

datatype 'a process = Exits | PanicsNil | Serves 'a

text \<open>The error of the expirations is logged only, and the pointer is dereferenced after the database is there.\<close>

definition api_main :: "startup_env \<Rightarrow> (string \<times> cacheExpirations) process" where
  "api_main env =
     (case ConfigureLogging env of
        Inl _ \<Rightarrow> Exits
      | Inr _ \<Rightarrow>
          (case fst (newDatabase (su_db env) fresh_globals) of
             (_, Some _) \<Rightarrow> Exits
           | (db, None) \<Rightarrow>
               (case getCacheExpirations env of
                  Inl _ \<Rightarrow> PanicsNil
                | Inr ce \<Rightarrow>
                    if \<not> su_client env then Exits
                    else case db of None \<Rightarrow> PanicsNil | Some kind \<Rightarrow> Serves (kind, ce))))"

definition sink_main :: "startup_env \<Rightarrow> string process" where
  "sink_main env =
     (case ConfigureLogging env of
        Inl _ \<Rightarrow> Exits
      | Inr _ \<Rightarrow>
          if fst (otel_Start env) \<noteq> None then Exits
          else (case fst (newDatabase (su_db env) fresh_globals) of
                  (_, Some _) \<Rightarrow> Exits
                | (db, None) \<Rightarrow>
                    if \<not> su_client env then Exits
                    else case db of None \<Rightarrow> PanicsNil | Some kind \<Rightarrow> Serves kind))"

section \<open>Health\<close>

text \<open>The fields of the answers of \<^verbatim>\<open>Livez\<close>; \<open>mode\<close> is the mode of gin.\<close>

definition api_Livez :: "startup_env \<Rightarrow> string \<Rightarrow> cacheExpirations \<Rightarrow> int \<times> (string, string + int) gomap" where
  "api_Livez env mode ce =
     (200, [(''code'', Inr 200), (''ginMode'', Inl mode), (''authCacheTTL'', Inr (ce_Authorized ce)),
            (''unAuthCacheTTL'', Inr (ce_Unauthorized ce)), (''openTelemetry'', Inl (otel_Status env)), (''message'', Inl ''healthy'')])"

definition sink_Livez :: "startup_env \<Rightarrow> string \<Rightarrow> int \<times> (string, string + int) gomap" where
  "sink_Livez env mode =
     (200, [(''Code'', Inr 200), (''ginMode'', Inl mode), (''openTelemetry'', Inl (otel_Status env)), (''message'', Inl ''healthy'')])"

text \<open>\<^verbatim>\<open>Readyz\<close> of both servers; the argument is the answer of a ping.\<close>

definition Readyz :: "bool \<Rightarrow> int \<times> string option" where
  "Readyz ping = (if ping then (200, Some ''ready'') else (503, None))"

section \<open>Properties\<close>

lemma getCacheExpirations_iff:
  "getCacheExpirations env = Inr ce \<longleftrightarrow>
     read_expiration env ''CACHE_EXPIRATION_AUTHORIZED'' = Inr (ce_Authorized ce)
     \<and> read_expiration env ''CACHE_EXPIRATION_UNAUTHORIZED'' = Inr (ce_Unauthorized ce)"
  by (auto simp: getCacheExpirations_def split: sum.splits)

lemma first_call_no_nil: "fst (newDatabase env fresh_globals) \<noteq> (None, None)"
  by (auto simp: newDatabase_def fresh_globals_def init_database_def Let_def split: sum.splits option.splits prod.splits)

text \<open>The API server serves exactly when its log levels are valid, its database is ready with a schema in
  range, both expirations are durations and it has a client of the cluster, and it serves with
  these expirations; the sink serves exactly when its log levels are valid, telemetry has started,
  the database is ready and it has a client.\<close>

theorem servers_start_exactly:
  "(api_main env = Serves (kind, ce) \<longleftrightarrow>
      (\<exists>l. ConfigureLogging env = Inr l) \<and> database_ready (su_db env) kind \<and> su_client env
      \<and> read_expiration env ''CACHE_EXPIRATION_AUTHORIZED'' = Inr (ce_Authorized ce)
      \<and> read_expiration env ''CACHE_EXPIRATION_UNAUTHORIZED'' = Inr (ce_Unauthorized ce))
   \<and> (sink_main env = Serves kind \<longleftrightarrow>
      (\<exists>l. ConfigureLogging env = Inr l) \<and> fst (otel_Start env) = None \<and> database_ready (su_db env) kind \<and> su_client env)"
proof -
  obtain db err where d: "fst (newDatabase (su_db env) fresh_globals) = (db, err)" by (metis prod.exhaust)
  have ready: "database_ready (su_db env) kind \<longleftrightarrow> db = Some kind \<and> err = None"
    unfolding first_call_db [symmetric] d by simp
  have "api_main env = Serves (kind, ce) \<longleftrightarrow>
      (\<exists>l. ConfigureLogging env = Inr l) \<and> db = Some kind \<and> err = None \<and> su_client env \<and> getCacheExpirations env = Inr ce"
    unfolding api_main_def d by (auto split: sum.splits option.splits)
  moreover have "sink_main env = Serves kind \<longleftrightarrow>
      (\<exists>l. ConfigureLogging env = Inr l) \<and> fst (otel_Start env) = None \<and> db = Some kind \<and> err = None \<and> su_client env"
    unfolding sink_main_def d by (auto split: sum.splits option.splits)
  ultimately show ?thesis unfolding ready getCacheExpirations_iff by blast
qed

text \<open>An expiration that is not set or not a duration makes the server panic once its database is ready.\<close>

lemma missing_expirations_panic:
  assumes "ConfigureLogging env = Inr l" "database_ready (su_db env) kind" "getCacheExpirations env = Inl e"
  shows "api_main env = PanicsNil"
  using assms first_call_db [of "su_db env" kind] by (simp add: api_main_def)

text \<open>With the mode of telemetry unset the sink does not start, although its status would report telemetry as disabled.\<close>

lemma unset_mode_stops_sink:
  assumes "su_getenv env ''KUBEARCHIVE_OTEL_MODE'' = []"
  shows "sink_main env = Exits"
  using assms by (auto simp: sink_main_def otel_Start_def canSkipInit_def otel_sampler_def split: sum.split)

end
