(* ===== verification/Route_Types.thy ===== *)
theory Route_Types
  imports Go_Url
begin

text \<open>
  \<^verbatim>\<open>pkg/k8sclient/transport.go\<close>: the route attribute of the metrics on requests to the Kubernetes API. It
  names the kind of a request and must not depend on namespaces and names, of which there are
  many.
\<close>

section \<open>Definitions\<close>

text \<open>\<^verbatim>\<open>strings.Index\<close>: what follows the first occurrence of \<open>p\<close>.\<close>

fun after_first :: "string \<Rightarrow> string \<Rightarrow> string option" where
  "after_first p [] = (if p = [] then Some [] else None)"
| "after_first p (c # s) = (if has_prefix (c # s) p then Some (drop (length p) (c # s)) else after_first p s)"

definition contains :: "string \<Rightarrow> string \<Rightarrow> bool" where
  "contains p s \<longleftrightarrow> after_first p s \<noteq> None"

definition extractResourceFromPath :: "string \<Rightarrow> string \<Rightarrow> string" where
  "extractResourceFromPath path pre =
     (case after_first pre path of
        None \<Rightarrow> []
      | Some remaining \<Rightarrow>
          let parts = split_on (CHR ''/'') remaining
          in if contains ''namespaces/'' pre then (if length parts \<ge> 2 then parts ! 1 else [])
             else (if length parts > 0 then parts ! 0 else []))"

definition extractGroupAndKind :: "string \<Rightarrow> string \<times> string" where
  "extractGroupAndKind path =
     (case after_first ''/apis/'' path of
        None \<Rightarrow> ([], [])
      | Some remaining \<Rightarrow>
          let parts = split_on (CHR ''/'') remaining
          in if contains ''/namespaces/'' path then (if length parts \<ge> 5 then (parts ! 0, parts ! 4) else ([], []))
             else (if length parts \<ge> 3 then (parts ! 0, parts ! 2) else ([], [])))"

definition ExtractKubernetesRouteType :: "string \<Rightarrow> string" where
  "ExtractKubernetesRouteType path =
     (if contains ''/api'' path \<or> contains ''/apis'' path then
        if path = ''/api'' \<or> path = ''/apis'' then ''discovery.api_groups''
        else if path = ''/api/v1'' then ''discovery.core_resources''
        else if has_prefix path ''/apis/'' \<and> length (filter (\<lambda>c. c = CHR ''/'') path) = 3 then ''discovery.group_resources''
        else if contains ''/api/v1/namespaces/'' path \<and> extractResourceFromPath path ''/api/v1/namespaces/'' \<noteq> []
        then ''namespaced.core.'' @ extractResourceFromPath path ''/api/v1/namespaces/''
        else if has_prefix path ''/api/v1/'' \<and> \<not> contains ''namespaces'' path \<and> extractResourceFromPath path ''/api/v1/'' \<noteq> []
        then ''cluster.core.'' @ extractResourceFromPath path ''/api/v1/''
        else
          (case extractGroupAndKind path of
             (gr, kind) \<Rightarrow>
               if contains ''/apis/'' path \<and> contains ''/namespaces/'' path \<and> gr \<noteq> [] \<and> kind \<noteq> [] then ''namespaced.'' @ gr @ ''.'' @ kind
               else if has_prefix path ''/apis/'' \<and> \<not> contains ''/namespaces/'' path \<and> gr \<noteq> [] \<and> kind \<noteq> []
               then ''cluster.'' @ gr @ ''.'' @ kind
               else ''discovery.other'')
      else ''unknown'')"

section \<open>Lemmas\<close>

abbreviation slash :: char where
  "slash \<equiv> CHR ''/''"

lemma after_first_prefix: "has_prefix s p \<Longrightarrow> after_first p s = Some (drop (length p) s)"
  by (cases s) auto

lemma after_first_sublist: "after_first p s = None \<longleftrightarrow> \<not> sublist p s"
proof (induction s)
  case Nil
  then show ?case by simp
next
  case (Cons c s)
  then show ?case by (cases "has_prefix (c # s) p") (simp_all add: sublist_Cons_right)
qed

lemma contains_sublist: "contains p s \<longleftrightarrow> sublist p s"
  by (simp add: contains_def after_first_sublist)

lemma contains_appended: "contains p (a @ p @ b)"
  unfolding contains_sublist sublist_def by blast

lemma contains_trans: "contains p q \<Longrightarrow> contains q s \<Longrightarrow> contains p s"
  unfolding contains_sublist by (auto simp: sublist_def) (metis append.assoc)

text \<open>\<open>tail name\<close> is what follows the kind: nothing, or a slash and a name.\<close>

definition tail :: "string option \<Rightarrow> string" where
  "tail name = (case name of None \<Rightarrow> [] | Some n \<Rightarrow> slash # n)"

definition segment :: "string \<Rightarrow> bool" where
  "segment s \<longleftrightarrow> s \<noteq> [] \<and> slash \<notin> set s"

definition optional_segment :: "string option \<Rightarrow> bool" where
  "optional_segment name = (case name of None \<Rightarrow> True | Some n \<Rightarrow> segment n)"

lemma split_tail:
  assumes "segment kind" "optional_segment name"
  shows "\<exists>rest. split_on slash (kind @ tail name) = kind # rest"
  using assms by (cases name) (auto simp: tail_def segment_def optional_segment_def split_on_none split_on_cons)

lemma namespaced_core:
  assumes "segment ns" "segment kind" "optional_segment name"
  shows "ExtractKubernetesRouteType (''/api/v1/namespaces/'' @ ns @ slash # kind @ tail name) = ''namespaced.core.'' @ kind"
proof -
  let ?p = "''/api/v1/namespaces/'' @ ns @ slash # kind @ tail name"
  obtain rest where r: "split_on slash (kind @ tail name) = kind # rest" using split_tail [OF assms(2,3)] by blast
  have a: "after_first ''/api/v1/namespaces/'' ?p = Some (ns @ slash # kind @ tail name)"
    by (subst after_first_prefix) simp_all
  have "contains ''namespaces/'' ''/api/v1/namespaces/''" by code_simp
  then have e: "extractResourceFromPath ?p ''/api/v1/namespaces/'' = kind"
    using assms(1) r by (simp only: extractResourceFromPath_def a) (simp add: segment_def split_on_cons)
  have c: "contains ''/api'' ?p" unfolding contains_def by (subst after_first_prefix) simp_all
  have c': "contains ''/api/v1/namespaces/'' ?p" unfolding contains_def a by simp
  have "?p \<noteq> ''/api'' \<and> ?p \<noteq> ''/apis'' \<and> ?p \<noteq> ''/api/v1'' \<and> \<not> has_prefix ?p ''/apis/''" by simp
  with c c' e assms(2) show ?thesis unfolding ExtractKubernetesRouteType_def by (simp add: segment_def)
qed

lemma cluster_core:
  assumes "segment kind" "optional_segment name" "\<not> contains ''namespaces'' (kind @ tail name)"
  shows "ExtractKubernetesRouteType (''/api/v1/'' @ kind @ tail name) = ''cluster.core.'' @ kind"
proof -
  let ?r = "kind @ tail name"
  let ?p = "''/api/v1/'' @ ?r"
  obtain rest where r: "split_on slash ?r = kind # rest" using split_tail [OF assms(1,2)] by blast
  have a: "after_first ''/api/v1/'' ?p = Some ?r" by (subst after_first_prefix) simp_all
  have "\<not> contains ''namespaces/'' ''/api/v1/''" by code_simp
  then have e: "extractResourceFromPath ?p ''/api/v1/'' = kind"
    using r by (simp only: extractResourceFromPath_def a) simp
  have n: "\<not> contains ''namespaces'' ?p" using assms(3) unfolding contains_def by simp
  moreover have "contains ''namespaces'' ''/api/v1/namespaces/''" by code_simp
  ultimately have n': "\<not> contains ''/api/v1/namespaces/'' ?p" using contains_trans by blast
  have c: "contains ''/api'' ?p" unfolding contains_def by (subst after_first_prefix) simp_all
  have "?p \<noteq> ''/api'' \<and> ?p \<noteq> ''/apis'' \<and> ?p \<noteq> ''/api/v1'' \<and> \<not> has_prefix ?p ''/apis/''"
    using assms(1) by (simp add: segment_def)
  with n n' c e assms(1) show ?thesis unfolding ExtractKubernetesRouteType_def by (simp add: segment_def)
qed

text \<open>The paths of the resources of a group.\<close>

definition group_path :: "string \<Rightarrow> string \<Rightarrow> string \<Rightarrow> string \<Rightarrow> string option \<Rightarrow> string" where
  "group_path g v ns kind name = ''/apis/'' @ g @ slash # v @ ''/namespaces/'' @ ns @ slash # kind @ tail name"

lemma namespaced_group:
  assumes "segment g" "segment v" "segment ns" "segment kind" "optional_segment name"
    and other: "\<not> contains ''/api/v1/namespaces/'' (group_path g v ns kind name)"
  shows "ExtractKubernetesRouteType (group_path g v ns kind name) = ''namespaced.'' @ g @ ''.'' @ kind"
proof -
  let ?p = "group_path g v ns kind name"
  let ?r = "g @ slash # v @ slash # ''namespaces'' @ slash # ns @ slash # kind @ tail name"
  have p: "?p = ''/apis/'' @ ?r" by (simp add: group_path_def)
  obtain rest where r: "split_on slash (kind @ tail name) = kind # rest" using split_tail [OF assms(4,5)] by blast
  have a: "after_first ''/apis/'' ?p = Some ?r" unfolding p by (subst after_first_prefix) simp_all
  have n: "split_on slash (''namespaces'' @ slash # t) = ''namespaces'' # split_on slash t" for t
    by (rule split_on_cons) simp
  have free: "slash \<notin> set g" "slash \<notin> set v" "slash \<notin> set ns" using assms(1-3) by (simp_all add: segment_def)
  have s: "split_on slash ?r = g # v # ''namespaces'' # ns # kind # rest"
    by (simp only: split_on_cons [OF free(1)] split_on_cons [OF free(2)] split_on_cons [OF free(3)] n r)
  have ns: "contains ''/namespaces/'' ?p"
    using contains_appended [of "''/namespaces/''" "''/apis/'' @ g @ slash # v" "ns @ slash # kind @ tail name"]
    by (simp add: group_path_def)
  have e: "extractGroupAndKind ?p = (g, kind)" unfolding extractGroupAndKind_def a using ns s by simp
  have c: "contains ''/apis/'' ?p" unfolding contains_def a by simp
  moreover have "contains ''/api'' ''/apis/''" by code_simp
  ultimately have c': "contains ''/api'' ?p" using contains_trans by blast
  have "length (filter (\<lambda>c. c = slash) ?p) \<ge> 6" by (simp add: group_path_def)
  then have k: "length (filter (\<lambda>c. c = slash) ?p) \<noteq> 3" by linarith
  have d: "?p \<noteq> ''/api'' \<and> ?p \<noteq> ''/apis'' \<and> ?p \<noteq> ''/api/v1'' \<and> \<not> has_prefix ?p ''/api/v1/''"
    using assms(1) by (simp add: group_path_def)
  from k d c c' ns e other assms(1,4) show ?thesis
    unfolding ExtractKubernetesRouteType_def by (simp add: segment_def)
qed

text \<open>
  The metrics on the requests to the cluster keep few routes: the route of a request for core
  resources of a namespace, for resources of a group in a namespace, and for core resources of the
  cluster is made of the group and the kind alone, whatever the namespace and the name. (For a
  group the path must not read like a core path further on, and no cluster-wide path may contain
  the word namespaces, for which the code reports another route.)
\<close>

theorem routes_depend_on_kind_only:
  assumes "segment kind" "segment g" "segment v"
  shows "\<forall>ns name. segment ns \<and> optional_segment name \<longrightarrow>
       ExtractKubernetesRouteType (''/api/v1/namespaces/'' @ ns @ slash # kind @ tail name) = ''namespaced.core.'' @ kind
     \<and> (\<not> contains ''/api/v1/namespaces/'' (group_path g v ns kind name) \<longrightarrow>
          ExtractKubernetesRouteType (group_path g v ns kind name) = ''namespaced.'' @ g @ ''.'' @ kind)
     \<and> (\<not> contains ''namespaces'' (kind @ tail name) \<longrightarrow>
          ExtractKubernetesRouteType (''/api/v1/'' @ kind @ tail name) = ''cluster.core.'' @ kind)"
  using assms namespaced_core namespaced_group cluster_core by blast

lemma routes_depend_on_kind_only_witness:
  "ExtractKubernetesRouteType (group_path ''apps'' ''v1'' ''ns'' ''deployments'' (Some ''web'')) = ''namespaced.apps.deployments''"
proof -
  have "segment ''deployments'' \<and> segment ''apps'' \<and> segment ''v1'' \<and> segment ''ns'' \<and> optional_segment (Some ''web'')
      \<and> \<not> contains ''/api/v1/namespaces/'' (group_path ''apps'' ''v1'' ''ns'' ''deployments'' (Some ''web''))"
    by code_simp
  then show ?thesis using routes_depend_on_kind_only [of "''deployments''" "''apps''" "''v1''"] by simp
qed

text \<open>
  The word is looked for anywhere in the path: the list of namespaces, and a cluster-wide resource
  whose name contains the word, are reported as discovery.
\<close>

lemma namespaces_reported_as_discovery:
  "ExtractKubernetesRouteType ''/api/v1/namespaces'' = ''discovery.other''
   \<and> ExtractKubernetesRouteType ''/api/v1/namespaces/prod'' = ''discovery.other''
   \<and> ExtractKubernetesRouteType ''/api/v1/persistentvolumes/namespaces-backup'' = ''discovery.other''"
  by code_simp

end
