(* ===== verification/Next_Version.thy ===== *)
theory Next_Version
  imports Route_Types
begin

text \<open>
  \<^verbatim>\<open>hack/get-next-version.go\<close>: the version of the next release, from the kinds of the pull requests that are
  in it. The semantic version library is an argument; Go visits the map of the release notes in any
  order.
\<close>

section \<open>Definitions\<close>

datatype next_error = MissingKinds "string list" | InvalidVersion string | NoIncrease

record 'v semver =
  sv_parse :: "string \<Rightarrow> 'v option"
  sv_IncMajor :: "'v \<Rightarrow> string"
  sv_IncMinor :: "'v \<Rightarrow> string"
  sv_IncPatch :: "'v \<Rightarrow> string"

text \<open>
  The kinds of each pull request, under its key in the notes, which stands for its number in errors;
  \<open>None\<close> where it has none. Notes that are not of this shape panic in a type assertion.
\<close>

type_synonym release_notes = "(string, string list option) gomap"

text \<open>Every kind is followed by a blank. Errors are joined with the latest first.\<close>

definition collect_kinds :: "string \<times> string list \<Rightarrow> string \<times> string list option \<Rightarrow> string \<times> string list" where
  "collect_kinds st pr =
     (case snd pr of
        None \<Rightarrow> (fst st, fst pr # snd st)
      | Some kinds \<Rightarrow> (fst st @ concat (map (\<lambda>k. k @ '' '') kinds), snd st))"

definition next_version :: "'v semver \<Rightarrow> string \<Rightarrow> release_notes \<Rightarrow> next_error + string" where
  "next_version sv current prs =
     (case foldl collect_kinds ([], []) prs of
        (kinds, errs) \<Rightarrow>
          if errs \<noteq> [] then Inl (MissingKinds errs)
          else (case sv_parse sv current of
                  None \<Rightarrow> Inl (InvalidVersion current)
                | Some v \<Rightarrow>
                    if contains ''breaking'' kinds then Inr (CHR ''v'' # sv_IncMajor sv v)
                    else if contains ''feature'' kinds then Inr (CHR ''v'' # sv_IncMinor sv v)
                    else if contains ''documentation'' kinds \<or> contains ''bug'' kinds then Inr (CHR ''v'' # sv_IncPatch sv v)
                    else Inl NoIncrease))"

section \<open>Lemmas\<close>

text \<open>A word without a blank that occurs in the collected text occurs in one of the kinds.\<close>

lemma prefix_before: "c \<notin> set p \<Longrightarrow> prefix p (a @ c # b) \<longleftrightarrow> prefix p a"
proof (induction a arbitrary: p)
  case Nil
  then show ?case by (cases p) auto
next
  case (Cons x a)
  then show ?case by (cases p) auto
qed

lemma sublist_split:
  assumes "c \<notin> set p" "p \<noteq> []"
  shows "sublist p (a @ c # b) \<longleftrightarrow> sublist p a \<or> sublist p b"
proof (induction a)
  case Nil
  show ?case using prefix_before [OF assms(1), of "[]" b] assms(2) by (simp add: sublist_Cons_right)
next
  case (Cons x a)
  then show ?case using prefix_before [OF assms(1), of "x # a" b] by (auto simp: sublist_Cons_right)
qed

definition some_kind :: "string \<Rightarrow> release_notes \<Rightarrow> bool" where
  "some_kind word prs \<longleftrightarrow> (\<exists>(_, ks)\<in>set prs. \<exists>kinds. ks = Some kinds \<and> (\<exists>k\<in>set kinds. contains word k))"

lemma contains_kinds:
  "CHR '' '' \<notin> set word \<Longrightarrow> word \<noteq> [] \<Longrightarrow>
     contains word (concat (map (\<lambda>k. k @ '' '') kinds)) \<longleftrightarrow> (\<exists>k\<in>set kinds. contains word k)"
  by (induction kinds) (simp_all add: contains_sublist sublist_split)

lemma collected:
  "foldl collect_kinds st prs =
     (fst st @ concat (map (\<lambda>k. k @ '' '') (concat (List.map_filter snd prs))),
      rev (map fst (filter (\<lambda>pr. snd pr = None) prs)) @ snd st)"
  by (induction prs arbitrary: st) (auto simp: collect_kinds_def List.map_filter_simps split: option.split)

lemma collected_contains:
  assumes "CHR '' '' \<notin> set word" "word \<noteq> []"
  shows "contains word (fst (foldl collect_kinds ([], []) prs)) \<longleftrightarrow> some_kind word prs"
proof -
  have "k \<in> set (concat (List.map_filter snd prs)) \<longleftrightarrow> (\<exists>(_, ks)\<in>set prs. \<exists>kinds. ks = Some kinds \<and> k \<in> set kinds)" for k
    by (induction prs) (auto simp: List.map_filter_simps split: option.split)
  then show ?thesis unfolding collected using contains_kinds [OF assms] by (simp add: some_kind_def) blast
qed

text \<open>The increase is decided by the most severe kind of all pull requests, and does not depend on the order of the map.\<close>

lemma highest_kind_decides:
  assumes "\<forall>pr\<in>set prs. snd pr \<noteq> None" "sv_parse sv current = Some v"
  shows "next_version sv current prs =
     (if some_kind ''breaking'' prs then Inr (CHR ''v'' # sv_IncMajor sv v)
      else if some_kind ''feature'' prs then Inr (CHR ''v'' # sv_IncMinor sv v)
      else if some_kind ''documentation'' prs \<or> some_kind ''bug'' prs then Inr (CHR ''v'' # sv_IncPatch sv v)
      else Inl NoIncrease)"
proof -
  obtain kinds errs where f: "foldl collect_kinds ([], []) prs = (kinds, errs)" by (metis prod.exhaust)
  have "errs = []" using f collected [of "([], [])" prs] assms(1) by (auto simp: filter_empty_conv)
  moreover have "contains word kinds \<longleftrightarrow> some_kind word prs" if "CHR '' '' \<notin> set word" "word \<noteq> []" for word
    using collected_contains [OF that, of prs] f by simp
  ultimately show ?thesis using assms(2) f by (simp add: next_version_def)
qed

lemma next_version_any_order:
  assumes "\<forall>pr\<in>set prs. snd pr \<noteq> None" "sv_parse sv current = Some v" "set prs = set prs'"
  shows "next_version sv current prs' = next_version sv current prs"
  using assms by (simp add: highest_kind_decides some_kind_def)

end
