(* ===== verification/Maria_Store.thy ===== *)
theory Maria_Store
  imports Reader
begin

text \<open>
  The MariaDB dialect, \<^verbatim>\<open>pkg/database/sql/mariadb.go\<close>: the transaction of a write, the statement for the
  resource, the cursor and the order of lists, and the label conditions. What the server makes of
  the statement is an argument, \<open>None\<close> when it refuses it; \<open>datetime\<close> is its conversion of a text to
  a time.
\<close>

section \<open>Writing\<close>

text \<open>
  \<^verbatim>\<open>INSERT INTO resource ... ON DUPLICATE KEY UPDATE ... WHERE resource.cluster_deleted_ts < ?\<close>; the
  update sets the columns from the name on to the inserted values.
\<close>

record maria_upsert =
  mu_row :: "int \<Rightarrow> resource_row"
  mu_update :: "resource_row \<Rightarrow> resource_row"
  mu_where_deleted_before :: "go_time option"

definition maria_ResourceInserter ::
    "string \<Rightarrow> string \<Rightarrow> string \<Rightarrow> string \<Rightarrow> string \<Rightarrow> string \<Rightarrow> go_time \<Rightarrow> go_time option \<Rightarrow> json_data \<Rightarrow> maria_upsert" where
  "maria_ResourceInserter uuid apiVersion kind name namespace version clusterUpdatedTs clusterDeletedTs data =
     \<lparr>mu_row = (\<lambda>i. \<lparr>rr_id = i, rr_uuid = uuid, rr_apiVersion = apiVersion, rr_kind = kind, rr_name = name,
                     rr_namespace = namespace, rr_resourceVersion = version, rr_clusterUpdatedTs = clusterUpdatedTs,
                     rr_clusterDeletedTs = clusterDeletedTs, rr_data = data\<rparr>),
      mu_update = (\<lambda>r. r\<lparr>rr_name := name, rr_namespace := namespace, rr_resourceVersion := version,
                        rr_clusterUpdatedTs := clusterUpdatedTs, rr_clusterDeletedTs := clusterDeletedTs, rr_data := data\<rparr>),
      mu_where_deleted_before = Some clusterUpdatedTs\<rparr>"

definition maria_WriteResource ::
    "(maria_upsert \<Rightarrow> db_state \<Rightarrow> db_state option) \<Rightarrow> write_faults \<Rightarrow> db_state \<Rightarrow> unstructured option \<Rightarrow> json_data \<Rightarrow> go_time
      \<Rightarrow> logTuple list \<Rightarrow> db_state \<times> writeResourceResult \<times> write_error option" where
  "maria_WriteResource exec flt db k8sObj data lastUpdated logs =
     (case k8sObj of
        None \<Rightarrow> (db, WriteResourceResultError, Some NilObject)
      | Some obj \<Rightarrow>
          (case tx_begin (wf_begin flt) db of
             None \<Rightarrow> (db, WriteResourceResultError, Some BeginFailed)
           | Some (db, tx) \<Rightarrow>
               (case (if GetKind obj = ''Pod'' then write_logs flt (u_uid obj) logs tx else (tx, None)) of
                  (tx, Some err) \<Rightarrow> roll_back (wf_rollback flt) db tx err
                | (tx, None) \<Rightarrow>
                    let statement = maria_ResourceInserter (u_uid obj) (GetAPIVersion obj) (GetKind obj) (u_name obj)
                          (u_namespace obj) (u_resourceVersion obj) lastUpdated (u_deletionTimestamp obj) data
                    in (case tx_exec (wf_upsert flt \<or> exec statement (tx_work tx) = None) (wf_drawn flt)
                               (\<lambda>work. (the (exec statement work), ())) tx of
                          (tx, None) \<Rightarrow> roll_back (wf_rollback flt) db tx UpsertFailed
                        | (tx, Some _) \<Rightarrow>
                            (case tx_commit (wf_commit flt) db tx of
                               (db, tx, True) \<Rightarrow> roll_back (wf_rollback flt) db tx CommitFailed
                             | (db, tx, False) \<Rightarrow> (db, WriteResourceResultInserted, None))))))"

section \<open>Reading\<close>

text \<open>The cursor compares the time and, within one time, the UUID with the identifier of the token, which is a text.\<close>

definition maria_CreationTSAndIDFilter :: "(string \<Rightarrow> go_time option) \<Rightarrow> string \<Rightarrow> string \<Rightarrow> resource_row \<Rightarrow> bool" where
  "maria_CreationTSAndIDFilter datetime continueDate continueId r =
     (case (Option.bind (created r) datetime, datetime continueDate) of
        (Some c, Some d) \<Rightarrow> c < d \<or> c = d \<and> rr_uuid r < continueId
      | _ \<Rightarrow> False)"

definition maria_CreationTimestampAfterFilter :: "(string \<Rightarrow> go_time option) \<Rightarrow> string \<Rightarrow> resource_row \<Rightarrow> bool" where
  "maria_CreationTimestampAfterFilter datetime timestamp r =
     (case (Option.bind (created r) datetime, datetime timestamp) of (Some c, Some d) \<Rightarrow> d < c | _ \<Rightarrow> False)"

definition maria_CreationTimestampBeforeFilter :: "(string \<Rightarrow> go_time option) \<Rightarrow> string \<Rightarrow> resource_row \<Rightarrow> bool" where
  "maria_CreationTimestampBeforeFilter datetime timestamp r =
     (case (Option.bind (created r) datetime, datetime timestamp) of (Some c, Some d) \<Rightarrow> c < d | _ \<Rightarrow> False)"

text \<open>\<^verbatim>\<open>ORDER BY CONVERT(creationTimestamp, datetime) DESC, id DESC\<close>; a time that cannot be converted is null and comes last.\<close>

definition maria_CreationTSAndIDSorter :: "(string \<Rightarrow> go_time option) \<Rightarrow> resource_row list \<Rightarrow> resource_row list" where
  "maria_CreationTSAndIDSorter datetime rows =
     rev (sort_key (\<lambda>r. Option.bind (created r) datetime \<noteq> None)
            (sort_key (\<lambda>r. case Option.bind (created r) datetime of None \<Rightarrow> 0 | Some c \<Rightarrow> c) (sort_key rr_id rows)))"

text \<open>The helpers for labels are stubs: every kind of filter that is set (not nil, and then not empty) adds an empty condition.\<close>

definition maria_ApplyLabelFilters :: "labelFilters \<Rightarrow> string list" where
  "maria_ApplyLabelFilters lf =
     (if lf_Exists lf \<noteq> [] then [[]] else []) @ (if lf_NotExists lf \<noteq> [] then [[]] else [])
     @ (if lf_Equals lf \<noteq> [] then [[]] else []) @ (if lf_NotEquals lf \<noteq> [] then [[]] else [])
     @ (if lf_In lf \<noteq> [] then [[]] else []) @ (if lf_NotIn lf \<noteq> [] then [[]] else [])"

section \<open>Lemmas\<close>

lemma keep_tables [simp]: "tables_of (keep_sequences work db) = tables_of db" "tables_of (db\<lparr>db_open := n\<rparr>) = tables_of db"
  by (simp_all add: tables_of_def keep_sequences_def Let_def)

lemma roll_back_tables [simp]:
  "tables_of (fst (roll_back fails db tx err)) = tables_of db" "fst (snd (roll_back fails db tx err)) = WriteResourceResultError"
  "\<exists>e. snd (snd (roll_back fails db tx err)) = Some e"
  by (simp_all add: roll_back_def tx_rollback_def tx_discard_def)

lemma commit_tables:
  "tx_commit answer db tx = (db', tx', True) \<Longrightarrow> answer \<noteq> CommitLost \<Longrightarrow> tables_of db' = tables_of db"
  by (auto simp: tx_commit_def tx_discard_def split: if_splits)

text \<open>
  Whatever the server makes of the statement, a failed write changes no table unless the answer to
  its commit was lost; a write that works is always reported as an insertion.
\<close>

lemma maria_write_atomic:
  assumes "maria_WriteResource exec flt db obj data ts logs = (db', res, err)"
  shows "(err \<noteq> None \<longrightarrow> (tables_of db' = tables_of db \<or> wf_commit flt = CommitLost) \<and> res = WriteResourceResultError)
    \<and> (err = None \<longrightarrow> res = WriteResourceResultInserted)"
proof (cases "obj = None \<or> wf_begin flt")
  case True
  with assms show ?thesis by (auto simp: maria_WriteResource_def tx_begin_def split: option.splits)
next
  case False
  then obtain ob where ob: "obj = Some ob" "\<not> wf_begin flt" by auto
  let ?db = "db\<lparr>db_open := Suc (db_open db)\<rparr>"
  have rolled: ?thesis if "roll_back fails db1 tx err1 = (db', res, err)" "tables_of db1 = tables_of db \<or> wf_commit flt = CommitLost"
    for fails db1 tx err1
    using roll_back_tables [of fails db1 tx err1] that by auto
  obtain tx1 e1 where l: "(if GetKind ob = ''Pod'' then write_logs flt (u_uid ob) logs \<lparr>tx_work = db, tx_aborted = False, tx_done = False\<rparr>
      else (\<lparr>tx_work = db, tx_aborted = False, tx_done = False\<rparr>, None)) = (tx1, e1)" by (metis prod.exhaust)
  show ?thesis
  proof (cases e1)
    case None
    let ?s = "maria_ResourceInserter (u_uid ob) (GetAPIVersion ob) (GetKind ob) (u_name ob)
        (u_namespace ob) (u_resourceVersion ob) ts (u_deletionTimestamp ob) data"
    obtain tx2 e2 where x: "tx_exec (wf_upsert flt \<or> exec ?s (tx_work tx1) = None) (wf_drawn flt) (\<lambda>work. (the (exec ?s work), ())) tx1 = (tx2, e2)"
      by (metis prod.exhaust)
    obtain db3 tx3 c where t: "tx_commit (wf_commit flt) ?db tx2 = (db3, tx3, c)" by (metis prod.exhaust)
    note w = assms [unfolded ob(1) maria_WriteResource_def option.case tx_begin_def if_not_P [OF ob(2)] prod.case l None Let_def x]
    show ?thesis
    proof (cases e2)
      case None
      with w rolled [of "wf_rollback flt" ?db tx2 UpsertFailed] show ?thesis by simp
    next
      case (Some u)
      show ?thesis
      proof (cases c)
        case True
        with t commit_tables [of "wf_commit flt" ?db tx2 db3 tx3] have "tables_of db3 = tables_of db \<or> wf_commit flt = CommitLost" by auto
        with rolled [of "wf_rollback flt" db3 tx3 CommitFailed] w t Some True show ?thesis by simp
      qed (use w t Some in auto)
    qed
  next
    case (Some err1)
    with assms ob l rolled [of "wf_rollback flt" ?db tx1 err1] show ?thesis
      by (simp add: maria_WriteResource_def tx_begin_def)
  qed
qed

text \<open>A server that knows no such condition in an insertion, as MariaDB documents it, refuses every write.\<close>

lemma maria_refuses_writes:
  assumes "\<And>s db. mu_where_deleted_before s \<noteq> None \<Longrightarrow> exec s db = None"
  shows "snd (snd (maria_WriteResource exec flt db obj data ts logs)) \<noteq> None"
proof -
  have none: "exec (maria_ResourceInserter u v k n ns rv t d j) db = None" for u v k n ns rv t d j db
    by (rule assms) (simp add: maria_ResourceInserter_def)
  have rolled: "snd (snd (roll_back fails db tx err)) \<noteq> None" for fails db tx err
    using roll_back_tables(3) [of fails db tx err] by auto
  show ?thesis
    by (simp add: maria_WriteResource_def tx_exec_def none rolled Let_def del: not_None_eq split: option.split prod.split)
qed

text \<open>A server that takes the condition as one on the update: a comparison with a null time is not true.\<close>

definition exec_where :: "maria_upsert \<Rightarrow> db_state \<Rightarrow> db_state option" where
  "exec_where s db =
     (case find_uuid (rr_uuid (mu_row s 0)) (db_resource db) of
        None \<Rightarrow> Some (db\<lparr>db_resource := db_resource db @ [mu_row s (db_nextId db)], db_nextId := db_nextId db + 1\<rparr>)
      | Some old \<Rightarrow>
          (case (rr_clusterDeletedTs old, mu_where_deleted_before s) of
             (Some d, Some t) \<Rightarrow>
               if d < t then Some (db\<lparr>db_resource := map (\<lambda>r. if rr_uuid r = rr_uuid old then mu_update s r else r) (db_resource db)\<rparr>)
               else Some db
           | (Some d, None) \<Rightarrow> Some (db\<lparr>db_resource := map (\<lambda>r. if rr_uuid r = rr_uuid old then mu_update s r else r) (db_resource db)\<rparr>)
           | (None, Some t) \<Rightarrow> Some db
           | (None, None) \<Rightarrow> Some (db\<lparr>db_resource := map (\<lambda>r. if rr_uuid r = rr_uuid old then mu_update s r else r) (db_resource db)\<rparr>)))"

text \<open>On such a server no later version of a resource that is not deleted is stored, although the write is reported as an insertion.\<close>

lemma exec_resources:
  "tx_exec fails no_draws f tx = (tx', r) \<Longrightarrow> (\<And>w. db_resource (fst (f w)) = db_resource w) \<Longrightarrow> db_resource (tx_work tx') = db_resource (tx_work tx)"
  by (auto simp: tx_exec_def split: if_splits prod.splits) (metis fst_conv)

lemma insert_logs_resources:
  "insert_logs fails n u ls tx = (tx', ok) \<Longrightarrow> db_resource (tx_work tx') = db_resource (tx_work tx)"
proof (induction ls arbitrary: n tx)
  case (Cons l ls)
  obtain tx1 a where e: "tx_exec (fails n) no_draws (\<lambda>db. (UrlInserter u l db, ())) tx = (tx1, a)" by (metis prod.exhaust)
  have "db_resource (tx_work tx1) = db_resource (tx_work tx)" by (rule exec_resources [OF e]) (simp add: UrlInserter_def)
  with Cons.IH [of "Suc n" tx1] Cons.prems e show ?case by (cases a) auto
qed simp

lemma write_logs_resources:
  assumes "write_logs flt u ls tx = (tx', e)"
  shows "db_resource (tx_work tx') = db_resource (tx_work tx)"
proof -
  obtain tx1 a where x: "tx_exec (wf_delete flt) no_draws (\<lambda>db. (UrlDeleter u db, ())) tx = (tx1, a)" by (metis prod.exhaust)
  have r: "db_resource (tx_work tx1) = db_resource (tx_work tx)" by (rule exec_resources [OF x]) simp
  show ?thesis
  proof (cases a)
    case (Some y)
    obtain tx2 ok where "insert_logs (wf_log flt) 0 u ls tx1 = (tx2, ok)" by (metis prod.exhaust)
    with insert_logs_resources [OF this] r x Some assms show ?thesis by (cases ok) (auto simp: write_logs_def)
  qed (use assms x r in \<open>auto simp: write_logs_def\<close>)
qed

lemma maria_update_lost:
  assumes "find_uuid (u_uid obj) (db_resource db) = Some old" "rr_clusterDeletedTs old = None"
    and "maria_WriteResource exec_where flt db (Some obj) data ts logs = (db', res, None)"
  shows "db_resource db' = db_resource db \<and> res = WriteResourceResultInserted"
proof -
  let ?tx = "\<lparr>tx_work = db, tx_aborted = False, tx_done = False\<rparr>" and ?db = "db\<lparr>db_open := Suc (db_open db)\<rparr>"
  let ?s = "maria_ResourceInserter (u_uid obj) (GetAPIVersion obj) (GetKind obj) (u_name obj)
      (u_namespace obj) (u_resourceVersion obj) ts (u_deletionTimestamp obj) data"
  have failed: "roll_back fails db1 tx err \<noteq> (db', res, None)" for fails db1 tx err
    by (simp add: roll_back_def split: prod.split)
  have b: "\<not> wf_begin flt" using assms(3) by (auto simp: maria_WriteResource_def tx_begin_def)
  obtain tx1 e1 where l: "(if GetKind obj = ''Pod'' then write_logs flt (u_uid obj) logs ?tx else (?tx, None)) = (tx1, e1)"
    by (metis prod.exhaust)
  then have r1: "db_resource (tx_work tx1) = db_resource db" by (auto split: if_splits dest: write_logs_resources)
  obtain tx2 e2 where x: "tx_exec (wf_upsert flt \<or> exec_where ?s (tx_work tx1) = None) (wf_drawn flt) (\<lambda>work. (the (exec_where ?s work), ())) tx1 = (tx2, e2)"
    by (metis prod.exhaust)
  obtain db3 tx3 c where t: "tx_commit (wf_commit flt) ?db tx2 = (db3, tx3, c)" by (metis prod.exhaust)
  note w = assms(3) [unfolded maria_WriteResource_def option.case tx_begin_def if_not_P [OF b] prod.case l Let_def]
  have "e1 = None" using w failed by (cases e1) simp_all
  note w = w [unfolded this option.case x prod.case]
  have e: "e2 \<noteq> None" using w failed by (cases e2) simp_all
  then obtain u where u: "e2 = Some u" by auto
  note w = w [unfolded u option.case t prod.case]
  have c: "\<not> c" using w failed by (cases c) simp_all
  then have res: "db' = db3" "res = WriteResourceResultInserted" using w by simp_all
  have "exec_where ?s (tx_work tx1) = Some (tx_work tx1)"
    using assms(1,2) r1 by (simp add: exec_where_def maria_ResourceInserter_def)
  with x e have "db_resource (tx_work tx2) = db_resource db" using r1 by (auto simp: tx_exec_def split: if_splits)
  moreover have "db_resource db3 = db_resource (tx_work tx2)" using t c by (auto simp: tx_commit_def split: if_splits)
  ultimately show ?thesis using res by simp
qed

text \<open>
  The token of a page holds the identifier of its last row, which the cursor compares with UUIDs:
  of two resources that were created in the same second the second one is on neither page.
\<close>

definition maria_row :: "int \<Rightarrow> string \<Rightarrow> resource_row" where
  "maria_row i uuid =
     \<lparr>rr_id = i, rr_uuid = uuid, rr_apiVersion = ''v1'', rr_kind = ''Pod'', rr_name = uuid, rr_namespace = ''ns'', rr_resourceVersion = ''1'',
      rr_clusterUpdatedTs = 0, rr_clusterDeletedTs = None,
      rr_data = \<lparr>jd_creationTimestamp = Some ''2024-01-01T00:00:00Z'', jd_labels = None, jd_owners = [], jd_pod = None\<rparr>\<rparr>"

lemma maria_page_loses_row:
  "let rows = [maria_row 1 ''a1'', maria_row 2 ''b2'']; datetime = (\<lambda>_. Some 0); first = take 1 (maria_CreationTSAndIDSorter datetime rows)
   in first = [maria_row 2 ''b2'']
      \<and> filter (maria_CreationTSAndIDFilter datetime ''2024-01-01T00:00:00Z'' (show_int (rr_id (hd first)))) rows = []"
  by code_simp

end
