(* ===== verification/Spec2Isabelle.thy ===== *)
theory Spec2Isabelle
  imports Vacuum Vacuum_Delivery Sink Config_Runs Watch_Decisions Webhooks Filter_Admission Log_Pages Cli_Listing Installer Migrations Schema_Upgrade Startup Route_Types Next_Version Maria_Store
begin

text \<open>
  KubeArchive archives Kubernetes resources in a relational database, deletes archived resources
  from the cluster on request, and serves what is archived over an API that looks like the one of
  Kubernetes. This development models the Go code under \<^verbatim>\<open>src/cmd\<close>, \<^verbatim>\<open>src/pkg\<close>,
  \<^verbatim>\<open>src/integrations\<close> and \<^verbatim>\<open>src/hack\<close>.

  \<^bold>\<open>The program.\<close> A user describes in a \<^verbatim>\<open>KubeArchiveConfig\<close> (per namespace) or a
  \<^verbatim>\<open>ClusterKubeArchiveConfig\<close> which kinds are archived and when. Admission webhooks check these
  objects. The operator reconciles them into one \<^verbatim>\<open>SinkFilter\<close> and into roles and bindings; its
  SinkFilter controller watches the kinds of the filter and sends a cloud event for every object
  that an expression asks for. The sink receives the events, writes the object into the database
  and, for some event types, deletes it from the cluster. The vacuum jobs list resources, apply the
  keep-last rules and send the same kind of events. The API server authenticates and authorizes a
  request with the cluster, answers from the database, and fetches logs from the provider the sink
  recorded. The command \<^verbatim>\<open>kubectl ka\<close> shows the resources of the cluster and of the archive as one list,
  and keeps a file of the archives it knows. The installer applies the manifests of a release, and
  a migration brings the schema of the database to a version.

  \<^bold>\<open>Theories\<close>, in the order of import, with the sources they model.
  \<^item> \<open>Prelude\<close>: Go maps as association lists in iteration order, strings, decimal integers, binary
    search, weak orders (locale \<open>weak_order\<close>), and the lemmas on them.
  \<^item> \<open>Kube_Types\<close>: \<^verbatim>\<open>cmd/operator/api/v1/*_types.go\<close>, \<^verbatim>\<open>pkg/constants\<close>, unstructured objects.
  \<^item> \<open>Cel_Filters\<close>: \<^verbatim>\<open>pkg/cel\<close>, \<^verbatim>\<open>pkg/filters\<close>; compiling and evaluating CEL are arguments.
  \<^item> \<open>Keepers\<close>, \<open>Vacuum\<close>: \<^verbatim>\<open>cmd/vacuum\<close>, the keep-last buckets and the two jobs.
  \<^item> \<open>Label_Tables\<close>, \<open>Sql_Store\<close>: the tables, the triggers and the writer of
    \<^verbatim>\<open>pkg/database/sql/postgresql.go\<close>, with the contract \<open>archive_writer\<close> of a writer.
  \<^item> \<open>Label_Filters\<close>, \<open>Reader\<close>: label selectors (\<^verbatim>\<open>pkg/models/labels.go\<close>), the list and lookup queries
    and the search for log links (\<^verbatim>\<open>reader.go\<close>, \<^verbatim>\<open>query.go\<close>). \<open>Maria_Store\<close>: \<^verbatim>\<open>mariadb.go\<close>, what the
    second dialect does otherwise.
  \<^item> \<open>Log_Urls\<close>, \<open>Sink\<close>: \<^verbatim>\<open>pkg/logurls\<close>, \<^verbatim>\<open>cmd/sink\<close>; the handler is proved for every writer that keeps the
    contract, and the PostgreSQL writer is its interpretation \<open>pg\<close>.
  \<^item> \<open>Vacuum_Delivery\<close>: a vacuum run whose events reach the sink.
  \<^item> \<open>Rbac\<close>, \<open>Cluster_Api\<close>, \<open>Config_Reconcile\<close>, \<open>Config_Runs\<close>: the two configuration controllers of
    \<^verbatim>\<open>cmd/operator/internal/controller\<close> on a cluster whose calls may fail; the contract \<open>object_store\<close> of
    an object kind is interpreted for each of the eight kinds the controllers touch.
  \<^item> \<open>Watches\<close>, \<open>Watch_Decisions\<close>: \<^verbatim>\<open>sinkfilter_controller.go\<close>, \<^verbatim>\<open>configuration.go\<close>,
    \<^verbatim>\<open>pkg/cloudevents\<close>; the event stream of a watch is a step relation.
  \<^item> \<open>Webhooks\<close>: the validators and defaulters of \<^verbatim>\<open>cmd/operator/api/v1/*_webhook.go\<close>;
    \<open>Filter_Admission\<close>: the controllers under their own webhooks.
  \<^item> \<open>Go_Encoding\<close>, \<open>Api_Auth\<close>, \<open>Api_Access\<close>, \<open>Api_Server\<close>, \<open>Api_Pages\<close>: \<^verbatim>\<open>cmd/api\<close> and \<^verbatim>\<open>pkg/cache\<close>: base64 and
    RFC 3339 texts, the access middleware and its cache, pagination, the handlers.
  \<^item> \<open>Go_Url\<close>, \<open>Log_Requests\<close>, \<open>Log_Retrieval\<close>, \<open>Log_Pages\<close>: \<^verbatim>\<open>cmd/api/logging\<close>, on a model of \<^verbatim>\<open>net/url\<close>:
    the providers and their validation, the requests that are built, and the answers in one piece,
    streamed, or page by page.
  \<^item> \<open>Cli_Config\<close>, \<open>Cli_Settings\<close>, \<open>Cli_Retriever\<close>, \<open>Cli_Merge\<close>, \<open>Cli_Get\<close>, \<open>Cli_Listing\<close>: \<^verbatim>\<open>pkg/cmd\<close>: the
    configuration file and its commands, the choice of the archive and of the resource, the merged
    listing with its paging, and the commands \<^verbatim>\<open>get\<close> and \<^verbatim>\<open>logs\<close>.
  \<^item> \<open>Installer\<close>: \<^verbatim>\<open>cmd/installer\<close>. \<open>Migrations\<close>, \<open>Database_Setup\<close>, \<open>Schema_Upgrade\<close>:
    \<^verbatim>\<open>integrations/database/postgresql\<close> and \<^verbatim>\<open>pkg/database\<close>, the migration, the connection, and both
    together.
  \<^item> \<open>Telemetry\<close>, \<open>Startup\<close>: \<^verbatim>\<open>pkg/observability\<close>, \<^verbatim>\<open>pkg/logging\<close>, \<^verbatim>\<open>pkg/middleware\<close> and the \<^verbatim>\<open>main\<close>
    functions of the servers. \<open>Route_Types\<close>: \<^verbatim>\<open>pkg/k8sclient/transport.go\<close>. \<open>Next_Version\<close>:
    \<^verbatim>\<open>hack/get-next-version.go\<close>.

  \<^bold>\<open>What is shown.\<close>
  \<^item> Archive: a write, with its begin, statements, commit and rollback, each of which may fail, is all
    or nothing and leaves no transaction open; it keeps the invariant \<open>db_ok\<close> of the tables and refines the
    specification \<open>spec_write\<close> of a map from UUIDs to the latest entry; the order of deliveries does not
    matter. An accepted event is archived, and a deletion is requested only for an archived object.
  \<^item> Vacuum: the deletions asked for are exactly those the rules want; a rule keeps the newest. When
    the events reach the sink, only surplus resources are deleted, and each is archived in the end.
  \<^item> Operator: under any interleaving of runs with failing calls the filter holds the resources of
    every configuration whose last run succeeded; the watches are those of the filter; the decision
    on an event is the one of the expressions; a watch resumes exactly at the last event it queued;
    a worker panics exactly on a malformed object that is to be sent; roles grant what is needed;
    finalizers go last, with one defect of the clean-up when the vacuum's binding is missing.
  \<^item> Webhooks: the validators accept exactly the acceptable configurations, and what the operator
    writes for accepted configurations its own webhook accepts.
  \<^item> Reading: label conditions select the matching resources, where \<open>NotIn\<close> asks for the key as well;
    following the continue tokens gives
    every resource once; what is answered is archived under the path the request was authorized
    for, by reviews that are at most as old as the cache allows; the search for owned Pods ends on
    acyclic ownership.
  \<^item> Logs: every request goes to the host of the record, for which a provider is configured; paging delivers every entry once; the tail is the last lines.
  \<^item> Command line: a listing shows the newest resources of cluster and archive together; what an error
    of the archive changes; the server reads the query that is sent; the configuration file keeps one
    entry for each server.
  \<^item> Installation: as long as no other controller sets finalizers on it, the recorded objects are
    installed while the installation lives and gone when it is;
    a migration applies the versions in order and ends, and the servers accept what it leaves exactly
    in the range of versions they support.
  \<^item> Across components (this theory): a watched event that counts as sent is archived, and what the
    sink accepted is what a request by UID answers with.

  \<^bold>\<open>Termination.\<close> Loops are structural or have a measure. Four functions are a \<^verbatim>\<open>partial_function\<close>, with
  \<open>None\<close> for not returning: the search for owned Pods, which does not end on ownership cycles, the
  interpolation of log links, which does not end for a value that holds its own variable, the loop
  over the pages of a log, which does not end for a provider that stays at its cursor, and the loop
  over the migrations. Each is proved to return under the conditions named in its theorem, and the
  first three not to return in the case given. The client that follows continue tokens has fuel: one
  more page than there are resources is shown to be enough.

  \<^bold>\<open>Environment.\<close> The Kubernetes API, delivery of events, the clock, hashing, CEL, the label selector parser,
  the REST mapper, discovery, the SQL server's failures, the migration library, the libraries for
  YAML, JSON, JSONPath, templates and telemetry, log providers, files, and what a user types are
  arguments; each call may fail. Texts are byte lists. Database rows hold the fields of the JSON that
  queries look at. Requests to the API are served one after the other; runs of the controllers
  interleave at the granularity of a run. A transaction is seen by nobody else before its commit; its
  statements fail after one of them has, and sequences do not roll back. The objects that the vacuum
  lists have the shape the API server guarantees, a map of metadata with a name, so that the unchecked
  type assertions on it do not panic there; for watched objects the malformed cases are modelled. An
  HTTP client that follows a redirect by itself, and a configuration file left half written, are
  outside the model.

  \<^bold>\<open>Not modelled.\<close> The generated fake of the database and the test tools; creating clients and exporters,
  TLS, profiling, and the registration of controllers, webhooks and routes, which are calls of
  libraries; the counters of metrics and of work queues; printing tables and shell completion of the
  command line; what the MariaDB server does with its statements, for which only examples are given,
  since the statement of the insertion is not one the server documents.
\<close>

section \<open>From the watch to the archive and back\<close>

text \<open>
  The event the controller sends, as the sink receives it: \<open>json\<close> gives the stored view of an
  object. The delivery to the sink answers with an acknowledgement for a status of success only.
\<close>

definition received :: "(unstructured \<Rightarrow> json_data) \<Rightarrow> sent_event \<Rightarrow> cloud_event" where
  "received json ev = \<lparr>ce_type = se_type ev, ce_valid = True, ce_object = Some (se_data ev, json (se_data ev))\<rparr>"

lemma sent_event_shape:
  assumes "sendCloudEvent env publisher t flaw obj w = Handled (Some ev)"
  shows "flaw = None \<and> he_deliver env ev = Ack \<and> se_data ev = completed w obj \<and> se_type ev = ''org.kubearchive.sinkfilters.resource.'' @ t"
  using assms
  by (auto simp: sendCloudEvent_def Send_def Let_def split: if_split_asm option.split_asm send_outcome.split_asm)

definition action_types :: "string set" where
  "action_types = {''delete-when'', ''archive-when'', ''archive-on-delete''}"

lemma handled_by_send:
  assumes "handleWatchEvent env publisher event w = Handled (Some ev)"
  obtains obj t where "we_Object event = ObjUnstructured obj" "t \<in> action_types" "sendCloudEvent env publisher t None obj w = Handled (Some ev)"
proof (cases "object_of (we_Object event)")
  case (Some x)
  obtain flaw obj where x: "x = (flaw, obj)" by (cases x)
  let ?send = "\<lambda>t. sendCloudEvent env publisher t flaw obj w"
  have "handleWatchEvent env publisher event w \<in> {Handled None, ?send ''delete-when'', ?send ''archive-when'', ?send ''archive-on-delete''}"
    by (simp add: handleWatchEvent_def Some x Let_def)
  with assms have "\<exists>t\<in>action_types. ?send t = Handled (Some ev)" unfolding action_types_def by auto
  then obtain t where t: "t \<in> action_types" "?send t = Handled (Some ev)" by blast
  from sent_event_shape [OF t(2)] have none: "flaw = None" by blast
  with Some have "we_Object event = ObjUnstructured obj" by (simp add: x object_of_flawed)
  from that [OF this t(1)] t(2) none show ?thesis by simp
qed (use assms in \<open>simp_all add: handleWatchEvent_def\<close>)

lemma sent_types_archive:
  "t \<in> action_types \<Longrightarrow> archiving_type (''org.kubearchive.sinkfilters.resource.'' @ t)"
  by (auto simp: action_types_def archiving_type_def go_simps)

lemma filter_one: "distinct xs \<Longrightarrow> x \<in> set xs \<Longrightarrow> filter (\<lambda>y. y = x) xs = [x]"
  by (induction xs) (auto simp: filter_empty_conv)

text \<open>A row that is found by its UUID is what a request by UID answers with.\<close>

lemma query_by_uid:
  assumes ok: "db_ok db" and e: "archive_of db uid = Some e" and c: "jd_creationTimestamp (en_data e) \<noteq> None"
  shows "\<exists>r. QueryResourceByUID no_read_faults db (en_kind e) (en_apiVersion e) (en_namespace e) uid = Inr (Some r) \<and> re_Data r = en_data e"
proof -
  from e obtain x where x: "find_uuid uid (db_resource db) = Some x" "row_entry x = e" by (auto simp: archive_of_def)
  then have xd: "x \<in> set (db_resource db)" "rr_uuid x = uid" by (auto dest: find_uuid_Some)
  have "distinct (map rr_uuid (db_resource db))" using ok by (simp add: db_ok_def)
  then have one: "r \<in> set (db_resource db) \<and> rr_uuid r = uid \<longleftrightarrow> r = x" for r
    using xd by (auto simp: distinct_map inj_on_def)
  let ?P = "\<lambda>r. rr_kind r = en_kind e \<and> rr_apiVersion r = en_apiVersion e \<and> rr_namespace r = en_namespace e \<and> rr_uuid r = uid"
  have "distinct (db_resource db)" using ok by (auto simp: db_ok_def distinct_map)
  moreover have "?P x" using x xd by (auto simp: row_entry_def)
  then have "filter ?P (db_resource db) = filter (\<lambda>r. r = x) (db_resource db)"
    using one by (intro filter_cong) auto
  ultimately have "filter ?P (db_resource db) = [x]" using xd(1) by (simp add: filter_one)
  moreover have "created x \<noteq> None" "rr_data x = en_data e" using x c by (auto simp: created_def row_entry_def)
  ultimately show ?thesis
    by (auto simp: QueryResourceByUID_def performResourceQuery_def no_read_faults_def select_rows_def scan_row_def Let_def)
qed

section \<open>Properties\<close>

text \<open>C3: an event that a worker takes off its queue because it was sent is archived: when the
  delivery acknowledges only what the sink answered with 202, the archive after the delivery is
  the one the specification asks for the watched object, with its kind and API version filled in.\<close>

theorem handled_is_archived:
  assumes "\<forall>ev. he_deliver henv ev = Ack \<longrightarrow> so_status (ReceiveCloudEvent WriteResource senv db (Some (received json ev))) = 202"
    and "handleWatchEvent henv publisher event w = Handled (Some ev)"
  shows "\<exists>obj. we_Object event = ObjUnstructured obj
    \<and> archive_of (so_db (ReceiveCloudEvent WriteResource senv db (Some (received json ev)))) =
        spec_write (completed w obj) (json (completed w obj)) (GetLastUpdateTs (completed w obj)) (archive_of db)"
proof -
  from handled_by_send [OF assms(2)] obtain obj t where
    o1: "we_Object event = ObjUnstructured obj" "t \<in> action_types" "sendCloudEvent henv publisher t None obj w = Handled (Some ev)" .
  note shape = sent_event_shape [OF o1(3)]
  have "archiving_type (ce_type (received json ev))"
    using shape sent_types_archive [OF o1(2)] unfolding received_def cloud_event.select_convs by metis
  moreover have "ce_object (received json ev) = Some (completed w obj, json (completed w obj))" "ce_valid (received json ev)"
    using shape by (auto simp: received_def)
  moreover have "so_status (ReceiveCloudEvent WriteResource senv db (Some (received json ev))) = 202" using assms(1) shape by blast
  ultimately show ?thesis using o1(1) pg.receive_accepted by blast
qed

theorem handled_is_archived_witness:
  "\<exists>w ev obj. handleWatchEvent sample_henv True
       \<lparr>we_Type = WatchAdded, we_Object = ObjUnstructured (sample_obj ''Pod'' ''a'' ''u'' 1)\<rparr> w = Handled (Some ev)
     \<and> archive_of (so_db (ReceiveCloudEvent WriteResource (sample_sink Deleted) empty_db (Some (received (\<lambda>_. sample_json) ev)))) =
         spec_write (completed w obj) sample_json (GetLastUpdateTs (completed w obj)) (archive_of empty_db)"
proof -
  let ?obj = "sample_obj ''Pod'' ''a'' ''u'' 1"
  let ?cel = "\<lparr>ce_ArchiveWhen = Some ''true'', ce_DeleteWhen = None, ce_ArchiveOnDelete = None, ce_KeepLastWhen = []\<rparr>"
  obtain w0 where "gomap_get (sr_watches (snd (snd sample_run))) ''Pod-v1'' = Some w0" by (rule sample_watch)
  define w where "w = w0\<lparr>wi_ClusterCel := Some ?cel, wi_Namespaces := []\<rparr>"
  have "\<exists>ev. handleWatchEvent sample_henv True \<lparr>we_Type = WatchAdded, we_Object = ObjUnstructured ?obj\<rparr> w = Handled (Some ev)"
    by (simp add: handleWatchEvent_def w_def cel_holds_def sample_henv_def ExecuteBooleanCEL_def ExecuteCEL_def sendCloudEvent_def
        completed_def Send_def sample_obj_def Let_def)
  then obtain ev where ev: "handleWatchEvent sample_henv True \<lparr>we_Type = WatchAdded, we_Object = ObjUnstructured ?obj\<rparr> w = Handled (Some ev)" ..
  have "so_status (ReceiveCloudEvent WriteResource (sample_sink Deleted) empty_db (Some (received (\<lambda>_. sample_json) e))) = 202" for e
    by (simp add: ReceiveCloudEvent_def received_def archive_object_def sample_sink_def sample_write Let_def)
  from handled_is_archived [OF _ ev, of "sample_sink Deleted" empty_db "\<lambda>_. sample_json"] this ev show ?thesis by blast
qed

text \<open>C11: what the sink accepted can be read: after an archiving event for an object that is new or
  newer than what is archived was answered with 202, a request by UID for its kind, API version and
  namespace is answered with exactly the data of the event.\<close>

theorem accepted_is_served:
  assumes "db_ok db" and "so_status (ReceiveCloudEvent WriteResource senv db (Some ev)) = 202" and "ce_valid ev"
    and "ce_object ev = Some (obj, data)" and "archiving_type (ce_type ev)"
    and "\<forall>e. archive_of db (u_uid obj) = Some e \<longrightarrow>
      en_updated e < GetLastUpdateTs obj \<and> en_kind e = GetKind obj \<and> en_apiVersion e = GetAPIVersion obj"
    and "jd_creationTimestamp data \<noteq> None"
    and "GetAPIResourceKind cx = Some (GetKind obj)" and "api_version rq = GetAPIVersion obj"
    and "param rq ''namespace'' = u_namespace obj" and "param rq ''uid'' = u_uid obj"
    and "\<not> (has_prefix (rq_path rq) ''/apis/'' \<and> param rq ''group'' = [])"
  shows "GetResourceByUID no_read_faults (so_db (ReceiveCloudEvent WriteResource senv db (Some ev))) rq cx =
    \<lparr>rs_status = Some 200, rs_body = [Document data], rs_aborted = False\<rparr>"
proof -
  let ?db = "so_db (ReceiveCloudEvent WriteResource senv db (Some ev))"
  let ?e = "new_entry (GetAPIVersion obj) (GetKind obj) obj data (GetLastUpdateTs obj)"
  have "archive_of ?db = spec_write obj data (GetLastUpdateTs obj) (archive_of db)" by (rule pg.receive_accepted [OF assms(2-5)])
  then have e: "archive_of ?db (u_uid obj) = Some ?e" using assms(6) by (auto simp: spec_write_def split: option.splits)
  have ok: "db_ok ?db" by (rule pg.receive_keeps [OF assms(1)])
  have "jd_creationTimestamp (en_data ?e) \<noteq> None" using assms(7) by (simp add: new_entry_def)
  from query_by_uid [OF ok e this] obtain r where
    "QueryResourceByUID no_read_faults ?db (GetKind obj) (GetAPIVersion obj) (u_namespace obj) (u_uid obj) = Inr (Some r)" "re_Data r = data"
    by (auto simp: new_entry_def)
  with assms(8-12) show ?thesis by (auto simp: GetResourceByUID_def write_part_def no_response_def)
qed

theorem accepted_is_served_witness:
  "GetResourceByUID no_read_faults
     (so_db (ReceiveCloudEvent WriteResource (sample_sink Deleted) empty_db (Some (sample_event ''a.archive-when''))))
     (jobs_request\<lparr>rq_params := [(''version'', ''v1''), (''namespace'', ''ns''), (''uid'', ''u1'')]\<rparr>) jobs_context =
   \<lparr>rs_status = Some 200, rs_body = [Document sample_json], rs_aborted = False\<rparr>"
proof -
  let ?rq = "jobs_request\<lparr>rq_params := [(''version'', ''v1''), (''namespace'', ''ns''), (''uid'', ''u1'')]\<rparr>"
  have "archive_of empty_db = (\<lambda>_. None)" by (simp add: archive_of_def empty_db_def find_uuid_def)
  then show ?thesis
    by (intro accepted_is_served [OF empty_db_ok, of _ _ "sample_obj ''Job'' ''j'' ''u1'' 10" sample_json])
       (simp_all add: ReceiveCloudEvent_def sample_event_def go_simps archive_object_def sample_sink_def sample_write archiving_type_def
         sample_json_def GetAPIResourceKind_def jobs_context_def GetKind_def GetAPIVersion_def sample_obj_def api_version_def param_def
         gomap_get0_def jobs_request_def)
qed

end
